(* ===== verification/Rust_Base.thy ===== *)
theory Rust_Base
  imports Main "HOL-Library.Word" "HOL-Library.List_Lexorder" "HOL-Library.Char_ord"
    "HOL-Library.Multiset" "HOL-Library.Sublist"
begin

text \<open>
  The Rust vocabulary the components share: fixed-width integers with the saturating operations
  the sources call, the results of fallible functions, and the \<^verbatim>\<open>str\<close> operations of the standard
  library (trimming, splitting on whitespace, ASCII case mapping, prefixes, substring search,
  joining, decimal printing).

  A Rust \<^verbatim>\<open>String\<close> is modelled by the list of its bytes (type \<^typ>\<open>string\<close>), read as ASCII text:
  \<^verbatim>\<open>len\<close> counts bytes, \<^verbatim>\<open>chars().take(n)\<close> takes bytes, \<^verbatim>\<open>trim\<close> and \<^verbatim>\<open>split_whitespace\<close> see the
  six ASCII white-space characters, and the order of strings is the lexicographic order of their
  bytes, as Rust's \<^verbatim>\<open>Ord for str\<close> is.
\<close>

section \<open>Integers and results\<close>

type_synonym u8 = "8 word"
type_synonym u16 = "16 word"
type_synonym u32 = "32 word"
type_synonym u64 = "64 word"

text \<open>A Rust \<^verbatim>\<open>Result<T, E>\<close>: \<^term>\<open>Inl e\<close> is \<^verbatim>\<open>Err(e)\<close>, \<^term>\<open>Inr v\<close> is \<^verbatim>\<open>Ok(v)\<close>.\<close>

type_synonym ('t, 'e) rresult = "'e + 't"

abbreviation Err :: "'e \<Rightarrow> ('t, 'e) rresult" where
  "Err \<equiv> Inl"

abbreviation Ok :: "'t \<Rightarrow> ('t, 'e) rresult" where
  "Ok \<equiv> Inr"

text \<open>\<^verbatim>\<open>saturating_add\<close> and \<^verbatim>\<open>saturating_sub\<close> of the unsigned integer types.\<close>

definition saturating_add :: "'a::len word \<Rightarrow> 'a word \<Rightarrow> 'a word" where
  "saturating_add a b = (if a + b < a then - 1 else a + b)"

definition saturating_sub :: "'a::len word \<Rightarrow> 'a word \<Rightarrow> 'a word" where
  "saturating_sub a b = (if a < b then 0 else a - b)"

named_theorems rust_simps \<open>simplification rules for the Rust vocabulary\<close>

lemma saturating_sub_self [simp]: "saturating_sub a a = 0"
  by (simp add: saturating_sub_def)

lemma unat_saturating_sub [rust_simps]: "unat (saturating_sub a b) = unat a - unat b"
  by (auto simp: saturating_sub_def word_less_nat_alt unat_sub_if')

lemma word_add_overflow_iff:
  fixes a b :: "'a::len word"
  shows "a + b < a \<longleftrightarrow> 2 ^ LENGTH('a) \<le> unat a + unat b"
proof (cases "unat a + unat b < 2 ^ LENGTH('a)")
  case True
  then show ?thesis by (simp add: word_less_nat_alt unat_word_ariths)
next
  case False
  define N :: nat where "N = 2 ^ LENGTH('a)"
  have b: "unat b < N" unfolding N_def by (rule unsigned_less)
  have a: "unat a < N" unfolding N_def by (rule unsigned_less)
  have "unat (a + b) = (unat a + unat b) mod N" by (simp add: unat_word_ariths N_def)
  also have "\<dots> = unat a + unat b - N"
    using False a b by (simp add: N_def [symmetric] mod_if)
  finally have "unat (a + b) < unat a" using b False N_def by linarith
  with False show ?thesis by (simp add: word_less_nat_alt)
qed

lemma unat_minus_one_word_max: "unat (- 1 :: 'a::len word) = 2 ^ LENGTH('a) - 1"
  by (simp add: unsigned_minus_1_eq_mask mask_eq_exp_minus_1)

lemma unat_saturating_add [rust_simps]:
  fixes a b :: "'a::len word"
  shows "unat (saturating_add a b) = min (2 ^ LENGTH('a) - 1) (unat a + unat b)"
proof (cases "a + b < a")
  case True
  then have "2 ^ LENGTH('a) \<le> unat a + unat b" by (simp add: word_add_overflow_iff)
  with True show ?thesis by (simp add: saturating_add_def unat_minus_one_word_max)
next
  case False
  then have "unat a + unat b < 2 ^ LENGTH('a)" by (simp add: word_add_overflow_iff)
  with False show ?thesis
    by (simp add: saturating_add_def unat_word_ariths)
qed

lemma saturating_add_ge: "a \<le> saturating_add a b"
proof -
  have "unat a \<le> 2 ^ LENGTH('a) - 1" using unsigned_less [of a, where ?'a = nat] by linarith
  then show ?thesis
    by (simp add: word_le_nat_alt rust_simps)
qed

lemma saturating_add_mono: "a \<le> c \<Longrightarrow> saturating_add a b \<le> saturating_add c b"
  by (simp add: word_le_nat_alt rust_simps)

section \<open>ASCII characters\<close>

definition char_nat :: "char \<Rightarrow> nat" where
  "char_nat c = of_char c"

definition is_ws :: "char \<Rightarrow> bool" where
  "is_ws c = (let n = char_nat c in n = 32 \<or> (9 \<le> n \<and> n \<le> 13))"

definition is_ascii_digit :: "char \<Rightarrow> bool" where
  "is_ascii_digit c = (let n = char_nat c in 48 \<le> n \<and> n \<le> 57)"

definition is_ascii_upper :: "char \<Rightarrow> bool" where
  "is_ascii_upper c = (let n = char_nat c in 65 \<le> n \<and> n \<le> 90)"

definition is_ascii_lower :: "char \<Rightarrow> bool" where
  "is_ascii_lower c = (let n = char_nat c in 97 \<le> n \<and> n \<le> 122)"

definition is_ascii_alphanumeric :: "char \<Rightarrow> bool" where
  "is_ascii_alphanumeric c = (is_ascii_digit c \<or> is_ascii_upper c \<or> is_ascii_lower c)"

definition is_ascii_hexdigit :: "char \<Rightarrow> bool" where
  "is_ascii_hexdigit c =
     (let n = char_nat c in (48 \<le> n \<and> n \<le> 57) \<or> (65 \<le> n \<and> n \<le> 70) \<or> (97 \<le> n \<and> n \<le> 102))"

definition char_to_ascii_lowercase :: "char \<Rightarrow> char" where
  "char_to_ascii_lowercase c = (if is_ascii_upper c then char_of (char_nat c + 32) else c)"

definition char_to_ascii_uppercase :: "char \<Rightarrow> char" where
  "char_to_ascii_uppercase c = (if is_ascii_lower c then char_of (char_nat c - 32) else c)"

lemmas char_class_defs =
  is_ws_def is_ascii_digit_def is_ascii_upper_def is_ascii_lower_def is_ascii_alphanumeric_def
  is_ascii_hexdigit_def Let_def

lemma char_nat_inject [simp]: "char_nat c = char_nat d \<longleftrightarrow> c = d"
  by (simp add: char_nat_def)

lemma char_nat_char_of [simp]: "n < 256 \<Longrightarrow> char_nat (char_of n) = n"
  by (simp add: char_nat_def)

lemma char_nat_lower:
  "char_nat (char_to_ascii_lowercase c) =
     (if is_ascii_upper c then char_nat c + 32 else char_nat c)"
  by (simp add: char_to_ascii_lowercase_def is_ascii_upper_def Let_def)

lemma char_lower_idem [simp]:
  "char_to_ascii_lowercase (char_to_ascii_lowercase c) = char_to_ascii_lowercase c"
proof -
  have "\<not> is_ascii_upper (char_to_ascii_lowercase c)"
    using char_nat_lower [of c] by (auto simp: is_ascii_upper_def Let_def split: if_splits)
  then show ?thesis by (simp add: char_to_ascii_lowercase_def [of "char_to_ascii_lowercase c"])
qed

lemma char_lower_class [simp]:
  "is_ws (char_to_ascii_lowercase c) = is_ws c"
  "is_ascii_alphanumeric (char_to_ascii_lowercase c) = is_ascii_alphanumeric c"
  using char_nat_lower [of c] by (auto simp: char_class_defs split: if_splits)

lemma alphanumeric_not_ws: "is_ascii_alphanumeric c \<Longrightarrow> \<not> is_ws c"
  by (auto simp: char_class_defs)

section \<open>Strings\<close>

text \<open>\<^verbatim>\<open>str::trim\<close>, \<^verbatim>\<open>split_whitespace\<close>, \<^verbatim>\<open>to_ascii_lowercase\<close>, \<^verbatim>\<open>to_ascii_uppercase\<close>.\<close>

definition trim_start :: "string \<Rightarrow> string" where
  "trim_start s = dropWhile is_ws s"

definition trim :: "string \<Rightarrow> string" where
  "trim s = rev (dropWhile is_ws (rev (dropWhile is_ws s)))"

definition blank :: "string \<Rightarrow> bool" where
  "blank s = (trim s = [])"

definition to_ascii_lowercase :: "string \<Rightarrow> string" where
  "to_ascii_lowercase s = map char_to_ascii_lowercase s"

definition to_ascii_uppercase :: "string \<Rightarrow> string" where
  "to_ascii_uppercase s = map char_to_ascii_uppercase s"

definition eq_ignore_ascii_case :: "string \<Rightarrow> string \<Rightarrow> bool" where
  "eq_ignore_ascii_case a b = (to_ascii_lowercase a = to_ascii_lowercase b)"

fun split_ws_acc :: "string \<Rightarrow> string \<Rightarrow> string list" where
  "split_ws_acc acc [] = (if acc = [] then [] else [rev acc])"
| "split_ws_acc acc (c # cs) =
     (if is_ws c then (if acc = [] then split_ws_acc [] cs else rev acc # split_ws_acc [] cs)
      else split_ws_acc (c # acc) cs)"

definition split_whitespace :: "string \<Rightarrow> string list" where
  "split_whitespace s = split_ws_acc [] s"

text \<open>\<^verbatim>\<open>[String]::join\<close>, \<^verbatim>\<open>str::starts_with\<close>, \<^verbatim>\<open>strip_prefix\<close>, \<^verbatim>\<open>str::contains\<close> with a pattern,
  \<^verbatim>\<open>trim_matches\<close> with one character.\<close>

fun join :: "string \<Rightarrow> string list \<Rightarrow> string" where
  "join sep [] = []"
| "join sep [x] = x"
| "join sep (x # y # ys) = x @ sep @ join sep (y # ys)"

definition starts_with :: "string \<Rightarrow> string \<Rightarrow> bool" where
  "starts_with s p = (take (length p) s = p)"

definition strip_prefix :: "string \<Rightarrow> string \<Rightarrow> string option" where
  "strip_prefix s p = (if starts_with s p then Some (drop (length p) s) else None)"

fun str_contains :: "string \<Rightarrow> string \<Rightarrow> bool" where
  "str_contains [] p = (p = [])"
| "str_contains (c # cs) p = (starts_with (c # cs) p \<or> str_contains cs p)"

definition trim_matches :: "char \<Rightarrow> string \<Rightarrow> string" where
  "trim_matches ch s = rev (dropWhile (\<lambda>c. c = ch) (rev (dropWhile (\<lambda>c. c = ch) s)))"

text \<open>\<^verbatim>\<open>str::lines\<close>: a line ends at a line feed, with a carriage return before it dropped;
  \<^verbatim>\<open>str::split\<close> and \<^verbatim>\<open>str::split_once\<close> at a character.\<close>

definition strip_cr :: "string \<Rightarrow> string" where
  "strip_cr l = (if l \<noteq> [] \<and> char_nat (last l) = 13 then butlast l else l)"

fun lines_acc :: "string \<Rightarrow> string \<Rightarrow> string list" where
  "lines_acc acc [] = (if acc = [] then [] else [rev acc])"
| "lines_acc acc (c # cs) =
     (if char_nat c = 10 then strip_cr (rev acc) # lines_acc [] cs else lines_acc (c # acc) cs)"

definition rust_lines :: "string \<Rightarrow> string list" where
  "rust_lines s = lines_acc [] s"

fun split_on_acc :: "char \<Rightarrow> string \<Rightarrow> string \<Rightarrow> string list" where
  "split_on_acc d acc [] = [rev acc]"
| "split_on_acc d acc (c # cs) = (if c = d then rev acc # split_on_acc d [] cs else split_on_acc d (c # acc) cs)"

definition split_on :: "char \<Rightarrow> string \<Rightarrow> string list" where
  "split_on d s = split_on_acc d [] s"

definition split_once :: "char \<Rightarrow> string \<Rightarrow> (string \<times> string) option" where
  "split_once d s =
     (if d \<in> set s then Some (takeWhile (\<lambda>c. c \<noteq> d) s, tl (dropWhile (\<lambda>c. c \<noteq> d) s)) else None)"

text \<open>\<^verbatim>\<open>Ord::clamp\<close> for a lower bound not above the upper one, and \<^verbatim>\<open>Option::unwrap_or\<close>.\<close>

definition clamp :: "'a::linorder \<Rightarrow> 'a \<Rightarrow> 'a \<Rightarrow> 'a" where
  "clamp lo hi x = (if x < lo then lo else if x > hi then hi else x)"

definition unwrap_or :: "'a option \<Rightarrow> 'a \<Rightarrow> 'a" where
  "unwrap_or x d = (case x of Some y \<Rightarrow> y | None \<Rightarrow> d)"

text \<open>The contents of files by path, for code that reads and writes them.\<close>

type_synonym files = "string \<Rightarrow> string option"

text \<open>\<^verbatim>\<open>Path::join\<close> on Unix paths and the number parsers \<^verbatim>\<open>str::parse::<u64>\<close> and
  \<^verbatim>\<open>str::parse::<i64>\<close>: an optional sign and at least one digit, in range. An \<^verbatim>\<open>i64\<close> is an integer;
  \<open>i64_wrap\<close> is the result of an addition in a release build.\<close>

definition path_is_absolute :: "string \<Rightarrow> bool" where
  "path_is_absolute p = starts_with p ''/''"

definition path_join :: "string \<Rightarrow> string \<Rightarrow> string" where
  "path_join root p =
     (if path_is_absolute p then p
      else if root = [] \<or> last root = CHR ''/'' then root @ p else root @ ''/'' @ p)"

definition digits_value :: "string \<Rightarrow> nat" where
  "digits_value s = fold (\<lambda>c n. 10 * n + (char_nat c - 48)) s 0"

definition parse_u64 :: "string \<Rightarrow> u64 option" where
  "parse_u64 s =
     (let ds = (case s of [] \<Rightarrow> [] | c # cs \<Rightarrow> if c = CHR ''+'' then cs else s)
      in if ds \<noteq> [] \<and> list_all is_ascii_digit ds \<and> digits_value ds < 2 ^ 64
         then Some (of_nat (digits_value ds)) else None)"

definition parse_i64 :: "string \<Rightarrow> int option" where
  "parse_i64 s =
     (let neg = (s \<noteq> [] \<and> hd s = CHR ''-'');
          ds = (if s \<noteq> [] \<and> (hd s = CHR ''-'' \<or> hd s = CHR ''+'') then tl s else s);
          v = (if neg then - int (digits_value ds) else int (digits_value ds))
      in if ds \<noteq> [] \<and> list_all is_ascii_digit ds \<and> - (2 ^ 63) \<le> v \<and> v < 2 ^ 63
         then Some v else None)"

definition i64_wrap :: "int \<Rightarrow> int" where
  "i64_wrap n = (n + 2 ^ 63) mod 2 ^ 64 - 2 ^ 63"

text \<open>Decimal printing of unsigned numbers, as \<^verbatim>\<open>to_string\<close> and \<^verbatim>\<open>format!("{}")\<close> do it.\<close>

definition digit_char :: "nat \<Rightarrow> char" where
  "digit_char d = char_of (48 + d)"

fun show_nat :: "nat \<Rightarrow> string" where
  "show_nat n = (if n < 10 then [digit_char n] else show_nat (n div 10) @ [digit_char (n mod 10)])"

declare show_nat.simps [simp del]

abbreviation show_word :: "'a::len word \<Rightarrow> string" where
  "show_word w \<equiv> show_nat (unat w)"

definition show_bool :: "bool \<Rightarrow> string" where
  "show_bool b = (if b then ''true'' else ''false'')"

subsection \<open>Facts about strings\<close>

lemma append_sep_inject:
  "x \<notin> set xs \<Longrightarrow> x \<notin> set xs' \<Longrightarrow> xs @ x # ys = xs' @ x # ys' \<longleftrightarrow> xs = xs' \<and> ys = ys'"
proof (induction xs arbitrary: xs')
  case Nil
  then show ?case by (cases xs') auto
next
  case (Cons a xs)
  then show ?case by (cases xs') auto
qed

lemma trim_Nil [simp]: "trim [] = []"
  by (simp add: trim_def)

lemma trim_id: "s \<noteq> [] \<Longrightarrow> \<not> is_ws (hd s) \<Longrightarrow> \<not> is_ws (last s) \<Longrightarrow> trim s = s"
proof -
  assume s: "s \<noteq> []" "\<not> is_ws (hd s)" "\<not> is_ws (last s)"
  have "dropWhile is_ws s = s" using s by (simp only: dropWhile_eq_self_iff) simp
  moreover have "dropWhile is_ws (rev s) = rev s"
    using s by (simp only: dropWhile_eq_self_iff) (simp add: hd_rev)
  ultimately show ?thesis by (simp add: trim_def)
qed

lemma trim_infix: "\<exists>p q. s = p @ trim s @ q \<and> (\<forall>c \<in> set p \<union> set q. is_ws c)"
proof -
  define t where "t = dropWhile is_ws s"
  have "s = takeWhile is_ws s @ t" by (simp add: t_def)
  moreover have "t = trim s @ rev (takeWhile is_ws (rev t))"
    by (metis t_def trim_def rev_append rev_rev_ident takeWhile_dropWhile_id)
  moreover have "\<forall>c \<in> set (takeWhile is_ws s) \<union> set (rev (takeWhile is_ws (rev t))). is_ws c"
    by (auto dest: set_takeWhileD)
  ultimately show ?thesis by (metis append.assoc)
qed

lemma set_trim_subset: "set (trim s) \<subseteq> set s"
  using trim_infix [of s] by (metis Un_iff set_append subsetI)

lemma hd_trim: "trim s \<noteq> [] \<Longrightarrow> \<not> is_ws (hd (trim s))"
proof -
  assume ne: "trim s \<noteq> []"
  define t where "t = dropWhile is_ws s"
  have tne: "t \<noteq> []" using ne unfolding t_def trim_def by (metis dropWhile.simps(1) rev.simps(1))
  then have "\<not> is_ws (hd t)" by (metis hd_dropWhile t_def)
  moreover obtain q where "t = trim s @ q"
    by (metis t_def trim_def rev_append rev_rev_ident takeWhile_dropWhile_id)
  then have "hd (trim s) = hd t" using ne by simp
  ultimately show ?thesis by simp
qed

lemma last_trim: "trim s \<noteq> [] \<Longrightarrow> \<not> is_ws (last (trim s))"
  by (metis hd_dropWhile last_rev rev_is_Nil_conv trim_def)

lemma trim_idem [simp]: "trim (trim s) = trim s"
  by (cases "trim s = []") (simp_all add: trim_id hd_trim last_trim)

lemma blank_iff: "blank s \<longleftrightarrow> (\<forall>c \<in> set s. is_ws c)"
proof
  assume "blank s"
  then show "\<forall>c \<in> set s. is_ws c"
    using trim_infix [of s] by (auto simp: blank_def)
next
  assume "\<forall>c \<in> set s. is_ws c"
  then have "dropWhile is_ws s = []" by (simp only: dropWhile_eq_Nil_conv)
  then show "blank s" unfolding blank_def trim_def by (simp only: dropWhile.simps rev.simps)
qed

lemma length_to_ascii_lowercase [simp]: "length (to_ascii_lowercase s) = length s"
  by (simp add: to_ascii_lowercase_def)

lemma to_ascii_lowercase_idem [simp]:
  "to_ascii_lowercase (to_ascii_lowercase s) = to_ascii_lowercase s"
  by (simp add: to_ascii_lowercase_def)

lemma eq_ignore_ascii_case_refl [simp]: "eq_ignore_ascii_case s s"
  by (simp add: eq_ignore_ascii_case_def)

lemma starts_with_iff_prefix: "starts_with s p \<longleftrightarrow> prefix p s"
  by (metis append_eq_conv_conj prefixE prefixI starts_with_def append_take_drop_id)

lemma starts_with_append [simp]: "starts_with (p @ s) p"
  by (simp add: starts_with_def)

lemma strip_prefix_Some_iff: "strip_prefix s p = Some r \<longleftrightarrow> s = p @ r"
  by (auto simp: strip_prefix_def starts_with_iff_prefix prefix_def)

lemma str_contains_iff_sublist: "str_contains s p \<longleftrightarrow> sublist p s"
  by (induction s) (auto simp: starts_with_iff_prefix sublist_Cons_right)

lemma digit_char_nat [simp]: "d < 10 \<Longrightarrow> char_nat (digit_char d) = 48 + d"
  by (simp add: digit_char_def)

lemma digit_char_inj: "d < 10 \<Longrightarrow> e < 10 \<Longrightarrow> digit_char d = digit_char e \<longleftrightarrow> d = e"
  by (metis add_left_cancel digit_char_nat)

lemma show_nat_nonempty [simp]: "show_nat n \<noteq> []"
  by (subst show_nat.simps) simp

lemma show_nat_digits: "\<forall>c \<in> set (show_nat n). is_ascii_digit c"
proof (induction n rule: show_nat.induct)
  case (1 n)
  then show ?case
    by (subst show_nat.simps) (auto simp: is_ascii_digit_def Let_def)
qed

lemma show_nat_inj_aux: "show_nat m = show_nat n \<Longrightarrow> m = n"
proof (induction m arbitrary: n rule: show_nat.induct)
  case (1 m)
  have m: "show_nat m =
      (if m < 10 then [digit_char m] else show_nat (m div 10) @ [digit_char (m mod 10)])"
    and n: "show_nat n =
      (if n < 10 then [digit_char n] else show_nat (n div 10) @ [digit_char (n mod 10)])"
    by (rule show_nat.simps)+
  show ?case
  proof (cases "m < 10 \<or> n < 10")
    case True
    with "1.prems" m n have "m < 10 \<and> n < 10"
      by (cases "m < 10"; cases "n < 10") (auto simp: show_nat_nonempty [symmetric])
    with "1.prems" m n show ?thesis by (simp add: digit_char_inj)
  next
    case False
    with "1.prems" m n have "show_nat (m div 10) = show_nat (n div 10)" "m mod 10 = n mod 10"
      by (auto simp: digit_char_inj)
    with False "1.IH" have "m div 10 = n div 10" by blast
    with \<open>m mod 10 = n mod 10\<close> show ?thesis by (metis div_mult_mod_eq)
  qed
qed

lemma show_nat_inject [simp]: "show_nat m = show_nat n \<longleftrightarrow> m = n"
  using show_nat_inj_aux by blast

lemma split_ws_acc_no_ws:
  "\<forall>c \<in> set acc. \<not> is_ws c \<Longrightarrow> w \<in> set (split_ws_acc acc s) \<Longrightarrow> w \<noteq> [] \<and> (\<forall>c \<in> set w. \<not> is_ws c)"
proof (induction s arbitrary: acc)
  case Nil
  then show ?case by (auto split: if_splits)
next
  case (Cons c s)
  show ?case
  proof (cases "is_ws c")
    case True
    with Cons.prems have "w = rev acc \<and> acc \<noteq> [] \<or> w \<in> set (split_ws_acc [] s)"
      by (auto split: if_splits)
    with Cons.prems(1) Cons.IH [of "[]"] show ?thesis by auto
  next
    case False
    with Cons.prems Cons.IH [of "c # acc"] show ?thesis by simp
  qed
qed

lemma split_whitespace_words:
  "w \<in> set (split_whitespace s) \<Longrightarrow> w \<noteq> [] \<and> (\<forall>c \<in> set w. \<not> is_ws c)"
  unfolding split_whitespace_def by (rule split_ws_acc_no_ws [of "[]"]) simp_all

lemma split_ws_acc_word:
  "\<forall>c \<in> set w. \<not> is_ws c \<Longrightarrow> split_ws_acc acc (w @ s) = split_ws_acc (rev w @ acc) s"
  by (induction w arbitrary: acc) auto

lemma is_ws_space [simp]: "is_ws CHR '' ''"
  by (simp add: is_ws_def char_nat_def)

lemma split_whitespace_join:
  "\<forall>w \<in> set ws. w \<noteq> [] \<and> (\<forall>c \<in> set w. \<not> is_ws c) \<Longrightarrow> split_whitespace (join '' '' ws) = ws"
proof (induction ws rule: induct_list012)
  case 1
  then show ?case by (simp add: split_whitespace_def)
next
  case (2 x)
  then show ?case
    using split_ws_acc_word [of x "[]" "[]"] by (simp add: split_whitespace_def)
next
  case (3 x y zs)
  then show ?case
    using split_ws_acc_word [of x "[]" "'' '' @ join '' '' (y # zs)"]
    by (simp add: split_whitespace_def)
qed

lemma clamp_bounds: "lo \<le> hi \<Longrightarrow> lo \<le> clamp lo hi x \<and> clamp lo hi x \<le> hi"
  by (auto simp: clamp_def)

lemma fold_digits_append: "digits_value (s @ [c]) = 10 * digits_value s + (char_nat c - 48)"
  by (simp add: digits_value_def)

lemma digits_value_show_nat [simp]: "digits_value (show_nat n) = n"
proof (induction n rule: show_nat.induct)
  case (1 n)
  show ?case
  proof (cases "n < 10")
    case True
    then have "show_nat n = [digit_char n]" by (subst show_nat.simps) simp
    with True show ?thesis by (simp add: digits_value_def)
  next
    case False
    then have "show_nat n = show_nat (n div 10) @ [digit_char (n mod 10)]" by (subst show_nat.simps) simp
    with 1 [OF False] show ?thesis by (simp add: fold_digits_append)
  qed
qed

end
