(* ===== verification/BTree_Map.thy ===== *)
theory BTree_Map
  imports Rust_Base
begin

text \<open>
  The dictionaries of the Rust standard library. \<^verbatim>\<open>BTreeMap\<close> is a list of entries with strictly
  increasing keys, which is also its iteration order; \<^verbatim>\<open>HashMap\<close>, wherever the sources only look
  keys up and insert, is the same type used through the dictionary contract alone. The contract is
  the locale \<open>dictionary\<close>: what a lookup returns after an insert or a removal and that both keep
  the invariant. \<^verbatim>\<open>BTreeSet\<close> is the sorted list of its elements.
\<close>

section \<open>The dictionary contract\<close>

locale dictionary =
  fixes empty :: "'m"
    and get :: "'m \<Rightarrow> 'k \<Rightarrow> 'v option"
    and insert :: "'k \<Rightarrow> 'v \<Rightarrow> 'm \<Rightarrow> 'm"
    and remove :: "'k \<Rightarrow> 'm \<Rightarrow> 'm"
    and wf :: "'m \<Rightarrow> bool"
  assumes get_empty: "get empty k = None"
    and get_insert: "wf m \<Longrightarrow> get (insert k v m) k' = (if k' = k then Some v else get m k')"
    and get_remove: "wf m \<Longrightarrow> get (remove k m) k' = (if k' = k then None else get m k')"
    and wf_empty: "wf empty"
    and wf_insert: "wf m \<Longrightarrow> wf (insert k v m)"
    and wf_remove: "wf m \<Longrightarrow> wf (remove k m)"
begin

lemma wf_fold_insert: "wf m \<Longrightarrow> wf (fold (\<lambda>(k, v). insert k v) kvs m)"
  by (induction kvs arbitrary: m) (auto simp: wf_insert)

lemma get_fold_insert:
  "wf m \<Longrightarrow> get (fold (\<lambda>(k, v). insert k v) kvs m) k =
     (case map_of (rev kvs) k of None \<Rightarrow> get m k | Some v \<Rightarrow> Some v)"
  by (induction kvs arbitrary: m)
    (auto simp: wf_insert get_insert map_add_def split: option.splits)

end

section \<open>Sorted association lists\<close>

type_synonym ('k, 'v) btree = "('k \<times> 'v) list"

definition bt_wf :: "('k::linorder, 'v) btree \<Rightarrow> bool" where
  "bt_wf m = sorted_wrt (<) (map fst m)"

fun bt_get :: "('k::linorder, 'v) btree \<Rightarrow> 'k \<Rightarrow> 'v option" where
  "bt_get [] k = None"
| "bt_get ((k', v) # m) k = (if k = k' then Some v else bt_get m k)"

fun bt_insert :: "'k::linorder \<Rightarrow> 'v \<Rightarrow> ('k, 'v) btree \<Rightarrow> ('k, 'v) btree" where
  "bt_insert k v [] = [(k, v)]"
| "bt_insert k v ((k', v') # m) =
     (if k < k' then (k, v) # (k', v') # m
      else if k = k' then (k, v) # m
      else (k', v') # bt_insert k v m)"

fun bt_remove :: "'k::linorder \<Rightarrow> ('k, 'v) btree \<Rightarrow> ('k, 'v) btree" where
  "bt_remove k [] = []"
| "bt_remove k ((k', v') # m) = (if k = k' then m else (k', v') # bt_remove k m)"

definition bt_contains_key :: "('k::linorder, 'v) btree \<Rightarrow> 'k \<Rightarrow> bool" where
  "bt_contains_key m k = (bt_get m k \<noteq> None)"

text \<open>\<^verbatim>\<open>entry(k).or_insert(v)\<close> followed by a read: the map with the default filled in.\<close>

definition bt_or_insert :: "'k::linorder \<Rightarrow> 'v \<Rightarrow> ('k, 'v) btree \<Rightarrow> ('k, 'v) btree" where
  "bt_or_insert k v m = (case bt_get m k of None \<Rightarrow> bt_insert k v m | Some _ \<Rightarrow> m)"

definition bt_keys :: "('k::linorder, 'v) btree \<Rightarrow> 'k list" where
  "bt_keys m = map fst m"

lemma bt_get_map_of: "bt_get m k = map_of m k"
  by (induction m) auto

lemma bt_keys_simps [simp]: "bt_keys [] = []" "bt_keys (e # m) = fst e # bt_keys m"
  by (simp_all add: bt_keys_def)

lemma bt_get_None_iff: "bt_get m k = None \<longleftrightarrow> k \<notin> set (bt_keys m)"
  by (simp add: bt_get_map_of bt_keys_def map_of_eq_None_iff)

lemma bt_contains_key_iff: "bt_contains_key m k \<longleftrightarrow> k \<in> set (bt_keys m)"
  by (simp add: bt_contains_key_def bt_get_None_iff)

lemma bt_get_insert: "bt_get (bt_insert k v m) k' = (if k' = k then Some v else bt_get m k')"
  by (induction m) (auto simp: not_less_iff_gr_or_eq)

lemma bt_keys_insert: "set (bt_keys (bt_insert k v m)) = insert k (set (bt_keys m))"
  by (induction k v m rule: bt_insert.induct) auto

lemma bt_keys_remove_subset: "set (bt_keys (bt_remove k m)) \<subseteq> set (bt_keys m)"
  by (induction k m rule: bt_remove.induct) auto

lemma bt_wf_Nil [simp]: "bt_wf []"
  by (simp add: bt_wf_def)

lemma bt_wf_Cons: "bt_wf ((k, v) # m) \<longleftrightarrow> (\<forall>k' \<in> set (bt_keys m). k < k') \<and> bt_wf m"
  by (auto simp: bt_wf_def bt_keys_def)

lemma bt_wf_insert: "bt_wf m \<Longrightarrow> bt_wf (bt_insert k v m)"
proof (induction m)
  case Nil
  then show ?case by (simp add: bt_wf_def)
next
  case (Cons e m)
  obtain k' v' where e: "e = (k', v')" by force
  from Cons show ?case
    unfolding e by (auto simp: bt_wf_Cons bt_keys_insert)
qed

lemma bt_wf_remove: "bt_wf m \<Longrightarrow> bt_wf (bt_remove k m)"
proof (induction m)
  case (Cons e m)
  obtain k' v' where e: "e = (k', v')" by force
  from Cons show ?case
    unfolding e using bt_keys_remove_subset [of k m] by (auto simp: bt_wf_Cons)
qed simp

lemma bt_get_remove_other: "k' \<noteq> k \<Longrightarrow> bt_get (bt_remove k m) k' = bt_get m k'"
  by (induction k m rule: bt_remove.induct) auto

lemma bt_get_remove:
  "bt_wf m \<Longrightarrow> bt_get (bt_remove k m) k' = (if k' = k then None else bt_get m k')"
proof (induction m)
  case (Cons e m)
  obtain j v where e: "e = (j, v)" by force
  from Cons.prems have "bt_wf m" "bt_get m j = None"
    by (auto simp: e bt_wf_Cons bt_get_None_iff)
  with Cons.IH show ?case by (auto simp: e)
qed simp

interpretation bt: dictionary "[]" bt_get bt_insert bt_remove bt_wf
  by unfold_locales (simp_all add: bt_get_insert bt_get_remove bt_wf_insert bt_wf_remove)

lemma distinct_bt_keys: "bt_wf m \<Longrightarrow> distinct (bt_keys m)"
  by (simp add: bt_wf_def bt_keys_def strict_sorted_iff)

lemma bt_reconstruct: "distinct (bt_keys m) \<Longrightarrow> map (\<lambda>k. (k, the (bt_get m k))) (bt_keys m) = m"
proof (induction m)
  case (Cons e m)
  obtain j v where e: "e = (j, v)" by force
  from Cons.prems have "map (\<lambda>k. (k, the (bt_get (e # m) k))) (bt_keys m) =
      map (\<lambda>k. (k, the (bt_get m k))) (bt_keys m)"
    by (auto simp: e)
  with Cons show ?case by (simp add: e)
qed simp

lemma bt_ext:
  assumes "bt_wf m" "bt_wf m'" and get: "\<And>k. bt_get m k = bt_get m' k"
  shows "m = m'"
proof -
  have "set (bt_keys m) = set (bt_keys m')"
    using get by (metis bt_get_None_iff subsetI subset_antisym)
  then have keys: "bt_keys m = bt_keys m'"
    using assms(1,2) strict_sorted_equal by (fastforce simp: bt_wf_def bt_keys_def)
  have "m = map (\<lambda>k. (k, the (bt_get m k))) (bt_keys m)"
    by (simp add: bt_reconstruct distinct_bt_keys assms(1))
  also have "\<dots> = map (\<lambda>k. (k, the (bt_get m' k))) (bt_keys m')" by (simp add: keys get)
  also have "\<dots> = m'" by (simp add: bt_reconstruct distinct_bt_keys assms(2))
  finally show ?thesis .
qed

lemma bt_wf_or_insert: "bt_wf m \<Longrightarrow> bt_wf (bt_or_insert k v m)"
  by (auto simp: bt_or_insert_def bt_wf_insert split: option.splits)

lemma bt_get_or_insert:
  "bt_get (bt_or_insert k v m) k' =
     (if k' = k then Some (case bt_get m k of None \<Rightarrow> v | Some w \<Rightarrow> w) else bt_get m k')"
  by (auto simp: bt_or_insert_def bt_get_insert split: option.splits)

section \<open>Ordered sets of strings\<close>

text \<open>\<^verbatim>\<open>BTreeSet\<close> built from an iterator and read back in order: sorted, without duplicates.\<close>

definition btree_set :: "'a::linorder list \<Rightarrow> 'a list" where
  "btree_set xs = sort (remdups xs)"

lemma set_btree_set [simp]: "set (btree_set xs) = set xs"
  by (simp add: btree_set_def)

lemma sorted_btree_set: "sorted_wrt (<) (btree_set xs)"
  by (simp add: btree_set_def strict_sorted_iff)

lemma distinct_btree_set: "distinct (btree_set xs)"
  using sorted_btree_set [of xs] by (simp add: strict_sorted_iff)

lemma btree_set_unique: "sorted_wrt (<) ys \<Longrightarrow> set ys = set xs \<Longrightarrow> btree_set xs = ys"
  using strict_sorted_equal [OF sorted_btree_set, of ys xs] by auto

lemma btree_set_cong: "set xs = set ys \<Longrightarrow> btree_set xs = btree_set ys"
  by (rule btree_set_unique) (simp_all add: sorted_btree_set)

end
