(* ===== verification/Json_Value.thy ===== *)
theory Json_Value
  imports BTree_Map
begin

text \<open>
  JSON values as \<^verbatim>\<open>serde_json::Value\<close> has them, the accessors the sources use on them, and the
  canonical form \<^verbatim>\<open>normalize_value\<close> / \<^verbatim>\<open>canonical_json\<close> that both \<^verbatim>\<open>core/layer2/conduit\<close> and
  \<^verbatim>\<open>core/layer2/conduit-security\<close> compute before hashing or signing.

  An object is the list of its entries. \<^verbatim>\<open>serde_json\<close> is built without \<^verbatim>\<open>preserve_order\<close>, so its
  map is a \<^verbatim>\<open>BTreeMap\<close> and the entries of a value made by \<^verbatim>\<open>json!\<close> are sorted; the canonical form
  is defined and proved for entries in any order.

  The SHA-256 digest with its hexadecimal encoding (crates \<^verbatim>\<open>sha2\<close>, \<^verbatim>\<open>hex\<close>) and the text of a JSON
  value (\<^verbatim>\<open>serde_json::to_string\<close>) are code outside this repository: they are the fields of the
  record \<open>libs\<close>, an argument of every definition that uses them.
\<close>

datatype json =
    JNull
  | JBool bool
  | JInt int
  | JFloat u64
  | JStr string
  | JArr "json list"
  | JObj "(string \<times> json) list"

record libs =
  sha256_hex :: "string \<Rightarrow> string"
  json_to_string :: "json \<Rightarrow> string"

section \<open>Building and reading values\<close>

text \<open>\<^verbatim>\<open>json!({ ... })\<close>: the entries in source order, inserted into the map.\<close>

definition json_object :: "(string \<times> json) list \<Rightarrow> json" where
  "json_object kvs = JObj (fold (\<lambda>(k, v). bt_insert k v) kvs [])"

fun json_get :: "json \<Rightarrow> string \<Rightarrow> json option" where
  "json_get (JObj m) k = bt_get m k"
| "json_get _ k = None"

fun as_bool :: "json \<Rightarrow> bool option" where
  "as_bool (JBool b) = Some b"
| "as_bool _ = None"

fun as_str :: "json \<Rightarrow> string option" where
  "as_str (JStr s) = Some s"
| "as_str _ = None"

fun as_i64 :: "json \<Rightarrow> int option" where
  "as_i64 (JInt i) = (if - (2 ^ 63) \<le> i \<and> i < 2 ^ 63 then Some i else None)"
| "as_i64 _ = None"

text \<open>\<^verbatim>\<open>value["k"] = v\<close> on an object.\<close>

fun json_set :: "string \<Rightarrow> json \<Rightarrow> json \<Rightarrow> json" where
  "json_set k v (JObj m) = JObj (bt_insert k v m)"
| "json_set k v j = j"

definition json_opt_str :: "string option \<Rightarrow> json" where
  "json_opt_str o' = (case o' of None \<Rightarrow> JNull | Some s \<Rightarrow> JStr s)"

abbreviation json_str_list :: "string list \<Rightarrow> json" where
  "json_str_list xs \<equiv> JArr (map JStr xs)"

abbreviation json_word :: "'a::len word \<Rightarrow> json" where
  "json_word w \<equiv> JInt (uint w)"

section \<open>The canonical form\<close>

lemma size_json_entry: "(k, v) \<in> set m \<Longrightarrow> size v < size (JObj m)"
  by (induction m) auto

lemma size_json_row: "v \<in> set rows \<Longrightarrow> size v < size (JArr rows)"
  by (induction rows) auto

function normalize_value :: "json \<Rightarrow> json" where
  "normalize_value (JArr rows) = JArr (map normalize_value rows)"
| "normalize_value (JObj m) =
     JObj (fold (\<lambda>(k, v). bt_insert k v)
       (map (\<lambda>(k, v). (k, normalize_value v)) (sort_key fst m)) [])"
| "normalize_value JNull = JNull"
| "normalize_value (JBool b) = JBool b"
| "normalize_value (JInt i) = JInt i"
| "normalize_value (JFloat f) = JFloat f"
| "normalize_value (JStr s) = JStr s"
  by pat_completeness auto
termination
  by (relation "measure size") (auto simp del: json.size intro: size_json_row size_json_entry)

definition canonical_json :: "libs \<Rightarrow> json \<Rightarrow> string" where
  "canonical_json L v = json_to_string L (normalize_value v)"

definition deterministic_hash :: "libs \<Rightarrow> json \<Rightarrow> string" where
  "deterministic_hash L v = sha256_hex L (canonical_json L v)"

text \<open>A value is canonical when every object in it lists its keys in strictly increasing order.\<close>

fun canonical :: "json \<Rightarrow> bool" where
  "canonical (JArr rows) = list_all canonical rows"
| "canonical (JObj m) = (bt_wf m \<and> list_all (\<lambda>(k, v). canonical v) m)"
| "canonical _ = True"

text \<open>Two values that differ only in the order of object entries, at any depth.\<close>

inductive json_reorder :: "json \<Rightarrow> json \<Rightarrow> bool" where
  reorder_refl: "json_reorder v v"
| reorder_arr: "list_all2 json_reorder xs ys \<Longrightarrow> json_reorder (JArr xs) (JArr ys)"
| reorder_obj: "list_all2 (\<lambda>e e'. fst e = fst e' \<and> json_reorder (snd e) (snd e')) m n \<Longrightarrow>
    mset n = mset m' \<Longrightarrow> distinct (map fst m) \<Longrightarrow> json_reorder (JObj m) (JObj m')"

section \<open>Laws of the canonical form\<close>

lemma normalize_obj_wf: "bt_wf (fold (\<lambda>(k, v). bt_insert k v) kvs [])"
  by (rule bt.wf_fold_insert) simp

lemma bt_insert_max:
  "\<forall>k' \<in> set (bt_keys m). k' < k \<Longrightarrow> bt_insert k v m = m @ [(k, v)]"
  by (induction m) (auto simp: not_less_iff_gr_or_eq)

lemma fold_bt_insert_sorted_aux:
  "bt_wf (m @ kvs) \<Longrightarrow> fold (\<lambda>(k, v). bt_insert k v) kvs m = m @ kvs"
proof (induction kvs arbitrary: m)
  case (Cons e kvs)
  obtain k v where e: "e = (k, v)" by force
  from Cons.prems have "\<forall>k' \<in> set (bt_keys m). k' < k"
    by (auto simp: bt_wf_def bt_keys_def e sorted_wrt_append)
  then have "bt_insert k v m = m @ [(k, v)]" by (rule bt_insert_max)
  moreover have "bt_wf ((m @ [(k, v)]) @ kvs)" using Cons.prems by (simp add: e)
  ultimately show ?case using Cons.IH [of "m @ [(k, v)]"] by (simp add: e)
qed simp

lemma fold_bt_insert_sorted: "bt_wf m \<Longrightarrow> fold (\<lambda>(k, v). bt_insert k v) m [] = m"
  using fold_bt_insert_sorted_aux [of "[]" m] by simp

lemma set_fold_bt_insert:
  "set (fold (\<lambda>(k, v). bt_insert k v) kvs m) \<subseteq> set m \<union> set kvs"
proof (induction kvs arbitrary: m)
  case (Cons e kvs)
  obtain k v where e: "e = (k, v)" by force
  have "set (bt_insert k v m) \<subseteq> insert (k, v) (set m)"
    by (induction k v m rule: bt_insert.induct) auto
  with Cons.IH [of "bt_insert k v m"] show ?case by (auto simp: e)
qed simp

lemma canonical_normalize_value: "canonical (normalize_value v)"
proof (induction v rule: normalize_value.induct)
  case (2 m)
  let ?kvs = "map (\<lambda>(k, v). (k, normalize_value v)) (sort_key fst m)"
  have "\<forall>(k, v) \<in> set ?kvs. canonical v" using "2.IH" by force
  with set_fold_bt_insert [of ?kvs "[]"] have
    "\<forall>(k, v) \<in> set (fold (\<lambda>(k, v). bt_insert k v) ?kvs []). canonical v" by auto
  then show ?case by (simp add: normalize_obj_wf list_all_iff)
qed (auto simp: list_all_iff)

lemma normalize_canonical: "canonical v \<Longrightarrow> normalize_value v = v"
proof (induction v rule: normalize_value.induct)
  case (1 rows)
  then show ?case by (auto simp: list_all_iff intro: map_idI)
next
  case (2 m)
  then have wf: "bt_wf m" by simp
  then have s: "sort_key fst m = m"
    by (auto simp: bt_wf_def strict_sorted_iff intro!: sort_key_id_if_sorted)
  have "map (\<lambda>(k, v). (k, normalize_value v)) m = m"
    using "2.IH" "2.prems" by (intro map_idI) (auto simp: s list_all_iff)
  then show ?case by (simp only: normalize_value.simps s fold_bt_insert_sorted [OF wf])
qed simp_all

lemma normalize_value_idem [simp]: "normalize_value (normalize_value v) = normalize_value v"
  by (rule normalize_canonical [OF canonical_normalize_value])

lemma normalize_obj_get:
  assumes "distinct (map fst m)"
  shows "bt_get (fold (\<lambda>(k, v). bt_insert k v)
      (map (\<lambda>(k, v). (k, f v)) (sort_key fst m)) []) k = map_option f (map_of m k)"
proof -
  let ?s = "sort_key fst m"
  have d: "distinct (map fst ?s)"
    using assms by (metis distinct_map distinct_sort inj_on_cong set_sort)
  let ?fs = "map (\<lambda>(k, v). (k, f v)) ?s"
  have keys: "map fst ?fs = map fst ?s" by (simp add: case_prod_unfold)
  have df: "distinct (map fst ?fs)" using d by (simp only: keys)
  then have "distinct (map fst (rev ?fs))" by (simp only: rev_map [symmetric] distinct_rev)
  with df have "map_of (rev ?fs) = map_of ?fs"
    by (simp only: map_of_inject_set set_rev)
  then have "map_of (rev ?fs) k = map_option f (map_of ?s k)"
    by (simp add: map_of_map)
  also have "map_of ?s = map_of m"
    using assms d by (subst map_of_inject_set) simp_all
  finally show ?thesis
    by (subst bt.get_fold_insert) (auto split: option.splits)
qed

lemma map_of_reorder:
  "list_all2 (\<lambda>e e'. fst e = fst e' \<and> R (snd e) (snd e')) m n \<Longrightarrow> rel_option R (map_of m k) (map_of n k)"
  by (induction rule: list_all2_induct) auto

lemma keys_reorder:
  "list_all2 (\<lambda>e e'. fst e = fst e' \<and> R (snd e) (snd e')) m n \<Longrightarrow> map fst m = map fst n"
  by (induction rule: list_all2_induct) auto

text \<open>The canonical form does not depend on the order in which objects list their entries.\<close>

lemma normalize_value_reorder: "json_reorder v w \<Longrightarrow> normalize_value v = normalize_value w"
proof (induction rule: json_reorder.induct)
  case (reorder_arr xs ys)
  then have "map normalize_value xs = map normalize_value ys"
    by (induction rule: list_all2_induct) auto
  then show ?case by simp
next
  case (reorder_obj m n m')
  let ?R = "\<lambda>v w. json_reorder v w \<and> normalize_value v = normalize_value w"
  have rel: "list_all2 (\<lambda>e e'. fst e = fst e' \<and> ?R (snd e) (snd e')) m n"
    using reorder_obj.IH by (rule list_all2_mono) auto
  have dn: "distinct (map fst n)" using keys_reorder [OF rel] reorder_obj.hyps(2) by simp
  have sn: "set n = set m'" using reorder_obj.hyps(1) by (metis set_mset_mset)
  have "mset (map fst n) = mset (map fst m')" using reorder_obj.hyps(1) by simp
  then have dm': "distinct (map fst m')" using dn mset_eq_imp_distinct_iff by blast
  have mo: "map_of n = map_of m'" using dn dm' sn by (simp add: map_of_inject_set)
  have "map_option normalize_value (map_of m k) = map_option normalize_value (map_of n k)" for k
    using map_of_reorder [OF rel, of k]
    by (cases "map_of m k"; cases "map_of n k") auto
  then show ?case
    unfolding normalize_value.simps json.inject
    by (intro bt_ext normalize_obj_wf)
      (simp add: normalize_obj_get reorder_obj.hyps(2) dm' mo [symmetric])
qed simp

lemma json_get_object: "json_get (json_object kvs) k = map_of (rev kvs) k"
  by (simp add: json_object_def bt.get_fold_insert split: option.splits)

end
