(* ===== verification/Sample_Libs.thy ===== *)
theory Sample_Libs
  imports Json_Value
begin

text \<open>
  The laws of the library functions in \<open>libs\<close> that some properties rely on, and one concrete
  instance that satisfies them, on which the witnesses evaluate. The law is that the text of a
  JSON value determines the value (\<^verbatim>\<open>serde_json\<close> reads back what it writes); the instance is a
  tagged prefix code of JSON values and an identity-like digest.
\<close>

definition text_injective :: "libs \<Rightarrow> bool" where
  "text_injective L \<longleftrightarrow> inj (json_to_string L)"

fun code_str :: "string \<Rightarrow> string" where
  "code_str [] = ''.''"
| "code_str (c # cs) = CHR ''+'' # c # code_str cs"

function code_json :: "json \<Rightarrow> string" where
  "code_json JNull = ''n''"
| "code_json (JBool b) = (if b then ''t'' else ''f'')"
| "code_json (JInt i) = (if i < 0 then ''m'' else ''i'') @ show_nat (nat \<bar>i\<bar>) @ '';''"
| "code_json (JFloat w) = ''d'' @ show_nat (unat w) @ '';''"
| "code_json (JStr s) = ''s'' @ code_str s"
| "code_json (JArr rows) = ''['' @ concat (map (\<lambda>v. '','' @ code_json v) rows) @ '']''"
| "code_json (JObj m) = ''{'' @ concat (map (\<lambda>(k, v). '','' @ code_str k @ code_json v) m) @ ''}''"
  by pat_completeness auto
termination
  by (relation "measure size") (auto simp del: json.size intro: size_json_row size_json_entry)

definition sample_libs :: libs where
  "sample_libs = \<lparr>sha256_hex = (\<lambda>s. ''#'' @ s), json_to_string = code_json\<rparr>"

lemma code_str_prefix: "code_str s @ r = code_str s' @ r' \<longleftrightarrow> s = s' \<and> r = r'"
proof (induction s arbitrary: s')
  case Nil
  then show ?case by (cases s') auto
next
  case (Cons c s)
  then show ?case by (cases s') auto
qed

lemma show_nat_prefix:
  "show_nat n @ CHR '';'' # r = show_nat n' @ CHR '';'' # r' \<longleftrightarrow> n = n' \<and> r = r'"
proof -
  have "CHR '';'' \<notin> set (show_nat k)" for k
    using show_nat_digits [of k] by (auto simp: is_ascii_digit_def Let_def char_nat_def dest: bspec)
  then show ?thesis by (simp add: append_sep_inject)
qed

lemma concat_prefix_code:
  assumes "\<And>x y r r'. x \<in> set xs \<Longrightarrow> f x @ r = f y @ r' \<Longrightarrow> x = y \<and> r = r'"
    and "c \<noteq> d"
    and "concat (map (\<lambda>v. d # f v) xs) @ c # r = concat (map (\<lambda>v. d # f v) ys) @ c # r'"
  shows "xs = ys \<and> r = r'"
  using assms(1,3)
proof (induction xs arbitrary: ys)
  case Nil
  then show ?case using \<open>c \<noteq> d\<close> by (cases ys) auto
next
  case (Cons x xs)
  then obtain y ys' where ys: "ys = y # ys'" using \<open>c \<noteq> d\<close> by (cases ys) auto
  from Cons.prems(2) have "f x @ concat (map (\<lambda>v. d # f v) xs) @ c # r =
      f y @ concat (map (\<lambda>v. d # f v) ys') @ c # r'" by (simp add: ys)
  with Cons.prems(1) [of x] have "x = y"
    "concat (map (\<lambda>v. d # f v) xs) @ c # r = concat (map (\<lambda>v. d # f v) ys') @ c # r'" by auto
  moreover from this(2) have "xs = ys' \<and> r = r'"
    by (rule Cons.IH [rotated]) (use Cons.prems(1) in auto)
  ultimately show ?case by (simp add: ys)
qed

lemma code_json_prefix: "code_json v @ r = code_json w @ r' \<Longrightarrow> v = w \<and> r = r'"
proof (induction v arbitrary: w r r' rule: code_json.induct)
  case 1
  then show ?case by (cases w) (auto split: if_splits)
next
  case (2 b)
  then show ?case by (cases w) (auto split: if_splits)
next
  case (3 i)
  then show ?case by (cases w) (auto simp: show_nat_prefix split: if_splits)
next
  case (4 f)
  then show ?case by (cases w) (auto simp: show_nat_prefix word_unat_eq_iff split: if_splits)
next
  case (5 s)
  then show ?case by (cases w) (auto simp: code_str_prefix split: if_splits)
next
  case (6 rows)
  then obtain rows' where w: "w = JArr rows'" by (cases w) (auto split: if_splits)
  have "rows = rows' \<and> r = r'"
    by (rule concat_prefix_code [where f = code_json and d = "CHR '',''" and c = "CHR '']''"])
      (use "6.IH" "6.prems" w in auto)
  then show ?case by (simp add: w)
next
  case (7 m)
  then obtain m' where w: "w = JObj m'" by (cases w) (auto split: if_splits)
  have "x = y \<and> s = s'" if "x \<in> set m"
    and "(case x of (k, v) \<Rightarrow> code_str k @ code_json v) @ s =
         (case y of (k, v) \<Rightarrow> code_str k @ code_json v) @ s'" for x y s s'
    using "7.IH" [of x "fst x" "snd x"] that by (auto simp: case_prod_unfold code_str_prefix prod_eq_iff)
  then have "m = m' \<and> r = r'"
    by (rule concat_prefix_code [where f = "\<lambda>(k, v). code_str k @ code_json v" and
          d = "CHR '',''" and c = "CHR ''}''"])
      (use "7.prems" w in \<open>auto simp: case_prod_unfold\<close>)
  then show ?case by (simp add: w)
qed

lemma code_json_inject: "code_json v = code_json w \<longleftrightarrow> v = w"
  using code_json_prefix [of v "[]" w "[]"] by auto

lemma sample_libs_text_injective: "text_injective sample_libs"
  by (simp add: text_injective_def sample_libs_def inj_def code_json_inject)

text \<open>A canonical text determines the canonical value.\<close>

lemma canonical_json_inject:
  "text_injective L \<Longrightarrow> canonical_json L v = canonical_json L w \<longleftrightarrow>
     normalize_value v = normalize_value w"
  by (auto simp: text_injective_def canonical_json_def dest: injD)

lemma canonical_json_object:
  assumes "\<forall>(k, v) \<in> set kvs. canonical v"
  shows "canonical (json_object kvs)"
proof -
  have "set (fold (\<lambda>(k, v). bt_insert k v) kvs []) \<subseteq> set kvs"
    using set_fold_bt_insert [of kvs "[]"] by simp
  with assms show ?thesis
    by (auto simp: json_object_def normalize_obj_wf list_all_iff)
qed

end
