(* ===== verification/Conduit_Security.thy ===== *)
theory Conduit_Security
  imports Sample_Libs
begin

text \<open>
  The crate \<^verbatim>\<open>core/layer2/conduit-security\<close>: message signing, capability tokens (mint and
  validate) and the fixed-window rate limiter. The clock is an argument of the operations that
  read it; the digest and the JSON text come from \<open>libs\<close>.
\<close>

section \<open>Data\<close>

record capability_token =
  ct_token_id :: string
  ct_subject :: string
  ct_capabilities :: "string list"
  ct_issued_at_ms :: u64
  ct_expires_at_ms :: u64
  ct_signature :: string

datatype security_error =
    SignatureInvalid
  | CapabilityTokenInvalid
  | CapabilityTokenExpired
  | CapabilityTokenMissingScope string
  | RateLimited string u32 u64

fun show_security_error :: "security_error \<Rightarrow> string" where
  "show_security_error SignatureInvalid = ''message_signature_invalid''"
| "show_security_error CapabilityTokenInvalid = ''capability_token_invalid''"
| "show_security_error CapabilityTokenExpired = ''capability_token_expired''"
| "show_security_error (CapabilityTokenMissingScope scope) =
     ''capability_token_missing_scope:'' @ scope"
| "show_security_error (RateLimited scope limit window_ms) =
     ''rate_limited:'' @ scope @ '':'' @ show_word limit @ '':'' @ show_word window_ms"

section \<open>Message signing\<close>

record message_signer =
  ms_key_id :: string
  ms_secret :: string

definition sign_secret_payload :: "libs \<Rightarrow> string \<Rightarrow> string \<Rightarrow> string \<Rightarrow> string" where
  "sign_secret_payload L key_id secret payload =
     sha256_hex L (key_id @ '':'' @ secret @ '':'' @ payload)"

definition sign_payload :: "libs \<Rightarrow> message_signer \<Rightarrow> string \<Rightarrow> string" where
  "sign_payload L sg payload = sign_secret_payload L (ms_key_id sg) (ms_secret sg) payload"

definition verify_payload :: "libs \<Rightarrow> message_signer \<Rightarrow> string \<Rightarrow> string \<Rightarrow> bool" where
  "verify_payload L sg payload signature = (sign_payload L sg payload = signature)"

definition sign_value :: "libs \<Rightarrow> message_signer \<Rightarrow> json \<Rightarrow> string" where
  "sign_value L sg v = sign_payload L sg (canonical_json L v)"

definition verify_value :: "libs \<Rightarrow> message_signer \<Rightarrow> json \<Rightarrow> string \<Rightarrow> bool" where
  "verify_value L sg v signature = verify_payload L sg (canonical_json L v) signature"

section \<open>Capability tokens\<close>

record capability_token_authority =
  cta_signer :: message_signer

definition cta_new :: "string \<Rightarrow> string \<Rightarrow> capability_token_authority" where
  "cta_new key_id secret = \<lparr>cta_signer = \<lparr>ms_key_id = key_id, ms_secret = secret\<rparr>\<rparr>"

definition token_claims_view :: "capability_token \<Rightarrow> json" where
  "token_claims_view t = json_object
     [(''token_id'', JStr (ct_token_id t)),
      (''subject'', JStr (ct_subject t)),
      (''capabilities'', json_str_list (ct_capabilities t)),
      (''issued_at_ms'', json_word (ct_issued_at_ms t)),
      (''expires_at_ms'', json_word (ct_expires_at_ms t))]"

definition mint ::
  "libs \<Rightarrow> capability_token_authority \<Rightarrow> string \<Rightarrow> string \<Rightarrow> string list \<Rightarrow> u64 \<Rightarrow> u64 \<Rightarrow>
     capability_token" where
  "mint L auth tid subj caps issued expires =
     (let token = \<lparr>ct_token_id = tid, ct_subject = subj,
            ct_capabilities = remdups_adj (sort caps),
            ct_issued_at_ms = issued, ct_expires_at_ms = expires, ct_signature = []\<rparr>
      in token\<lparr>ct_signature := sign_value L (cta_signer auth) (token_claims_view token)\<rparr>)"

definition token_validate ::
  "libs \<Rightarrow> capability_token_authority \<Rightarrow> capability_token \<Rightarrow> u64 \<Rightarrow> string \<Rightarrow>
     (unit, security_error) rresult" where
  "token_validate L auth token now required_scope =
     (if \<not> verify_value L (cta_signer auth) (token_claims_view token) (ct_signature token)
      then Err CapabilityTokenInvalid
      else if now > ct_expires_at_ms token then Err CapabilityTokenExpired
      else if required_scope \<notin> set (ct_capabilities token)
      then Err (CapabilityTokenMissingScope required_scope)
      else Ok ())"

section \<open>The rate limiter\<close>

record rate_limit_policy =
  rlp_window_ms :: u64
  rlp_per_client_max :: u32
  rlp_per_client_command_max :: u32

definition rate_limit_policy_default :: rate_limit_policy where
  "rate_limit_policy_default =
     \<lparr>rlp_window_ms = 1000, rlp_per_client_max = 60, rlp_per_client_command_max = 20\<rparr>"

record window_counter =
  wc_window_start_ms :: u64
  wc_count :: u32

definition wc_new :: "u64 \<Rightarrow> window_counter" where
  "wc_new now = \<lparr>wc_window_start_ms = now, wc_count = 0\<rparr>"

definition wc_increment :: "window_counter \<Rightarrow> u64 \<Rightarrow> u64 \<Rightarrow> window_counter" where
  "wc_increment c now window_ms =
     (let c1 = (if saturating_sub now (wc_window_start_ms c) \<ge> window_ms
                then \<lparr>wc_window_start_ms = now, wc_count = 0\<rparr> else c)
      in c1\<lparr>wc_count := saturating_add (wc_count c1) 1\<rparr>)"

record rate_limiter =
  rl_policy :: rate_limit_policy
  rl_per_client :: "(string, window_counter) btree"
  rl_per_client_command :: "(string, window_counter) btree"

definition rate_limiter_new :: "rate_limit_policy \<Rightarrow> rate_limiter" where
  "rate_limiter_new policy = \<lparr>rl_policy = policy, rl_per_client = [], rl_per_client_command = []\<rparr>"

text \<open>The counter an entry holds after \<^verbatim>\<open>entry(k).or_insert_with(...)\<close> and \<^verbatim>\<open>increment\<close>.\<close>

definition bump_counter ::
  "(string, window_counter) btree \<Rightarrow> string \<Rightarrow> u64 \<Rightarrow> u64 \<Rightarrow> window_counter" where
  "bump_counter m k now window_ms =
     wc_increment (case bt_get m k of None \<Rightarrow> wc_new now | Some c \<Rightarrow> c) now window_ms"

definition command_key :: "string \<Rightarrow> string \<Rightarrow> string" where
  "command_key client_id command_type = client_id @ '':'' @ command_type"

definition rate_allow ::
  "rate_limiter \<Rightarrow> string \<Rightarrow> string \<Rightarrow> u64 \<Rightarrow> (unit, security_error) rresult \<times> rate_limiter" where
  "rate_allow rl client_id command_type now =
     (let p = rl_policy rl;
          cc = bump_counter (rl_per_client rl) client_id now (rlp_window_ms p);
          rl1 = rl\<lparr>rl_per_client := bt_insert client_id cc (rl_per_client rl)\<rparr>
      in if wc_count cc > rlp_per_client_max p
         then (Err (RateLimited ''client'' (rlp_per_client_max p) (rlp_window_ms p)), rl1)
         else
           let key = command_key client_id command_type;
               kc = bump_counter (rl_per_client_command rl1) key now (rlp_window_ms p);
               rl2 = rl1\<lparr>rl_per_client_command := bt_insert key kc (rl_per_client_command rl1)\<rparr>
           in if wc_count kc > rlp_per_client_command_max p
              then (Err (RateLimited ''client_command'' (rlp_per_client_command_max p)
                     (rlp_window_ms p)), rl2)
              else (Ok (), rl2))"

text \<open>A sequence of requests \<open>(client, command type, time)\<close> against the limiter, with the
  verdict of each.\<close>

type_synonym rate_request = "string \<times> string \<times> u64"

fun rate_run :: "rate_limiter \<Rightarrow> rate_request list \<Rightarrow> (rate_request \<times> bool) list" where
  "rate_run rl [] = []"
| "rate_run rl ((c, k, now) # rs) =
     (case rate_allow rl c k now of (res, rl') \<Rightarrow> ((c, k, now), res = Ok ()) # rate_run rl' rs)"

definition accepted_of :: "string \<Rightarrow> (rate_request \<times> bool) list \<Rightarrow> nat" where
  "accepted_of c vs = length (filter (\<lambda>(r, ok). fst r = c \<and> ok) vs)"

section \<open>Signing laws\<close>

locale signing_scheme =
  fixes sign :: "'p \<Rightarrow> 's"
    and verify :: "'p \<Rightarrow> 's \<Rightarrow> bool"
  assumes verify_iff: "verify p s \<longleftrightarrow> sign p = s"
begin

lemma verify_sign: "verify p (sign p)"
  by (simp add: verify_iff)

lemma verify_unique: "verify p s \<Longrightarrow> verify p s' \<Longrightarrow> s = s'"
  by (simp add: verify_iff)

lemma verify_same_signature: "verify p s \<Longrightarrow> verify q s \<Longrightarrow> sign p = sign q"
  by (simp add: verify_iff)

end

interpretation payload_signing: signing_scheme "sign_payload L sg" "verify_payload L sg" for L sg
  by unfold_locales (simp add: verify_payload_def)

interpretation value_signing: signing_scheme "sign_value L sg" "verify_value L sg" for L sg
  by unfold_locales (simp add: verify_value_def sign_value_def verify_payload_def)

lemma token_claims_view_signature [simp]:
  "token_claims_view (t\<lparr>ct_signature := s\<rparr>) = token_claims_view t"
  by (simp add: token_claims_view_def)

lemma mint_fields [simp]:
  "ct_capabilities (mint L auth tid subj caps i e) = remdups_adj (sort caps)"
  "ct_expires_at_ms (mint L auth tid subj caps i e) = e"
  "ct_subject (mint L auth tid subj caps i e) = subj"
  by (simp_all add: mint_def Let_def)

lemma mint_signed:
  "verify_value L (cta_signer auth) (token_claims_view (mint L auth tid subj caps i e))
     (ct_signature (mint L auth tid subj caps i e))"
  by (simp add: mint_def Let_def token_claims_view_def value_signing.verify_sign)

lemma token_validate_Ok_iff:
  "token_validate L auth t now scope = Ok () \<longleftrightarrow>
     verify_value L (cta_signer auth) (token_claims_view t) (ct_signature t) \<and>
     now \<le> ct_expires_at_ms t \<and> scope \<in> set (ct_capabilities t)"
  by (auto simp: token_validate_def)

lemma mint_validate:
  "token_validate L auth (mint L auth tid subj caps i e) now scope =
     (if e < now then Err CapabilityTokenExpired
      else if scope \<notin> set caps then Err (CapabilityTokenMissingScope scope)
      else Ok ())"
  by (simp add: token_validate_def mint_signed)

text \<open>The text whose digest is the signature of a token.\<close>

definition signed_token_text :: "libs \<Rightarrow> capability_token_authority \<Rightarrow> capability_token \<Rightarrow> string" where
  "signed_token_text L auth t =
     ms_key_id (cta_signer auth) @ '':'' @ ms_secret (cta_signer auth) @ '':'' @
     canonical_json L (token_claims_view t)"

lemma normalize_token_claims [simp]:
  "normalize_value (token_claims_view t) = token_claims_view t"
  by (rule normalize_canonical)
    (auto simp: token_claims_view_def list_all_iff intro!: canonical_json_object)

lemma token_claims_view_inject:
  assumes "token_claims_view t = token_claims_view t'" "ct_signature t = ct_signature t'"
  shows "t = t'"
proof -
  have "json_get (token_claims_view t) k = json_get (token_claims_view t') k" for k
    using assms(1) by simp
  from this [of "''token_id''"] this [of "''subject''"] this [of "''capabilities''"]
    this [of "''issued_at_ms''"] this [of "''expires_at_ms''"] assms(2)
  show ?thesis
    by (cases t, cases t')
      (auto simp: token_claims_view_def json_object_def bt_get_insert inj_map_eq_map inj_def word_uint_eq_iff)
qed

section \<open>Rate limiting laws\<close>

definition in_window :: "window_counter \<Rightarrow> u64 \<Rightarrow> u64 \<Rightarrow> bool" where
  "in_window c now window_ms = (saturating_sub now (wc_window_start_ms c) < window_ms)"

lemma wc_increment_in_window:
  assumes "in_window c now w"
  shows "wc_window_start_ms (wc_increment c now w) = wc_window_start_ms c"
    and "unat (wc_count (wc_increment c now w)) = min (2 ^ 32 - 1) (unat (wc_count c) + 1)"
  using assms by (auto simp: wc_increment_def in_window_def Let_def rust_simps)

lemma bump_counter_new:
  assumes "bt_get m k = None" "0 < w"
  shows "bump_counter m k now w = \<lparr>wc_window_start_ms = now, wc_count = 1\<rparr>"
  using assms by (simp add: bump_counter_def wc_new_def wc_increment_def saturating_add_def)

lemma rate_allow_policy [simp]: "rl_policy (snd (rate_allow rl c k now)) = rl_policy rl"
  by (simp add: rate_allow_def Let_def)

lemma rate_allow_per_client:
  "bt_get (rl_per_client (snd (rate_allow rl c k now))) c' =
     (if c' = c then Some (bump_counter (rl_per_client rl) c now (rlp_window_ms (rl_policy rl)))
      else bt_get (rl_per_client rl) c')"
  by (simp add: rate_allow_def Let_def bt_get_insert)

lemma rate_allow_Ok_client:
  "fst (rate_allow rl c k now) = Ok () \<Longrightarrow>
     wc_count (bump_counter (rl_per_client rl) c now (rlp_window_ms (rl_policy rl)))
       \<le> rlp_per_client_max (rl_policy rl)"
  by (auto simp: rate_allow_def Let_def split: if_splits)

lemma rate_run_Cons:
  "rate_run rl ((c, k, now) # rs) =
     ((c, k, now), fst (rate_allow rl c k now) = Ok ()) # rate_run (snd (rate_allow rl c k now)) rs"
  by (simp add: case_prod_unfold)

lemma accepted_of_Cons:
  "accepted_of c (((c', k, now), ok) # vs) = (if c' = c \<and> ok then 1 else 0) + accepted_of c vs"
  by (simp add: accepted_of_def)

lemmas rate_run_simps = rate_run_Cons accepted_of_Cons

text \<open>From a state where client \<open>c\<close> has an open window, at most what is left of its budget is
  accepted while the requests stay inside that window.\<close>

lemma accepted_of_open_window:
  assumes "bt_get (rl_per_client rl) c = Some wc"
    and "\<And>k now. (c, k, now) \<in> set rs \<Longrightarrow> in_window wc now (rlp_window_ms (rl_policy rl))"
    and "unat (rlp_per_client_max (rl_policy rl)) < 2 ^ 32 - 1"
  shows "accepted_of c (rate_run rl rs) \<le> unat (rlp_per_client_max (rl_policy rl)) - unat (wc_count wc)"
  using assms
proof (induction rs arbitrary: rl wc)
  case Nil
  then show ?case by (simp add: accepted_of_def)
next
  case (Cons r rs)
  obtain c' k now where r: "r = (c', k, now)" by (cases r)
  let ?rl = "snd (rate_allow rl c' k now)" and ?max = "unat (rlp_per_client_max (rl_policy rl))"
  show ?case
  proof (cases "c' = c")
    case False
    then have "accepted_of c (rate_run ?rl rs) \<le> ?max - unat (wc_count wc)"
      using Cons.IH [of ?rl wc] Cons.prems by (simp add: rate_allow_per_client r)
    with False show ?thesis by (simp add: r rate_run_simps del: rate_run.simps)
  next
    case True
    let ?w = "rlp_window_ms (rl_policy rl)"
    let ?wc = "bump_counter (rl_per_client rl) c now ?w"
    have win: "in_window wc now ?w" using Cons.prems(2) r True by auto
    have bump: "?wc = wc_increment wc now ?w"
      by (simp add: bump_counter_def Cons.prems(1))
    have start: "wc_window_start_ms ?wc = wc_window_start_ms wc"
      and count: "unat (wc_count ?wc) = min (2 ^ 32 - 1) (unat (wc_count wc) + 1)"
      using wc_increment_in_window [OF win] by (simp_all add: bump)
    have "in_window ?wc t ?w" if "(c, j, t) \<in> set rs" for j t
      using Cons.prems(2) [of j t] that start by (simp add: in_window_def)
    then have "accepted_of c (rate_run ?rl rs) \<le> ?max - unat (wc_count ?wc)"
      using Cons.IH [of ?rl ?wc] Cons.prems(3) by (simp add: rate_allow_per_client True)
    moreover have "fst (rate_allow rl c k now) = Ok () \<Longrightarrow> unat (wc_count ?wc) \<le> ?max"
      using rate_allow_Ok_client [of rl c k now] by (simp add: word_le_nat_alt)
    ultimately show ?thesis
      using count Cons.prems(3) by (auto simp: r True rate_run_simps simp del: rate_run.simps)
  qed
qed

text \<open>A fresh limiter, one client, requests that all fall in the window its first request opens.\<close>

lemma accepted_of_closed_client:
  assumes "bt_get (rl_per_client rl) c = None"
    and "0 < rlp_window_ms (rl_policy rl)"
    and "\<And>k now k0 t0 pre post. rs = pre @ (c, k0, t0) # post \<Longrightarrow> c \<notin> fst ` set pre \<Longrightarrow>
           (c, k, now) \<in> set post \<Longrightarrow> saturating_sub now t0 < rlp_window_ms (rl_policy rl)"
    and "unat (rlp_per_client_max (rl_policy rl)) < 2 ^ 32 - 1"
  shows "accepted_of c (rate_run rl rs) \<le> unat (rlp_per_client_max (rl_policy rl))"
  using assms
proof (induction rs arbitrary: rl)
  case Nil
  then show ?case by (simp add: accepted_of_def)
next
  case (Cons r rs)
  obtain c' k now where r: "r = (c', k, now)" by (cases r)
  let ?rl = "snd (rate_allow rl c' k now)" and ?max = "unat (rlp_per_client_max (rl_policy rl))"
  let ?w = "rlp_window_ms (rl_policy rl)"
  show ?case
  proof (cases "c' = c")
    case False
    have "accepted_of c (rate_run ?rl rs) \<le> unat (rlp_per_client_max (rl_policy ?rl))"
    proof (rule Cons.IH)
      fix k1 t k0 t0 pre post
      assume "rs = pre @ (c, k0, t0) # post" "c \<notin> fst ` set pre" "(c, k1, t) \<in> set post"
      then show "saturating_sub t t0 < rlp_window_ms (rl_policy ?rl)"
        using Cons.prems(3) [of "r # pre" k0 t0 post k1 t] False by (simp add: r)
    qed (use Cons.prems False in \<open>simp_all add: rate_allow_per_client\<close>)
    with False show ?thesis by (simp add: r rate_run_simps del: rate_run.simps)
  next
    case True
    let ?wc = "bump_counter (rl_per_client rl) c now ?w"
    have wc: "?wc = \<lparr>wc_window_start_ms = now, wc_count = 1\<rparr>"
      by (rule bump_counter_new [OF Cons.prems(1,2)])
    have "in_window ?wc t ?w" if "(c, j, t) \<in> set rs" for j t
      using Cons.prems(3) [of "[]" k now rs j t] that by (simp add: r True wc in_window_def)
    then have "accepted_of c (rate_run ?rl rs) \<le> ?max - unat (wc_count ?wc)"
      using accepted_of_open_window [of ?rl c ?wc rs] Cons.prems(4)
      by (simp add: rate_allow_per_client True)
    moreover have "fst (rate_allow rl c k now) = Ok () \<Longrightarrow> unat (wc_count ?wc) \<le> ?max"
      using rate_allow_Ok_client [of rl c k now] by (simp add: word_le_nat_alt)
    ultimately show ?thesis
      by (auto simp: r True wc rate_run_simps simp del: rate_run.simps)
  qed
qed

section \<open>Isolation of clients\<close>

text \<open>What the limiter knows about client \<open>c\<close> and the command types that carry no colon.\<close>

definition same_view :: "string \<Rightarrow> rate_limiter \<Rightarrow> rate_limiter \<Rightarrow> bool" where
  "same_view c rl rl' \<longleftrightarrow>
     rl_policy rl = rl_policy rl' \<and>
     bt_get (rl_per_client rl) c = bt_get (rl_per_client rl') c \<and>
     (\<forall>k. CHR '':'' \<notin> set k \<longrightarrow>
        bt_get (rl_per_client_command rl) (command_key c k) =
        bt_get (rl_per_client_command rl') (command_key c k))"

lemma command_key_inject:
  assumes "CHR '':'' \<notin> set k" "CHR '':'' \<notin> set k'"
  shows "command_key c k = command_key c' k' \<longleftrightarrow> c = c' \<and> k = k'"
proof
  assume "command_key c k = command_key c' k'"
  then have "rev (c @ '':'' @ k) = rev (c' @ '':'' @ k')" by (simp only: command_key_def)
  then have "rev k @ CHR '':'' # rev c = rev k' @ CHR '':'' # rev c'" by simp
  then have "rev k = rev k' \<and> rev c = rev c'"
    using assms by (simp add: append_sep_inject)
  then show "c = c' \<and> k = k'" by simp
qed simp

lemma same_view_refl [simp]: "same_view c rl rl"
  by (simp add: same_view_def)

lemma rate_allow_commands_other:
  assumes "key \<noteq> command_key c k"
  shows "bt_get (rl_per_client_command (snd (rate_allow rl c k now))) key =
     bt_get (rl_per_client_command rl) key"
  using assms by (simp add: rate_allow_def Let_def bt_get_insert)

lemma rate_allow_commands_same:
  "bt_get (rl_per_client_command (snd (rate_allow rl c k now))) (command_key c k) =
     (if wc_count (bump_counter (rl_per_client rl) c now (rlp_window_ms (rl_policy rl)))
         > rlp_per_client_max (rl_policy rl)
      then bt_get (rl_per_client_command rl) (command_key c k)
      else Some (bump_counter (rl_per_client_command rl) (command_key c k) now
             (rlp_window_ms (rl_policy rl))))"
  by (simp add: rate_allow_def Let_def bt_get_insert)

lemma same_view_allow_other:
  assumes "c' \<noteq> c" "CHR '':'' \<notin> set k"
  shows "same_view c (snd (rate_allow rl c' k now)) rl"
  using assms
  by (auto simp: same_view_def rate_allow_per_client rate_allow_commands_other command_key_inject)

lemma same_view_allow_same:
  assumes "same_view c rl rl'" "CHR '':'' \<notin> set k"
  shows "fst (rate_allow rl c k now) = fst (rate_allow rl' c k now)"
    and "same_view c (snd (rate_allow rl c k now)) (snd (rate_allow rl' c k now))"
proof -
  have eqs: "rl_policy rl' = rl_policy rl"
    "bt_get (rl_per_client rl') c = bt_get (rl_per_client rl) c"
    "bt_get (rl_per_client_command rl') (command_key c k) =
     bt_get (rl_per_client_command rl) (command_key c k)"
    using assms by (auto simp: same_view_def)
  show "fst (rate_allow rl c k now) = fst (rate_allow rl' c k now)"
    by (simp add: rate_allow_def Let_def bump_counter_def eqs)
  show "same_view c (snd (rate_allow rl c k now)) (snd (rate_allow rl' c k now))"
  proof -
    have "bt_get (rl_per_client_command (snd (rate_allow rl c k now))) (command_key c j) =
        bt_get (rl_per_client_command (snd (rate_allow rl' c k now))) (command_key c j)"
      if j: "CHR '':'' \<notin> set j" for j
    proof (cases "j = k")
      case True
      then show ?thesis by (simp add: rate_allow_commands_same bump_counter_def eqs)
    next
      case False
      then have "command_key c j \<noteq> command_key c k" by (simp add: command_key_def)
      then show ?thesis
        using assms(1) j by (simp add: rate_allow_commands_other same_view_def)
    qed
    then show ?thesis
      by (simp add: same_view_def rate_allow_per_client bump_counter_def eqs)
  qed
qed

lemma same_view_trans:
  "same_view c rl rl' \<Longrightarrow> same_view c rl' rl'' \<Longrightarrow> same_view c rl rl''"
  by (simp add: same_view_def)

lemma rate_run_view:
  "same_view c rl rl' \<Longrightarrow> \<forall>(_, k, _) \<in> set rs. CHR '':'' \<notin> set k \<Longrightarrow>
     filter (\<lambda>(r, ok). fst r = c) (rate_run rl rs) =
     rate_run rl' (filter (\<lambda>r. fst r = c) rs)"
proof (induction rs arbitrary: rl rl')
  case (Cons r rs)
  obtain c' k now where r: "r = (c', k, now)" by (cases r)
  show ?case
  proof (cases "c' = c")
    case True
    with Cons.prems same_view_allow_same [of c rl rl' k now] show ?thesis
      by (simp add: r rate_run_Cons Cons.IH del: rate_run.simps)
  next
    case False
    have "same_view c (snd (rate_allow rl c' k now)) rl'"
      using same_view_allow_other [OF False, of k rl now] Cons.prems
      by (auto simp: r intro: same_view_trans)
    with Cons.prems Cons.IH False show ?thesis
      by (simp add: r rate_run_Cons del: rate_run.simps)
  qed
qed simp

section \<open>Properties\<close>

text \<open>Minting a token and validating it with the same authority gives exactly the verdict the
  expiry and the requested scope call for: expired after its expiry time, otherwise missing scope
  unless the scope was among the capabilities it was minted with, otherwise accepted.\<close>

lemma mint_validate_verdict:
  "token_validate L auth (mint L auth tid subj caps issued expires) now scope =
     (if expires < now then Err CapabilityTokenExpired
      else if scope \<notin> set caps then Err (CapabilityTokenMissingScope scope)
      else Ok ())"
  by (rule mint_validate)

text \<open>The signature of an accepted token binds every claim. When the authority accepts two
  tokens that carry the same signature, they agree on the token id, the subject, the
  capabilities and both times, unless the two distinct texts that were signed collide under the
  digest. Editing any claim of a minted token while keeping its signature therefore needs that
  digest collision.\<close>

lemma accepted_tokens_bind_claims:
  assumes "text_injective L"
    and "token_validate L auth t now scope = Ok ()"
    and "token_validate L auth t' now' scope' = Ok ()"
    and "ct_signature t = ct_signature t'"
  shows "t = t' \<or>
     (signed_token_text L auth t \<noteq> signed_token_text L auth t' \<and>
      sha256_hex L (signed_token_text L auth t) = sha256_hex L (signed_token_text L auth t'))"
proof -
  let ?sg = "cta_signer auth"
  have "sign_value L ?sg (token_claims_view t) = sign_value L ?sg (token_claims_view t')"
    using assms by (intro value_signing.verify_same_signature) (auto simp: token_validate_Ok_iff)
  moreover have "t = t'" if "signed_token_text L auth t = signed_token_text L auth t'"
    using that assms(1,4)
    by (auto simp: signed_token_text_def canonical_json_inject normalize_token_claims
        intro: token_claims_view_inject)
  ultimately show ?thesis
    unfolding sign_value_def sign_payload_def sign_secret_payload_def signed_token_text_def by blast
qed

lemma accepted_tokens_bind_claims_witness:
  "let L = sample_libs\<lparr>sha256_hex := (\<lambda>_. ''00'')\<rparr>; auth = cta_new ''k'' ''s'';
       t = mint L auth ''t'' ''u'' [''system.read''] 5 9;
       t' = mint L auth ''t'' ''u'' [''policy.update''] 5 9
   in signed_token_text L auth t \<noteq> signed_token_text L auth t' \<and>
      sha256_hex L (signed_token_text L auth t) = sha256_hex L (signed_token_text L auth t')"
proof -
  let ?L = "sample_libs\<lparr>sha256_hex := (\<lambda>_. ''00'')\<rparr>" and ?a = "cta_new ''k'' ''s''"
  let ?t = "mint ?L ?a ''t'' ''u'' [''system.read''] 5 9"
    and ?u = "mint ?L ?a ''t'' ''u'' [''policy.update''] 5 9"
  have "ct_signature ?t = ct_signature ?u"
    by (simp add: mint_def Let_def sign_value_def sign_payload_def sign_secret_payload_def)
  moreover have "?t \<noteq> ?u" by (simp add: mint_def Let_def)
  moreover have "text_injective ?L"
    using sample_libs_text_injective by (simp add: text_injective_def)
  ultimately show ?thesis
    using accepted_tokens_bind_claims [of ?L ?a ?t 7 "''system.read''" ?u 8 "''policy.update''"]
    by (simp add: mint_validate)
qed



text \<open>Clients do not influence each other. As long as command types carry no colon (the
  conduit's never do), the verdicts of client \<open>c\<close> in an interleaved run are exactly its verdicts when
  only its own requests are made.\<close>

lemma rate_clients_isolated:
  assumes "\<forall>(_, k, _) \<in> set rs. CHR '':'' \<notin> set k"
  shows "filter (\<lambda>(r, ok). fst r = c) (rate_run rl rs) = rate_run rl (filter (\<lambda>r. fst r = c) rs)"
  using assms by (intro rate_run_view) simp_all

lemma rate_clients_isolated_witness:
  "filter (\<lambda>(r, ok). fst r = ''a'') (rate_run (rate_limiter_new rate_limit_policy_default)
      [(''a'', ''stop_agent'', 1), (''b'', ''stop_agent'', 2)]) =
   rate_run (rate_limiter_new rate_limit_policy_default)
      (filter (\<lambda>r. fst r = ''a'') [(''a'', ''stop_agent'', 1), (''b'', ''stop_agent'', 2)])"
  by (rule rate_clients_isolated) simp

end
