(* ===== verification/Conduit_Policy.thy ===== *)
theory Conduit_Policy
  imports Conduit_Security
begin

text \<open>
  The typed messages of \<^verbatim>\<open>core/layer2/conduit\<close> with their JSON form, and its policy gates:
  \<^verbatim>\<open>FailClosedPolicy\<close>, \<^verbatim>\<open>AllowAllPolicy\<close> and \<^verbatim>\<open>RegistryPolicyGate\<close>, which reads the constitution and
  the guard registry once and denies every command when its bootstrap failed. The trait
  \<^verbatim>\<open>PolicyGate\<close> is the locale \<open>policy_gate\<close>, interpreted on the three gates.

  Files are read through \<open>read_to_string\<close> and the guard registry is parsed by \<open>parse_registry\<close>
  (\<^verbatim>\<open>serde_json::from_str\<close> into the struct), both fields of the record \<open>gate_env\<close>.
\<close>

section \<open>Commands and their envelope\<close>

datatype ts_command =
    StartAgent string
  | StopAgent string
  | QueryReceiptChain "string option" "u32 option"
  | ListActiveAgents
  | GetSystemStatus
  | ApplyPolicyUpdate string json
  | InstallExtension string string "string list"

definition TS_COMMAND_TYPES :: "string list" where
  "TS_COMMAND_TYPES =
     [''start_agent'', ''stop_agent'', ''query_receipt_chain'', ''list_active_agents'',
      ''get_system_status'', ''apply_policy_update'', ''install_extension'']"

definition RUST_EVENT_TYPES :: "string list" where
  "RUST_EVENT_TYPES = [''agent_lifecycle'', ''receipt_added'', ''system_feedback'']"

fun command_type_name :: "ts_command \<Rightarrow> string" where
  "command_type_name (StartAgent _) = ''start_agent''"
| "command_type_name (StopAgent _) = ''stop_agent''"
| "command_type_name (QueryReceiptChain _ _) = ''query_receipt_chain''"
| "command_type_name ListActiveAgents = ''list_active_agents''"
| "command_type_name GetSystemStatus = ''get_system_status''"
| "command_type_name (ApplyPolicyUpdate _ _) = ''apply_policy_update''"
| "command_type_name (InstallExtension _ _ _) = ''install_extension''"

text \<open>The \<^verbatim>\<open>Serialize\<close> form of a command: tagged by \<^verbatim>\<open>type\<close>, fields beside the tag.\<close>

fun command_fields :: "ts_command \<Rightarrow> (string \<times> json) list" where
  "command_fields (StartAgent agent_id) = [(''agent_id'', JStr agent_id)]"
| "command_fields (StopAgent agent_id) = [(''agent_id'', JStr agent_id)]"
| "command_fields (QueryReceiptChain from_hash limit) =
     [(''from_hash'', json_opt_str from_hash),
      (''limit'', case limit of None \<Rightarrow> JNull | Some n \<Rightarrow> json_word n)]"
| "command_fields ListActiveAgents = []"
| "command_fields GetSystemStatus = []"
| "command_fields (ApplyPolicyUpdate patch_id patch) =
     [(''patch_id'', JStr patch_id), (''patch'', patch)]"
| "command_fields (InstallExtension extension_id wasm_sha256 capabilities) =
     [(''extension_id'', JStr extension_id), (''wasm_sha256'', JStr wasm_sha256),
      (''capabilities'', json_str_list capabilities)]"

definition command_json :: "ts_command \<Rightarrow> json" where
  "command_json cmd = json_object ((''type'', JStr (command_type_name cmd)) # command_fields cmd)"

definition CONDUIT_SCHEMA_ID :: string where
  "CONDUIT_SCHEMA_ID = ''protheus_conduit''"

definition CONDUIT_SCHEMA_VERSION :: string where
  "CONDUIT_SCHEMA_VERSION = ''1.0''"

definition MAX_CONDUIT_MESSAGE_TYPES :: nat where
  "MAX_CONDUIT_MESSAGE_TYPES = 10"

record command_security_metadata =
  csm_client_id :: string
  csm_key_id :: string
  csm_nonce :: string
  csm_signature :: string
  csm_capability_token :: capability_token

record command_envelope =
  ce_schema_id :: string
  ce_schema_version :: string
  ce_request_id :: string
  ce_ts_ms :: u64
  ce_command :: ts_command
  ce_security :: command_security_metadata

text \<open>\<^verbatim>\<open>CommandEnvelope::new\<close>, with the clock reading as an argument.\<close>

definition command_envelope_new ::
  "u64 \<Rightarrow> string \<Rightarrow> ts_command \<Rightarrow> command_security_metadata \<Rightarrow> command_envelope" where
  "command_envelope_new now request_id command security =
     \<lparr>ce_schema_id = CONDUIT_SCHEMA_ID, ce_schema_version = CONDUIT_SCHEMA_VERSION,
      ce_request_id = request_id, ce_ts_ms = now, ce_command = command, ce_security = security\<rparr>"

section \<open>Policy\<close>

record policy_decision =
  pd_allow :: bool
  pd_reason :: string

definition decision_allow :: policy_decision where
  "decision_allow = \<lparr>pd_allow = True, pd_reason = ''policy_allow''\<rparr>"

definition decision_deny :: "string \<Rightarrow> policy_decision" where
  "decision_deny reason = \<lparr>pd_allow = False, pd_reason = reason\<rparr>"

definition fail_closed_evaluate :: "ts_command \<Rightarrow> policy_decision" where
  "fail_closed_evaluate cmd = decision_deny ''policy_gate_not_configured''"

definition allow_all_evaluate :: "ts_command \<Rightarrow> policy_decision" where
  "allow_all_evaluate cmd = decision_allow"

record conduit_policy =
  cp_constitution_path :: string
  cp_guard_registry_path :: string
  cp_required_constitution_markers :: "string list"
  cp_required_guard_checks :: "string list"
  cp_command_required_capabilities :: "(string, string) btree"
  cp_allow_policy_update_prefixes :: "string list"
  cp_rate_limit :: rate_limit_policy
  cp_bridge_message_budget_max :: nat

definition default_capabilities :: "(string, string) btree" where
  "default_capabilities = fold (\<lambda>(k, v). bt_insert k v)
     [(''start_agent'', ''agent.lifecycle''), (''stop_agent'', ''agent.lifecycle''),
      (''query_receipt_chain'', ''receipt.read''), (''list_active_agents'', ''system.read''),
      (''get_system_status'', ''system.read''), (''apply_policy_update'', ''policy.update''),
      (''install_extension'', ''extension.install'')] []"

definition conduit_policy_default :: conduit_policy where
  "conduit_policy_default =
     \<lparr>cp_constitution_path = ''docs/workspace/AGENT-CONSTITUTION.md'',
      cp_guard_registry_path = ''client/runtime/config/guard_check_registry.json'',
      cp_required_constitution_markers = [''Mind Sovereignty Covenant'', ''RSI Guardrails''],
      cp_required_guard_checks = [''contract_check'', ''formal_invariant_engine''],
      cp_command_required_capabilities = default_capabilities,
      cp_allow_policy_update_prefixes = [''constitution_safe/''],
      cp_rate_limit = rate_limit_policy_default,
      cp_bridge_message_budget_max = MAX_CONDUIT_MESSAGE_TYPES\<rparr>"

definition conduit_message_contract_count :: nat where
  "conduit_message_contract_count = length TS_COMMAND_TYPES + length RUST_EVENT_TYPES"

definition validate_conduit_contract_budget :: "nat \<Rightarrow> (unit, string) rresult" where
  "validate_conduit_contract_budget max_budget =
     (if max_budget = 0 then Err ''conduit_message_budget_invalid_zero''
      else let count = conduit_message_contract_count
        in if count > max_budget
           then Err (''conduit_message_budget_exceeded:'' @ show_nat count @ ''>'' @ show_nat max_budget)
           else Ok ())"

section \<open>The registry gate\<close>

record guard_registry_check =
  grc_id :: "string option"

record guard_registry_merge_guard =
  grm_checks :: "guard_registry_check list option"

record guard_registry_snapshot =
  grs_merge_guard :: "guard_registry_merge_guard option"

record gate_env =
  read_to_string :: "string \<Rightarrow> string option"
  parse_registry :: "string \<Rightarrow> guard_registry_snapshot option"

definition parse_guard_registry_check_ids ::
  "gate_env \<Rightarrow> string \<Rightarrow> (string list, string) rresult" where
  "parse_guard_registry_check_ids E raw =
     (case parse_registry E raw of None \<Rightarrow> Err ''guard_registry_invalid_json''
      | Some snapshot \<Rightarrow>
          (case Option.bind (grs_merge_guard snapshot) grm_checks of
             None \<Rightarrow> Err ''guard_registry_checks_missing''
           | Some checks \<Rightarrow> Ok (btree_set (List.map_filter grc_id checks))))"

text \<open>\<^verbatim>\<open>bootstrap\<close>: the error it records, if any, in the order of its early returns.\<close>

definition bootstrap_registry :: "gate_env \<Rightarrow> conduit_policy \<Rightarrow> string option" where
  "bootstrap_registry E p =
     (case read_to_string E (cp_guard_registry_path p) of
        None \<Rightarrow> Some ''guard_registry_unavailable''
      | Some registry_body \<Rightarrow>
          (case parse_guard_registry_check_ids E registry_body of
             Inl reason \<Rightarrow> Some reason
           | Inr checks \<Rightarrow>
               (case List.find (\<lambda>required. required \<notin> set checks) (cp_required_guard_checks p) of
                  Some required \<Rightarrow> Some (''guard_registry_required_check_missing:'' @ required)
                | None \<Rightarrow> None)))"

definition bootstrap_constitution :: "gate_env \<Rightarrow> conduit_policy \<Rightarrow> string option" where
  "bootstrap_constitution E p =
     (case read_to_string E (cp_constitution_path p) of
        None \<Rightarrow> Some ''constitution_file_unavailable''
      | Some body \<Rightarrow>
          (case List.find (\<lambda>marker. \<not> str_contains body marker)
                  (cp_required_constitution_markers p) of
             Some marker \<Rightarrow> Some (''constitution_marker_missing:'' @ marker)
           | None \<Rightarrow> None))"

definition bootstrap :: "gate_env \<Rightarrow> conduit_policy \<Rightarrow> string option" where
  "bootstrap E p =
     (case validate_conduit_contract_budget (cp_bridge_message_budget_max p) of
        Inl reason \<Rightarrow> Some reason
      | Inr _ \<Rightarrow>
          if length (cp_command_required_capabilities p) \<noteq> length TS_COMMAND_TYPES
          then Some ''command_capability_mapping_cardinality_mismatch''
          else
            (case List.find (\<lambda>ct. \<not> bt_contains_key (cp_command_required_capabilities p) ct)
                    TS_COMMAND_TYPES of
               Some ct \<Rightarrow> Some (''policy_missing_command_capability_mapping:'' @ ct)
             | None \<Rightarrow>
                 (case bootstrap_constitution E p of
                    Some reason \<Rightarrow> Some reason
                  | None \<Rightarrow> bootstrap_registry E p)))"

record registry_policy_gate =
  rpg_policy :: conduit_policy
  rpg_bootstrap_error :: "string option"

definition registry_policy_gate_new :: "gate_env \<Rightarrow> conduit_policy \<Rightarrow> registry_policy_gate" where
  "registry_policy_gate_new E p = \<lparr>rpg_policy = p, rpg_bootstrap_error = bootstrap E p\<rparr>"

definition validate_command_mapping ::
  "registry_policy_gate \<Rightarrow> ts_command \<Rightarrow> (unit, string) rresult" where
  "validate_command_mapping g cmd =
     (let ct = command_type_name cmd
      in if \<not> bt_contains_key (cp_command_required_capabilities (rpg_policy g)) ct
         then Err (''policy_missing_command_capability_mapping:'' @ ct)
         else
           (case cmd of
              ApplyPolicyUpdate patch_id _ \<Rightarrow>
                if \<exists>prefix \<in> set (cp_allow_policy_update_prefixes (rpg_policy g)).
                     starts_with patch_id prefix
                then Ok () else Err ''policy_update_must_be_constitution_safe''
            | _ \<Rightarrow> Ok ()))"

definition registry_evaluate :: "registry_policy_gate \<Rightarrow> ts_command \<Rightarrow> policy_decision" where
  "registry_evaluate g cmd =
     (case rpg_bootstrap_error g of
        Some reason \<Rightarrow> decision_deny reason
      | None \<Rightarrow>
          (case validate_command_mapping g cmd of
             Inl reason \<Rightarrow> decision_deny reason
           | Inr _ \<Rightarrow> decision_allow))"

section \<open>The contract of a policy gate\<close>

locale policy_gate =
  fixes evaluate :: "ts_command \<Rightarrow> policy_decision"
  assumes allow_decision: "pd_allow (evaluate cmd) \<Longrightarrow> evaluate cmd = decision_allow"
begin

lemma allow_reason: "pd_allow (evaluate cmd) \<Longrightarrow> pd_reason (evaluate cmd) = ''policy_allow''"
  using allow_decision [of cmd] by (simp add: decision_allow_def)

lemma allow_iff: "pd_allow (evaluate cmd) \<longleftrightarrow> evaluate cmd = decision_allow"
  using allow_decision [of cmd] by (auto simp: decision_allow_def)

end

lemma decision_simps [simp]:
  "pd_allow decision_allow" "\<not> pd_allow (decision_deny r)" "pd_reason (decision_deny r) = r"
  by (simp_all add: decision_allow_def decision_deny_def)

interpretation fail_closed: policy_gate fail_closed_evaluate
  by unfold_locales (simp add: fail_closed_evaluate_def)

interpretation allow_all: policy_gate allow_all_evaluate
  by unfold_locales (simp add: allow_all_evaluate_def)

interpretation registry: policy_gate "registry_evaluate g" for g
  by unfold_locales (auto simp: registry_evaluate_def split: option.splits sum.splits)

section \<open>Facts about the gates\<close>

lemma command_type_name_in [simp]: "command_type_name cmd \<in> set TS_COMMAND_TYPES"
  by (cases cmd) (simp_all add: TS_COMMAND_TYPES_def)

lemma command_type_no_colon: "CHR '':'' \<notin> set (command_type_name cmd)"
  by (cases cmd) simp_all

lemma find_None_iff_all: "List.find P xs = None \<longleftrightarrow> (\<forall>x \<in> set xs. \<not> P x)"
  by (auto simp: find_None_iff)

lemma find_Some_bex: "List.find P xs = Some x \<Longrightarrow> \<exists>y \<in> set xs. P y"
  by (auto simp: find_Some_iff)

lemma bootstrap_None_iff:
  "bootstrap E p = None \<longleftrightarrow>
     conduit_message_contract_count \<le> cp_bridge_message_budget_max p \<and>
     length (cp_command_required_capabilities p) = length TS_COMMAND_TYPES \<and>
     (\<forall>ct \<in> set TS_COMMAND_TYPES. bt_contains_key (cp_command_required_capabilities p) ct) \<and>
     (\<exists>body. read_to_string E (cp_constitution_path p) = Some body \<and>
        (\<forall>m \<in> set (cp_required_constitution_markers p). str_contains body m)) \<and>
     (\<exists>body ids. read_to_string E (cp_guard_registry_path p) = Some body \<and>
        parse_guard_registry_check_ids E body = Ok ids \<and>
        set (cp_required_guard_checks p) \<subseteq> set ids)"
proof -
  have budget: "validate_conduit_contract_budget n = Ok () \<longleftrightarrow> conduit_message_contract_count \<le> n" for n
    by (auto simp: validate_conduit_contract_budget_def Let_def conduit_message_contract_count_def
        TS_COMMAND_TYPES_def)
  have const: "bootstrap_constitution E p = None \<longleftrightarrow>
      (\<exists>body. read_to_string E (cp_constitution_path p) = Some body \<and>
        (\<forall>m \<in> set (cp_required_constitution_markers p). str_contains body m))"
    by (auto simp: bootstrap_constitution_def find_None_iff_all dest: find_Some_bex split: option.splits)
  have reg: "bootstrap_registry E p = None \<longleftrightarrow>
      (\<exists>body ids. read_to_string E (cp_guard_registry_path p) = Some body \<and>
        parse_guard_registry_check_ids E body = Ok ids \<and>
        set (cp_required_guard_checks p) \<subseteq> set ids)"
    by (auto simp: bootstrap_registry_def find_None_iff_all dest: find_Some_bex split: option.splits sum.splits)
  show ?thesis
    unfolding budget [symmetric] const [symmetric] reg [symmetric] bootstrap_def
    by (auto simp: find_None_iff_all dest: find_Some_bex split: option.splits sum.splits)
qed

lemma registry_evaluate_allow_iff:
  "pd_allow (registry_evaluate g cmd) \<longleftrightarrow>
     rpg_bootstrap_error g = None \<and> validate_command_mapping g cmd = Ok ()"
  by (auto simp: registry_evaluate_def split: option.splits sum.splits)

section \<open>Properties\<close>

text \<open>C31: the registry gate allows a command exactly when its bootstrap succeeded and a policy update
  carries an allowed prefix. The bootstrap succeeds exactly when the message contract fits the
  budget, every command type and nothing else has a required capability, the constitution file is
  readable and contains every required marker, and the guard registry is readable, parses and
  lists every required check. In every other case the gate denies all commands.\<close>

theorem registry_gate_allows_iff:
  "pd_allow (registry_evaluate (registry_policy_gate_new E p) cmd) \<longleftrightarrow>
     conduit_message_contract_count \<le> cp_bridge_message_budget_max p \<and>
     length (cp_command_required_capabilities p) = length TS_COMMAND_TYPES \<and>
     set TS_COMMAND_TYPES \<subseteq> set (bt_keys (cp_command_required_capabilities p)) \<and>
     (\<exists>body. read_to_string E (cp_constitution_path p) = Some body \<and>
        list_all (str_contains body) (cp_required_constitution_markers p)) \<and>
     (\<exists>body ids. read_to_string E (cp_guard_registry_path p) = Some body \<and>
        parse_guard_registry_check_ids E body = Ok ids \<and>
        set (cp_required_guard_checks p) \<subseteq> set ids) \<and>
     (case cmd of ApplyPolicyUpdate patch_id _ \<Rightarrow>
        list_ex (starts_with patch_id) (cp_allow_policy_update_prefixes p) | _ \<Rightarrow> True)"
proof -
  have keys: "(\<forall>ct \<in> set TS_COMMAND_TYPES. bt_contains_key (cp_command_required_capabilities p) ct) \<longleftrightarrow>
      set TS_COMMAND_TYPES \<subseteq> set (bt_keys (cp_command_required_capabilities p))"
    by (auto simp: bt_contains_key_iff)
  have map: "validate_command_mapping (registry_policy_gate_new E p) cmd = Ok () \<longleftrightarrow>
      command_type_name cmd \<in> set (bt_keys (cp_command_required_capabilities p)) \<and>
      (case cmd of ApplyPolicyUpdate patch_id _ \<Rightarrow>
        list_ex (starts_with patch_id) (cp_allow_policy_update_prefixes p) | _ \<Rightarrow> True)"
    by (auto simp: validate_command_mapping_def registry_policy_gate_new_def Let_def bt_contains_key_iff
        list_ex_iff split: ts_command.splits)
  have err: "rpg_bootstrap_error (registry_policy_gate_new E p) = bootstrap E p"
    by (simp add: registry_policy_gate_new_def)
  show ?thesis
    unfolding registry_evaluate_allow_iff err map bootstrap_None_iff keys list_all_iff
    using command_type_name_in [of cmd] by auto
qed

end
