(* ===== verification/Conduit_Core.thy ===== *)
theory Conduit_Core
  imports Conduit_Policy
begin

text \<open>
  The request path of \<^verbatim>\<open>core/layer2/conduit/src/lib.rs\<close>: the security context
  (\<^verbatim>\<open>ConduitSecurityContext\<close>), \<^verbatim>\<open>validate_command\<close> with its receipts, \<^verbatim>\<open>process_command\<close>, one round of
  the stdio transport and the loop of the socket server.

  The security context is passed explicitly and returned updated. Each request reads the clock
  up to three times; the readings are the record \<open>clock\<close>. The policy gate and the command handler
  are the trait parameters of the code: a function \<open>evaluate\<close> and a state-passing function
  \<open>handle\<close>. The reader and the writer of the transport are trait parameters too, and the parser of
  an envelope is \<^verbatim>\<open>serde_json::from_str\<close>.
\<close>

section \<open>Events, receipts and their JSON form\<close>

datatype agent_lifecycle_state = Started | Stopped

datatype rust_event =
    AgentLifecycle agent_lifecycle_state string
  | ReceiptAdded string
  | SystemFeedback string json "string option"

datatype crossing_direction = TsToRust | RustToTs

record crossing_receipt =
  cr_crossing_id :: string
  cr_direction :: crossing_direction
  cr_command_type :: string
  cr_deterministic_hash :: string
  cr_ts_ms :: u64

record validation_receipt =
  vr_ok :: bool
  vr_fail_closed :: bool
  vr_reason :: string
  vr_policy_receipt_hash :: string
  vr_security_receipt_hash :: string
  vr_receipt_hash :: string

record response_envelope =
  re_schema_id :: string
  re_schema_version :: string
  re_request_id :: string
  re_ts_ms :: u64
  re_event :: rust_event
  re_validation :: validation_receipt
  re_crossing :: crossing_receipt
  re_receipt_hash :: string

definition capability_token_json :: "capability_token \<Rightarrow> json" where
  "capability_token_json t = json_object
     [(''token_id'', JStr (ct_token_id t)), (''subject'', JStr (ct_subject t)),
      (''capabilities'', json_str_list (ct_capabilities t)),
      (''issued_at_ms'', json_word (ct_issued_at_ms t)),
      (''expires_at_ms'', json_word (ct_expires_at_ms t)),
      (''signature'', JStr (ct_signature t))]"

definition security_metadata_json :: "command_security_metadata \<Rightarrow> json" where
  "security_metadata_json s = json_object
     [(''client_id'', JStr (csm_client_id s)), (''key_id'', JStr (csm_key_id s)),
      (''nonce'', JStr (csm_nonce s)), (''signature'', JStr (csm_signature s)),
      (''capability_token'', capability_token_json (csm_capability_token s))]"

definition command_envelope_json :: "command_envelope \<Rightarrow> json" where
  "command_envelope_json e = json_object
     [(''schema_id'', JStr (ce_schema_id e)), (''schema_version'', JStr (ce_schema_version e)),
      (''request_id'', JStr (ce_request_id e)), (''ts_ms'', json_word (ce_ts_ms e)),
      (''command'', command_json (ce_command e)),
      (''security'', security_metadata_json (ce_security e))]"

fun lifecycle_state_json :: "agent_lifecycle_state \<Rightarrow> json" where
  "lifecycle_state_json Started = JStr ''started''"
| "lifecycle_state_json Stopped = JStr ''stopped''"

fun rust_event_json :: "rust_event \<Rightarrow> json" where
  "rust_event_json (AgentLifecycle state agent_id) = json_object
     [(''type'', JStr ''agent_lifecycle''), (''state'', lifecycle_state_json state),
      (''agent_id'', JStr agent_id)]"
| "rust_event_json (ReceiptAdded receipt_hash) = json_object
     [(''type'', JStr ''receipt_added''), (''receipt_hash'', JStr receipt_hash)]"
| "rust_event_json (SystemFeedback status detail violation_reason) = json_object
     [(''type'', JStr ''system_feedback''), (''status'', JStr status), (''detail'', detail),
      (''violation_reason'', json_opt_str violation_reason)]"

definition validation_receipt_json :: "validation_receipt \<Rightarrow> json" where
  "validation_receipt_json v = json_object
     [(''ok'', JBool (vr_ok v)), (''fail_closed'', JBool (vr_fail_closed v)),
      (''reason'', JStr (vr_reason v)), (''policy_receipt_hash'', JStr (vr_policy_receipt_hash v)),
      (''security_receipt_hash'', JStr (vr_security_receipt_hash v)),
      (''receipt_hash'', JStr (vr_receipt_hash v))]"

fun crossing_direction_json :: "crossing_direction \<Rightarrow> json" where
  "crossing_direction_json TsToRust = JStr ''TsToRust''"
| "crossing_direction_json RustToTs = JStr ''RustToTs''"

definition crossing_receipt_json :: "crossing_receipt \<Rightarrow> json" where
  "crossing_receipt_json c = json_object
     [(''crossing_id'', JStr (cr_crossing_id c)),
      (''direction'', crossing_direction_json (cr_direction c)),
      (''command_type'', JStr (cr_command_type c)),
      (''deterministic_hash'', JStr (cr_deterministic_hash c)),
      (''ts_ms'', json_word (cr_ts_ms c))]"

definition response_envelope_json :: "response_envelope \<Rightarrow> json" where
  "response_envelope_json r = json_object
     [(''schema_id'', JStr (re_schema_id r)), (''schema_version'', JStr (re_schema_version r)),
      (''request_id'', JStr (re_request_id r)), (''ts_ms'', json_word (re_ts_ms r)),
      (''event'', rust_event_json (re_event r)),
      (''validation'', validation_receipt_json (re_validation r)),
      (''crossing'', crossing_receipt_json (re_crossing r)),
      (''receipt_hash'', JStr (re_receipt_hash r))]"

definition deterministic_receipt_hash :: "libs \<Rightarrow> json \<Rightarrow> string" where
  "deterministic_receipt_hash L v = sha256_hex L (canonical_json L v)"

section \<open>The security context\<close>

record conduit_security_context =
  csc_signer :: message_signer
  csc_token_authority :: capability_token_authority
  csc_rate_limiter :: rate_limiter
  csc_command_required_capabilities :: "(string, string) btree"

definition csc_from_policy ::
  "conduit_policy \<Rightarrow> string \<Rightarrow> string \<Rightarrow> string \<Rightarrow> string \<Rightarrow> conduit_security_context" where
  "csc_from_policy p signing_key_id signing_secret token_key_id token_secret =
     \<lparr>csc_signer = \<lparr>ms_key_id = signing_key_id, ms_secret = signing_secret\<rparr>,
      csc_token_authority = cta_new token_key_id token_secret,
      csc_rate_limiter = rate_limiter_new (cp_rate_limit p),
      csc_command_required_capabilities = cp_command_required_capabilities p\<rparr>"

text \<open>The fields of \<^verbatim>\<open>SigningPayload\<close> are the arguments of \<open>signing_payload\<close>.\<close>

definition signing_payload ::
  "string \<Rightarrow> string \<Rightarrow> string \<Rightarrow> u64 \<Rightarrow> ts_command \<Rightarrow> string \<Rightarrow> string \<Rightarrow> string \<Rightarrow>
     capability_token \<Rightarrow> json" where
  "signing_payload schema_id schema_version request_id ts_ms command client_id key_id nonce token =
     json_object
       [(''schema_id'', JStr schema_id), (''schema_version'', JStr schema_version),
        (''request_id'', JStr request_id), (''ts_ms'', json_word ts_ms),
        (''command'', command_json command),
        (''security'', json_object
           [(''client_id'', JStr client_id), (''key_id'', JStr key_id), (''nonce'', JStr nonce),
            (''capability_token'', capability_token_json token)])]"

definition mint_security_metadata ::
  "libs \<Rightarrow> conduit_security_context \<Rightarrow> u64 \<Rightarrow> string \<Rightarrow> string \<Rightarrow> u64 \<Rightarrow> ts_command \<Rightarrow> u64 \<Rightarrow>
     command_security_metadata" where
  "mint_security_metadata L ctx issued_at_ms client_id request_id ts_ms command token_ttl_ms =
     (let scope = (case bt_get (csc_command_required_capabilities ctx) (command_type_name command)
                   of Some s \<Rightarrow> s | None \<Rightarrow> ''system.read'');
          token = mint L (csc_token_authority ctx)
            (''tok-'' @ request_id @ ''-'' @ show_word issued_at_ms) client_id [scope] issued_at_ms
            (saturating_add issued_at_ms token_ttl_ms);
          nonce = ''nonce-'' @ request_id @ ''-'' @ show_word issued_at_ms;
          key_id = ms_key_id (csc_signer ctx);
          payload = signing_payload CONDUIT_SCHEMA_ID CONDUIT_SCHEMA_VERSION request_id ts_ms
            command client_id key_id nonce token
      in \<lparr>csm_client_id = client_id, csm_key_id = key_id, csm_nonce = nonce,
          csm_signature = sign_value L (csc_signer ctx) payload, csm_capability_token = token\<rparr>)"

definition envelope_payload :: "command_envelope \<Rightarrow> json" where
  "envelope_payload e = signing_payload (ce_schema_id e) (ce_schema_version e) (ce_request_id e)
     (ce_ts_ms e) (ce_command e) (csm_client_id (ce_security e)) (csm_key_id (ce_security e))
     (csm_nonce (ce_security e)) (csm_capability_token (ce_security e))"

definition security_receipt :: "conduit_security_context \<Rightarrow> command_envelope \<Rightarrow> string \<Rightarrow> json" where
  "security_receipt ctx e required_scope = json_object
     [(''allow'', JBool True), (''command_type'', JStr (command_type_name (ce_command e))),
      (''client_id'', JStr (csm_client_id (ce_security e))),
      (''required_scope'', JStr required_scope),
      (''token_key_id'', JStr (ms_key_id (cta_signer (csc_token_authority ctx)))),
      (''signing_key_id'', JStr (ms_key_id (csc_signer ctx)))]"

text \<open>\<^verbatim>\<open>ConduitSecurityContext::validate\<close>; \<open>now\<close> is the clock reading for the token check, the
  rate limiter is given the timestamp of the envelope.\<close>

definition security_validate ::
  "libs \<Rightarrow> conduit_security_context \<Rightarrow> u64 \<Rightarrow> command_envelope \<Rightarrow>
     (string, security_error) rresult \<times> conduit_security_context" where
  "security_validate L ctx now e =
     (let sec = ce_security e; command_type = command_type_name (ce_command e)
      in if csm_key_id sec \<noteq> ms_key_id (csc_signer ctx) then (Err SignatureInvalid, ctx)
         else if \<not> verify_value L (csc_signer ctx) (envelope_payload e) (csm_signature sec)
         then (Err SignatureInvalid, ctx)
         else
           (case bt_get (csc_command_required_capabilities ctx) command_type of
              None \<Rightarrow> (Err (CapabilityTokenMissingScope command_type), ctx)
            | Some required_scope \<Rightarrow>
                (case token_validate L (csc_token_authority ctx) (csm_capability_token sec) now
                        required_scope of
                   Inl err \<Rightarrow> (Err err, ctx)
                 | Inr _ \<Rightarrow>
                     (case rate_allow (csc_rate_limiter ctx) (csm_client_id sec) command_type
                             (ce_ts_ms e) of
                        (Inl err, rl) \<Rightarrow> (Err err, ctx\<lparr>csc_rate_limiter := rl\<rparr>)
                      | (Inr _, rl) \<Rightarrow>
                          (Ok (deterministic_hash L (security_receipt ctx e required_scope)),
                           ctx\<lparr>csc_rate_limiter := rl\<rparr>)))))"

section \<open>Validation of a command\<close>

definition is_valid_sha256 :: "string \<Rightarrow> bool" where
  "is_valid_sha256 raw \<longleftrightarrow> length raw = 64 \<and> list_all is_ascii_hexdigit raw"

fun validate_structure :: "ts_command \<Rightarrow> string option" where
  "validate_structure (StartAgent agent_id) =
     (if blank agent_id then Some ''agent_id_required'' else None)"
| "validate_structure (StopAgent agent_id) =
     (if blank agent_id then Some ''agent_id_required'' else None)"
| "validate_structure (QueryReceiptChain _ limit) =
     (case limit of
        Some n \<Rightarrow> if n = 0 \<or> n > 1000 then Some ''receipt_query_limit_out_of_range'' else None
      | None \<Rightarrow> None)"
| "validate_structure (ApplyPolicyUpdate patch_id _) =
     (if blank patch_id then Some ''policy_patch_id_required''
      else if \<not> starts_with patch_id ''constitution_safe/''
      then Some ''policy_update_must_be_constitution_safe'' else None)"
| "validate_structure (InstallExtension extension_id wasm_sha256 capabilities) =
     (if blank extension_id then Some ''extension_id_required''
      else if \<not> is_valid_sha256 wasm_sha256 then Some ''extension_wasm_sha256_invalid''
      else if capabilities = [] \<or> list_ex blank capabilities
      then Some ''extension_capabilities_invalid'' else None)"
| "validate_structure ListActiveAgents = None"
| "validate_structure GetSystemStatus = None"

definition receipt_payload :: "bool \<Rightarrow> bool \<Rightarrow> string \<Rightarrow> string \<Rightarrow> string \<Rightarrow> json" where
  "receipt_payload ok fc reason ph sh = json_object
     [(''ok'', JBool ok), (''fail_closed'', JBool fc), (''reason'', JStr reason),
      (''policy_receipt_hash'', JStr ph), (''security_receipt_hash'', JStr sh)]"

definition fail_closed_receipt :: "libs \<Rightarrow> string \<Rightarrow> string \<Rightarrow> string \<Rightarrow> validation_receipt" where
  "fail_closed_receipt L reason ph sh =
     \<lparr>vr_ok = False, vr_fail_closed = True, vr_reason = reason, vr_policy_receipt_hash = ph,
      vr_security_receipt_hash = sh,
      vr_receipt_hash = deterministic_receipt_hash L (receipt_payload False True reason ph sh)\<rparr>"

definition success_receipt :: "libs \<Rightarrow> string \<Rightarrow> string \<Rightarrow> validation_receipt" where
  "success_receipt L ph sh =
     \<lparr>vr_ok = True, vr_fail_closed = False, vr_reason = ''validated'', vr_policy_receipt_hash = ph,
      vr_security_receipt_hash = sh,
      vr_receipt_hash = deterministic_receipt_hash L (receipt_payload True False ''validated'' ph sh)\<rparr>"

definition policy_receipt_hash :: "libs \<Rightarrow> policy_decision \<Rightarrow> ts_command \<Rightarrow> string" where
  "policy_receipt_hash L d cmd = deterministic_hash L (json_object
     [(''allow'', JBool (pd_allow d)), (''reason'', JStr (pd_reason d)),
      (''command_type'', JStr (command_type_name cmd))])"

definition validate_command ::
  "libs \<Rightarrow> (ts_command \<Rightarrow> policy_decision) \<Rightarrow> conduit_security_context \<Rightarrow> u64 \<Rightarrow> command_envelope \<Rightarrow>
     validation_receipt \<times> conduit_security_context" where
  "validate_command L evaluate ctx now e =
     (if ce_schema_id e \<noteq> CONDUIT_SCHEMA_ID \<or> ce_schema_version e \<noteq> CONDUIT_SCHEMA_VERSION
      then (fail_closed_receipt L ''conduit_schema_mismatch'' ''policy_not_evaluated''
              ''security_not_evaluated'', ctx)
      else
        (case validate_structure (ce_command e) of
           Some reason \<Rightarrow>
             (fail_closed_receipt L reason ''policy_not_evaluated'' ''security_not_evaluated'', ctx)
         | None \<Rightarrow>
             let decision = evaluate (ce_command e);
                 ph = policy_receipt_hash L decision (ce_command e)
             in if \<not> pd_allow decision
                then (fail_closed_receipt L (pd_reason decision) ph ''security_not_evaluated'', ctx)
                else
                  (case security_validate L ctx now e of
                     (Inr sh, ctx') \<Rightarrow> (success_receipt L ph sh, ctx')
                   | (Inl err, ctx') \<Rightarrow>
                       (fail_closed_receipt L (show_security_error err) ph ''security_denied'', ctx'))))"

section \<open>Processing and transport\<close>

record clock =
  clk_token :: u64
  clk_crossing :: u64
  clk_response :: u64

definition crossing_of :: "libs \<Rightarrow> command_envelope \<Rightarrow> u64 \<Rightarrow> crossing_receipt" where
  "crossing_of L e now =
     \<lparr>cr_crossing_id = ce_request_id e, cr_direction = TsToRust,
      cr_command_type = command_type_name (ce_command e),
      cr_deterministic_hash = deterministic_receipt_hash L (command_envelope_json e),
      cr_ts_ms = now\<rparr>"

definition violation_event :: "validation_receipt \<Rightarrow> rust_event" where
  "violation_event v = SystemFeedback ''policy_violation''
     (json_object [(''fail_closed'', JBool (vr_fail_closed v))]) (Some (vr_reason v))"

definition process_command ::
  "libs \<Rightarrow> (ts_command \<Rightarrow> policy_decision) \<Rightarrow> ('h \<Rightarrow> ts_command \<Rightarrow> rust_event \<times> 'h) \<Rightarrow> clock \<Rightarrow>
     conduit_security_context \<times> 'h \<Rightarrow> command_envelope \<Rightarrow>
     response_envelope \<times> conduit_security_context \<times> 'h" where
  "process_command L evaluate handle clk st e =
     (let (ctx, h) = st;
          (validation, ctx') = validate_command L evaluate ctx (clk_token clk) e;
          (event, h') = (if vr_ok validation then handle h (ce_command e)
                         else (violation_event validation, h));
          response =
            \<lparr>re_schema_id = CONDUIT_SCHEMA_ID, re_schema_version = CONDUIT_SCHEMA_VERSION,
             re_request_id = ce_request_id e, re_ts_ms = clk_response clk, re_event = event,
             re_validation = validation, re_crossing = crossing_of L e (clk_crossing clk),
             re_receipt_hash = []\<rparr>
      in (response\<lparr>re_receipt_hash :=
            deterministic_receipt_hash L (response_envelope_json response)\<rparr>, ctx', h'))"

text \<open>One round of \<^verbatim>\<open>run_stdio_once\<close>. \<open>read_line\<close> gives the line read, empty at the end of the
  input; \<open>write_response\<close> writes, terminates and flushes the line of a response.\<close>

record ('r, 'w) transport =
  read_line :: "'r \<Rightarrow> (string, string) rresult \<times> 'r"
  parse_envelope :: "string \<Rightarrow> (command_envelope, string) rresult"
  write_response :: "'w \<Rightarrow> response_envelope \<Rightarrow> (unit, string) rresult \<times> 'w"

record ('r, 'w, 'h) server =
  sv_reader :: 'r
  sv_writer :: 'w
  sv_security :: conduit_security_context
  sv_handler :: 'h

definition run_stdio_once ::
  "('r, 'w) transport \<Rightarrow> libs \<Rightarrow> (ts_command \<Rightarrow> policy_decision) \<Rightarrow>
     ('h \<Rightarrow> ts_command \<Rightarrow> rust_event \<times> 'h) \<Rightarrow> clock \<Rightarrow> ('r, 'w, 'h) server \<Rightarrow>
     (bool, string) rresult \<times> ('r, 'w, 'h) server" where
  "run_stdio_once T L evaluate handle clk sv =
     (case read_line T (sv_reader sv) of
        (Inl err, r) \<Rightarrow> (Err err, sv\<lparr>sv_reader := r\<rparr>)
      | (Inr line, r) \<Rightarrow>
          let sv1 = sv\<lparr>sv_reader := r\<rparr>
          in if line = [] then (Ok False, sv1)
             else
               (case parse_envelope T line of
                  Inl err \<Rightarrow> (Err err, sv1)
                | Inr parsed \<Rightarrow>
                    let (response, ctx, h) =
                          process_command L evaluate handle clk (sv_security sv1, sv_handler sv1) parsed;
                        (res, w) = write_response T (sv_writer sv1) response;
                        sv2 = sv1\<lparr>sv_writer := w, sv_security := ctx, sv_handler := h\<rparr>
                    in (case res of Inl err \<Rightarrow> (Err err, sv2) | Inr _ \<Rightarrow> (Ok True, sv2))))"

text \<open>The loop of \<^verbatim>\<open>run_unix_socket_server\<close>: rounds until the input ends or a round fails. A
  connection may stay open for ever, in which case there is no result; round \<open>n\<close> reads the clock
  \<open>clks n\<close>.\<close>

partial_function (option) serve_loop ::
  "('r, 'w) transport \<Rightarrow> libs \<Rightarrow> (ts_command \<Rightarrow> policy_decision) \<Rightarrow>
     ('h \<Rightarrow> ts_command \<Rightarrow> rust_event \<times> 'h) \<Rightarrow> (nat \<Rightarrow> clock) \<Rightarrow> nat \<Rightarrow> ('r, 'w, 'h) server \<Rightarrow>
     ((unit, string) rresult \<times> ('r, 'w, 'h) server) option" where
  "serve_loop T L evaluate handle clks n sv =
     (case run_stdio_once T L evaluate handle (clks n) sv of
        (Inl err, sv') \<Rightarrow> Some (Err err, sv')
      | (Inr continue, sv') \<Rightarrow>
          if continue then serve_loop T L evaluate handle clks (Suc n) sv'
          else Some (Ok (), sv'))"

section \<open>Authorisation\<close>

text \<open>Everything \<open>validate_command\<close> asks of an envelope apart from the rate limit.\<close>

definition token_authorised :: "libs \<Rightarrow> conduit_security_context \<Rightarrow> u64 \<Rightarrow> command_envelope \<Rightarrow> bool" where
  "token_authorised L ctx now e =
     (case bt_get (csc_command_required_capabilities ctx) (command_type_name (ce_command e)) of
        None \<Rightarrow> False
      | Some scope \<Rightarrow> token_validate L (csc_token_authority ctx)
          (csm_capability_token (ce_security e)) now scope = Ok ())"

definition authorised ::
  "libs \<Rightarrow> (ts_command \<Rightarrow> policy_decision) \<Rightarrow> conduit_security_context \<Rightarrow> u64 \<Rightarrow> command_envelope \<Rightarrow> bool"
where
  "authorised L evaluate ctx now e \<longleftrightarrow>
     ce_schema_id e = CONDUIT_SCHEMA_ID \<and> ce_schema_version e = CONDUIT_SCHEMA_VERSION \<and>
     validate_structure (ce_command e) = None \<and> pd_allow (evaluate (ce_command e)) \<and>
     csm_key_id (ce_security e) = ms_key_id (csc_signer ctx) \<and>
     verify_value L (csc_signer ctx) (envelope_payload e) (csm_signature (ce_security e)) \<and>
     token_authorised L ctx now e"

abbreviation rate_of ::
  "conduit_security_context \<Rightarrow> command_envelope \<Rightarrow> (unit, security_error) rresult \<times> rate_limiter" where
  "rate_of ctx e \<equiv> rate_allow (csc_rate_limiter ctx) (csm_client_id (ce_security e))
     (command_type_name (ce_command e)) (ce_ts_ms e)"

lemma receipt_simps [simp]:
  "\<not> vr_ok (fail_closed_receipt L r ph sh)" "vr_fail_closed (fail_closed_receipt L r ph sh)"
  "vr_reason (fail_closed_receipt L r ph sh) = r"
  "vr_policy_receipt_hash (fail_closed_receipt L r ph sh) = ph"
  "vr_security_receipt_hash (fail_closed_receipt L r ph sh) = sh"
  "vr_ok (success_receipt L ph sh)" "\<not> vr_fail_closed (success_receipt L ph sh)"
  "vr_policy_receipt_hash (success_receipt L ph sh) = ph"
  "vr_security_receipt_hash (success_receipt L ph sh) = sh"
  "vr_reason (success_receipt L ph sh) = ''validated''"
  by (simp_all add: fail_closed_receipt_def success_receipt_def)

lemma security_validate_Ok_iff:
  "(\<exists>sh. fst (security_validate L ctx now e) = Ok sh) \<longleftrightarrow>
     csm_key_id (ce_security e) = ms_key_id (csc_signer ctx) \<and>
     verify_value L (csc_signer ctx) (envelope_payload e) (csm_signature (ce_security e)) \<and>
     token_authorised L ctx now e \<and> fst (rate_of ctx e) = Ok ()"
  by (auto simp: security_validate_def token_authorised_def Let_def
      split: option.splits sum.splits prod.splits if_splits)

lemma security_validate_ctx:
  "snd (security_validate L ctx now e) =
     (if csm_key_id (ce_security e) = ms_key_id (csc_signer ctx) \<and>
         verify_value L (csc_signer ctx) (envelope_payload e) (csm_signature (ce_security e)) \<and>
         token_authorised L ctx now e
      then ctx\<lparr>csc_rate_limiter := snd (rate_of ctx e)\<rparr> else ctx)"
  by (auto simp: security_validate_def token_authorised_def Let_def
      split: option.splits sum.splits prod.splits)

lemma validate_command_ok_iff:
  "vr_ok (fst (validate_command L evaluate ctx now e)) \<longleftrightarrow>
     authorised L evaluate ctx now e \<and> fst (rate_of ctx e) = Ok ()"
  using security_validate_Ok_iff [of L ctx now e]
  by (auto simp: validate_command_def authorised_def Let_def split: option.splits sum.splits prod.splits)

lemma validate_command_ctx:
  "snd (validate_command L evaluate ctx now e) =
     (if authorised L evaluate ctx now e
      then ctx\<lparr>csc_rate_limiter := snd (rate_of ctx e)\<rparr> else ctx)"
  using security_validate_ctx [of L ctx now e]
  by (auto simp: validate_command_def authorised_def Let_def split: option.splits sum.splits prod.splits)

lemma authorised_rate_limiter [simp]:
  "authorised L evaluate (ctx\<lparr>csc_rate_limiter := rl\<rparr>) now e = authorised L evaluate ctx now e"
  by (simp add: authorised_def token_authorised_def cong: option.case_cong)

lemma process_command_simps:
  fixes handle :: "'h \<Rightarrow> ts_command \<Rightarrow> rust_event \<times> 'h"
  defines "v \<equiv> \<lambda>L evaluate clk ctx e. validate_command L evaluate ctx (clk_token clk) e"
  shows "re_validation (fst (process_command L evaluate handle clk (ctx, h) e)) =
       fst (v L evaluate clk ctx e)"
    and "re_event (fst (process_command L evaluate handle clk (ctx, h) e)) =
       (if vr_ok (fst (v L evaluate clk ctx e)) then fst (handle h (ce_command e))
        else violation_event (fst (v L evaluate clk ctx e)))"
    and "snd (process_command L evaluate handle clk (ctx, h) e) =
       (snd (v L evaluate clk ctx e),
        if vr_ok (fst (v L evaluate clk ctx e)) then snd (handle h (ce_command e)) else h)"
  by (simp_all add: process_command_def v_def Let_def case_prod_unfold)

section \<open>Sequences of requests\<close>

text \<open>The verdicts on a sequence of envelopes, each with the clock reading of its round, and the
  responses and final state of processing them in order.\<close>

fun accept_run ::
  "libs \<Rightarrow> (ts_command \<Rightarrow> policy_decision) \<Rightarrow> conduit_security_context \<Rightarrow> (clock \<times> command_envelope) list \<Rightarrow>
     (command_envelope \<times> bool) list" where
  "accept_run L evaluate ctx [] = []"
| "accept_run L evaluate ctx ((clk, e) # es) =
     (case validate_command L evaluate ctx (clk_token clk) e of
        (v, ctx') \<Rightarrow> (e, vr_ok v) # accept_run L evaluate ctx' es)"

definition accepted_commands :: "(command_envelope \<times> bool) list \<Rightarrow> ts_command list" where
  "accepted_commands vs = map (ce_command \<circ> fst) (filter snd vs)"

fun process_all ::
  "libs \<Rightarrow> (ts_command \<Rightarrow> policy_decision) \<Rightarrow> ('h \<Rightarrow> ts_command \<Rightarrow> rust_event \<times> 'h) \<Rightarrow>
     conduit_security_context \<times> 'h \<Rightarrow> (clock \<times> command_envelope) list \<Rightarrow>
     response_envelope list \<times> conduit_security_context \<times> 'h" where
  "process_all L evaluate handle st [] = ([], st)"
| "process_all L evaluate handle st ((clk, e) # es) =
     (case process_command L evaluate handle clk st e of
        (resp, st') \<Rightarrow> (case process_all L evaluate handle st' es of (rs, st'') \<Rightarrow> (resp # rs, st'')))"

lemma accept_run_Cons:
  "accept_run L evaluate ctx ((clk, e) # es) =
     (e, vr_ok (fst (validate_command L evaluate ctx (clk_token clk) e))) #
     accept_run L evaluate (snd (validate_command L evaluate ctx (clk_token clk) e)) es"
  by (simp add: case_prod_unfold)

lemma process_all_Cons:
  "process_all L evaluate handle st ((clk, e) # es) =
     (let p = process_command L evaluate handle clk st e; q = process_all L evaluate handle (snd p) es
      in (fst p # fst q, snd q))"
  by (simp add: case_prod_unfold Let_def)

lemmas run_Cons = accept_run_Cons process_all_Cons
lemmas run_simps = accept_run.simps process_all.simps

lemma process_all_handler:
  "snd (snd (process_all L evaluate handle (ctx, h) es)) =
     fold (\<lambda>cmd h. snd (handle h cmd)) (accepted_commands (accept_run L evaluate ctx es)) h"
proof (induction es arbitrary: ctx h)
  case (Cons ce es)
  obtain clk e where ce: "ce = (clk, e)" by force
  then show ?case
    by (simp add: run_Cons Cons.IH process_command_simps accepted_commands_def Let_def
        del: run_simps)
qed (simp add: accepted_commands_def)

text \<open>The handler with a counter of its invocations, and how often a run of \<open>process_command\<close> calls the
  handler on envelopes of client \<open>c\<close>. Rejected and repeated calls would both be counted.\<close>

definition counting :: "('h \<Rightarrow> ts_command \<Rightarrow> rust_event \<times> 'h) \<Rightarrow> 'h \<times> nat \<Rightarrow> ts_command \<Rightarrow> rust_event \<times> 'h \<times> nat" where
  "counting handle s cmd = (case handle (fst s) cmd of (ev, h) \<Rightarrow> (ev, h, Suc (snd s)))"

fun handler_calls_for ::
  "string \<Rightarrow> libs \<Rightarrow> (ts_command \<Rightarrow> policy_decision) \<Rightarrow> ('h \<Rightarrow> ts_command \<Rightarrow> rust_event \<times> 'h) \<Rightarrow>
     conduit_security_context \<times> 'h \<Rightarrow> (clock \<times> command_envelope) list \<Rightarrow> nat" where
  "handler_calls_for c L evaluate handle (ctx, h) [] = 0"
| "handler_calls_for c L evaluate handle (ctx, h) ((clk, e) # es) =
     (case process_command L evaluate (counting handle) clk (ctx, h, 0) e of
        (resp, ctx', h', n) \<Rightarrow>
          (if csm_client_id (ce_security e) = c then n else 0) + handler_calls_for c L evaluate handle (ctx', h') es)"

text \<open>The accepted envelopes of a client are the requests of that client the rate limiter lets
  through, among the envelopes that are authorised.\<close>

definition rate_request_of :: "command_envelope \<Rightarrow> rate_request" where
  "rate_request_of e =
     (csm_client_id (ce_security e), command_type_name (ce_command e), ce_ts_ms e)"

definition accepted_from :: "string \<Rightarrow> (command_envelope \<times> bool) list \<Rightarrow> nat" where
  "accepted_from c vs = length (filter (\<lambda>(e, ok). csm_client_id (ce_security e) = c \<and> ok) vs)"

lemma accepted_from_Cons:
  "accepted_from c ((e, ok) # vs) =
     (if csm_client_id (ce_security e) = c \<and> ok then 1 else 0) + accepted_from c vs"
  by (simp add: accepted_from_def)

lemma accepted_from_rate_run:
  "accepted_from c (accept_run L evaluate ctx es) =
     accepted_of c (rate_run (csc_rate_limiter ctx)
       (map (rate_request_of \<circ> snd) (filter (\<lambda>(clk, e). authorised L evaluate ctx (clk_token clk) e) es)))"
proof (induction es arbitrary: ctx)
  case (Cons ce es)
  obtain clk e where ce: "ce = (clk, e)" by force
  show ?case
    using Cons.IH [of "ctx\<lparr>csc_rate_limiter := snd (rate_of ctx e)\<rparr>"] Cons.IH [of ctx]
    by (auto simp: ce run_Cons validate_command_ok_iff validate_command_ctx accepted_from_Cons
        rate_request_of_def [of e] rate_run_simps comp_def simp del: run_simps rate_run.simps)
qed (simp add: accepted_from_def accepted_of_def)

lemma handler_calls_for_accepted:
  "handler_calls_for c L evaluate handle (ctx, h) es = accepted_from c (accept_run L evaluate ctx es)"
proof (induction es arbitrary: ctx h)
  case (Cons ce es)
  obtain clk e where ce: "ce = (clk, e)" by force
  let ?p = "process_command L evaluate (counting handle) clk (ctx, h, 0) e"
    and ?v = "validate_command L evaluate ctx (clk_token clk) e"
  have "snd ?p = (snd ?v, if vr_ok (fst ?v) then (snd (handle h (ce_command e)), 1) else (h, 0))"
    by (simp add: process_command_simps counting_def case_prod_unfold)
  then show ?case
    by (auto simp: ce run_Cons accepted_from_Cons Cons.IH case_prod_unfold simp del: run_simps)
qed (simp add: accepted_from_def)

section \<open>The server on a finite input\<close>

text \<open>A connection that delivers the given lines and then ends, with a writer that records the
  responses.\<close>

definition lines_transport ::
  "(string \<Rightarrow> (command_envelope, string) rresult) \<Rightarrow> (string list, response_envelope list) transport" where
  "lines_transport parse =
     \<lparr>read_line = (\<lambda>ls. case ls of [] \<Rightarrow> (Ok [], []) | l # ls' \<Rightarrow> (Ok l, ls')),
      parse_envelope = parse,
      write_response = (\<lambda>w resp. (Ok (), w @ [resp]))\<rparr>"

fun rounds :: "(nat \<Rightarrow> clock) \<Rightarrow> nat \<Rightarrow> command_envelope list \<Rightarrow> (clock \<times> command_envelope) list" where
  "rounds clks n [] = []"
| "rounds clks n (e # es) = (clks n, e) # rounds clks (Suc n) es"

lemma lines_transport_simps [simp]:
  "read_line (lines_transport parse) [] = (Ok [], [])"
  "read_line (lines_transport parse) (l # ls) = (Ok l, ls)"
  "parse_envelope (lines_transport parse) = parse"
  "write_response (lines_transport parse) w resp = (Ok (), w @ [resp])"
  by (simp_all add: lines_transport_def)

lemma serve_loop_lines:
  assumes "list_all2 (\<lambda>l e. l \<noteq> [] \<and> parse l = Ok e) ls es"
  shows "serve_loop (lines_transport parse) L evaluate handle clks n
       \<lparr>sv_reader = ls @ rest, sv_writer = w, sv_security = ctx, sv_handler = h\<rparr> =
     (case process_all L evaluate handle (ctx, h) (rounds clks n es) of (resps, ctx', h') \<Rightarrow>
        serve_loop (lines_transport parse) L evaluate handle clks (n + length es)
          \<lparr>sv_reader = rest, sv_writer = w @ resps, sv_security = ctx', sv_handler = h'\<rparr>)"
  using assms
proof (induction ls es arbitrary: n w ctx h rule: list_all2_induct)
  case (Cons l ls e es)
  let ?p = "process_command L evaluate handle (clks n) (ctx, h) e"
  have "serve_loop (lines_transport parse) L evaluate handle clks n
      \<lparr>sv_reader = (l # ls) @ rest, sv_writer = w, sv_security = ctx, sv_handler = h\<rparr> =
    serve_loop (lines_transport parse) L evaluate handle clks (Suc n)
      \<lparr>sv_reader = ls @ rest, sv_writer = w @ [fst ?p], sv_security = fst (snd ?p),
       sv_handler = snd (snd ?p)\<rparr>"
    using Cons.hyps
    by (subst serve_loop.simps) (simp add: run_stdio_once_def case_prod_unfold Let_def)
  then show ?case by (simp add: Cons.IH case_prod_unfold)
qed simp

lemma serve_loop_end:
  "serve_loop (lines_transport parse) L evaluate handle clks n
     \<lparr>sv_reader = [], sv_writer = w, sv_security = ctx, sv_handler = h\<rparr> =
   Some (Ok (), \<lparr>sv_reader = [], sv_writer = w, sv_security = ctx, sv_handler = h\<rparr>)"
  by (subst serve_loop.simps) (simp add: run_stdio_once_def)

lemma serve_loop_malformed:
  "l \<noteq> [] \<Longrightarrow> parse l = Err err \<Longrightarrow>
   serve_loop (lines_transport parse) L evaluate handle clks n
     \<lparr>sv_reader = l # rest, sv_writer = w, sv_security = ctx, sv_handler = h\<rparr> =
   Some (Err err, \<lparr>sv_reader = rest, sv_writer = w, sv_security = ctx, sv_handler = h\<rparr>)"
  by (subst serve_loop.simps) (simp add: run_stdio_once_def)

section \<open>Signed payloads\<close>

lemma json_get_normalize:
  assumes "distinct (map fst kvs)"
  shows "json_get (normalize_value (json_object kvs)) k = map_option normalize_value (map_of kvs k)"
proof -
  let ?m = "fold (\<lambda>(k, v). bt_insert k v) kvs []"
  have wf: "distinct (map fst ?m)"
    using normalize_obj_wf [of kvs] by (auto simp: bt_wf_def strict_sorted_iff)
  have "map_of ?m k = bt_get ?m k" by (rule bt_get_map_of [symmetric])
  also have "\<dots> = map_of (rev kvs) k" by (simp add: bt.get_fold_insert split: option.splits)
  also have "\<dots> = map_of kvs k" using assms by (metis distinct_rev map_of_inject_set rev_map set_rev)
  finally show ?thesis by (simp add: json_object_def normalize_obj_get [OF wf])
qed

section \<open>Minted envelopes\<close>

text \<open>An envelope whose time stamp is the signed one, as the clients of the conduit put it together.\<close>

abbreviation minted_envelope ::
  "libs \<Rightarrow> conduit_security_context \<Rightarrow> u64 \<Rightarrow> string \<Rightarrow> string \<Rightarrow> u64 \<Rightarrow> ts_command \<Rightarrow> u64 \<Rightarrow> command_envelope"
where
  "minted_envelope L ctx issued client rid ts cmd ttl \<equiv>
     command_envelope_new ts rid cmd (mint_security_metadata L ctx issued client rid ts cmd ttl)"

lemma minted_envelope_token:
  assumes "bt_get (csc_command_required_capabilities ctx) (command_type_name cmd) = Some scope"
    and "now \<le> saturating_add issued ttl"
  shows "token_authorised L ctx now (minted_envelope L ctx issued client rid ts cmd ttl)"
  using assms
  by (simp add: token_authorised_def command_envelope_new_def mint_security_metadata_def Let_def
      mint_validate)

lemma minted_envelope_authorised:
  assumes "bt_get (csc_command_required_capabilities ctx) (command_type_name cmd) = Some scope"
    and "validate_structure cmd = None" and "pd_allow (evaluate cmd)"
    and "now \<le> saturating_add issued ttl"
  shows "authorised L evaluate ctx now (minted_envelope L ctx issued client rid ts cmd ttl)"
  using assms minted_envelope_token [OF assms(1,4)]
  by (simp add: authorised_def command_envelope_new_def mint_security_metadata_def Let_def
      envelope_payload_def value_signing.verify_sign)

lemma minted_envelope_fields [simp]:
  "ce_command (minted_envelope L ctx issued client rid ts cmd ttl) = cmd"
  "ce_ts_ms (minted_envelope L ctx issued client rid ts cmd ttl) = ts"
  "csm_client_id (ce_security (minted_envelope L ctx issued client rid ts cmd ttl)) = client"
  by (simp_all add: command_envelope_new_def mint_security_metadata_def Let_def)

text \<open>The context that the default policy gives, on which the witnesses evaluate.\<close>

definition sample_ctx :: conduit_security_context where
  "sample_ctx = csc_from_policy conduit_policy_default ''sk'' ''ss'' ''tk'' ''ts''"

lemma sample_ctx_simps [simp]:
  "csc_rate_limiter sample_ctx = rate_limiter_new rate_limit_policy_default"
  "csc_command_required_capabilities sample_ctx = default_capabilities"
  by (simp_all add: sample_ctx_def csc_from_policy_def conduit_policy_default_def)

lemma default_capabilities_get [simp]:
  "bt_get default_capabilities k =
     (if k = ''start_agent'' \<or> k = ''stop_agent'' then Some ''agent.lifecycle''
      else if k = ''query_receipt_chain'' then Some ''receipt.read''
      else if k = ''list_active_agents'' \<or> k = ''get_system_status'' then Some ''system.read''
      else if k = ''apply_policy_update'' then Some ''policy.update''
      else if k = ''install_extension'' then Some ''extension.install'' else None)"
  by (simp add: default_capabilities_def bt_get_insert)

lemma fresh_rate_allow:
  assumes "0 < rlp_window_ms p" "0 < rlp_per_client_max p" "0 < rlp_per_client_command_max p"
  shows "fst (rate_allow (rate_limiter_new p) c k now) = Ok ()"
  using assms by (auto simp: rate_allow_def rate_limiter_new_def Let_def bump_counter_new
      word_less_1 word_gt_0)

section \<open>What a signature covers\<close>

definition signed_envelope_text :: "libs \<Rightarrow> conduit_security_context \<Rightarrow> command_envelope \<Rightarrow> string" where
  "signed_envelope_text L ctx e =
     ms_key_id (csc_signer ctx) @ '':'' @ ms_secret (csc_signer ctx) @ '':'' @
     canonical_json L (envelope_payload e)"

definition same_signed_fields :: "command_envelope \<Rightarrow> command_envelope \<Rightarrow> bool" where
  "same_signed_fields e e' \<longleftrightarrow>
     ce_schema_id e = ce_schema_id e' \<and> ce_schema_version e = ce_schema_version e' \<and>
     ce_request_id e = ce_request_id e' \<and> ce_ts_ms e = ce_ts_ms e' \<and>
     normalize_value (command_json (ce_command e)) = normalize_value (command_json (ce_command e')) \<and>
     csm_client_id (ce_security e) = csm_client_id (ce_security e') \<and>
     csm_key_id (ce_security e) = csm_key_id (ce_security e') \<and>
     csm_nonce (ce_security e) = csm_nonce (ce_security e') \<and>
     csm_capability_token (ce_security e) = csm_capability_token (ce_security e')"

lemma capability_token_json_inject:
  assumes "normalize_value (capability_token_json t) = normalize_value (capability_token_json t')"
  shows "t = t'"
proof -
  have "json_get (normalize_value (capability_token_json t)) k =
      json_get (normalize_value (capability_token_json t')) k" for k using assms by simp
  from this [of "''token_id''"] this [of "''subject''"] this [of "''capabilities''"]
    this [of "''issued_at_ms''"] this [of "''expires_at_ms''"] this [of "''signature''"]
  show ?thesis
    by (cases t, cases t')
      (auto simp: capability_token_json_def json_get_normalize inj_map_eq_map inj_def
        word_uint_eq_iff comp_def)
qed

lemma envelope_payload_inject:
  assumes "normalize_value (envelope_payload e) = normalize_value (envelope_payload e')"
  shows "same_signed_fields e e'"
proof -
  let ?sec = "\<lambda>e. json_object
       [(''client_id'', JStr (csm_client_id (ce_security e))),
        (''key_id'', JStr (csm_key_id (ce_security e))), (''nonce'', JStr (csm_nonce (ce_security e))),
        (''capability_token'', capability_token_json (csm_capability_token (ce_security e)))]"
  have top: "json_get (normalize_value (envelope_payload e)) k =
      json_get (normalize_value (envelope_payload e')) k" for k using assms by simp
  have "normalize_value (?sec e) = normalize_value (?sec e')"
    using top [of "''security''"]
    by (simp add: envelope_payload_def signing_payload_def json_get_normalize)
  then have sec: "json_get (normalize_value (?sec e)) k = json_get (normalize_value (?sec e')) k" for k
    by simp
  have "csm_capability_token (ce_security e) = csm_capability_token (ce_security e')"
    using sec [of "''capability_token''"]
    by (intro capability_token_json_inject) (simp add: json_get_normalize)
  moreover have "csm_client_id (ce_security e) = csm_client_id (ce_security e')"
    "csm_key_id (ce_security e) = csm_key_id (ce_security e')"
    "csm_nonce (ce_security e) = csm_nonce (ce_security e')"
    using sec [of "''client_id''"] sec [of "''key_id''"] sec [of "''nonce''"]
    by (simp_all add: json_get_normalize)
  moreover note top [of "''schema_id''"] top [of "''schema_version''"] top [of "''request_id''"]
    top [of "''ts_ms''"] top [of "''command''"]
  ultimately show ?thesis
    by (simp add: same_signed_fields_def envelope_payload_def signing_payload_def json_get_normalize
        word_uint_eq_iff)
qed

section \<open>Properties\<close>

text \<open>C2: the conduit accepts a command exactly when all of its checks pass: the schema id and
  version are the conduit's, the command is structurally valid, the policy gate allows it, the
  signature verifies under the conduit's own key over the whole payload, the capability token is
  signed by the token authority, not expired and carries the scope the command type requires, and
  the client is within its rate limits. No other path leads to acceptance.\<close>

theorem validate_command_accepts_iff:
  "vr_ok (fst (validate_command L evaluate ctx now e)) \<longleftrightarrow>
     ce_schema_id e = CONDUIT_SCHEMA_ID \<and> ce_schema_version e = CONDUIT_SCHEMA_VERSION \<and>
     validate_structure (ce_command e) = None \<and> pd_allow (evaluate (ce_command e)) \<and>
     csm_key_id (ce_security e) = ms_key_id (csc_signer ctx) \<and>
     csm_signature (ce_security e) = sign_value L (csc_signer ctx) (envelope_payload e) \<and>
     (\<exists>scope. bt_get (csc_command_required_capabilities ctx) (command_type_name (ce_command e))
          = Some scope \<and>
        ct_signature (csm_capability_token (ce_security e)) =
          sign_value L (cta_signer (csc_token_authority ctx))
            (token_claims_view (csm_capability_token (ce_security e))) \<and>
        now \<le> ct_expires_at_ms (csm_capability_token (ce_security e)) \<and>
        scope \<in> set (ct_capabilities (csm_capability_token (ce_security e)))) \<and>
     fst (rate_allow (csc_rate_limiter ctx) (csm_client_id (ce_security e))
       (command_type_name (ce_command e)) (ce_ts_ms e)) = Ok ()"
  by (auto simp: validate_command_ok_iff authorised_def token_authorised_def token_validate_Ok_iff
      value_signing.verify_iff split: option.splits)

text \<open>C28: the conduit fails closed. When a command is rejected the handler does not run and its
  state is untouched, the response is a policy violation that names the reason and is marked
  fail-closed, and the security context is unchanged unless the command passed every other check
  and was refused by the rate limiter.\<close>

theorem rejected_command_not_executed:
  assumes "process_command L evaluate handle clk (ctx, h) e = (resp, ctx', h')"
    and "\<not> vr_ok (re_validation resp)"
  shows "h' = h \<and> vr_fail_closed (re_validation resp) \<and>
     re_event resp = SystemFeedback ''policy_violation'' (json_object [(''fail_closed'', JBool True)])
       (Some (vr_reason (re_validation resp))) \<and>
     (ctx' = ctx \<or>
        (authorised L evaluate ctx (clk_token clk) e \<and>
         fst (rate_allow (csc_rate_limiter ctx) (csm_client_id (ce_security e))
           (command_type_name (ce_command e)) (ce_ts_ms e)) \<noteq> Ok ()))"
proof -
  let ?v = "validate_command L evaluate ctx (clk_token clk) e"
  note facts = process_command_simps [of L evaluate handle clk ctx h e, unfolded assms(1) fst_conv snd_conv]
  have rej: "\<not> vr_ok (fst ?v)" and h: "h' = h" and ctx: "ctx' = snd ?v"
    and ev: "re_event resp = violation_event (fst ?v)"
    using facts assms(2) by auto
  have "vr_fail_closed (fst ?v)"
    using rej by (auto simp: validate_command_def Let_def split: option.splits sum.splits prod.splits)
  then show ?thesis
    using rej h ctx ev facts(1) by (auto simp: violation_event_def validate_command_ok_iff validate_command_ctx)
qed

theorem rejected_command_not_executed_witness:
  "\<exists>resp ctx' h'.
     process_command sample_libs fail_closed_evaluate (\<lambda>n cmd. (ReceiptAdded [], Suc n))
       \<lparr>clk_token = 1, clk_crossing = 2, clk_response = 3\<rparr> (sample_ctx, 0)
       (minted_envelope sample_libs sample_ctx 1 ''c'' ''r'' 1 GetSystemStatus 50) = (resp, ctx', h') \<and>
     h' = 0 \<and> vr_fail_closed (re_validation resp)"
proof -
  let ?clk = "\<lparr>clk_token = 1, clk_crossing = 2, clk_response = 3\<rparr>"
    and ?e = "minted_envelope sample_libs sample_ctx 1 ''c'' ''r'' 1 GetSystemStatus 50"
    and ?hd = "\<lambda>n (cmd :: ts_command). (ReceiptAdded [], Suc n)"
  obtain resp ctx' h' where p:
    "process_command sample_libs fail_closed_evaluate ?hd ?clk (sample_ctx, 0) ?e = (resp, ctx', h')"
    by (metis prod_cases3)
  have "\<not> vr_ok (re_validation resp)"
    using process_command_simps(1) [of sample_libs fail_closed_evaluate ?hd ?clk sample_ctx 0 ?e]
    by (simp add: p validate_command_ok_iff authorised_def fail_closed_evaluate_def)
  then show ?thesis using rejected_command_not_executed [OF p] p by blast
qed

text \<open>C33: minting and validating fit exactly. \<open>mint_security_metadata\<close> signs a time stamp \<open>ts\<close> that its
  caller gives, and \<open>command_envelope_new\<close> stamps the envelope with its own reading \<open>clock\<close> of the clock.
  The context that minted the metadata accepts the envelope exactly when \<open>clock\<close> is the signed time (or
  the two distinct signed texts collide under the digest), the command is structurally valid, allowed by
  the gate and has a required capability, the token has not expired, and the rate limiter lets the
  request through at \<open>clock\<close>. Callers therefore have to stamp the envelope with the time they had signed.\<close>

theorem minted_envelope_accepted:
  fixes L :: libs
  defines "e \<equiv> \<lambda>ctx issued client rid ts cmd ttl clock.
     command_envelope_new clock rid cmd (mint_security_metadata L ctx issued client rid ts cmd ttl)"
  assumes "text_injective L"
  shows "vr_ok (fst (validate_command L evaluate ctx now (e ctx issued client rid ts cmd ttl clock))) \<longleftrightarrow>
     (clock = ts \<or>
        signed_envelope_text L ctx (e ctx issued client rid ts cmd ttl clock) \<noteq>
          signed_envelope_text L ctx (e ctx issued client rid ts cmd ttl ts) \<and>
        sha256_hex L (signed_envelope_text L ctx (e ctx issued client rid ts cmd ttl clock)) =
          sha256_hex L (signed_envelope_text L ctx (e ctx issued client rid ts cmd ttl ts))) \<and>
     validate_structure cmd = None \<and> pd_allow (evaluate cmd) \<and>
     bt_get (csc_command_required_capabilities ctx) (command_type_name cmd) \<noteq> None \<and>
     now \<le> saturating_add issued ttl \<and>
     fst (rate_allow (csc_rate_limiter ctx) client (command_type_name cmd) clock) = Ok ()"
proof -
  let ?e = "e ctx issued client rid ts cmd ttl"
  have sig: "csm_signature (ce_security (?e clock)) = sign_value L (csc_signer ctx) (envelope_payload (?e ts))"
    by (simp add: e_def command_envelope_new_def mint_security_metadata_def Let_def envelope_payload_def)
  have "clock = ts" if "signed_envelope_text L ctx (?e clock) = signed_envelope_text L ctx (?e ts)"
  proof -
    have "same_signed_fields (?e clock) (?e ts)"
      using that assms(2) by (simp add: signed_envelope_text_def canonical_json_inject envelope_payload_inject)
    then show ?thesis by (simp add: same_signed_fields_def e_def command_envelope_new_def)
  qed
  then have "verify_value L (csc_signer ctx) (envelope_payload (?e clock)) (csm_signature (ce_security (?e clock))) \<longleftrightarrow>
      clock = ts \<or> signed_envelope_text L ctx (?e clock) \<noteq> signed_envelope_text L ctx (?e ts) \<and>
      sha256_hex L (signed_envelope_text L ctx (?e clock)) = sha256_hex L (signed_envelope_text L ctx (?e ts))"
    unfolding sig value_signing.verify_iff sign_value_def sign_payload_def sign_secret_payload_def
      signed_envelope_text_def by blast
  moreover have "token_authorised L ctx now (?e clock) \<longleftrightarrow>
      bt_get (csc_command_required_capabilities ctx) (command_type_name cmd) \<noteq> None \<and>
      now \<le> saturating_add issued ttl"
    by (auto simp: token_authorised_def e_def command_envelope_new_def mint_security_metadata_def Let_def
        mint_validate not_less split: option.splits)
  ultimately show ?thesis
    unfolding validate_command_ok_iff authorised_def
    by (simp add: e_def command_envelope_new_def mint_security_metadata_def Let_def) blast
qed

theorem minted_envelope_accepted_witness:
  "vr_ok (fst (validate_command sample_libs allow_all_evaluate sample_ctx 20
     (command_envelope_new 5 ''r1'' (StartAgent ''a1'')
       (mint_security_metadata sample_libs sample_ctx 10 ''c1'' ''r1'' 5 (StartAgent ''a1'') 100))))"
  unfolding minted_envelope_accepted [OF sample_libs_text_injective]
  by (simp add: allow_all_evaluate_def saturating_add_def blank_def trim_def is_ws_def char_nat_def
      fresh_rate_allow rate_limit_policy_default_def)

text \<open>C29: the signature of an accepted envelope covers the whole request. Two accepted envelopes
  with the same signature agree on the schema, the request id, the timestamp, the command, the
  client, the key, the nonce and the capability token, unless the two distinct signed texts
  collide under the digest.\<close>

theorem accepted_envelopes_bind_request:
  assumes "text_injective L"
    and "vr_ok (fst (validate_command L evaluate ctx now e))"
    and "vr_ok (fst (validate_command L evaluate' ctx now' e'))"
    and "csm_signature (ce_security e) = csm_signature (ce_security e')"
  shows "same_signed_fields e e' \<or>
     (signed_envelope_text L ctx e \<noteq> signed_envelope_text L ctx e' \<and>
      sha256_hex L (signed_envelope_text L ctx e) = sha256_hex L (signed_envelope_text L ctx e'))"
proof -
  let ?sg = "csc_signer ctx"
  have "sign_value L ?sg (envelope_payload e) = sign_value L ?sg (envelope_payload e')"
    using assms by (intro value_signing.verify_same_signature)
      (auto simp: validate_command_ok_iff authorised_def)
  moreover have "same_signed_fields e e'"
    if "signed_envelope_text L ctx e = signed_envelope_text L ctx e'"
    using that assms(1) by (simp add: signed_envelope_text_def canonical_json_inject envelope_payload_inject)
  ultimately show ?thesis
    unfolding sign_value_def sign_payload_def sign_secret_payload_def signed_envelope_text_def
    by blast
qed

theorem accepted_envelopes_bind_request_witness:
  "let L = sample_libs\<lparr>sha256_hex := (\<lambda>_. ''00'')\<rparr>;
       e = minted_envelope L sample_ctx 10 ''c1'' ''r1'' 5 GetSystemStatus 100;
       e' = minted_envelope L sample_ctx 10 ''c1'' ''r2'' 5 GetSystemStatus 100
   in \<not> same_signed_fields e e' \<and>
      sha256_hex L (signed_envelope_text L sample_ctx e) = sha256_hex L (signed_envelope_text L sample_ctx e')"
proof -
  let ?L = "sample_libs\<lparr>sha256_hex := (\<lambda>_. ''00'')\<rparr>"
  let ?e = "\<lambda>r. minted_envelope ?L sample_ctx 10 ''c1'' r 5 GetSystemStatus 100"
  have ok: "vr_ok (fst (validate_command ?L allow_all_evaluate sample_ctx 20 (?e r)))" for r
    using minted_envelope_authorised [of sample_ctx GetSystemStatus "''system.read''" allow_all_evaluate
        20 10 100]
    by (simp add: validate_command_ok_iff allow_all_evaluate_def saturating_add_def fresh_rate_allow
        rate_limit_policy_default_def)
  have ne: "\<not> same_signed_fields (?e ''r1'') (?e ''r2'')"
    by (simp add: same_signed_fields_def command_envelope_new_def)
  have sig: "csm_signature (ce_security (?e ''r1'')) = csm_signature (ce_security (?e ''r2''))"
    by (simp add: command_envelope_new_def mint_security_metadata_def Let_def sign_value_def
        sign_payload_def sign_secret_payload_def)
  have inj: "text_injective ?L"
    using sample_libs_text_injective by (simp add: text_injective_def)
  show ?thesis
    using accepted_envelopes_bind_request [OF inj ok ok sig] ne by (simp add: Let_def)
qed

text \<open>Every response carries receipts an auditor can recompute from the response alone: the
  hash of the validation receipt is the digest of its five other fields, exactly one of \<open>ok\<close> and
  \<open>fail_closed\<close> is set, the crossing names the request, its command type and the digest of the
  whole envelope, and the response hash is the digest of the response with that field left empty.\<close>

lemma response_receipts_recompute:
  defines "resp \<equiv> \<lambda>L evaluate handle clk st e. fst (process_command L evaluate handle clk st e)"
  shows "(let r = resp L evaluate handle clk st e; v = re_validation r in
     vr_receipt_hash v = deterministic_receipt_hash L (receipt_payload (vr_ok v) (vr_fail_closed v)
       (vr_reason v) (vr_policy_receipt_hash v) (vr_security_receipt_hash v)) \<and>
     vr_ok v = (\<not> vr_fail_closed v) \<and>
     re_request_id r = ce_request_id e \<and> cr_crossing_id (re_crossing r) = ce_request_id e \<and>
     cr_command_type (re_crossing r) = command_type_name (ce_command e) \<and>
     cr_deterministic_hash (re_crossing r) = deterministic_receipt_hash L (command_envelope_json e) \<and>
     re_receipt_hash r =
       deterministic_receipt_hash L (response_envelope_json (r\<lparr>re_receipt_hash := []\<rparr>)))"
proof -
  obtain ctx h where st: "st = (ctx, h)" by force
  let ?v = "fst (validate_command L evaluate ctx (clk_token clk) e)"
  have "vr_receipt_hash ?v = deterministic_receipt_hash L (receipt_payload (vr_ok ?v)
      (vr_fail_closed ?v) (vr_reason ?v) (vr_policy_receipt_hash ?v) (vr_security_receipt_hash ?v)) \<and>
      vr_ok ?v = (\<not> vr_fail_closed ?v)"
    by (auto simp: validate_command_def fail_closed_receipt_def success_receipt_def Let_def
        split: option.splits sum.splits prod.splits)
  then show ?thesis
    by (simp add: resp_def st process_command_def Let_def case_prod_unfold crossing_of_def)
qed

text \<open>The nonce gives no protection against replay. An envelope that was just accepted is
  accepted again, unchanged, at any clock reading at which its token is still live, exactly when the
  rate limiter has room left for it.\<close>

lemma replay_accepted_iff_rate:
  assumes "validate_command L evaluate ctx now e = (v, ctx')" and "vr_ok v"
    and "now' \<le> ct_expires_at_ms (csm_capability_token (ce_security e))"
  shows "vr_ok (fst (validate_command L evaluate ctx' now' e)) \<longleftrightarrow>
     fst (rate_allow (csc_rate_limiter ctx') (csm_client_id (ce_security e))
       (command_type_name (ce_command e)) (ce_ts_ms e)) = Ok ()"
proof -
  have auth: "authorised L evaluate ctx now e"
    using validate_command_ok_iff [of L evaluate ctx now e] assms(1,2) by simp
  then have "authorised L evaluate ctx now' e"
    using assms(3) by (auto simp: authorised_def token_authorised_def token_validate_Ok_iff split: option.splits)
  moreover have "ctx' = ctx\<lparr>csc_rate_limiter := snd (rate_of ctx e)\<rparr>"
    using validate_command_ctx [of L evaluate ctx now e] assms(1) auth by simp
  ultimately show ?thesis by (simp add: validate_command_ok_iff)
qed

text \<open>C4: the server executes exactly the accepted commands, once each and in the order they
  arrive. On a connection that delivers well-formed lines and then ends, the loop returns without
  error, answers every line, and the handler has been run on the commands of the accepted envelopes
  and on nothing else.\<close>

theorem serve_loop_executes_accepted:
  assumes "list_all2 (\<lambda>l e. l \<noteq> [] \<and> parse l = Ok e) ls es"
  shows "\<exists>resps ctx'. length resps = length es \<and>
     serve_loop (lines_transport parse) L evaluate handle clks 0
       \<lparr>sv_reader = ls, sv_writer = [], sv_security = ctx, sv_handler = h\<rparr> =
     Some (Ok (), \<lparr>sv_reader = [], sv_writer = resps, sv_security = ctx',
       sv_handler = fold (\<lambda>cmd h. snd (handle h cmd))
         (accepted_commands (accept_run L evaluate ctx (rounds clks 0 es))) h\<rparr>)"
proof -
  obtain resps ctx' h' where p: "process_all L evaluate handle (ctx, h) (rounds clks 0 es) = (resps, ctx', h')"
    by (metis prod_cases3)
  have "length (fst (process_all L evaluate handle st (rounds clks n es))) = length es" for st n
    by (induction es arbitrary: st n) (simp_all add: case_prod_unfold)
  from this [of "(ctx, h)" 0] have "length resps = length es" by (simp add: p)
  moreover have "h' = fold (\<lambda>cmd h. snd (handle h cmd))
      (accepted_commands (accept_run L evaluate ctx (rounds clks 0 es))) h"
    using process_all_handler [of L evaluate handle ctx h "rounds clks 0 es"] by (simp add: p)
  ultimately show ?thesis
    using serve_loop_lines [OF assms, of L evaluate handle clks 0 "[]" "[]" ctx h]
    by (auto simp: p serve_loop_end)
qed

text \<open>C37: a malformed line ends the connection with its parse error. Everything before it has been
  processed as by \<open>process_all\<close>, nothing of the malformed line reaches the handler or the security
  context, and the lines after it stay unread.\<close>

theorem serve_loop_stops_at_malformed:
  assumes "list_all2 (\<lambda>l e. l \<noteq> [] \<and> parse l = Ok e) ls es" and "bad \<noteq> []" and "parse bad = Err err"
  shows "serve_loop (lines_transport parse) L evaluate handle clks 0
       \<lparr>sv_reader = ls @ bad # rest, sv_writer = [], sv_security = ctx, sv_handler = h\<rparr> =
     (case process_all L evaluate handle (ctx, h) (rounds clks 0 es) of (resps, ctx', h') \<Rightarrow>
        Some (Err err, \<lparr>sv_reader = rest, sv_writer = resps, sv_security = ctx', sv_handler = h'\<rparr>))"
  using serve_loop_lines [OF assms(1), of L evaluate handle clks 0 "bad # rest" "[]" ctx h]
    serve_loop_malformed [OF assms(2), of parse err] assms(3)
  by (simp split: prod.splits)

text \<open>A parser for the witnesses: one known line.\<close>

definition sample_envelope :: command_envelope where
  "sample_envelope = minted_envelope sample_libs sample_ctx 10 ''c1'' ''r1'' 5 GetSystemStatus 100"

definition sample_parse :: "string \<Rightarrow> (command_envelope, string) rresult" where
  "sample_parse l = (if l = ''status'' then Ok sample_envelope else Err ''invalid'')"

definition sample_clocks :: "nat \<Rightarrow> clock" where
  "sample_clocks n = \<lparr>clk_token = 20, clk_crossing = 21, clk_response = 22\<rparr>"

abbreviation count_handler :: "nat \<Rightarrow> ts_command \<Rightarrow> rust_event \<times> nat" where
  "count_handler \<equiv> \<lambda>n cmd. (ReceiptAdded [], Suc n)"

lemma sample_envelope_ok: "vr_ok (fst (validate_command sample_libs allow_all_evaluate sample_ctx 20 sample_envelope))"
  unfolding sample_envelope_def validate_command_ok_iff
  by (intro conjI minted_envelope_authorised [where scope = "''system.read''"])
    (simp_all add: allow_all_evaluate_def saturating_add_def fresh_rate_allow rate_limit_policy_default_def)

lemma replay_accepted_iff_rate_witness:
  "\<exists>v ctx'. validate_command sample_libs allow_all_evaluate sample_ctx 20 sample_envelope = (v, ctx') \<and>
     vr_ok v \<and> vr_ok (fst (validate_command sample_libs allow_all_evaluate ctx' 30 sample_envelope))"
proof -
  obtain v ctx' where p:
    "validate_command sample_libs allow_all_evaluate sample_ctx 20 sample_envelope = (v, ctx')" by force
  have ok: "vr_ok v" using sample_envelope_ok by (simp add: p)
  have ctx: "ctx' = sample_ctx\<lparr>csc_rate_limiter := snd (rate_of sample_ctx sample_envelope)\<rparr>"
    using validate_command_ctx [of sample_libs allow_all_evaluate sample_ctx 20 sample_envelope]
      ok validate_command_ok_iff [of sample_libs allow_all_evaluate sample_ctx 20 sample_envelope]
    by (simp add: p)
  have "fst (rate_allow (csc_rate_limiter ctx') ''c1'' ''get_system_status'' 5) = Ok ()"
    by (simp add: ctx sample_envelope_def rate_allow_def rate_limiter_new_def Let_def bump_counter_def
        wc_new_def wc_increment_def saturating_add_def saturating_sub_def rate_limit_policy_default_def)
  then show ?thesis
    using replay_accepted_iff_rate [OF p ok, of 30] p ok
    by (auto simp: sample_envelope_def command_envelope_new_def mint_security_metadata_def Let_def
        saturating_add_def)
qed

theorem serve_loop_executes_accepted_witness:
  "\<exists>resps ctx'. length resps = 1 \<and>
     serve_loop (lines_transport sample_parse) sample_libs allow_all_evaluate count_handler sample_clocks 0
       \<lparr>sv_reader = [''status''], sv_writer = [], sv_security = sample_ctx, sv_handler = 0\<rparr> =
     Some (Ok (), \<lparr>sv_reader = [], sv_writer = resps, sv_security = ctx', sv_handler = 1\<rparr>)"
proof -
  have "list_all2 (\<lambda>l e. l \<noteq> [] \<and> sample_parse l = Ok e) [''status''] [sample_envelope]"
    by (simp add: sample_parse_def)
  from serve_loop_executes_accepted [OF this, of sample_libs allow_all_evaluate count_handler
      sample_clocks sample_ctx 0]
  show ?thesis using sample_envelope_ok
    by (simp add: accepted_commands_def sample_clocks_def case_prod_unfold)
qed

theorem serve_loop_stops_at_malformed_witness:
  "serve_loop (lines_transport sample_parse) sample_libs allow_all_evaluate count_handler sample_clocks 0
       \<lparr>sv_reader = [''junk'', ''status''], sv_writer = [], sv_security = sample_ctx, sv_handler = 0\<rparr> =
     Some (Err ''invalid'', \<lparr>sv_reader = [''status''], sv_writer = [], sv_security = sample_ctx,
       sv_handler = 0\<rparr>)"
  using serve_loop_stops_at_malformed [of sample_parse "[]" "[]" "''junk''" "''invalid''" sample_libs
      allow_all_evaluate count_handler sample_clocks "[''status'']" sample_ctx 0]
  by (simp add: sample_parse_def)

end
