(* ===== verification/Conduit_Bridge.thy ===== *)
theory Conduit_Bridge
  imports Conduit_Core
begin

text \<open>
  The command handlers of \<^verbatim>\<open>core/layer2/conduit/src/lib.rs\<close>: \<^verbatim>\<open>EchoCommandHandler\<close> and
  \<^verbatim>\<open>KernelLaneCommandHandler\<close>, which decodes the edge messages tunnelled through
  \<^verbatim>\<open>start_agent\<close> and runs the operations binary for the bridge commands.

  The operating system is the record \<open>bridge_env\<close>: environment variables, files, the clock, the
  parser of JSON text and the outcome of running a command (exit status and output, a timeout, a
  failed wait or a failed spawn). The cargo feature \<^verbatim>\<open>edge\<close> is its field \<open>be_edge\<close>.
\<close>

section \<open>Messages and environment\<close>

datatype edge_bridge_message =
    EdgeInference string "u32 option"
  | EdgeStatus "string option"
  | SpineCommand "string list" "string option"
  | AttentionCommand "string list"
  | PersonaAmbientCommand "string list"
  | DopamineAmbientCommand "string list"
  | MemoryAmbientCommand "string list"
  | OpsDomainCommand string "string list" "string option"

definition EDGE_BRIDGE_MESSAGE_TYPES :: "string list" where
  "EDGE_BRIDGE_MESSAGE_TYPES =
     [''edge_inference'', ''edge_status'', ''spine_command'', ''attention_command'',
      ''persona_ambient_command'', ''dopamine_ambient_command'', ''memory_ambient_command'',
      ''ops_domain_command'']"

text \<open>The outcome of running a command; an \<^verbatim>\<open>i32\<close> exit code is read as a signed word.\<close>

type_synonym i32 = "32 word"

datatype process_outcome =
    Exited "i32 option" string string
  | TimedOut string string
  | WaitError string
  | SpawnError string

record bridge_env =
  be_edge :: bool
  be_now :: u64
  be_cwd :: "string option"
  be_var :: "string \<Rightarrow> string option"
  be_exists :: "string \<Rightarrow> bool"
  be_read :: "string \<Rightarrow> string option"
  be_parse :: "string \<Rightarrow> json option"
  be_parse_edge :: "string \<Rightarrow> (edge_bridge_message, string) rresult"
  be_run :: "string \<Rightarrow> string list \<Rightarrow> (string \<times> string) list \<Rightarrow> u64 \<Rightarrow> process_outcome"

section \<open>The edge backend\<close>

definition edge_backend_label :: "bridge_env \<Rightarrow> string" where
  "edge_backend_label E = (if be_edge E then ''picolm_static_stub'' else ''edge_feature_disabled'')"

definition normalize_edge_prompt :: "string \<Rightarrow> string" where
  "normalize_edge_prompt prompt =
     (let normalized = join '' '' (split_whitespace prompt)
      in if normalized = [] then ''(empty_prompt)'' else normalized)"

definition summarize_for_edge_backend :: "string \<Rightarrow> nat \<Rightarrow> string" where
  "summarize_for_edge_backend prompt token_cap =
     (let tokens = split_whitespace prompt
      in if length tokens \<le> token_cap then join '' '' tokens
         else join '' '' (take token_cap tokens))"

definition with_receipt_hash :: "libs \<Rightarrow> json \<Rightarrow> json" where
  "with_receipt_hash L out = json_set ''receipt_hash'' (JStr (deterministic_receipt_hash L out)) out"

definition edge_status_event :: "bridge_env \<Rightarrow> libs \<Rightarrow> string option \<Rightarrow> rust_event" where
  "edge_status_event E L probe =
     (let detail = json_object
        [(''ok'', JBool True), (''type'', JStr ''edge_status''), (''probe'', json_opt_str probe),
         (''backend'', JStr (edge_backend_label E)), (''available'', JBool (be_edge E)),
         (''compile_time_feature_edge'', JBool (be_edge E))]
      in SystemFeedback ''edge_status'' (with_receipt_hash L detail) None)"

definition edge_token_cap :: "u32 option \<Rightarrow> nat" where
  "edge_token_cap max_tokens = unat (clamp 1 256 (case max_tokens of Some n \<Rightarrow> n | None \<Rightarrow> 64))"

definition edge_inference_event :: "bridge_env \<Rightarrow> libs \<Rightarrow> string \<Rightarrow> u32 option \<Rightarrow> rust_event" where
  "edge_inference_event E L prompt max_tokens =
     (if \<not> be_edge E then
        SystemFeedback ''edge_backend_unavailable''
          (with_receipt_hash L (json_object
             [(''ok'', JBool False), (''type'', JStr ''edge_inference''),
              (''backend'', JStr (edge_backend_label E)), (''reason'', JStr ''edge_feature_disabled''),
              (''compile_time_feature_edge'', JBool False)]))
          (Some ''edge_feature_disabled'')
      else
        let normalized = normalize_edge_prompt prompt;
            token_cap = edge_token_cap max_tokens;
            output_text = summarize_for_edge_backend normalized token_cap;
            output_tokens = (of_nat (length (split_whitespace output_text)) :: u32);
            detail = json_object
              [(''ok'', JBool True), (''type'', JStr ''edge_inference''),
               (''backend'', JStr (edge_backend_label E)),
               (''input'', json_object
                  [(''prompt_hash'', JStr (deterministic_hash L (JStr normalized))),
                   (''max_tokens'', JInt (int token_cap))]),
               (''output'', json_object
                  [(''text'', JStr output_text), (''token_count'', json_word output_tokens),
                   (''truncated'', JBool (length (split_whitespace normalized) > token_cap))])]
        in SystemFeedback ''edge_inference'' (with_receipt_hash L detail) None)"

section \<open>The operations bridge\<close>

text \<open>\<open>parse_json_payload\<close>: the whole output, or else its last line that starts with a brace and
  parses.\<close>

definition parse_json_line :: "bridge_env \<Rightarrow> string \<Rightarrow> json option" where
  "parse_json_line E line = (let t = trim line in if starts_with t ''{'' then be_parse E t else None)"

fun first_some :: "('a \<Rightarrow> 'b option) \<Rightarrow> 'a list \<Rightarrow> 'b option" where
  "first_some f [] = None"
| "first_some f (x # xs) = (case f x of Some y \<Rightarrow> Some y | None \<Rightarrow> first_some f xs)"

definition parse_json_payload :: "bridge_env \<Rightarrow> string \<Rightarrow> json option" where
  "parse_json_payload E stdout =
     (let raw = trim stdout
      in if raw = [] then None
         else (case be_parse E raw of
                 Some payload \<Rightarrow> Some payload
               | None \<Rightarrow> first_some (parse_json_line E) (rev (rust_lines raw))))"

definition repo_root_from_current_dir :: "bridge_env \<Rightarrow> string" where
  "repo_root_from_current_dir E = (case be_cwd E of Some d \<Rightarrow> d | None \<Rightarrow> ''.'')"

definition resolve_default_ops_command :: "bridge_env \<Rightarrow> string \<Rightarrow> string \<Rightarrow> string \<times> string list" where
  "resolve_default_ops_command E root domain =
     (let release = path_join (path_join (path_join root ''target'') ''release'') ''protheus-ops'';
          debug = path_join (path_join (path_join root ''target'') ''debug'') ''protheus-ops''
      in if be_exists E release then (release, [domain])
         else if be_exists E debug then (debug, [domain])
         else (''cargo'', [''run'', ''--quiet'', ''--manifest-path'', ''core/layer0/ops/Cargo.toml'',
                 ''--bin'', ''protheus-ops'', ''--'', domain]))"

definition resolve_protheus_ops_command :: "bridge_env \<Rightarrow> string \<Rightarrow> string \<Rightarrow> string \<times> string list" where
  "resolve_protheus_ops_command E root domain =
     (case be_var E ''PROTHEUS_OPS_BIN'' of
        Some bin \<Rightarrow> if trim bin \<noteq> [] then (trim bin, [domain])
                    else resolve_default_ops_command E root domain
      | None \<Rightarrow> resolve_default_ops_command E root domain)"

definition bridge_command_timeout_ms :: "bridge_env \<Rightarrow> u64" where
  "bridge_command_timeout_ms E =
     (case Option.bind (be_var E ''PROTHEUS_OPS_BRIDGE_TIMEOUT_MS'') (\<lambda>raw. parse_u64 (trim raw)) of
        Some ms \<Rightarrow> clamp 1000 (15 * 60 * 1000) ms
      | None \<Rightarrow> 110000)"

definition run_context_env :: "string option \<Rightarrow> (string \<times> string) list" where
  "run_context_env run_context =
     (case run_context of
        Some context \<Rightarrow> if trim context \<noteq> [] then [(''SPINE_RUN_CONTEXT'', trim context)] else []
      | None \<Rightarrow> [])"

text \<open>The entries every detail record of the bridge carries after the outcome.\<close>

definition bridge_common ::
  "string \<Rightarrow> string list \<Rightarrow> string option \<Rightarrow> string \<Rightarrow> string \<Rightarrow> string \<Rightarrow> u64 \<Rightarrow> (string \<times> json) list" where
  "bridge_common command args run_context stdout stderr domain timeout_ms =
     [(''command'', JStr command), (''args'', json_str_list args),
      (''run_context'', json_opt_str run_context), (''stdout'', JStr stdout), (''stderr'', JStr stderr),
      (''routed_via'', JStr ''conduit''), (''domain'', JStr domain),
      (''bridge_timeout_ms'', json_word timeout_ms)]"

definition merge_receipt_reason :: "json \<Rightarrow> json \<Rightarrow> json" where
  "merge_receipt_reason receipt detail =
     (case Option.bind (json_get receipt ''reason'') as_str of
        Some reason \<Rightarrow> json_set ''reason'' (JStr reason) detail
      | None \<Rightarrow>
          (case Option.bind (json_get receipt ''failure_reason'') as_str of
             Some reason \<Rightarrow> json_set ''reason'' (JStr reason) detail
           | None \<Rightarrow> detail))"

definition merge_domain_receipt :: "i32 \<Rightarrow> json \<Rightarrow> json \<Rightarrow> json" where
  "merge_domain_receipt exit_code receipt detail =
     (let d1 = json_set ''domain_receipt'' receipt detail;
          d2 = (case Option.bind (json_get receipt ''type'') as_str of
                  Some kind \<Rightarrow> json_set ''type'' (JStr kind) d1 | None \<Rightarrow> d1);
          d3 = (case Option.bind (json_get receipt ''ok'') as_bool of
                  Some ok \<Rightarrow> json_set ''ok'' (JBool (ok \<and> exit_code = 0)) d2 | None \<Rightarrow> d2)
      in merge_receipt_reason receipt d3)"

definition failed_detail ::
  "string \<Rightarrow> int \<Rightarrow> string \<Rightarrow> (string \<times> json) list \<Rightarrow> json" where
  "failed_detail kind exit_code reason common = json_object
     ([(''ok'', JBool False), (''type'', JStr kind), (''exit_code'', JInt exit_code),
       (''reason'', JStr reason)] @ common)"

definition exited_detail ::
  "bridge_env \<Rightarrow> string \<Rightarrow> i32 \<Rightarrow> string \<Rightarrow> (string \<times> json) list \<Rightarrow> json" where
  "exited_detail E domain exit_code stdout common =
     (let detail = json_object
        ([(''ok'', JBool (exit_code = 0)),
          (''type'', JStr (domain @ (if exit_code = 0 then ''_bridge_ok'' else ''_bridge_error''))),
          (''exit_code'', JInt (sint exit_code))] @ common)
      in (case parse_json_payload E stdout of
            Some receipt \<Rightarrow> merge_domain_receipt exit_code receipt detail
          | None \<Rightarrow> detail))"

text \<open>The detail record before its own hash is added, for each outcome of the command.\<close>

definition outcome_detail ::
  "bridge_env \<Rightarrow> string \<Rightarrow> string \<Rightarrow> string list \<Rightarrow> string option \<Rightarrow> u64 \<Rightarrow> process_outcome \<Rightarrow> json" where
  "outcome_detail E domain command args run_context timeout_ms outcome =
     (case outcome of
        Exited code stdout stderr \<Rightarrow>
          exited_detail E domain (case code of Some c \<Rightarrow> c | None \<Rightarrow> 1) stdout
            (bridge_common command args run_context stdout stderr domain timeout_ms)
      | TimedOut stdout stderr \<Rightarrow>
          failed_detail (domain @ ''_bridge_timeout'') 124
            (domain @ ''_bridge_timeout:'' @ show_word timeout_ms)
            (bridge_common command args run_context stdout stderr domain timeout_ms)
      | WaitError err \<Rightarrow>
          failed_detail (domain @ ''_bridge_wait_error'') 1 (domain @ ''_bridge_wait_failed:'' @ err)
            (bridge_common command args run_context [] [] domain timeout_ms)
      | SpawnError err \<Rightarrow>
          failed_detail (domain @ ''_bridge_spawn_error'') 1 (domain @ ''_bridge_spawn_failed:'' @ err)
            (bridge_common command args run_context [] [] domain timeout_ms))"

definition ops_outcome :: "bridge_env \<Rightarrow> string \<Rightarrow> string list \<Rightarrow> string option \<Rightarrow> process_outcome" where
  "ops_outcome E domain args run_context =
     (let (command, command_args) = resolve_protheus_ops_command E (repo_root_from_current_dir E) domain
      in be_run E command (command_args @ args)
           ((''PROTHEUS_NODE_BINARY'',
             case be_var E ''PROTHEUS_NODE_BINARY'' of Some b \<Rightarrow> b | None \<Rightarrow> ''node'') #
            run_context_env run_context)
           (bridge_command_timeout_ms E))"

definition execute_ops_bridge_command ::
  "bridge_env \<Rightarrow> libs \<Rightarrow> string \<Rightarrow> string list \<Rightarrow> string option \<Rightarrow> json" where
  "execute_ops_bridge_command E L domain args run_context =
     (let (command, command_args) = resolve_protheus_ops_command E (repo_root_from_current_dir E) domain
      in with_receipt_hash L (outcome_detail E domain command (command_args @ args) run_context
           (bridge_command_timeout_ms E) (ops_outcome E domain args run_context)))"

definition copy_receipt :: "string \<Rightarrow> json \<Rightarrow> json" where
  "copy_receipt key detail =
     (case json_get detail ''domain_receipt'' of
        Some receipt \<Rightarrow> json_set key receipt detail | None \<Rightarrow> detail)"

definition execute_spine_bridge_command ::
  "bridge_env \<Rightarrow> libs \<Rightarrow> string list \<Rightarrow> string option \<Rightarrow> json" where
  "execute_spine_bridge_command E L args run_context =
     copy_receipt ''spine_receipt'' (execute_ops_bridge_command E L ''spine'' args run_context)"

definition execute_attention_bridge_command :: "bridge_env \<Rightarrow> libs \<Rightarrow> string list \<Rightarrow> json" where
  "execute_attention_bridge_command E L args =
     copy_receipt ''attention_receipt'' (execute_ops_bridge_command E L ''attention-queue'' args None)"

definition execute_persona_ambient_bridge_command :: "bridge_env \<Rightarrow> libs \<Rightarrow> string list \<Rightarrow> json" where
  "execute_persona_ambient_bridge_command E L args =
     copy_receipt ''persona_ambient_receipt''
       (execute_ops_bridge_command E L ''persona-ambient'' args None)"

definition execute_dopamine_ambient_bridge_command :: "bridge_env \<Rightarrow> libs \<Rightarrow> string list \<Rightarrow> json" where
  "execute_dopamine_ambient_bridge_command E L args =
     copy_receipt ''dopamine_ambient_receipt''
       (execute_ops_bridge_command E L ''dopamine-ambient'' args None)"

definition execute_memory_ambient_bridge_command :: "bridge_env \<Rightarrow> libs \<Rightarrow> string list \<Rightarrow> json" where
  "execute_memory_ambient_bridge_command E L args =
     copy_receipt ''memory_ambient_receipt''
       (execute_ops_bridge_command E L ''memory-ambient'' args None)"

text \<open>The event for a detail record: status from its type, a violation unless it says ok.\<close>

definition bridge_feedback :: "string \<Rightarrow> json \<Rightarrow> rust_event" where
  "bridge_feedback pre detail =
     (let kind = Option.bind (json_get detail ''type'') as_str;
          status =
            (if unwrap_or (Option.bind (json_get detail ''exit_code'') as_i64) 1 = 0
             then unwrap_or kind (pre @ ''_bridge_ok'') else unwrap_or kind (pre @ ''_bridge_error''));
          violation_reason =
            (if unwrap_or (Option.bind (json_get detail ''ok'') as_bool) False then None
             else (case Option.bind (json_get detail ''reason'') as_str of
                     Some s \<Rightarrow> Some s | None \<Rightarrow> Some (pre @ ''_bridge_failed'')))
      in SystemFeedback status detail violation_reason)"

definition ops_domain_event ::
  "bridge_env \<Rightarrow> libs \<Rightarrow> string \<Rightarrow> string list \<Rightarrow> string option \<Rightarrow> rust_event" where
  "ops_domain_event E L domain args run_context =
     (if trim domain = [] then
        SystemFeedback ''ops_domain_bridge_error''
          (json_object
             [(''ok'', JBool False), (''type'', JStr ''ops_domain_bridge_error''),
              (''reason'', JStr ''missing_domain''), (''domain'', JStr domain),
              (''args'', json_str_list args), (''routed_via'', JStr ''conduit'')])
          (Some ''missing_domain'')
      else bridge_feedback ''ops_domain''
             (execute_ops_bridge_command E L (trim domain) args run_context))"

definition spine_event :: "bridge_env \<Rightarrow> libs \<Rightarrow> string list \<Rightarrow> string option \<Rightarrow> rust_event" where
  "spine_event E L args run_context =
     bridge_feedback ''spine'' (execute_spine_bridge_command E L args run_context)"

definition attention_event :: "bridge_env \<Rightarrow> libs \<Rightarrow> string list \<Rightarrow> rust_event" where
  "attention_event E L args = bridge_feedback ''attention'' (execute_attention_bridge_command E L args)"

definition persona_ambient_event :: "bridge_env \<Rightarrow> libs \<Rightarrow> string list \<Rightarrow> rust_event" where
  "persona_ambient_event E L args = bridge_feedback ''persona_ambient'' (execute_persona_ambient_bridge_command E L args)"

definition dopamine_ambient_event :: "bridge_env \<Rightarrow> libs \<Rightarrow> string list \<Rightarrow> rust_event" where
  "dopamine_ambient_event E L args = bridge_feedback ''dopamine_ambient'' (execute_dopamine_ambient_bridge_command E L args)"

definition memory_ambient_event :: "bridge_env \<Rightarrow> libs \<Rightarrow> string list \<Rightarrow> rust_event" where
  "memory_ambient_event E L args = bridge_feedback ''memory_ambient'' (execute_memory_ambient_bridge_command E L args)"

fun execute_edge_bridge_message :: "bridge_env \<Rightarrow> libs \<Rightarrow> edge_bridge_message \<Rightarrow> rust_event" where
  "execute_edge_bridge_message E L (EdgeStatus probe) = edge_status_event E L probe"
| "execute_edge_bridge_message E L (EdgeInference prompt max_tokens) =
     edge_inference_event E L prompt max_tokens"
| "execute_edge_bridge_message E L (SpineCommand args run_context) =
     spine_event E L args run_context"
| "execute_edge_bridge_message E L (AttentionCommand args) =
     attention_event E L args"
| "execute_edge_bridge_message E L (PersonaAmbientCommand args) =
     persona_ambient_event E L args"
| "execute_edge_bridge_message E L (DopamineAmbientCommand args) =
     dopamine_ambient_event E L args"
| "execute_edge_bridge_message E L (MemoryAmbientCommand args) =
     memory_ambient_event E L args"
| "execute_edge_bridge_message E L (OpsDomainCommand domain args run_context) =
     ops_domain_event E L domain args run_context"

definition decode_edge_bridge_message ::
  "bridge_env \<Rightarrow> string \<Rightarrow> (edge_bridge_message option, string) rresult" where
  "decode_edge_bridge_message E agent_id =
     (let trimmed = trim agent_id
      in if eq_ignore_ascii_case trimmed ''edge_status'' then Ok (Some (EdgeStatus None))
         else
           (case strip_prefix trimmed ''edge_inference:'' of
              Some prompt \<Rightarrow> Ok (Some (EdgeInference prompt (Some 64)))
            | None \<Rightarrow>
                (case strip_prefix trimmed ''edge_json:'' of
                   Some raw_json \<Rightarrow>
                     (case be_parse_edge E raw_json of
                        Inl err \<Rightarrow> Err (''edge_bridge_json_invalid:'' @ err)
                      | Inr parsed \<Rightarrow> Ok (Some parsed))
                 | None \<Rightarrow> Ok None)))"

section \<open>Legacy lanes\<close>

definition clean_lane_id :: "string \<Rightarrow> string" where
  "clean_lane_id raw = to_ascii_uppercase
     (filter (\<lambda>ch. is_ascii_alphanumeric ch \<or> ch \<in> {CHR ''-'', CHR ''_'', CHR ''.''}) (trim raw))"

definition build_legacy_lane_error :: "bridge_env \<Rightarrow> libs \<Rightarrow> string \<Rightarrow> string \<Rightarrow> json" where
  "build_legacy_lane_error E L raw_lane_id reason = with_receipt_hash L (json_object
     [(''ok'', JBool False), (''type'', JStr ''legacy_retired_lane_cli_error''),
      (''lane_id'', JStr (clean_lane_id raw_lane_id)), (''error'', JStr reason),
      (''ts_ms'', json_word (be_now E))])"

definition build_legacy_lane_receipt :: "bridge_env \<Rightarrow> libs \<Rightarrow> string \<Rightarrow> json" where
  "build_legacy_lane_receipt E L raw_lane_id =
     (let lane_id = clean_lane_id raw_lane_id
      in if lane_id = [] then build_legacy_lane_error E L raw_lane_id ''lane_id_missing_or_invalid''
         else
           let lane_hash_full = deterministic_receipt_hash L (json_object
                 [(''lane'', JStr lane_id), (''ts_ms'', json_word (be_now E)),
                  (''type'', JStr ''legacy_retired_lane'')])
           in with_receipt_hash L (json_object
                [(''ok'', JBool True), (''type'', JStr ''legacy_retired_lane''),
                 (''lane_id'', JStr lane_id), (''ts_ms'', json_word (be_now E)),
                 (''lane_hash'', JStr (take 32 lane_hash_full)),
                 (''contract'', json_object
                    [(''deterministic'', JBool True), (''reversible'', JBool True),
                     (''receipt_ready'', JBool True), (''migrated_to_rust'', JBool True)])]))"

section \<open>Cockpit summary and the handlers\<close>

definition CLIENT_STATE_ROOT :: string where
  "CLIENT_STATE_ROOT = ''client/runtime/local/state''"

definition resolve_cockpit_latest_path :: "bridge_env \<Rightarrow> string \<Rightarrow> string" where
  "resolve_cockpit_latest_path E root =
     (let explicit = Option.bind (map_option trim (be_var E ''COCKPIT_INBOX_LATEST_PATH''))
                       (\<lambda>v. if v \<noteq> [] then Some v else None)
      in (case explicit of
            Some path \<Rightarrow> if path_is_absolute path then path else path_join root path
          | None \<Rightarrow> path_join (path_join (path_join (path_join root CLIENT_STATE_ROOT) ''cockpit'')
                      ''inbox'') ''latest.json''))"

definition load_cockpit_summary :: "bridge_env \<Rightarrow> string \<Rightarrow> json" where
  "load_cockpit_summary E root =
     (let latest_path = resolve_cockpit_latest_path E root;
          unavailable = (\<lambda>extra. json_object
            ([(''available'', JBool False), (''path'', JStr latest_path)] @ extra));
          field = (\<lambda>v k. unwrap_or (json_get v k) JNull);
          attention = (\<lambda>v k. unwrap_or (Option.bind (json_get v ''attention'') (\<lambda>a. json_get a k)) JNull)
      in (case be_read E latest_path of
            None \<Rightarrow> unavailable []
          | Some raw \<Rightarrow>
              (case be_parse E raw of
                 None \<Rightarrow> unavailable [(''reason'', JStr ''cockpit_latest_invalid_json'')]
               | Some value \<Rightarrow>
                   (case value of
                      JObj _ \<Rightarrow> json_object
                        [(''available'', JBool True), (''path'', JStr latest_path),
                         (''ts'', field value ''ts''), (''sequence'', field value ''sequence''),
                         (''consumer_id'', field value ''consumer_id''),
                         (''attention_batch_count'', attention value ''batch_count''),
                         (''attention_queue_depth'', attention value ''queue_depth''),
                         (''receipt_hash'', field value ''receipt_hash'')]
                    | _ \<Rightarrow> unavailable [(''reason'', JStr ''cockpit_latest_not_object'')]))))"

fun echo_handle :: "bridge_env \<Rightarrow> ts_command \<Rightarrow> rust_event" where
  "echo_handle E (StartAgent agent_id) = AgentLifecycle Started agent_id"
| "echo_handle E (StopAgent agent_id) = AgentLifecycle Stopped agent_id"
| "echo_handle E (QueryReceiptChain _ _) = ReceiptAdded ''query_receipt_chain_ack''"
| "echo_handle E (ApplyPolicyUpdate _ _) =
     SystemFeedback ''policy_update_accepted'' (json_object [(''source'', JStr ''conduit'')]) None"
| "echo_handle E (InstallExtension extension_id _ _) =
     SystemFeedback ''extension_install_accepted''
       (json_object [(''extension_id'', JStr extension_id)]) None"
| "echo_handle E cmd =
     SystemFeedback ''ok''
       (json_object [(''mode'', JStr ''hosted''),
         (''cockpit_context'', load_cockpit_summary E (repo_root_from_current_dir E))]) None"

definition lane_event :: "bridge_env \<Rightarrow> libs \<Rightarrow> string \<Rightarrow> rust_event" where
  "lane_event E L agent_id =
     (let lane_receipt = build_legacy_lane_receipt E L (unwrap_or (strip_prefix agent_id ''lane:'') []);
          status = (if unwrap_or (Option.bind (json_get lane_receipt ''ok'') as_bool) False
                    then ''legacy_lane_receipt'' else ''legacy_lane_error'')
      in SystemFeedback status (json_object [(''lane_receipt'', lane_receipt)]) None)"

definition edge_error_event :: "libs \<Rightarrow> string \<Rightarrow> rust_event" where
  "edge_error_event L reason = SystemFeedback ''edge_bridge_error''
     (json_object
        [(''ok'', JBool False), (''type'', JStr ''edge_bridge_error''), (''reason'', JStr reason),
         (''receipt_hash'', JStr (deterministic_receipt_hash L (json_object
            [(''type'', JStr ''edge_bridge_error''), (''reason'', JStr reason)])))])
     (Some ''edge_bridge_parse_failed'')"

fun kernel_lane_handle :: "bridge_env \<Rightarrow> libs \<Rightarrow> ts_command \<Rightarrow> rust_event" where
  "kernel_lane_handle E L (StartAgent agent_id) =
     (case decode_edge_bridge_message E agent_id of
        Inr (Some message) \<Rightarrow> execute_edge_bridge_message E L message
      | Inr None \<Rightarrow>
          if starts_with agent_id ''lane:'' then lane_event E L agent_id
          else echo_handle E (StartAgent agent_id)
      | Inl reason \<Rightarrow> edge_error_event L reason)"
| "kernel_lane_handle E L cmd = echo_handle E cmd"

section \<open>Facts about the bridge\<close>

definition is_object :: "json \<Rightarrow> bool" where
  "is_object j = (case j of JObj _ \<Rightarrow> True | _ \<Rightarrow> False)"

lemma is_object_simps [simp]:
  "is_object (json_object kvs)" "is_object (json_set k v j) = is_object j"
  by (simp add: is_object_def json_object_def) (cases j; simp add: is_object_def)

lemma json_get_set:
  "json_get (json_set k v j) k' = (if k' = k \<and> is_object j then Some v else json_get j k')"
  by (cases j) (simp_all add: is_object_def bt_get_insert)

lemmas json_detail_simps = json_get_set json_get_object with_receipt_hash_def

text \<open>A command succeeded when its process exited with code 0 and its receipt, if it printed one, does
  not say otherwise.\<close>

definition succeeded :: "bridge_env \<Rightarrow> process_outcome \<Rightarrow> bool" where
  "succeeded E outcome =
     (case outcome of
        Exited code stdout stderr \<Rightarrow> code = Some 0 \<and>
          (case parse_json_payload E stdout of
             Some receipt \<Rightarrow> Option.bind (json_get receipt ''ok'') as_bool \<noteq> Some False
           | None \<Rightarrow> True)
      | _ \<Rightarrow> False)"

lemma merge_receipt_reason_other:
  "k \<noteq> ''reason'' \<Longrightarrow> json_get (merge_receipt_reason receipt detail) k = json_get detail k"
  by (simp add: merge_receipt_reason_def json_get_set split: option.splits)

lemma merge_domain_receipt_ok:
  "is_object detail \<Longrightarrow> json_get (merge_domain_receipt code receipt detail) ''ok'' =
     (case Option.bind (json_get receipt ''ok'') as_bool of
        Some ok \<Rightarrow> Some (JBool (ok \<and> code = 0)) | None \<Rightarrow> json_get detail ''ok'')"
  by (simp add: merge_domain_receipt_def Let_def merge_receipt_reason_other json_get_set
      split: option.splits)

lemma outcome_detail_ok:
  "json_get (outcome_detail E domain command args rc t outcome) ''ok'' =
     Some (JBool (succeeded E outcome))"
  by (auto simp: outcome_detail_def succeeded_def exited_detail_def failed_detail_def Let_def
      merge_domain_receipt_ok json_get_object bridge_common_def
      split: process_outcome.splits option.splits)

lemma ops_bridge_ok:
  "json_get (execute_ops_bridge_command E L domain args rc) ''ok'' =
     Some (JBool (succeeded E (ops_outcome E domain args rc)))"
  by (simp add: execute_ops_bridge_command_def Let_def case_prod_unfold with_receipt_hash_def
      json_get_set outcome_detail_ok)

lemma copy_receipt_ok:
  "key \<noteq> ''ok'' \<Longrightarrow> json_get (copy_receipt key d) ''ok'' = json_get d ''ok''"
  by (simp add: copy_receipt_def json_get_set split: option.splits)

lemma bridge_feedback_violation:
  "json_get detail ''ok'' = Some (JBool b) \<Longrightarrow>
   \<exists>status reason. bridge_feedback pre detail = SystemFeedback status detail reason \<and> (reason = None) = b"
  by (auto simp: bridge_feedback_def Let_def unwrap_or_def split: option.splits)

lemma edge_token_cap_bounds: "1 \<le> edge_token_cap n \<and> edge_token_cap n \<le> 256"
  using clamp_bounds [of "1 :: u32" 256 "case n of Some n \<Rightarrow> n | None \<Rightarrow> 64"]
  by (simp add: edge_token_cap_def word_le_nat_alt)

lemma normalize_edge_prompt_words:
  "split_whitespace (normalize_edge_prompt p) =
     (if split_whitespace p = [] then [''(empty_prompt)''] else split_whitespace p)"
proof (cases "split_whitespace p = []")
  case True
  then show ?thesis
    by (simp add: normalize_edge_prompt_def split_whitespace_def char_class_defs char_nat_def)
next
  case False
  then obtain w ws where p: "split_whitespace p = w # ws" by (cases "split_whitespace p") auto
  with split_whitespace_words [of w p] have "w \<noteq> []" by simp
  then have "join '' '' (split_whitespace p) \<noteq> []" by (cases ws) (simp_all add: p)
  with False show ?thesis
    by (simp add: normalize_edge_prompt_def Let_def split_whitespace_join split_whitespace_words)
qed

lemma summarize_words:
  "split_whitespace (summarize_for_edge_backend p cap) = take cap (split_whitespace p)"
  by (auto simp: summarize_for_edge_backend_def Let_def
      intro!: split_whitespace_join dest: in_set_takeD split_whitespace_words)

section \<open>Properties\<close>

text \<open>The operations bridge never reports success for a failed command. For a named domain, the
  event carries no violation exactly when the process exited with code 0 and the receipt it
  printed, if any, does not say \<open>ok: false\<close>; a timeout, a failed spawn or wait, a signal and a non-zero
  exit are always violations.\<close>

lemma ops_bridge_reports_success_iff:
  assumes "trim domain \<noteq> []"
  shows "\<exists>status detail reason.
     execute_edge_bridge_message E L (OpsDomainCommand domain args rc) = SystemFeedback status detail reason \<and>
     (reason = None \<longleftrightarrow>
       (\<exists>out err. ops_outcome E (trim domain) args rc = Exited (Some 0) out err \<and>
          (\<forall>receipt. parse_json_payload E out = Some receipt \<longrightarrow>
             json_get receipt ''ok'' \<noteq> Some (JBool False))))"
proof -
  have "succeeded E o' \<longleftrightarrow> (\<exists>out err. o' = Exited (Some 0) out err \<and>
      (\<forall>receipt. parse_json_payload E out = Some receipt \<longrightarrow>
         json_get receipt ''ok'' \<noteq> Some (JBool False)))" for o'
  proof -
    have "Option.bind j as_bool = Some False \<longleftrightarrow> j = Some (JBool False)" for j
      by (cases j; cases "the j") auto
    then show ?thesis by (auto simp: succeeded_def split: process_outcome.splits option.splits)
  qed
  then show ?thesis
    using bridge_feedback_violation [OF ops_bridge_ok, of "''ops_domain''" E L "trim domain" args rc] assms
    by (fastforce simp: ops_domain_event_def)
qed

text \<open>An environment in which the operations binary prints nothing and exits with code 0.\<close>

definition quiet_env :: bridge_env where
  "quiet_env =
     \<lparr>be_edge = True, be_now = 0, be_cwd = None, be_var = (\<lambda>_. None), be_exists = (\<lambda>_. False),
      be_read = (\<lambda>_. None), be_parse = (\<lambda>_. None), be_parse_edge = (\<lambda>_. Err ''eof''),
      be_run = (\<lambda>_ _ _ _. Exited (Some 0) [] [])\<rparr>"

lemma ops_bridge_reports_success_iff_witness:
  "\<exists>status detail. execute_edge_bridge_message quiet_env sample_libs
     (OpsDomainCommand ''memory'' [''status''] None) = SystemFeedback status detail None"
proof -
  have out: "ops_outcome quiet_env (trim ''memory'') [''status''] None = Exited (Some 0) [] []"
    by (simp add: ops_outcome_def quiet_env_def case_prod_unfold)
  have pj: "parse_json_payload quiet_env [] = None" by (simp add: parse_json_payload_def)
  have tr: "trim ''memory'' \<noteq> []" by (simp add: trim_def is_ws_def char_nat_def)
  show ?thesis
    using ops_bridge_reports_success_iff [OF tr, of quiet_env sample_libs "[''status'']" None] out pj
    by (auto simp del: execute_edge_bridge_message.simps)
qed

text \<open>Edge inference is bounded and faithful to its prompt. With the edge feature on, the answer is
  the first words of the prompt (a placeholder for an empty prompt), at least one and at most the
  token cap of them, the cap itself lies between 1 and 256 whatever the request asks for, and the
  reported count and truncation flag are those of the answer.\<close>

lemma edge_inference_bounded:
  assumes "be_edge E"
  shows "\<exists>detail output text. execute_edge_bridge_message E L (EdgeInference prompt max_tokens) =
       SystemFeedback ''edge_inference'' detail None \<and>
     json_get detail ''output'' = Some output \<and> json_get output ''text'' = Some (JStr text) \<and>
     (let words = split_whitespace (normalize_edge_prompt prompt); cap = edge_token_cap max_tokens in
        words \<noteq> [] \<and> 1 \<le> cap \<and> cap \<le> 256 \<and> split_whitespace text = take cap words \<and>
        json_get output ''token_count'' = Some (JInt (int (min cap (length words)))) \<and>
        json_get output ''truncated'' = Some (JBool (cap < length words)))"
proof -
  let ?words = "split_whitespace (normalize_edge_prompt prompt)" and ?cap = "edge_token_cap max_tokens"
  have ne: "?words \<noteq> []" by (simp add: normalize_edge_prompt_words)
  have cap: "1 \<le> ?cap" "?cap \<le> 256" using edge_token_cap_bounds by auto
  then have "min ?cap (length ?words) < 2 ^ 32" by simp
  then have "uint (of_nat (min ?cap (length ?words)) :: u32) = int (min ?cap (length ?words))"
    by (simp add: unsigned_of_nat take_bit_nat_eq_self)
  then show ?thesis
    using assms ne cap
    by (simp add: edge_inference_event_def Let_def json_detail_simps summarize_words min.commute)
qed

lemma edge_inference_bounded_witness:
  "\<exists>detail output text. execute_edge_bridge_message quiet_env sample_libs
       (EdgeInference ''a  b c'' (Some 2)) = SystemFeedback ''edge_inference'' detail None \<and>
     json_get detail ''output'' = Some output \<and> json_get output ''text'' = Some (JStr text) \<and>
     split_whitespace text = [''a'', ''b''] \<and> json_get output ''truncated'' = Some (JBool True)"
proof -
  have "be_edge quiet_env" by (simp add: quiet_env_def)
  moreover have "split_whitespace ''a  b c'' = [''a'', ''b'', ''c'']"
    by (simp add: split_whitespace_def char_class_defs char_nat_def)
  ultimately show ?thesis
    using edge_inference_bounded [of quiet_env sample_libs "''a  b c''" "Some 2"]
    by (auto simp: Let_def normalize_edge_prompt_words edge_token_cap_def clamp_def
        simp del: execute_edge_bridge_message.simps)
qed

text \<open>A bridge command never waits less than a second or more than fifteen minutes, whatever the
  environment variable says; a value it cannot parse gives the default of 110 seconds.\<close>

lemma bridge_timeout_bounded:
  "1000 \<le> bridge_command_timeout_ms E \<and> bridge_command_timeout_ms E \<le> 900000"
  using clamp_bounds [of "1000 :: u64" "15 * 60 * 1000"]
  by (simp add: bridge_command_timeout_ms_def split: option.splits)

text \<open>The copies that the per-domain wrappers add after hashing make the stored hash stale: when the
  command printed a receipt, the text of the record without its hash is not the text that was
  hashed.\<close>

lemma spine_receipt_hash_stale:
  assumes "text_injective L"
    and "execute_ops_bridge_command E L ''spine'' args rc = with_receipt_hash L d"
    and "is_object d" and "json_get d ''domain_receipt'' = Some r" and "json_get d ''spine_receipt'' = None"
  shows "json_get (execute_spine_bridge_command E L args rc) ''receipt_hash'' =
      Some (JStr (deterministic_receipt_hash L d))"
    and "canonical_json L (json_set ''spine_receipt'' r d) \<noteq> canonical_json L d"
proof -
  show "json_get (execute_spine_bridge_command E L args rc) ''receipt_hash'' =
      Some (JStr (deterministic_receipt_hash L d))"
    using assms by (simp add: execute_spine_bridge_command_def copy_receipt_def json_detail_simps)
  show "canonical_json L (json_set ''spine_receipt'' r d) \<noteq> canonical_json L d"
  proof
    assume "canonical_json L (json_set ''spine_receipt'' r d) = canonical_json L d"
    then have eq: "normalize_value (json_set ''spine_receipt'' r d) = normalize_value d"
      using assms(1) by (simp add: canonical_json_inject)
    obtain m where m: "d = JObj m" using assms(3) by (cases d) (auto simp: is_object_def)
    have keys: "json_get (normalize_value (JObj n)) k = None \<longleftrightarrow> bt_get n k = None" for n k
    proof -
      let ?kvs = "map (\<lambda>(k, v). (k, normalize_value v)) (sort_key fst n)"
      have "json_get (normalize_value (JObj n)) k = map_of (rev ?kvs) k"
        by (simp only: normalize_value.simps json_get.simps) (simp add: bt.get_fold_insert split: option.splits)
      also have "\<dots> = None \<longleftrightarrow> k \<notin> fst ` set ?kvs" by (metis map_of_eq_None_iff set_rev)
      also have "fst ` set ?kvs = fst ` set n" by (force simp: image_iff)
      finally show ?thesis by (simp add: bt_get_None_iff bt_keys_def)
    qed
    have "bt_get (bt_insert ''spine_receipt'' r m) ''spine_receipt'' = None"
      using keys [of "bt_insert ''spine_receipt'' r m" "''spine_receipt''"] keys [of m "''spine_receipt''"]
        eq assms(5) by (simp add: m del: normalize_value.simps)
    then show False by (simp add: bt_get_insert)
  qed
qed

end
