(* ===== verification/Blob_Store.thy ===== *)
theory Blob_Store
  imports Sample_Libs
begin

text \<open>
  The embedded blobs. \<^verbatim>\<open>core/layer2/execution\<close>, \<^verbatim>\<open>core/layer0/graph\<close> and \<^verbatim>\<open>core/layer0/vault\<close> each
  carry the same \<^verbatim>\<open>blob.rs\<close>: a value is stored as its JSON bytes beside a manifest of digests, and
  loading checks the digest before decoding. The crates differ in the blob's name and type only, so
  one group of definitions models all three, with the JSON encoder and decoder as arguments.
\<close>

record blob_manifest =
  bm_id :: string
  bm_hash :: string
  bm_version :: u32

datatype blob_error =
    ManifestDecodeFailed string
  | BlobNotFound string
  | HashMismatch string string
  | DecodeFailed string

fun show_blob_error :: "blob_error \<Rightarrow> string" where
  "show_blob_error (ManifestDecodeFailed msg) = ''manifest_decode_failed:'' @ msg"
| "show_blob_error (BlobNotFound ident) = ''blob_not_found:'' @ ident"
| "show_blob_error (HashMismatch expected actual) =
     ''blob_hash_mismatch expected='' @ expected @ '' actual='' @ actual"
| "show_blob_error (DecodeFailed msg) = ''blob_decode_failed:'' @ msg"

definition fold_blob ::
  "libs \<Rightarrow> ('a \<Rightarrow> (string, string) rresult) \<Rightarrow> 'a \<Rightarrow> string \<Rightarrow> (string \<times> string, blob_error) rresult" where
  "fold_blob L to_vec v blob_id =
     (case to_vec v of
        Inl e \<Rightarrow> Err (DecodeFailed e)
      | Inr payload \<Rightarrow> Ok (payload, sha256_hex L payload))"

definition generate_manifest :: "libs \<Rightarrow> (string \<times> string) list \<Rightarrow> blob_manifest list" where
  "generate_manifest L blobs =
     map (\<lambda>(ident, bytes). \<lparr>bm_id = ident, bm_hash = sha256_hex L bytes, bm_version = 1\<rparr>) blobs"

definition decode_manifest ::
  "(string \<Rightarrow> (blob_manifest list, string) rresult) \<Rightarrow> string \<Rightarrow> (blob_manifest list, blob_error) rresult" where
  "decode_manifest from_slice bytes =
     (case from_slice bytes of Inl e \<Rightarrow> Err (ManifestDecodeFailed e) | Inr ms \<Rightarrow> Ok ms)"

definition unfold_blob ::
  "libs \<Rightarrow> (string \<Rightarrow> ('a, string) rresult) \<Rightarrow> string \<Rightarrow> string \<Rightarrow> ('a, blob_error) rresult" where
  "unfold_blob L from_slice bytes expected_hash =
     (let actual = sha256_hex L bytes
      in if \<not> eq_ignore_ascii_case actual expected_hash then Err (HashMismatch expected_hash actual)
         else (case from_slice bytes of Inl e \<Rightarrow> Err (DecodeFailed e) | Inr v \<Rightarrow> Ok v))"

text \<open>\<^verbatim>\<open>load_embedded_execution_profile\<close>, \<^verbatim>\<open>load_embedded_graph_policy\<close>, \<^verbatim>\<open>load_embedded_vault_policy\<close>:
  the blob is looked up in the decoded manifest and unfolded against the recorded hash.\<close>

definition load_embedded ::
  "libs \<Rightarrow> (string \<Rightarrow> (blob_manifest list, string) rresult) \<Rightarrow> (string \<Rightarrow> ('a, string) rresult) \<Rightarrow>
     string \<Rightarrow> string \<Rightarrow> string \<Rightarrow> ('a, blob_error) rresult" where
  "load_embedded L manifest_from from_slice manifest_blob blob_id blob =
     (case decode_manifest manifest_from manifest_blob of
        Inl e \<Rightarrow> Err e
      | Inr manifest \<Rightarrow>
          (case List.find (\<lambda>v. bm_id v = blob_id) manifest of
             None \<Rightarrow> Err (BlobNotFound blob_id)
           | Some entry \<Rightarrow> unfold_blob L from_slice blob (bm_hash entry)))"

section \<open>Facts\<close>

lemma unfold_blob_Ok_iff:
  "unfold_blob L dec bytes h = Ok v \<longleftrightarrow>
     eq_ignore_ascii_case (sha256_hex L bytes) h \<and> dec bytes = Ok v"
  by (auto simp: unfold_blob_def Let_def split: sum.splits)

lemma find_generate_manifest:
  "List.find (\<lambda>v. bm_id v = ident) (generate_manifest L blobs) =
     map_option (\<lambda>bytes. \<lparr>bm_id = ident, bm_hash = sha256_hex L bytes, bm_version = 1\<rparr>) (map_of blobs ident)"
  by (induction blobs) (auto simp: generate_manifest_def)

section \<open>Properties\<close>

text \<open>Storing and loading a blob are inverse, and nothing else loads. When the embedded manifest is
  the one generated from a table of blobs, loading the blob \<open>ident\<close> from bytes \<open>bytes\<close> gives the value \<open>v\<close>
  exactly when the table has an entry for \<open>ident\<close> whose digest is that of \<open>bytes\<close> up to case, and the
  bytes decode to \<open>v\<close>. In particular the payload that \<open>fold_blob\<close> gives loads back, and bytes with
  another digest never load.\<close>

lemma load_generated_blob_iff:
  assumes "manifest_from mbytes = Ok (generate_manifest L blobs)"
  shows "load_embedded L manifest_from dec mbytes ident bytes = Ok v \<longleftrightarrow>
     (\<exists>stored. map_of blobs ident = Some stored \<and>
        eq_ignore_ascii_case (sha256_hex L bytes) (sha256_hex L stored) \<and> dec bytes = Ok v)"
  using assms
  by (auto simp: load_embedded_def decode_manifest_def find_generate_manifest unfold_blob_Ok_iff
      split: option.splits)

lemma load_generated_blob_iff_witness:
  "load_embedded sample_libs (\<lambda>_. Ok (generate_manifest sample_libs [(''p'', ''true'')]))
     (\<lambda>b. if b = ''true'' then Ok True else Err ''bad'') ''m'' ''p'' ''true'' = Ok True"
  by (subst load_generated_blob_iff [where L = sample_libs and blobs = "[(''p'', ''true'')]"]) simp_all

text \<open>The round trip: what was folded and recorded in the manifest loads back.\<close>

lemma fold_then_load:
  assumes "fold_blob L enc w ident = Ok (payload, hash)" and "dec payload = Ok w"
    and "manifest_from mbytes = Ok (generate_manifest L ((ident, payload) # blobs))"
  shows "load_embedded L manifest_from dec mbytes ident payload = Ok w \<and> hash = sha256_hex L payload"
  using assms
  by (auto simp: load_embedded_def decode_manifest_def find_generate_manifest unfold_blob_Ok_iff
      fold_blob_def split: sum.splits)

end
