(* ===== verification/Workflow_Exec.thy ===== *)
theory Workflow_Exec
  imports Blob_Store
begin

text \<open>
  The workflow runner of \<^verbatim>\<open>core/layer2/execution/src/lib.rs\<close>: running a workflow definition from its
  resume state to the next pause or to the end, with the receipt it produces. The YAML parser is an
  argument of \<open>run_workflow\<close>; the embedded profile is loaded as in \<open>Blob_Store\<close>.
\<close>

section \<open>Data\<close>

record workflow_step =
  ws_id :: string
  ws_kind :: string
  ws_action :: string
  ws_command :: string
  ws_pause_after :: bool
  ws_params :: "(string, string) btree"

record execution_state =
  es_cursor :: u32
  es_paused :: bool
  es_completed :: bool
  es_last_step_id :: "string option"
  es_processed_step_ids :: "string list"
  es_processed_events :: u32
  es_digest :: string

definition execution_state_default :: execution_state where
  "execution_state_default =
     \<lparr>es_cursor = 0, es_paused = False, es_completed = False, es_last_step_id = None,
      es_processed_step_ids = [], es_processed_events = 0, es_digest = []\<rparr>"

record workflow_definition =
  wd_workflow_id :: string
  wd_deterministic_seed :: string
  wd_pause_after_step :: "string option"
  wd_resume :: "execution_state option"
  wd_steps :: "workflow_step list"
  wd_metadata :: "(string, string) btree"

record execution_receipt =
  xr_workflow_id :: string
  xr_status :: string
  xr_deterministic :: bool
  xr_replayable :: bool
  xr_processed_steps :: u32
  xr_pause_reason :: "string option"
  xr_event_digest :: string
  xr_events :: "string list"
  xr_state :: execution_state
  xr_metadata :: "(string, string) btree"
  xr_warnings :: "string list"

record execution_runtime_profile =
  ep_profile_id :: string
  ep_max_steps :: nat
  ep_allow_resume :: bool
  ep_pause_gate_enabled :: bool
  ep_deterministic_receipts_only :: bool

definition EXECUTION_PROFILE_BLOB_ID :: string where
  "EXECUTION_PROFILE_BLOB_ID = ''execution_runtime_profile''"

section \<open>Operations\<close>

text \<open>\<^verbatim>\<open>format!("{:03}", n)\<close>.\<close>

definition show_nat3 :: "nat \<Rightarrow> string" where
  "show_nat3 n = replicate (3 - length (show_nat n)) (CHR ''0'') @ show_nat n"

definition normalize_step_id :: "workflow_step \<Rightarrow> nat \<Rightarrow> string" where
  "normalize_step_id step idx =
     (let candidate = trim (ws_id step)
      in if candidate = [] then ''step_'' @ show_nat3 (idx + 1) else candidate)"

fun hash_lines :: "nat \<Rightarrow> string list \<Rightarrow> string" where
  "hash_lines idx [] = []"
| "hash_lines idx (line # lines) = show_nat idx @ '':'' @ line @ ''|'' @ hash_lines (Suc idx) lines"

definition stable_hash :: "libs \<Rightarrow> string list \<Rightarrow> string" where
  "stable_hash L lines = sha256_hex L (hash_lines 0 lines)"

definition key_value :: "string \<times> string \<Rightarrow> string" where
  "key_value kv = fst kv @ ''='' @ snd kv"

definition step_fingerprint ::
  "libs \<Rightarrow> string \<Rightarrow> string \<Rightarrow> nat \<Rightarrow> string \<Rightarrow> workflow_step \<Rightarrow> string" where
  "step_fingerprint L workflow_id seed idx step_id step =
     stable_hash L ([workflow_id, seed, show_nat idx, step_id, ws_kind step, ws_action step,
       ws_command step] @ map key_value (ws_params step))"

definition failure_receipt :: "libs \<Rightarrow> string \<Rightarrow> string \<Rightarrow> execution_receipt" where
  "failure_receipt L workflow_id reason =
     (let digest = stable_hash L [workflow_id, reason, ''failed'']
      in \<lparr>xr_workflow_id = workflow_id, xr_status = ''failed'', xr_deterministic = True,
          xr_replayable = False, xr_processed_steps = 0, xr_pause_reason = Some reason,
          xr_event_digest = digest, xr_events = [''error:'' @ reason],
          xr_state = execution_state_default\<lparr>es_digest := digest\<rparr>,
          xr_metadata = [], xr_warnings = [reason]\<rparr>)"

text \<open>The loop over the steps from \<open>idx\<close> on: the state, the events, and the pause reason if a step
  paused.\<close>

definition should_pause :: "workflow_definition \<Rightarrow> workflow_step \<Rightarrow> string \<Rightarrow> bool" where
  "should_pause def step step_id =
     (ws_pause_after step \<or> wd_pause_after_step def = Some step_id)"

definition enter_step :: "nat \<Rightarrow> string \<Rightarrow> execution_state \<Rightarrow> execution_state" where
  "enter_step idx step_id state =
     state\<lparr>es_cursor := of_nat (idx + 1), es_last_step_id := Some step_id,
           es_processed_step_ids := es_processed_step_ids state @ [step_id]\<rparr>"

fun exec_steps ::
  "libs \<Rightarrow> workflow_definition \<Rightarrow> string \<Rightarrow> nat \<Rightarrow> workflow_step list \<Rightarrow> execution_state \<Rightarrow> string list \<Rightarrow>
     execution_state \<times> string list \<times> string option" where
  "exec_steps L def workflow_id idx [] state events = (state, events, None)"
| "exec_steps L def workflow_id idx (step # steps) state events =
     (let step_id = normalize_step_id step idx;
          fingerprint = step_fingerprint L workflow_id (wd_deterministic_seed def) idx step_id step;
          events1 = events @ [''exec:'' @ step_id @ '':'' @ fingerprint];
          state1 = enter_step idx step_id state
      in if should_pause def step step_id
         then (state1\<lparr>es_paused := True, es_completed := False\<rparr>, events1,
               Some (''paused_after:'' @ step_id))
         else exec_steps L def workflow_id (Suc idx) steps state1 events1)"

definition workflow_id_of :: "libs \<Rightarrow> workflow_definition \<Rightarrow> string" where
  "workflow_id_of L def =
     (if trim (wd_workflow_id def) = []
      then ''wf_'' @ take 12 (stable_hash L
             [show_nat (length (wd_steps def)), wd_deterministic_seed def,
              json_to_string L (JObj (map (\<lambda>(k, v). (k, JStr v)) (wd_metadata def)))])
      else trim (wd_workflow_id def))"

definition profile_warnings :: "execution_runtime_profile option \<Rightarrow> workflow_definition \<Rightarrow> string list" where
  "profile_warnings profile def =
     (case profile of
        Some p \<Rightarrow> if length (wd_steps def) > ep_max_steps p
                  then [''execution_profile_max_steps_exceeded''] else []
      | None \<Rightarrow> [''execution_profile_unavailable''])"

definition run_workflow_definition ::
  "libs \<Rightarrow> execution_runtime_profile option \<Rightarrow> workflow_definition \<Rightarrow> execution_receipt" where
  "run_workflow_definition L profile def =
     (let workflow_id = workflow_id_of L def;
          resumed = (case wd_resume def of Some s \<Rightarrow> s | None \<Rightarrow> execution_state_default);
          step_count = (of_nat (length (wd_steps def)) :: u32);
          clamped = es_cursor resumed > step_count;
          warnings = profile_warnings profile def @ (if clamped then [''resume_cursor_clamped''] else []);
          state0 = (if clamped then resumed\<lparr>es_cursor := step_count\<rparr> else resumed);
          events0 = (if es_cursor state0 > 0 then [''resume:'' @ show_word (es_cursor state0)] else []);
          start = unat (es_cursor state0);
          (state1, events, pause1) =
            exec_steps L def workflow_id start (drop start (wd_steps def)) state0 events0;
          (state2, pause_reason) =
            (if es_cursor state1 \<ge> step_count
             then (state1\<lparr>es_completed := True, es_paused := False\<rparr>, None) else (state1, pause1));
          digest = stable_hash L
            ([workflow_id, wd_deterministic_seed def, show_word (es_cursor state2),
              show_bool (es_paused state2), show_bool (es_completed state2)] @ events @
             map key_value (wd_metadata def));
          state3 = state2\<lparr>es_processed_events := of_nat (length events), es_digest := digest\<rparr>
      in \<lparr>xr_workflow_id = workflow_id,
          xr_status = (if es_paused state3 then ''paused''
                       else if es_completed state3 then ''completed'' else ''running''),
          xr_deterministic = True, xr_replayable = True, xr_processed_steps = es_cursor state3,
          xr_pause_reason = pause_reason, xr_event_digest = digest, xr_events = events,
          xr_state = state3, xr_metadata = wd_metadata def, xr_warnings = warnings\<rparr>)"

definition load_embedded_execution_profile ::
  "libs \<Rightarrow> (string \<Rightarrow> (blob_manifest list, string) rresult) \<Rightarrow>
     (string \<Rightarrow> (execution_runtime_profile, string) rresult) \<Rightarrow> string \<Rightarrow> string \<Rightarrow>
     (execution_runtime_profile, blob_error) rresult" where
  "load_embedded_execution_profile L manifest_from profile_from manifest_blob profile_blob =
     load_embedded L manifest_from profile_from manifest_blob EXECUTION_PROFILE_BLOB_ID profile_blob"

definition run_workflow ::
  "libs \<Rightarrow> (execution_runtime_profile, blob_error) rresult \<Rightarrow>
     (string \<Rightarrow> (workflow_definition, string) rresult) \<Rightarrow> string \<Rightarrow> execution_receipt" where
  "run_workflow L profile parse_yaml yaml =
     (case parse_yaml yaml of
        Inr def \<Rightarrow> run_workflow_definition L
          (case profile of Inr p \<Rightarrow> Some p | Inl _ \<Rightarrow> None) def
      | Inl err \<Rightarrow> failure_receipt L ''invalid_workflow'' (''yaml_parse_failed:'' @ err))"

section \<open>Resuming until completion\<close>

text \<open>What a caller does with the receipts: run, and while the status is not \<^verbatim>\<open>completed\<close> run again with
  the state of the receipt as the resume state, at most \<open>fuel\<close> times.\<close>

fun resume_until_done ::
  "libs \<Rightarrow> execution_runtime_profile option \<Rightarrow> workflow_definition \<Rightarrow> nat \<Rightarrow> execution_receipt" where
  "resume_until_done L profile def 0 = run_workflow_definition L profile def"
| "resume_until_done L profile def (Suc fuel) =
     (let r = run_workflow_definition L profile def
      in if xr_status r = ''completed'' then r
         else resume_until_done L profile (def\<lparr>wd_resume := Some (xr_state r)\<rparr>) fuel)"

section \<open>Facts about a run\<close>

fun step_ids :: "nat \<Rightarrow> workflow_step list \<Rightarrow> string list" where
  "step_ids idx [] = []"
| "step_ids idx (step # steps) = normalize_step_id step idx # step_ids (Suc idx) steps"

lemma step_ids_append: "step_ids idx (xs @ ys) = step_ids idx xs @ step_ids (idx + length xs) ys"
  by (induction xs arbitrary: idx) simp_all

text \<open>A pass over the steps executes some prefix of them, a non-empty one if there are steps. It is all
  of them unless the last executed step asked for a pause.\<close>

definition pass_of ::
  "workflow_definition \<Rightarrow> nat \<Rightarrow> workflow_step list \<Rightarrow> execution_state \<Rightarrow> nat \<Rightarrow> execution_state \<Rightarrow>
     string option \<Rightarrow> bool" where
  "pass_of def idx steps state n state' pause \<longleftrightarrow>
     n \<le> length steps \<and> (n = 0 \<longleftrightarrow> steps = []) \<and>
     es_processed_step_ids state' = es_processed_step_ids state @ step_ids idx (take n steps) \<and>
     es_cursor state' = (if n = 0 then es_cursor state else of_nat (idx + n)) \<and>
     (case pause of
        None \<Rightarrow> n = length steps
      | Some reason \<Rightarrow> es_paused state' \<and> \<not> es_completed state' \<and> n > 0 \<and>
          (let step = steps ! (n - 1); sid = normalize_step_id step (idx + n - 1) in
             should_pause def step sid \<and> reason = ''paused_after:'' @ sid))"

lemma exec_steps_pass:
  assumes "exec_steps L def wid idx steps state events = (state', events', pause)"
  shows "\<exists>n. pass_of def idx steps state n state' pause"
  using assms
proof (induction steps arbitrary: idx state events)
  case Nil
  then show ?case by (auto simp: pass_of_def)
next
  case (Cons step steps)
  let ?sid = "normalize_step_id step idx" and ?s1 = "enter_step idx (normalize_step_id step idx) state"
  show ?case
  proof (cases "should_pause def step ?sid")
    case True
    then have "pass_of def idx (step # steps) state 1 state' pause"
      using Cons.prems by (auto simp: pass_of_def enter_step_def Let_def)
    then show ?thesis ..
  next
    case False
    then obtain n where n: "pass_of def (Suc idx) steps ?s1 n state' pause"
      using Cons.IH Cons.prems by (fastforce simp: Let_def)
    have "pass_of def idx (step # steps) state (Suc n) state' pause"
      using n by (auto simp: pass_of_def enter_step_def Let_def nth_Cons' split: option.splits)
    then show ?thesis ..
  qed
qed

abbreviation start_state :: "workflow_definition \<Rightarrow> execution_state" where
  "start_state def \<equiv> (case wd_resume def of Some s \<Rightarrow> s | None \<Rightarrow> execution_state_default)"

text \<open>One run, from a resume cursor that lies within the workflow.\<close>

lemma run_workflow_definition_pass:
  fixes L profile def
  defines "r \<equiv> run_workflow_definition L profile def" and "c \<equiv> unat (es_cursor (start_state def))"
    and "N \<equiv> length (wd_steps def)"
  assumes "N < 2 ^ 32" and "c \<le> N"
  shows "\<exists>n. c + n \<le> N \<and> (n = 0 \<longleftrightarrow> c = N) \<and> unat (es_cursor (xr_state r)) = c + n \<and>
     es_processed_step_ids (xr_state r) =
       es_processed_step_ids (start_state def) @ step_ids c (take n (drop c (wd_steps def))) \<and>
     (if c + n = N then xr_status r = ''completed'' \<and> xr_pause_reason r = None
      else xr_status r = ''paused'' \<and>
        (let step = wd_steps def ! (c + n - 1); sid = normalize_step_id step (c + n - 1) in
           should_pause def step sid \<and> xr_pause_reason r = Some (''paused_after:'' @ sid)))"
proof -
  let ?s = "start_state def" and ?count = "of_nat N :: u32"
  have count: "unat ?count = N" using assms by (simp add: unat_of_nat take_bit_nat_eq_self)
  have nclamp: "\<not> es_cursor ?s > ?count" using assms count by (simp add: word_less_nat_alt not_less)
  define ev where "ev = (if es_cursor ?s > 0 then [''resume:'' @ show_word (es_cursor ?s)] else [])"
  obtain s1 events pause where run:
    "exec_steps L def (workflow_id_of L def) c (drop c (wd_steps def)) ?s ev = (s1, events, pause)"
    by (metis prod_cases3)
  then obtain n where n: "pass_of def c (drop c (wd_steps def)) ?s n s1 pause"
    using exec_steps_pass by blast
  then have bound: "c + n \<le> N" and zero: "n = 0 \<longleftrightarrow> c = N"
    using assms by (auto simp: pass_of_def N_def)
  have cursor: "unat (es_cursor s1) = c + n"
  proof (cases "n = 0")
    case True
    then show ?thesis using n by (simp add: pass_of_def c_def)
  next
    case False
    have "c + n < 2 ^ 32" using bound assms(4) by linarith
    then have "unat (of_nat (c + n) :: u32) = c + n"
      by (simp only: unat_of_nat) (simp add: take_bit_nat_eq_self)
    moreover have "es_cursor s1 = of_nat (c + n)" using False n by (simp only: pass_of_def if_False)
    ultimately show ?thesis by simp
  qed
  have fin: "es_cursor s1 \<ge> ?count \<longleftrightarrow> c + n = N"
    using cursor count bound by (auto simp: word_le_nat_alt)
  have pause: "\<exists>reason. pause = Some reason" if "c + n \<noteq> N"
    using that n bound by (auto simp: pass_of_def N_def split: option.splits)
  have r: "r = run_workflow_definition L profile def" by (simp add: r_def)
  note unfolded = r [unfolded run_workflow_definition_def Let_def N_def [symmetric],
      simplified nclamp if_False, folded c_def ev_def, unfolded run]
  have idx: "drop c (wd_steps def) ! (n - 1) = wd_steps def ! (c + n - 1)" if "0 < n"
    using that assms by (simp add: N_def)
  show ?thesis
  proof (intro exI [of _ n] conjI)
    show "unat (es_cursor (xr_state r)) = c + n" using fin cursor by (simp add: unfolded)
    show "es_processed_step_ids (xr_state r) =
       es_processed_step_ids ?s @ step_ids c (take n (drop c (wd_steps def)))"
      using n by (simp add: unfolded pass_of_def)
    show "if c + n = N then xr_status r = ''completed'' \<and> xr_pause_reason r = None
      else xr_status r = ''paused'' \<and>
        (let step = wd_steps def ! (c + n - 1); sid = normalize_step_id step (c + n - 1) in
           should_pause def step sid \<and> xr_pause_reason r = Some (''paused_after:'' @ sid))"
      using n fin pause idx by (auto simp: unfolded pass_of_def Let_def)
  qed (fact bound zero)+
qed

lemma run_workflow_definition_progress:
  fixes L profile def
  defines "r \<equiv> run_workflow_definition L profile def" and "c \<equiv> unat (es_cursor (start_state def))"
    and "N \<equiv> length (wd_steps def)"
  assumes "N < 2 ^ 32" and "c \<le> N"
  obtains n where "c + n \<le> N" "n = 0 \<longleftrightarrow> c = N" "unat (es_cursor (xr_state r)) = c + n"
    "es_processed_step_ids (xr_state r) =
       es_processed_step_ids (start_state def) @ step_ids c (take n (drop c (wd_steps def)))"
    "xr_status r = (if c + n = N then ''completed'' else ''paused'')"
proof -
  from run_workflow_definition_pass [of def L profile] assms obtain n where
    n: "c + n \<le> N" "n = 0 \<longleftrightarrow> c = N" "unat (es_cursor (xr_state r)) = c + n"
    "es_processed_step_ids (xr_state r) =
       es_processed_step_ids (start_state def) @ step_ids c (take n (drop c (wd_steps def)))"
    and "if c + n = N then xr_status r = ''completed'' \<and> xr_pause_reason r = None
      else xr_status r = ''paused'' \<and>
        (let step = wd_steps def ! (c + n - 1); sid = normalize_step_id step (c + n - 1) in
           should_pause def step sid \<and> xr_pause_reason r = Some (''paused_after:'' @ sid))"
    by auto
  from this(5) have "xr_status r = (if c + n = N then ''completed'' else ''paused'')"
    by (simp split: if_splits)
  with n show ?thesis by (rule that)
qed

lemma resume_until_done_steps:
  assumes "length (wd_steps def) < 2 ^ 32" and "unat (es_cursor (start_state def)) \<le> length (wd_steps def)"
    and "length (wd_steps def) - unat (es_cursor (start_state def)) \<le> fuel"
  shows "xr_status (resume_until_done L profile def fuel) = ''completed'' \<and>
     unat (es_cursor (xr_state (resume_until_done L profile def fuel))) = length (wd_steps def) \<and>
     es_processed_step_ids (xr_state (resume_until_done L profile def fuel)) =
       es_processed_step_ids (start_state def) @
       step_ids (unat (es_cursor (start_state def))) (drop (unat (es_cursor (start_state def))) (wd_steps def))"
  using assms
proof (induction fuel arbitrary: def)
  case 0
  let ?c = "unat (es_cursor (start_state def))" and ?N = "length (wd_steps def)"
  let ?r = "run_workflow_definition L profile def"
  obtain n where n: "?c + n \<le> ?N" "n = 0 \<longleftrightarrow> ?c = ?N" "unat (es_cursor (xr_state ?r)) = ?c + n"
    "es_processed_step_ids (xr_state ?r) =
       es_processed_step_ids (start_state def) @ step_ids ?c (take n (drop ?c (wd_steps def)))"
    "xr_status ?r = (if ?c + n = ?N then ''completed'' else ''paused'')"
    using run_workflow_definition_progress [OF "0.prems"(1,2)] by blast
  moreover have "?c = ?N" using "0.prems" by simp
  ultimately show ?case by simp
next
  case (Suc fuel)
  let ?c = "unat (es_cursor (start_state def))" and ?N = "length (wd_steps def)"
  let ?r = "run_workflow_definition L profile def"
  let ?def = "def\<lparr>wd_resume := Some (xr_state ?r)\<rparr>"
  obtain n where n: "?c + n \<le> ?N" "n = 0 \<longleftrightarrow> ?c = ?N" "unat (es_cursor (xr_state ?r)) = ?c + n"
    "es_processed_step_ids (xr_state ?r) =
       es_processed_step_ids (start_state def) @ step_ids ?c (take n (drop ?c (wd_steps def)))"
    "xr_status ?r = (if ?c + n = ?N then ''completed'' else ''paused'')"
    using run_workflow_definition_progress [OF Suc.prems(1,2)] by blast
  show ?case
  proof (cases "?c + n = ?N")
    case True
    then have "take n (drop ?c (wd_steps def)) = drop ?c (wd_steps def)" by simp
    with True n show ?thesis by (simp add: Let_def)
  next
    case False
    then have "0 < n" using n by auto
    have "drop ?c (wd_steps def) = take n (drop ?c (wd_steps def)) @ drop (?c + n) (wd_steps def)"
      by (metis add.commute append_take_drop_id drop_drop)
    then have "step_ids ?c (drop ?c (wd_steps def)) =
        step_ids ?c (take n (drop ?c (wd_steps def))) @ step_ids (?c + n) (drop (?c + n) (wd_steps def))"
      using n(1) step_ids_append [of ?c "take n (drop ?c (wd_steps def))" "drop (?c + n) (wd_steps def)"]
      by simp
    moreover have "resume_until_done L profile def (Suc fuel) = resume_until_done L profile ?def fuel"
      using False n(5) by (simp add: Let_def)
    ultimately show ?thesis
      using Suc.IH [of ?def] Suc.prems n False \<open>0 < n\<close> by simp
  qed
qed

section \<open>Properties\<close>

text \<open>C3: pausing and resuming loses and repeats no step. Whatever steps ask for a pause, running a
  workflow and resuming it from the state of each receipt completes after at most one run per step,
  and the steps processed over all runs are exactly the steps of the workflow, once each and in
  order.\<close>

theorem workflow_resume_exactly_once:
  assumes "length (wd_steps def) < 2 ^ 32" and "wd_resume def = None"
  shows "let r = resume_until_done L profile def (length (wd_steps def)) in
     xr_status r = ''completed'' \<and> unat (es_cursor (xr_state r)) = length (wd_steps def) \<and>
     es_processed_step_ids (xr_state r) = step_ids 0 (wd_steps def)"
  using resume_until_done_steps [of def "length (wd_steps def)" L profile] assms
  by (simp add: execution_state_default_def Let_def)

text \<open>A workflow of two steps that both pause.\<close>

definition sample_workflow :: workflow_definition where
  "sample_workflow =
     (let step = (\<lambda>i. \<lparr>ws_id = i, ws_kind = ''task'', ws_action = ''run'', ws_command = [],
            ws_pause_after = True, ws_params = []\<rparr>)
      in \<lparr>wd_workflow_id = ''wf'', wd_deterministic_seed = ''s'', wd_pause_after_step = None,
          wd_resume = None, wd_steps = [step ''a'', step []], wd_metadata = []\<rparr>)"

theorem workflow_resume_exactly_once_witness:
  "es_processed_step_ids (xr_state (resume_until_done sample_libs None sample_workflow 2)) =
     [''a'', ''step_002'']"
proof -
  have ids: "step_ids 0 (wd_steps sample_workflow) = [''a'', ''step_002'']"
    by code_simp
  have "length (wd_steps sample_workflow) = 2" "wd_resume sample_workflow = None"
    by (simp_all add: sample_workflow_def Let_def)
  then show ?thesis
    using workflow_resume_exactly_once [of sample_workflow sample_libs None] ids by (simp add: Let_def)
qed

text \<open>C36: a run of a workflow either completes or pauses, and its receipt says why. From any resume
  state (a cursor past the end is clamped to it), the status is \<open>completed\<close> with no pause reason exactly
  when every step has been passed; otherwise it is \<open>paused\<close>, at least one step was executed, and the
  reason names the last executed step, which asked for the pause.\<close>

theorem workflow_run_completes_or_pauses:
  assumes "length (wd_steps def) < 2 ^ 32"
  shows "let r = run_workflow_definition L profile def; k = unat (es_cursor (xr_state r)) in
     k \<le> length (wd_steps def) \<and>
     (if k = length (wd_steps def) then xr_status r = ''completed'' \<and> xr_pause_reason r = None
      else xr_status r = ''paused'' \<and> unat (es_cursor (start_state def)) < k \<and>
        (let step = wd_steps def ! (k - 1); sid = normalize_step_id step (k - 1) in
           should_pause def step sid \<and> xr_pause_reason r = Some (''paused_after:'' @ sid)))"
proof (cases "unat (es_cursor (start_state def)) \<le> length (wd_steps def)")
  case True
  then show ?thesis
    using run_workflow_definition_pass [OF assms True, of L profile]
    by (fastforce simp: Let_def split: if_splits)
next
  case False
  let ?count = "of_nat (length (wd_steps def)) :: u32"
  have count: "unat ?count = length (wd_steps def)"
    using assms by (simp add: unat_of_nat take_bit_nat_eq_self)
  then have "es_cursor (start_state def) > ?count" using False by (simp add: word_less_nat_alt)
  then show ?thesis using count by (simp add: run_workflow_definition_def Let_def)
qed

theorem workflow_run_completes_or_pauses_witness:
  "xr_status (run_workflow_definition sample_libs None sample_workflow) = ''completed'' \<or>
   xr_status (run_workflow_definition sample_libs None sample_workflow) = ''paused''"
proof -
  have "length (wd_steps sample_workflow) < 2 ^ 32" by (simp add: sample_workflow_def Let_def)
  from workflow_run_completes_or_pauses [OF this, of sample_libs None] show ?thesis
    by (auto simp: Let_def split: if_splits)
qed

end
