(* ===== verification/Graph_Topo.thy ===== *)
theory Graph_Topo
  imports Blob_Store
begin

text \<open>
  \<^verbatim>\<open>core/layer0/graph/src/lib.rs\<close>: the ordering of a workflow graph by Kahn's algorithm on
  \<^verbatim>\<open>BTreeMap\<close>s and a \<^verbatim>\<open>VecDeque\<close>, its receipt, and the DOT rendering. The YAML parser and the
  embedded policy are arguments.
\<close>

section \<open>Data\<close>

record graph_node =
  gn_id :: string
  gn_kind :: string
  gn_metadata :: "(string, string) btree"

record graph_edge =
  ge_from :: string
  ge_to :: string
  ge_condition :: string

record graph_workflow =
  gw_workflow_id :: string
  gw_nodes :: "graph_node list"
  gw_edges :: "graph_edge list"

record graph_receipt =
  gr_workflow_id :: string
  gr_ordered_nodes :: "string list"
  gr_step_count :: nat
  gr_cyclic :: bool
  gr_policy_id :: string
  gr_digest :: string
  gr_warnings :: "string list"

record graph_runtime_policy =
  gp_policy_id :: string
  gp_max_nodes :: nat
  gp_max_edges :: nat
  gp_allow_cycles :: bool
  gp_deterministic_order :: bool

definition GRAPH_POLICY_BLOB_ID :: string where
  "GRAPH_POLICY_BLOB_ID = ''graph_runtime_policy''"

definition load_embedded_graph_policy ::
  "libs \<Rightarrow> (string \<Rightarrow> (blob_manifest list, string) rresult) \<Rightarrow>
     (string \<Rightarrow> (graph_runtime_policy, string) rresult) \<Rightarrow> string \<Rightarrow> string \<Rightarrow>
     (graph_runtime_policy, blob_error) rresult" where
  "load_embedded_graph_policy L manifest_from policy_from manifest_blob policy_blob =
     load_embedded L manifest_from policy_from manifest_blob GRAPH_POLICY_BLOB_ID policy_blob"

section \<open>The ordering\<close>

definition normalize_id :: "string \<Rightarrow> string" where
  "normalize_id raw = (let trimmed = trim raw in if trimmed = [] then ''unnamed_node'' else trimmed)"

abbreviation node_ids :: "graph_node list \<Rightarrow> string list" where
  "node_ids nodes \<equiv> map (\<lambda>n. normalize_id (gn_id n)) nodes"

abbreviation edge_ends :: "graph_edge list \<Rightarrow> (string \<times> string) list" where
  "edge_ends edges \<equiv> map (\<lambda>e. (normalize_id (ge_from e), normalize_id (ge_to e))) edges"

type_synonym counts = "(string, nat) btree"
type_synonym targets = "(string, string list) btree"

definition init_maps :: "graph_node list \<Rightarrow> counts \<times> targets" where
  "init_maps nodes =
     fold (\<lambda>ident (incoming, outgoing). (bt_or_insert ident 0 incoming, bt_or_insert ident [] outgoing))
       (node_ids nodes) ([], [])"

definition add_edge :: "string \<times> string \<Rightarrow> counts \<times> targets \<Rightarrow> counts \<times> targets" where
  "add_edge e maps =
     (let (from, to') = e; (incoming, outgoing) = maps
      in if \<not> bt_contains_key incoming from \<or> \<not> bt_contains_key incoming to' then maps
         else (bt_insert to' ((case bt_get incoming to' of Some n \<Rightarrow> n | None \<Rightarrow> 0) + 1) incoming,
               bt_insert from ((case bt_get outgoing from of Some ts \<Rightarrow> ts | None \<Rightarrow> []) @ [to']) outgoing))"

definition edge_maps :: "graph_node list \<Rightarrow> graph_edge list \<Rightarrow> counts \<times> targets" where
  "edge_maps nodes edges = fold add_edge (edge_ends edges) (init_maps nodes)"

text \<open>\<^verbatim>\<open>*entry -= 1\<close> through \<^verbatim>\<open>get_mut\<close>.\<close>

definition bt_decrement :: "string \<Rightarrow> counts \<Rightarrow> counts" where
  "bt_decrement k m = map (\<lambda>(k', n). if k' = k then (k', n - 1) else (k', n)) m"

fun relax :: "string list \<Rightarrow> counts \<Rightarrow> string list \<Rightarrow> counts \<times> string list" where
  "relax [] incoming queue = (incoming, queue)"
| "relax (to' # ts) incoming queue =
     (case bt_get incoming to' of
        None \<Rightarrow> relax ts incoming queue
      | Some entry \<Rightarrow>
          if entry > 0
          then relax ts (bt_decrement to' incoming) (if entry - 1 = 0 then queue @ [to'] else queue)
          else relax ts incoming queue)"

text \<open>The loop ends because a node enters the queue only when its positive count drops to zero.\<close>

definition open_count :: "counts \<Rightarrow> nat" where
  "open_count m = length (filter (\<lambda>(k, n). 0 < n) m)"

lemma open_count_simps [simp]:
  "open_count [] = 0" "open_count ((k, n) # m) = (if 0 < n then 1 else 0) + open_count m"
  by (simp_all add: open_count_def)

lemma bt_decrement_simps [simp]:
  "bt_decrement k [] = []"
  "bt_decrement k ((k', n) # m) = (k', if k' = k then n - 1 else n) # bt_decrement k m"
  by (simp_all add: bt_decrement_def)

lemma open_count_decrement: "open_count (bt_decrement k m) \<le> open_count m"
  by (induction m) (auto split: if_splits)

lemma open_count_decrement_zero:
  "bt_get m k = Some 1 \<Longrightarrow> open_count (bt_decrement k m) < open_count m"
proof (induction m)
  case (Cons e m)
  obtain k' n where e: "e = (k', n)" by force
  then show ?case
    using Cons open_count_decrement [of k m] by (cases "k = k'") (auto simp: le_imp_less_Suc)
qed simp

lemma relax_measure:
  "length (snd (relax ts incoming queue)) + open_count (fst (relax ts incoming queue))
     \<le> length queue + open_count incoming"
proof (induction ts incoming queue rule: relax.induct)
  case (2 to' ts incoming queue)
  show ?case
  proof (cases "bt_get incoming to'")
    case (Some entry)
    then show ?thesis
      using "2.IH" open_count_decrement [of to' incoming] open_count_decrement_zero [of incoming to']
      by (cases entry) (auto split: if_splits)
  qed (use "2.IH" in simp)
qed simp

function kahn :: "targets \<Rightarrow> counts \<Rightarrow> string list \<Rightarrow> string list \<Rightarrow> string list" where
  "kahn outgoing incoming [] ordered = ordered"
| "kahn outgoing incoming (node # queue) ordered =
     (let ts = sort (case bt_get outgoing node of Some ts \<Rightarrow> ts | None \<Rightarrow> []);
          r = relax ts incoming queue
      in kahn outgoing (fst r) (snd r) (ordered @ [node]))"
  by pat_completeness auto
termination
  by (relation "measure (\<lambda>(out, inc, q, ord). length q + open_count inc)")
    (auto intro: le_less_trans [OF relax_measure])

definition topo_order :: "graph_node list \<Rightarrow> graph_edge list \<Rightarrow> string list \<times> bool" where
  "topo_order nodes edges =
     (let (incoming, outgoing) = edge_maps nodes edges;
          ready = sort (map fst (filter (\<lambda>(k, n). n = 0) incoming));
          ordered = kahn outgoing incoming ready [];
          cyclic = (length ordered \<noteq> length nodes)
      in if cyclic
         then (ordered @ sort (filter (\<lambda>ident. ident \<notin> set ordered) (node_ids nodes)), cyclic)
         else (ordered, cyclic))"

section \<open>Receipts and rendering\<close>

fun digest_nodes :: "nat \<Rightarrow> string list \<Rightarrow> string" where
  "digest_nodes idx [] = []"
| "digest_nodes idx (node # nodes) = show_nat idx @ '':'' @ node @ ''|'' @ digest_nodes (Suc idx) nodes"

definition digest_receipt :: "libs \<Rightarrow> string \<Rightarrow> string list \<Rightarrow> bool \<Rightarrow> string list \<Rightarrow> string" where
  "digest_receipt L workflow_id ordered cyclic warnings =
     sha256_hex L (workflow_id @ digest_nodes 0 ordered @ show_bool cyclic @ concat warnings)"

definition graph_run_workflow ::
  "libs \<Rightarrow> (graph_runtime_policy, blob_error) rresult \<Rightarrow> (string \<Rightarrow> (graph_workflow, string) rresult) \<Rightarrow>
     string \<Rightarrow> (graph_receipt, string) rresult" where
  "graph_run_workflow L policy_blob parse_yaml yaml =
     (case policy_blob of
        Inl e \<Rightarrow> Err (show_blob_error e)
      | Inr policy \<Rightarrow>
          (case parse_yaml yaml of
             Inl e \<Rightarrow> Err (''workflow_parse_failed:'' @ e)
           | Inr workflow \<Rightarrow>
               let w1 = (if length (gw_nodes workflow) > gp_max_nodes policy
                         then [''node_count_above_policy_cap''] else []);
                   w2 = (if length (gw_edges workflow) > gp_max_edges policy
                         then [''edge_count_above_policy_cap''] else []);
                   (ordered_nodes, cyclic) = topo_order (gw_nodes workflow) (gw_edges workflow);
                   w3 = (if cyclic \<and> \<not> gp_allow_cycles policy
                         then [''cycle_detected_under_non_cycle_policy''] else []);
                   warnings = w1 @ w2 @ w3
               in Ok \<lparr>gr_workflow_id = gw_workflow_id workflow, gr_ordered_nodes = ordered_nodes,
                      gr_step_count = length ordered_nodes, gr_cyclic = cyclic,
                      gr_policy_id = gp_policy_id policy,
                      gr_digest = digest_receipt L (gw_workflow_id workflow) ordered_nodes cyclic warnings,
                      gr_warnings = warnings\<rparr>))"

definition quote :: string where
  "quote = [char_of (34 :: nat)]"

fun viz_nodes :: "graph_node list \<Rightarrow> string list \<Rightarrow> string list" where
  "viz_nodes [] seen = []"
| "viz_nodes (n # nodes) seen =
     (let ident = normalize_id (gn_id n)
      in if ident \<in> set seen then viz_nodes nodes seen
         else (''  '' @ quote @ ident @ quote @ '' [label='' @ quote @ ident @ '':'' @ gn_kind n @ quote @ ''];'')
              # viz_nodes nodes (ident # seen))"

definition viz_dot :: "(string \<Rightarrow> (graph_workflow, string) rresult) \<Rightarrow> string \<Rightarrow> (string, string) rresult" where
  "viz_dot parse_yaml yaml =
     (case parse_yaml yaml of
        Inl e \<Rightarrow> Err (''workflow_parse_failed:'' @ e)
      | Inr workflow \<Rightarrow>
          Ok (join [char_of (10 :: nat)]
            ((''digraph '' @ normalize_id (gw_workflow_id workflow) @ '' {'') #
             viz_nodes (gw_nodes workflow) [] @
             map (\<lambda>(from, to'). ''  '' @ quote @ from @ quote @ '' -> '' @ quote @ to' @ quote @ '';'')
               (edge_ends (gw_edges workflow)) @ [''}''])))"

section \<open>Relaxing the successors of a node\<close>

lemma bt_get_decrement:
  "bt_get (bt_decrement k m) v = map_option (\<lambda>n. if v = k then n - 1 else n) (bt_get m v)"
  by (induction m) auto

lemma relax_get:
  "bt_get (fst (relax ts incoming queue)) v =
     map_option (\<lambda>n. n - count_list ts v) (bt_get incoming v)"
proof (induction ts incoming queue rule: relax.induct)
  case (2 to' ts incoming queue)
  then show ?case
    by (cases "bt_get incoming to'"; cases "bt_get incoming v") (auto simp: bt_get_decrement)
qed (simp add: option.map_ident)

lemma relax_queue:
  "\<exists>added. snd (relax ts incoming queue) = queue @ added \<and> distinct added \<and>
     set added = {v. \<exists>n. bt_get incoming v = Some n \<and> 0 < n \<and> n \<le> count_list ts v}"
proof (induction ts incoming queue rule: relax.induct)
  case (1 incoming queue)
  then show ?case by auto
next
  case (2 to' ts incoming queue)
  show ?case
  proof (cases "bt_get incoming to'")
    case None
    then obtain added where "snd (relax ts incoming queue) = queue @ added" "distinct added"
      "set added = {v. \<exists>n. bt_get incoming v = Some n \<and> 0 < n \<and> n \<le> count_list ts v}"
      using "2.IH"(1) by blast
    moreover have "(\<exists>n. bt_get incoming v = Some n \<and> 0 < n \<and> n \<le> count_list (to' # ts) v) \<longleftrightarrow>
        (\<exists>n. bt_get incoming v = Some n \<and> 0 < n \<and> n \<le> count_list ts v)" for v
      using None by (cases "v = to'") auto
    ultimately show ?thesis using None by (intro exI [of _ added]) simp
  next
    case (Some entry)
    show ?thesis
    proof (cases "0 < entry")
      case False
      then obtain added where "snd (relax ts incoming queue) = queue @ added" "distinct added"
        "set added = {v. \<exists>n. bt_get incoming v = Some n \<and> 0 < n \<and> n \<le> count_list ts v}"
        using "2.IH"(3) Some by blast
      moreover have "(\<exists>n. bt_get incoming v = Some n \<and> 0 < n \<and> n \<le> count_list (to' # ts) v) \<longleftrightarrow>
          (\<exists>n. bt_get incoming v = Some n \<and> 0 < n \<and> n \<le> count_list ts v)" for v
        using False Some by (cases "v = to'") auto
      ultimately show ?thesis using Some False by (intro exI [of _ added]) simp
    next
      case True
      let ?q = "if entry - 1 = 0 then queue @ [to'] else queue"
      obtain added where a: "snd (relax ts (bt_decrement to' incoming) ?q) = ?q @ added" "distinct added"
        "set added = {v. \<exists>n. bt_get (bt_decrement to' incoming) v = Some n \<and> 0 < n \<and> n \<le> count_list ts v}"
        using "2.IH"(2) [OF Some True] by blast
      let ?added = "(if entry - 1 = 0 then [to'] else []) @ added"
      have "set ?added = {v. \<exists>n. bt_get incoming v = Some n \<and> 0 < n \<and> n \<le> count_list (to' # ts) v}"
      proof (intro set_eqI)
        fix v
        show "v \<in> set ?added \<longleftrightarrow>
            v \<in> {v. \<exists>n. bt_get incoming v = Some n \<and> 0 < n \<and> n \<le> count_list (to' # ts) v}"
          using True Some a(3) by (cases "v = to'"; cases "bt_get incoming v") (auto simp: bt_get_decrement)
      qed
      moreover have "distinct ?added" using a(2,3) Some by (auto simp: bt_get_decrement)
      ultimately show ?thesis using True Some a(1) by (intro exI [of _ ?added]) simp
    qed
  qed
qed

section \<open>The maps the edges give\<close>

definition known_edges :: "string set \<Rightarrow> (string \<times> string) list \<Rightarrow> (string \<times> string) list" where
  "known_edges K es = filter (\<lambda>(u, v). u \<in> K \<and> v \<in> K) es"

abbreviation in_count :: "(string \<times> string) list \<Rightarrow> string \<Rightarrow> nat" where
  "in_count P v \<equiv> length (filter (\<lambda>e. snd e = v) P)"

abbreviation successors :: "(string \<times> string) list \<Rightarrow> string \<Rightarrow> string list" where
  "successors P u \<equiv> map snd (filter (\<lambda>e. fst e = u) P)"

definition maps_ok :: "string set \<Rightarrow> (string \<times> string) list \<Rightarrow> counts \<times> targets \<Rightarrow> bool" where
  "maps_ok K P maps \<longleftrightarrow> bt_wf (fst maps) \<and> bt_wf (snd maps) \<and>
     (\<forall>v. bt_get (fst maps) v = (if v \<in> K then Some (in_count P v) else None)) \<and>
     (\<forall>u. bt_get (snd maps) u = (if u \<in> K then Some (successors P u) else None))"

lemma maps_ok_init: "maps_ok (set (node_ids nodes)) [] (init_maps nodes)"
proof -
  let ?step = "\<lambda>ident (incoming, outgoing). (bt_or_insert ident (0 :: nat) incoming, bt_or_insert ident [] outgoing)"
  have "maps_ok (K \<union> set ids) [] (fold ?step ids maps)" if "maps_ok K [] maps" for K maps ids
    using that
  proof (induction ids arbitrary: K maps)
    case (Cons i ids)
    obtain inc out where m: "maps = (inc, out)" by force
    have "maps_ok (insert i K) [] (?step i maps)"
      using Cons.prems by (auto simp: m maps_ok_def bt_wf_or_insert bt_get_or_insert)
    from Cons.IH [OF this] show ?case by simp
  qed simp
  from this [of "{}" "([], [])" "node_ids nodes"] show ?thesis
    by (simp add: init_maps_def maps_ok_def)
qed

lemma maps_ok_edges:
  assumes "maps_ok K P maps"
  shows "maps_ok K (P @ known_edges K es) (fold add_edge es maps)"
  using assms
proof (induction es arbitrary: P maps)
  case (Cons e es)
  obtain u v where e: "e = (u, v)" by force
  obtain inc out where m: "maps = (inc, out)" by force
  have keys: "bt_contains_key inc x \<longleftrightarrow> x \<in> K" for x
    using Cons.prems by (simp add: m maps_ok_def bt_contains_key_def)
  have "maps_ok K (P @ known_edges K [e]) (add_edge e maps)"
    using Cons.prems keys
    by (auto simp: e m maps_ok_def known_edges_def add_edge_def Let_def bt_get_insert bt_wf_insert)
  from Cons.IH [OF this] show ?case by (simp add: known_edges_def split: if_splits)
qed (simp add: known_edges_def)

lemma edge_maps_ok:
  "maps_ok (set (node_ids nodes)) (known_edges (set (node_ids nodes)) (edge_ends edges)) (edge_maps nodes edges)"
  using maps_ok_edges [OF maps_ok_init, of nodes "edge_ends edges"] by (simp add: edge_maps_def)

section \<open>The invariant of the loop\<close>

text \<open>Edges into \<open>v\<close> from nodes that are not yet ordered.\<close>

definition open_in :: "(string \<times> string) list \<Rightarrow> string set \<Rightarrow> string \<Rightarrow> nat" where
  "open_in P S v = length (filter (\<lambda>(u, w). w = v \<and> u \<notin> S) P)"

definition precedes_all :: "(string \<times> string) list \<Rightarrow> string list \<Rightarrow> bool" where
  "precedes_all P xs \<longleftrightarrow>
     (\<forall>pre v post. xs = pre @ v # post \<longrightarrow> (\<forall>u. (u, v) \<in> set P \<longrightarrow> u \<in> set pre))"

definition kahn_inv ::
  "string set \<Rightarrow> (string \<times> string) list \<Rightarrow> counts \<Rightarrow> string list \<Rightarrow> string list \<Rightarrow> bool" where
  "kahn_inv K P incoming queue ordered \<longleftrightarrow>
     (\<forall>v. bt_get incoming v = (if v \<in> K then Some (open_in P (set ordered) v) else None)) \<and>
     distinct (ordered @ queue) \<and> set (ordered @ queue) = {v \<in> K. open_in P (set ordered) v = 0} \<and>
     precedes_all P ordered"

lemma open_in_insert:
  "n \<notin> S \<Longrightarrow> open_in P S v = open_in P (insert n S) v + count_list (successors P n) v"
  by (induction P) (auto simp: open_in_def)

lemma count_list_sort: "count_list (sort xs) v = count_list xs v"
  by (metis count_mset mset_sort)

lemma open_in_0_iff: "open_in P S v = 0 \<longleftrightarrow> (\<forall>u. (u, v) \<in> set P \<longrightarrow> u \<in> S)"
  by (auto simp: open_in_def filter_empty_conv)

lemma precedes_all_snoc:
  assumes "precedes_all P xs" and "\<forall>u. (u, v) \<in> set P \<longrightarrow> u \<in> set xs"
  shows "precedes_all P (xs @ [v])"
  unfolding precedes_all_def
proof (intro allI impI)
  fix pre w post u assume eq: "xs @ [v] = pre @ w # post" and e: "(u, w) \<in> set P"
  show "u \<in> set pre"
  proof (cases post rule: rev_cases)
    case Nil
    then show ?thesis using eq e assms(2) by simp
  next
    case (snoc post' y)
    then have "xs = pre @ w # post'" using eq by simp
    then show ?thesis using assms(1) e by (auto simp: precedes_all_def)
  qed
qed

lemma kahn_inv_step:
  assumes inv: "kahn_inv K P incoming (node # queue) ordered"
    and ts: "ts = sort (successors P node)"
  shows "kahn_inv K P (fst (relax ts incoming queue)) (snd (relax ts incoming queue)) (ordered @ [node])"
proof -
  let ?S = "set ordered" and ?S' = "set (ordered @ [node])"
  have fresh: "node \<notin> ?S" using inv by (simp add: kahn_inv_def)
  have open': "open_in P ?S v = open_in P ?S' v + count_list ts v" for v
    using open_in_insert [OF fresh] by (simp add: ts count_list_sort)
  have get: "bt_get incoming v = (if v \<in> K then Some (open_in P ?S v) else None)" for v
    using inv by (simp add: kahn_inv_def)
  obtain added where added: "snd (relax ts incoming queue) = queue @ added" "distinct added"
    "set added = {v. \<exists>n. bt_get incoming v = Some n \<and> 0 < n \<and> n \<le> count_list ts v}"
    using relax_queue by blast
  have added': "set added = {v \<in> K. 0 < open_in P ?S v \<and> open_in P ?S' v = 0}"
    unfolding added(3) using open' by (auto simp: get split: if_splits)
  have old: "set (ordered @ node # queue) = {v \<in> K. open_in P ?S v = 0}"
    and dist: "distinct (ordered @ node # queue)" using inv by (simp_all add: kahn_inv_def)
  have "open_in P ?S' v = 0" if "open_in P ?S v = 0" for v using open' [of v] that by simp
  then have "set ((ordered @ [node]) @ queue @ added) = {v \<in> K. open_in P ?S' v = 0}"
    using old added' by auto
  moreover have "distinct ((ordered @ [node]) @ queue @ added)"
    using dist added(2) added' old by auto
  moreover have "precedes_all P (ordered @ [node])"
    using inv old by (intro precedes_all_snoc) (auto simp: kahn_inv_def open_in_0_iff)
  moreover have "bt_get (fst (relax ts incoming queue)) v =
      (if v \<in> K then Some (open_in P ?S' v) else None)" for v
    using open' [of v] by (simp add: relax_get get)
  ultimately show ?thesis by (simp add: kahn_inv_def added(1))
qed

lemma kahn_result:
  assumes "kahn_inv K P incoming queue ordered" and "finite K"
    and "\<forall>u \<in> K. bt_get outgoing u = Some (successors P u)"
  shows "\<exists>incoming'. kahn_inv K P incoming' [] (kahn outgoing incoming queue ordered)"
  using assms
proof (induction outgoing incoming queue ordered rule: kahn.induct)
  case (2 outgoing incoming node queue ordered)
  let ?ts = "sort (case bt_get outgoing node of Some ts \<Rightarrow> ts | None \<Rightarrow> [])"
  have "node \<in> K" using "2.prems"(1) by (auto simp: kahn_inv_def)
  then have "?ts = sort (successors P node)" using "2.prems"(3) by simp
  from kahn_inv_step [OF "2.prems"(1) this] show ?case
    using "2.IH" [OF refl refl] "2.prems"(2,3) by (simp add: Let_def)
qed auto

section \<open>Acyclicity and completeness\<close>

lemma precedes_all_acyclic:
  assumes "precedes_all P xs" "distinct xs" "Field (set P) \<subseteq> set xs"
  shows "acyclic (set P)"
proof -
  define pos where "pos v = length (takeWhile (\<lambda>x. x \<noteq> v) xs)" for v
  have "pos u < pos v" if "(u, v) \<in> set P" for u v
  proof -
    have "v \<in> set xs" using that assms(3) by (auto simp: Field_def)
    then obtain pre post where xs: "xs = pre @ v # post" "v \<notin> set pre" by (metis split_list_first)
    then have "u \<in> set pre" using assms(1) that by (auto simp: precedes_all_def)
    then obtain a b where pre: "pre = a @ u # b" "u \<notin> set a" by (metis split_list_first)
    then have "takeWhile (\<lambda>x. x \<noteq> u) xs = a" unfolding xs(1) by (simp add: takeWhile_append)
    then have "pos u < length pre" by (simp add: pos_def pre(1))
    moreover have "takeWhile (\<lambda>x. x \<noteq> v) (pre @ v # post) = pre"
      using xs(2) by (subst takeWhile_append2) auto
    ultimately show ?thesis by (simp add: pos_def xs(1))
  qed
  then have "set P \<subseteq> measure pos" by auto
  then show ?thesis by (rule acyclic_subset [OF wf_acyclic [OF wf_measure]])
qed

lemma acyclic_all_ordered:
  assumes "acyclic (set P)" "Field (set P) \<subseteq> K" "kahn_inv K P incoming [] ordered"
  shows "set ordered = K"
proof (rule ccontr)
  assume "set ordered \<noteq> K"
  have ord: "set ordered = {v \<in> K. open_in P (set ordered) v = 0}"
    using assms(3) by (simp add: kahn_inv_def)
  then obtain v where v: "v \<in> K - set ordered" using \<open>set ordered \<noteq> K\<close> by blast
  have "wf (set P)" using assms(1) by (simp add: finite_acyclic_wf)
  from wfE_min [OF this v] obtain z where
    z: "z \<in> K - set ordered" "\<And>y. (y, z) \<in> set P \<Longrightarrow> y \<notin> K - set ordered" by blast
  then have "\<forall>u. (u, z) \<in> set P \<longrightarrow> u \<in> set ordered"
    using assms(2) by (auto simp: Field_def)
  then show False using z(1) ord by (auto simp: open_in_0_iff)
qed

abbreviation graph_edges :: "graph_node list \<Rightarrow> graph_edge list \<Rightarrow> (string \<times> string) list" where
  "graph_edges nodes edges \<equiv> known_edges (set (node_ids nodes)) (edge_ends edges)"

text \<open>What the queue loop leaves, before the nodes of cycles are appended.\<close>

definition kahn_order :: "graph_node list \<Rightarrow> graph_edge list \<Rightarrow> string list" where
  "kahn_order nodes edges =
     (let (incoming, outgoing) = edge_maps nodes edges
      in kahn outgoing incoming (sort (map fst (filter (\<lambda>(k, n). n = 0) incoming))) [])"

lemma topo_order_kahn:
  "topo_order nodes edges =
     (if length (kahn_order nodes edges) \<noteq> length nodes
      then (kahn_order nodes edges @
              sort (filter (\<lambda>i. i \<notin> set (kahn_order nodes edges)) (node_ids nodes)), True)
      else (kahn_order nodes edges, False))"
  by (simp add: topo_order_def kahn_order_def Let_def case_prod_unfold)

lemma kahn_order_inv:
  "\<exists>incoming. kahn_inv (set (node_ids nodes)) (graph_edges nodes edges) incoming [] (kahn_order nodes edges)"
proof -
  let ?K = "set (node_ids nodes)" and ?P = "graph_edges nodes edges"
  obtain incoming outgoing where m: "edge_maps nodes edges = (incoming, outgoing)" by force
  have ok: "maps_ok ?K ?P (incoming, outgoing)" using edge_maps_ok [of nodes edges] by (simp add: m)
  let ?ready = "sort (map fst (filter (\<lambda>(k, n). n = 0) incoming))"
  have dist: "distinct (map fst incoming)"
    using ok distinct_bt_keys [of incoming] by (simp add: maps_ok_def bt_keys_def)
  have "set ?ready = {v. bt_get incoming v = Some 0}"
    using dist by (force simp: bt_get_map_of map_of_eq_Some_iff)
  moreover have "distinct ?ready" using dist by (simp add: distinct_map_filter)
  moreover have "open_in ?P {} v = in_count ?P v" for v
    by (simp add: open_in_def case_prod_unfold)
  ultimately have "kahn_inv ?K ?P incoming ?ready []"
    using ok by (auto simp: kahn_inv_def maps_ok_def precedes_all_def split: if_splits)
  from kahn_result [OF this, of outgoing] show ?thesis
    using ok by (simp add: kahn_order_def m maps_ok_def)
qed

lemma graph_edges_field: "Field (set (graph_edges nodes edges)) \<subseteq> set (node_ids nodes)"
  by (auto simp: known_edges_def Field_def)

lemma kahn_order_facts:
  "distinct (kahn_order nodes edges)" "set (kahn_order nodes edges) \<subseteq> set (node_ids nodes)"
  "precedes_all (graph_edges nodes edges) (kahn_order nodes edges)"
  using kahn_order_inv [of nodes edges] by (auto simp: kahn_inv_def)

lemma kahn_order_complete_iff:
  "set (kahn_order nodes edges) = set (node_ids nodes) \<longleftrightarrow> acyclic (set (graph_edges nodes edges))"
proof
  assume "set (kahn_order nodes edges) = set (node_ids nodes)"
  then show "acyclic (set (graph_edges nodes edges))"
    using precedes_all_acyclic [OF kahn_order_facts(3,1)] graph_edges_field by simp
next
  assume acyc: "acyclic (set (graph_edges nodes edges))"
  obtain incoming where
    "kahn_inv (set (node_ids nodes)) (graph_edges nodes edges) incoming [] (kahn_order nodes edges)"
    using kahn_order_inv [of nodes edges] ..
  with acyc graph_edges_field show "set (kahn_order nodes edges) = set (node_ids nodes)"
    by (rule acyclic_all_ordered)
qed

section \<open>Properties\<close>

text \<open>The ordering is complete. Every node of the workflow is listed, nothing else is, and when the
  normalised ids are distinct each node is listed exactly once, in cyclic graphs too.\<close>

lemma topo_order_lists_every_node:
  assumes "distinct (node_ids nodes)"
  shows "mset (fst (topo_order nodes edges)) = mset (node_ids nodes)"
proof -
  let ?o = "kahn_order nodes edges" and ?ids = "node_ids nodes"
  have o: "distinct ?o" "set ?o \<subseteq> set ?ids" by (rule kahn_order_facts)+
  have "mset (filter (\<lambda>i. i \<in> set ?o) ?ids) = mset ?o"
    using o assms by (intro set_eq_iff_mset_eq_distinct [THEN iffD1]) auto
  moreover have "mset ?ids = mset (filter (\<lambda>i. i \<in> set ?o) ?ids) + mset (filter (\<lambda>i. i \<notin> set ?o) ?ids)"
    by (simp add: multiset_partition [symmetric])
  moreover have "mset ?o = mset ?ids" if "length ?o = length nodes"
  proof -
    have "set ?o = set ?ids"
      using that o assms by (metis card_subset_eq distinct_card finite_set length_map)
    then show ?thesis using o(1) assms by (simp only: set_eq_iff_mset_eq_distinct)
  qed
  ultimately show ?thesis by (simp add: topo_order_kahn)
qed

lemma topo_order_lists_every_node_witness:
  "mset (fst (topo_order [\<lparr>gn_id = ''b'', gn_kind = [], gn_metadata = []\<rparr>,
      \<lparr>gn_id = ''a'', gn_kind = [], gn_metadata = []\<rparr>]
      [\<lparr>ge_from = ''b'', ge_to = ''a'', ge_condition = []\<rparr>])) = mset [''b'', ''a'']"
proof -
  let ?ns = "[\<lparr>gn_id = ''b'', gn_kind = [], gn_metadata = []\<rparr>, \<lparr>gn_id = ''a'', gn_kind = [], gn_metadata = []\<rparr>]"
  have ids: "node_ids ?ns = [''b'', ''a'']" by code_simp
  then have "distinct (node_ids ?ns)" by simp
  from topo_order_lists_every_node [OF this] show ?thesis by (simp only: ids)
qed

text \<open>C5: the ordering is correct and the cycle flag is exact. For distinct normalised ids, the flag is
  raised exactly when the edges between known nodes form a cycle; when it is not, every edge runs
  from an earlier to a later node of the order.\<close>

theorem topo_order_correct:
  assumes "distinct (node_ids nodes)"
  shows "(snd (topo_order nodes edges) \<longleftrightarrow> \<not> acyclic (set (graph_edges nodes edges))) \<and>
     (\<not> snd (topo_order nodes edges) \<longrightarrow>
        precedes_all (graph_edges nodes edges) (fst (topo_order nodes edges)))"
proof -
  let ?o = "kahn_order nodes edges" and ?ids = "node_ids nodes"
  have "length ?o = length nodes \<longleftrightarrow> set ?o = set ?ids"
  proof
    assume "length ?o = length nodes"
    then show "set ?o = set ?ids"
      using kahn_order_facts(1,2) [of nodes edges] assms
      by (metis card_subset_eq distinct_card finite_set length_map)
  next
    assume "set ?o = set ?ids"
    then have "length ?o = length ?ids"
      using kahn_order_facts(1) [of nodes edges] assms by (metis distinct_card)
    then show "length ?o = length nodes" by simp
  qed
  then show ?thesis
    using kahn_order_complete_iff [of nodes edges] kahn_order_facts(3) [of nodes edges]
    by (simp add: topo_order_kahn)
qed

theorem topo_order_correct_witness:
  "snd (topo_order [\<lparr>gn_id = ''a'', gn_kind = [], gn_metadata = []\<rparr>]
      [\<lparr>ge_from = ''a'', ge_to = '' a '', ge_condition = []\<rparr>])"
proof -
  let ?ns = "[\<lparr>gn_id = ''a'', gn_kind = [], gn_metadata = []\<rparr>]"
    and ?es = "[\<lparr>ge_from = ''a'', ge_to = '' a '', ge_condition = []\<rparr>]"
  have ids: "node_ids ?ns = [''a'']" by code_simp
  have ends: "edge_ends ?es = [(''a'', ''a'')]" by code_simp
  have "distinct (node_ids ?ns)" by (simp add: ids)
  moreover have "\<not> acyclic (set (graph_edges ?ns ?es))"
    unfolding ids ends by (auto simp: known_edges_def acyclic_def)
  ultimately show ?thesis using topo_order_correct [of ?ns ?es] by blast
qed

text \<open>Two nodes with the same normalised id and no edge at all raise the cycle flag.\<close>

lemma duplicate_ids_flagged_cyclic:
  "topo_order [\<lparr>gn_id = ''a'', gn_kind = [], gn_metadata = []\<rparr>, \<lparr>gn_id = '' a'', gn_kind = [], gn_metadata = []\<rparr>] []
     = ([''a''], True)"
  by code_simp

end
