(* ===== verification/Vault_Policy.thy ===== *)
theory Vault_Policy
  imports Blob_Store
begin

text \<open>
  \<^verbatim>\<open>core/layer0/vault/src/lib.rs\<close>: the decision on a vault operation from the embedded policy, its
  rotation settings and the runtime envelope. The policy structures are those of
  \<^verbatim>\<open>core/layer0/memory/src/blob.rs\<close>. The loaded envelope is an argument of the decision: \<^term>\<open>None\<close>
  when its blob does not load.
\<close>

section \<open>Data\<close>

definition MIN_FHE_NOISE_BUDGET :: u32 where
  "MIN_FHE_NOISE_BUDGET = 12"

record vault_operation_request =
  vq_operation_id :: string
  vq_key_id :: string
  vq_action :: string
  vq_zk_proof :: "string option"
  vq_ciphertext_digest :: "string option"
  vq_fhe_noise_budget :: u32
  vq_key_age_hours :: u32
  vq_tamper_signal :: bool
  vq_operator_quorum :: u8
  vq_audit_receipt_nonce :: "string option"

record rule_evaluation =
  ru_rule_id :: string
  ru_passed :: bool
  ru_fail_closed :: bool
  ru_reason :: string

record vault_decision =
  vd_policy_id :: string
  vd_policy_digest :: string
  vd_operation_id :: string
  vd_key_id :: string
  vd_action :: string
  vd_allowed :: bool
  vd_fail_closed :: bool
  vd_status :: string
  vd_should_rotate :: bool
  vd_rotate_reason :: "string option"
  vd_reasons :: "string list"
  vd_rule_results :: "rule_evaluation list"

datatype vault_error = PolicyLoadFailed string | InvalidRequest string | EncodeFailed string

fun show_vault_error :: "vault_error \<Rightarrow> string" where
  "show_vault_error (PolicyLoadFailed msg) = ''policy_load_failed:'' @ msg"
| "show_vault_error (InvalidRequest msg) = ''invalid_request:'' @ msg"
| "show_vault_error (EncodeFailed msg) = ''encode_failed:'' @ msg"

record vault_policy_rule =
  pr_id :: string
  pr_objective :: string
  pr_zk_requirement :: string
  pr_fhe_requirement :: string
  pr_severity :: string
  pr_fail_closed :: bool

record vault_auto_rotate_policy =
  ar_enabled :: bool
  ar_rotate_after_hours :: u32
  ar_max_key_age_hours :: u32
  ar_grace_window_minutes :: u32
  ar_quorum_required :: u8
  ar_emergency_rotate_on_tamper :: bool

record vault_policy =
  vp_policy_id :: string
  vp_version :: u32
  vp_key_domain :: string
  vp_cryptographic_profile :: string
  vp_attestation_chain :: "string list"
  vp_auto_rotate :: vault_auto_rotate_policy
  vp_rules :: "vault_policy_rule list"

record vault_runtime_envelope =
  ve_envelope_id :: string
  ve_min_operator_quorum :: u8
  ve_max_key_age_hours :: u32
  ve_require_audit_nonce :: bool
  ve_enforce_fail_closed :: bool

definition VAULT_RUNTIME_BLOB_ID :: string where
  "VAULT_RUNTIME_BLOB_ID = ''vault_runtime_envelope''"

section \<open>Operations\<close>

definition normalize_text :: "string \<Rightarrow> nat \<Rightarrow> string" where
  "normalize_text input n = take n (join '' '' (split_whitespace (trim input)))"

definition has_value :: "string option \<Rightarrow> bool" where
  "has_value v = (case v of Some s \<Rightarrow> trim s \<noteq> [] | None \<Rightarrow> False)"

definition auto_rotate_signal ::
  "vault_policy \<Rightarrow> vault_operation_request \<Rightarrow> bool \<times> string option" where
  "auto_rotate_signal policy request =
     (let ar = vp_auto_rotate policy
      in if \<not> ar_enabled ar then (False, None)
         else if vq_tamper_signal request \<and> ar_emergency_rotate_on_tamper ar
         then (True, Some ''tamper_signal_detected'')
         else if vq_key_age_hours request \<ge> ar_rotate_after_hours ar
         then (True, Some (''key_age_exceeds_rotate_after:'' @ show_word (ar_rotate_after_hours ar) @ ''h''))
         else (False, None))"

definition rule_parts :: "vault_policy_rule \<Rightarrow> string list" where
  "rule_parts rule =
     [pr_id rule, pr_objective rule, pr_zk_requirement rule, pr_fhe_requirement rule, pr_severity rule,
      show_bool (pr_fail_closed rule)]"

definition policy_digest :: "libs \<Rightarrow> vault_policy \<Rightarrow> string" where
  "policy_digest L policy =
     (let ar = vp_auto_rotate policy;
          parts =
            [vp_policy_id policy, show_word (vp_version policy), vp_key_domain policy,
             vp_cryptographic_profile policy, show_bool (ar_enabled ar),
             show_word (ar_rotate_after_hours ar), show_word (ar_max_key_age_hours ar),
             show_word (ar_grace_window_minutes ar), show_word (ar_quorum_required ar),
             show_bool (ar_emergency_rotate_on_tamper ar)] @
            vp_attestation_chain policy @ concat (map rule_parts (vp_rules policy))
      in sha256_hex L (join ''|'' parts))"

text \<open>One arm of the \<^verbatim>\<open>match\<close> per rule: whether it passed, its reason, and whether it asks for a
  rotation.\<close>

definition eval_zk :: "vault_operation_request \<Rightarrow> string \<Rightarrow> bool \<times> string \<times> bool" where
  "eval_zk request action =
     (let requires_zk = action \<in> {''seal'', ''unseal'', ''rotate''};
          passed = (\<not> requires_zk \<or> has_value (vq_zk_proof request))
      in (passed, if passed then ''zk_proof_validated'' else ''zk_proof_missing'', False))"

definition eval_fhe :: "vault_operation_request \<Rightarrow> bool \<times> string \<times> bool" where
  "eval_fhe request =
     (let has_cipher = has_value (vq_ciphertext_digest request);
          noise_ok = vq_fhe_noise_budget request \<ge> MIN_FHE_NOISE_BUDGET;
          passed = (has_cipher \<and> noise_ok)
      in (passed,
          if passed then ''fhe_constraints_satisfied''
          else if \<not> has_cipher then ''ciphertext_digest_missing''
          else ''fhe_noise_budget_below_min:'' @ show_word (vq_fhe_noise_budget request) @ ''<'' @
               show_word MIN_FHE_NOISE_BUDGET, False))"

definition eval_rotation ::
  "vault_policy \<Rightarrow> vault_operation_request \<Rightarrow> string \<Rightarrow> bool \<Rightarrow> bool \<times> string \<times> bool" where
  "eval_rotation policy request action rotate_due =
     (let ar = vp_auto_rotate policy;
          exceeds_max_age = vq_key_age_hours request > ar_max_key_age_hours ar;
          quorum_ok = vq_operator_quorum request \<ge> ar_quorum_required ar;
          rotate_action = (action = ''rotate'')
      in if exceeds_max_age \<and> \<not> rotate_action
         then (False, ''key_age_exceeds_max_without_rotate:'' @ show_word (vq_key_age_hours request) @
                ''>'' @ show_word (ar_max_key_age_hours ar), True)
         else if vq_tamper_signal request \<and> \<not> rotate_action
         then (False, ''tamper_requires_immediate_rotate'', True)
         else if rotate_due \<and> \<not> quorum_ok
         then (False, ''rotate_quorum_insufficient:'' @ show_word (vq_operator_quorum request) @ ''<'' @
                show_word (ar_quorum_required ar), False)
         else (True, if rotate_due then ''rotation_window_enforced'' else ''rotation_not_required'', False))"

definition eval_audit :: "vault_operation_request \<Rightarrow> bool \<times> string \<times> bool" where
  "eval_audit request =
     (let passed = has_value (vq_audit_receipt_nonce request)
      in (passed, if passed then ''audit_receipt_bound'' else ''audit_receipt_nonce_missing'', False))"

definition eval_rule ::
  "vault_policy \<Rightarrow> vault_operation_request \<Rightarrow> string \<Rightarrow> bool \<Rightarrow> vault_policy_rule \<Rightarrow> bool \<times> string \<times> bool" where
  "eval_rule policy request action rotate_due rule =
     (if pr_id rule = ''vault.zk.required'' then eval_zk request action
      else if pr_id rule = ''vault.fhe.policy'' then eval_fhe request
      else if pr_id rule = ''vault.rotation.window'' then eval_rotation policy request action rotate_due
      else if pr_id rule = ''vault.audit.trace'' then eval_audit request
      else (True, ''unrecognized_rule_treated_as_pass'', False))"

definition rule_result ::
  "vault_policy \<Rightarrow> vault_operation_request \<Rightarrow> string \<Rightarrow> bool \<Rightarrow> vault_policy_rule \<Rightarrow> rule_evaluation" where
  "rule_result policy request action rotate_due rule =
     (case eval_rule policy request action rotate_due rule of (passed, reason, _) \<Rightarrow>
        \<lparr>ru_rule_id = pr_id rule, ru_passed = passed, ru_fail_closed = pr_fail_closed rule,
         ru_reason = reason\<rparr>)"

definition envelope_result ::
  "vault_runtime_envelope option \<Rightarrow> vault_operation_request \<Rightarrow> rule_evaluation" where
  "envelope_result runtime_envelope request =
     (case runtime_envelope of
        Some envelope \<Rightarrow>
          let quorum_ok = vq_operator_quorum request \<ge> ve_min_operator_quorum envelope;
              key_age_ok = vq_key_age_hours request \<le> ve_max_key_age_hours envelope;
              audit_ok = (\<not> ve_require_audit_nonce envelope \<or> has_value (vq_audit_receipt_nonce request));
              passed = (quorum_ok \<and> key_age_ok \<and> audit_ok);
              reason =
                (if passed then ''runtime_envelope_satisfied''
                 else if \<not> quorum_ok
                 then ''runtime_envelope_quorum_insufficient:'' @ show_word (vq_operator_quorum request) @
                      ''<'' @ show_word (ve_min_operator_quorum envelope)
                 else if \<not> key_age_ok
                 then ''runtime_envelope_key_age_exceeded:'' @ show_word (vq_key_age_hours request) @
                      ''>'' @ show_word (ve_max_key_age_hours envelope)
                 else ''runtime_envelope_audit_nonce_missing'')
          in \<lparr>ru_rule_id = ''vault.runtime.envelope'', ru_passed = passed,
              ru_fail_closed = ve_enforce_fail_closed envelope, ru_reason = reason\<rparr>
      | None \<Rightarrow>
          \<lparr>ru_rule_id = ''vault.runtime.envelope'', ru_passed = False, ru_fail_closed = True,
           ru_reason = ''missing_runtime_envelope_blob''\<rparr>)"

definition failure_reasons :: "rule_evaluation list \<Rightarrow> string list" where
  "failure_reasons results =
     map (\<lambda>r. ru_rule_id r @ '':'' @ ru_reason r) (filter (\<lambda>r. \<not> ru_passed r) results)"

definition normalized_action :: "vault_operation_request \<Rightarrow> string" where
  "normalized_action request = to_ascii_lowercase (normalize_text (vq_action request) 64)"

definition evaluate_vault_policy ::
  "libs \<Rightarrow> vault_runtime_envelope option \<Rightarrow> vault_policy \<Rightarrow> vault_operation_request \<Rightarrow> vault_decision" where
  "evaluate_vault_policy L runtime_envelope policy request =
     (let action = normalized_action request;
          (rotate_due, rotate_reason) = auto_rotate_signal policy request;
          should_rotate = (rotate_due \<or>
            list_ex (\<lambda>rule. snd (snd (eval_rule policy request action rotate_due rule))) (vp_rules policy));
          results = map (rule_result policy request action rotate_due) (vp_rules policy) @
            [envelope_result runtime_envelope request];
          allowed = list_all ru_passed results;
          fail_closed = list_ex (\<lambda>r. \<not> ru_passed r \<and> ru_fail_closed r) results
      in \<lparr>vd_policy_id = vp_policy_id policy, vd_policy_digest = policy_digest L policy,
          vd_operation_id = normalize_text (vq_operation_id request) 160,
          vd_key_id = normalize_text (vq_key_id request) 160, vd_action = action,
          vd_allowed = allowed, vd_fail_closed = fail_closed,
          vd_status = (if allowed then ''allow'' else if fail_closed then ''deny_fail_closed''
                       else ''deny_soft''),
          vd_should_rotate = should_rotate, vd_rotate_reason = rotate_reason,
          vd_reasons = failure_reasons results, vd_rule_results = results\<rparr>)"

definition load_embedded_vault_runtime_envelope ::
  "libs \<Rightarrow> (string \<Rightarrow> (blob_manifest list, string) rresult) \<Rightarrow>
     (string \<Rightarrow> (vault_runtime_envelope, string) rresult) \<Rightarrow> string \<Rightarrow> string \<Rightarrow>
     (vault_runtime_envelope, blob_error) rresult" where
  "load_embedded_vault_runtime_envelope L manifest_from envelope_from manifest_blob envelope_blob =
     load_embedded L manifest_from envelope_from manifest_blob VAULT_RUNTIME_BLOB_ID envelope_blob"

definition evaluate_vault_policy_json ::
  "libs \<Rightarrow> (vault_policy, string) rresult \<Rightarrow> (vault_runtime_envelope, blob_error) rresult \<Rightarrow>
     (string \<Rightarrow> (vault_operation_request, string) rresult) \<Rightarrow> (vault_decision \<Rightarrow> (string, string) rresult) \<Rightarrow>
     string \<Rightarrow> (string, vault_error) rresult" where
  "evaluate_vault_policy_json L policy envelope parse_request encode request_json =
     (case parse_request request_json of
        Inl err \<Rightarrow> Err (InvalidRequest (''request_parse_failed:'' @ err))
      | Inr request \<Rightarrow>
          (case policy of
             Inl err \<Rightarrow> Err (PolicyLoadFailed err)
           | Inr p \<Rightarrow>
               (case encode (evaluate_vault_policy L (case envelope of Inr e \<Rightarrow> Some e | Inl _ \<Rightarrow> None) p request) of
                  Inl err \<Rightarrow> Err (EncodeFailed err)
                | Inr text \<Rightarrow> Ok text)))"

section \<open>Facts\<close>

lemma eval_passed_iff:
  "fst (eval_zk request action) \<longleftrightarrow>
     action \<notin> {''seal'', ''unseal'', ''rotate''} \<or> has_value (vq_zk_proof request)"
  "fst (eval_fhe request) \<longleftrightarrow>
     has_value (vq_ciphertext_digest request) \<and> MIN_FHE_NOISE_BUDGET \<le> vq_fhe_noise_budget request"
  "fst (eval_rotation policy request action due) \<longleftrightarrow>
     (action = ''rotate'' \<or>
        vq_key_age_hours request \<le> ar_max_key_age_hours (vp_auto_rotate policy) \<and> \<not> vq_tamper_signal request) \<and>
     (due \<longrightarrow> ar_quorum_required (vp_auto_rotate policy) \<le> vq_operator_quorum request)"
  "fst (eval_audit request) \<longleftrightarrow> has_value (vq_audit_receipt_nonce request)"
  by (auto simp: eval_zk_def eval_fhe_def eval_rotation_def eval_audit_def Let_def not_le not_less)

lemma rule_result_passed [simp]:
  "ru_passed (rule_result policy request action due rule) = fst (eval_rule policy request action due rule)"
  by (simp add: rule_result_def case_prod_unfold)

lemma envelope_result_passed:
  "ru_passed (envelope_result envelope request) \<longleftrightarrow>
     (\<exists>e. envelope = Some e \<and> ve_min_operator_quorum e \<le> vq_operator_quorum request \<and>
        vq_key_age_hours request \<le> ve_max_key_age_hours e \<and>
        (ve_require_audit_nonce e \<longrightarrow> has_value (vq_audit_receipt_nonce request)))"
  by (auto simp: envelope_result_def Let_def split: option.splits)

lemma vd_allowed_iff_rules:
  "vd_allowed (evaluate_vault_policy L envelope policy request) \<longleftrightarrow>
     (\<forall>rule \<in> set (vp_rules policy).
        fst (eval_rule policy request (normalized_action request) (fst (auto_rotate_signal policy request)) rule)) \<and>
     ru_passed (envelope_result envelope request)"
  by (auto simp: evaluate_vault_policy_def Let_def case_prod_unfold list_all_iff)

lemma eval_rules_iff:
  "(\<forall>rule \<in> R. fst (eval_rule policy request a due rule)) \<longleftrightarrow>
     (''vault.zk.required'' \<in> pr_id ` R \<longrightarrow> fst (eval_zk request a)) \<and>
     (''vault.fhe.policy'' \<in> pr_id ` R \<longrightarrow> fst (eval_fhe request)) \<and>
     (''vault.rotation.window'' \<in> pr_id ` R \<longrightarrow> fst (eval_rotation policy request a due)) \<and>
     (''vault.audit.trace'' \<in> pr_id ` R \<longrightarrow> fst (eval_audit request))"
proof -
  have "fst (eval_rule policy request a due rule) \<longleftrightarrow>
      (pr_id rule = ''vault.zk.required'' \<longrightarrow> fst (eval_zk request a)) \<and>
      (pr_id rule = ''vault.fhe.policy'' \<longrightarrow> fst (eval_fhe request)) \<and>
      (pr_id rule = ''vault.rotation.window'' \<longrightarrow> fst (eval_rotation policy request a due)) \<and>
      (pr_id rule = ''vault.audit.trace'' \<longrightarrow> fst (eval_audit request))" for rule
    by (simp add: eval_rule_def)
  moreover have "(\<forall>rule \<in> R. pr_id rule = x \<longrightarrow> A) \<longleftrightarrow> (x \<in> pr_id ` R \<longrightarrow> A)" for x A by blast
  ultimately show ?thesis by (simp only: ball_conj_distrib)
qed

section \<open>Properties\<close>

text \<open>C10: the vault allows an operation exactly when the runtime envelope is loaded and satisfied and
  every rule of the policy it knows holds: a proof for seal, unseal and rotate; a ciphertext digest and
  enough noise budget; no tamper signal and no over-age key unless the operation rotates, with a quorum
  whenever a rotation is due; an audit nonce. The reasons are empty exactly then, and a missing
  envelope always denies fail-closed.\<close>

theorem vault_allows_iff:
  fixes L envelope policy request
  defines "d \<equiv> evaluate_vault_policy L envelope policy request"
    and "ids \<equiv> pr_id ` set (vp_rules policy)" and "ar \<equiv> vp_auto_rotate policy"
  shows "(vd_allowed d \<longleftrightarrow>
       (\<exists>e. envelope = Some e \<and> ve_min_operator_quorum e \<le> vq_operator_quorum request \<and>
          vq_key_age_hours request \<le> ve_max_key_age_hours e \<and>
          (ve_require_audit_nonce e \<longrightarrow> has_value (vq_audit_receipt_nonce request))) \<and>
       (''vault.zk.required'' \<in> ids \<longrightarrow>
          vd_action d \<notin> {''seal'', ''unseal'', ''rotate''} \<or> has_value (vq_zk_proof request)) \<and>
       (''vault.fhe.policy'' \<in> ids \<longrightarrow>
          has_value (vq_ciphertext_digest request) \<and> 12 \<le> vq_fhe_noise_budget request) \<and>
       (''vault.rotation.window'' \<in> ids \<longrightarrow>
          (vd_action d = ''rotate'' \<or>
             vq_key_age_hours request \<le> ar_max_key_age_hours ar \<and> \<not> vq_tamper_signal request) \<and>
          (fst (auto_rotate_signal policy request) \<longrightarrow> ar_quorum_required ar \<le> vq_operator_quorum request)) \<and>
       (''vault.audit.trace'' \<in> ids \<longrightarrow> has_value (vq_audit_receipt_nonce request))) \<and>
     (vd_allowed d \<longleftrightarrow> vd_reasons d = []) \<and>
     (envelope = None \<longrightarrow> vd_status d = ''deny_fail_closed'')"
proof -
  have action: "vd_action d = normalized_action request"
    by (simp add: d_def evaluate_vault_policy_def Let_def case_prod_unfold)
  have "vd_allowed d \<longleftrightarrow> vd_reasons d = []"
    by (auto simp: d_def evaluate_vault_policy_def Let_def case_prod_unfold failure_reasons_def
        list_all_iff filter_empty_conv)
  moreover have "envelope = None \<longrightarrow> vd_status d = ''deny_fail_closed''"
    by (simp add: d_def evaluate_vault_policy_def Let_def case_prod_unfold envelope_result_def)
  moreover note vd_allowed_iff_rules [of L envelope policy request, unfolded eval_rules_iff
      eval_passed_iff envelope_result_passed MIN_FHE_NOISE_BUDGET_def,
      folded d_def ids_def ar_def action]
  ultimately show ?thesis by (simp only: conj_ac simp_thms)
qed

definition sample_vault_policy :: vault_policy where
  "sample_vault_policy =
     \<lparr>vp_policy_id = ''vault'', vp_version = 1, vp_key_domain = [], vp_cryptographic_profile = [],
      vp_attestation_chain = [],
      vp_auto_rotate = \<lparr>ar_enabled = True, ar_rotate_after_hours = 24, ar_max_key_age_hours = 48,
        ar_grace_window_minutes = 5, ar_quorum_required = 2, ar_emergency_rotate_on_tamper = True\<rparr>,
      vp_rules = [\<lparr>pr_id = ''vault.rotation.window'', pr_objective = [], pr_zk_requirement = [],
        pr_fhe_requirement = [], pr_severity = [], pr_fail_closed = True\<rparr>]\<rparr>"

definition sample_vault_request :: vault_operation_request where
  "sample_vault_request =
     \<lparr>vq_operation_id = ''op'', vq_key_id = ''k'', vq_action = ''Seal'', vq_zk_proof = None,
      vq_ciphertext_digest = None, vq_fhe_noise_budget = 0, vq_key_age_hours = 1,
      vq_tamper_signal = False, vq_operator_quorum = 1, vq_audit_receipt_nonce = None\<rparr>"

definition sample_vault_envelope :: vault_runtime_envelope where
  "sample_vault_envelope =
     \<lparr>ve_envelope_id = ''e'', ve_min_operator_quorum = 1, ve_max_key_age_hours = 100,
      ve_require_audit_nonce = False, ve_enforce_fail_closed = True\<rparr>"

theorem vault_allows_iff_witness:
  "vd_allowed (evaluate_vault_policy sample_libs (Some sample_vault_envelope) sample_vault_policy
     sample_vault_request)"
  by (rule vault_allows_iff [THEN conjunct1, THEN iffD2])
    (simp add: sample_vault_policy_def sample_vault_request_def sample_vault_envelope_def
      auto_rotate_signal_def word_le_nat_alt)

text \<open>A key with a tamper signal, or older than its maximal age, is not usable. Under a policy with
  the rotation rule every operation on it except a rotation is denied, and the decision asks for a
  rotation, whether or not automatic rotation is enabled.\<close>

lemma vault_tampered_key_denied:
  assumes "''vault.rotation.window'' \<in> pr_id ` set (vp_rules policy)"
    and "vq_tamper_signal request \<or>
         ar_max_key_age_hours (vp_auto_rotate policy) < vq_key_age_hours request"
    and "normalized_action request \<noteq> ''rotate''"
  shows "\<not> vd_allowed (evaluate_vault_policy L envelope policy request) \<and>
     vd_should_rotate (evaluate_vault_policy L envelope policy request)"
proof -
  obtain rule where rule: "rule \<in> set (vp_rules policy)" "pr_id rule = ''vault.rotation.window''"
    using assms(1) by auto
  let ?a = "normalized_action request" and ?due = "fst (auto_rotate_signal policy request)"
  have "eval_rule policy request ?a ?due rule = eval_rotation policy request ?a ?due"
    by (simp add: eval_rule_def rule(2))
  moreover have "\<not> fst (eval_rotation policy request ?a ?due) \<and> snd (snd (eval_rotation policy request ?a ?due))"
    using assms(2,3) by (auto simp: eval_rotation_def Let_def)
  ultimately have "\<not> fst (eval_rule policy request ?a ?due rule)"
    "snd (snd (eval_rule policy request ?a ?due rule))" by simp_all
  then show ?thesis
    using rule(1)
    by (auto simp: vd_allowed_iff_rules) (auto simp: evaluate_vault_policy_def Let_def case_prod_unfold list_ex_iff)
qed

text \<open>A rule the evaluator does not know passes even when the policy marks it fail-closed.\<close>

lemma unknown_rule_passes:
  assumes "pr_id rule \<notin> {''vault.zk.required'', ''vault.fhe.policy'', ''vault.rotation.window'', ''vault.audit.trace''}"
  shows "vd_allowed (evaluate_vault_policy L envelope (policy\<lparr>vp_rules := [rule]\<rparr>) request) \<longleftrightarrow>
     ru_passed (envelope_result envelope request)"
  using assms by (simp add: vd_allowed_iff_rules eval_rule_def)

end
