(* ===== verification/Swarm_Router.thy ===== *)
theory Swarm_Router
  imports Json_Value "HOL-Library.Product_Lexorder"
begin

text \<open>
  \<^verbatim>\<open>core/layer0/swarm_router/src/lib.rs\<close>: envelopes and their generated ids, the in-flight tracker, the
  recovery and scaling decisions, the priority queue artifact with its file form, and the upgrade
  decisions. A \<^verbatim>\<open>usize\<close> is a 64-bit word. Operations that read the clock take the reading as an
  argument; the id counter is passed as state. The file system and the JSON codec of the queue are the
  record \<open>queue_io\<close>. The metrics, which are floating-point ratios, are not modelled.
\<close>

section \<open>Envelopes\<close>

datatype task_status = Pending | InProgress | Complete | Failed

record swarm_envelope =
  se_id :: string
  se_reply_to :: "string option"
  se_route :: string
  se_payload :: json
  se_priority :: u8
  se_status :: task_status
  se_created_unix_ms :: u64

definition sanitize_prefix :: "string \<Rightarrow> string" where
  "sanitize_prefix input =
     (let out = map char_to_ascii_lowercase
            (filter (\<lambda>ch. is_ascii_alphanumeric ch \<or> ch = CHR ''_'' \<or> ch = CHR ''-'') input)
      in if out = [] then ''swarm'' else out)"

text \<open>\<^verbatim>\<open>format!("{:016x}", n)\<close>.\<close>

definition hex_char :: "nat \<Rightarrow> char" where
  "hex_char d = char_of (if d < 10 then 48 + d else 87 + d)"

fun hex_pad :: "nat \<Rightarrow> nat \<Rightarrow> string" where
  "hex_pad 0 n = []"
| "hex_pad (Suc k) n = hex_pad k (n div 16) @ [hex_char (n mod 16)]"

text \<open>\<^verbatim>\<open>ID_COUNTER.fetch_add(1) + 1\<close>: the id and the counter after the call.\<close>

definition auto_id :: "u64 \<Rightarrow> string \<Rightarrow> string \<times> u64" where
  "auto_id counter role_prefix =
     (sanitize_prefix role_prefix @ ''-'' @ hex_pad 16 (unat (counter + 1)), counter + 1)"

definition envelope_new_auto ::
  "u64 \<Rightarrow> u64 \<Rightarrow> string \<Rightarrow> string \<Rightarrow> json \<Rightarrow> u8 \<Rightarrow> swarm_envelope \<times> u64" where
  "envelope_new_auto counter now role_prefix route payload priority =
     (let (ident, counter') = auto_id counter role_prefix
      in (\<lparr>se_id = ident, se_reply_to = None, se_route = route, se_payload = payload,
           se_priority = priority, se_status = Pending, se_created_unix_ms = now\<rparr>, counter'))"

definition envelope_validate :: "swarm_envelope \<Rightarrow> (unit, string) rresult" where
  "envelope_validate e =
     (if blank (se_id e) then Err ''id_required''
      else if CHR ''-'' \<notin> set (se_id e) then Err ''id_must_include_prefix_separator''
      else if blank (se_route e) then Err ''route_required''
      else if se_priority e > 9 then Err ''priority_out_of_range''
      else Ok ())"

section \<open>The in-flight tracker\<close>

record in_flight_record =
  if_owner :: string
  if_status :: task_status
  if_updated_unix_ms :: u64

type_synonym in_flight_tracker = "(string, in_flight_record) btree"

definition dispatch ::
  "in_flight_tracker \<Rightarrow> u64 \<Rightarrow> swarm_envelope \<Rightarrow> string \<Rightarrow> (unit, string) rresult \<times> in_flight_tracker" where
  "dispatch tasks now e owner =
     (case envelope_validate e of
        Inl err \<Rightarrow> (Err err, tasks)
      | Inr _ \<Rightarrow>
          if (case bt_get tasks (se_id e) of
                Some existing \<Rightarrow> if_status existing = Pending \<or> if_status existing = InProgress
              | None \<Rightarrow> False)
          then (Err ''in_flight_conflict'', tasks)
          else (Ok (), bt_insert (se_id e)
                  \<lparr>if_owner = owner, if_status = InProgress, if_updated_unix_ms = now\<rparr> tasks))"

definition transition ::
  "in_flight_tracker \<Rightarrow> u64 \<Rightarrow> string \<Rightarrow> task_status \<Rightarrow> (unit, string) rresult \<times> in_flight_tracker" where
  "transition tasks now ident status =
     (case bt_get tasks ident of
        Some task \<Rightarrow> (Ok (), bt_insert ident (task\<lparr>if_status := status, if_updated_unix_ms := now\<rparr>) tasks)
      | None \<Rightarrow> (Err ''task_not_found'', tasks))"

section \<open>Recovery and scaling\<close>

record recovery_policy =
  rp_max_retries :: u32
  rp_fixer_route :: string

definition recovery_policy_default :: recovery_policy where
  "recovery_policy_default = \<lparr>rp_max_retries = 2, rp_fixer_route = ''swarm/fixer''\<rparr>"

datatype recovery_decision = Retry u32 string | RerouteFixer string

definition recovery_decide :: "swarm_envelope \<Rightarrow> u32 \<Rightarrow> recovery_policy \<Rightarrow> recovery_decision" where
  "recovery_decide e attempts policy =
     (if attempts < rp_max_retries policy then Retry (attempts + 1) (se_route e)
      else RerouteFixer (rp_fixer_route policy))"

record scaling_policy =
  sp_min_workers :: u64
  sp_max_workers :: u64
  sp_target_queue_per_worker :: u64
  sp_scale_step :: u64

definition scaling_policy_default :: scaling_policy where
  "scaling_policy_default =
     \<lparr>sp_min_workers = 1, sp_max_workers = 32, sp_target_queue_per_worker = 4, sp_scale_step = 1\<rparr>"

record scaling_decision =
  sd_previous_workers :: u64
  sd_recommended_workers :: u64
  sd_action :: string
  sd_reason :: string

definition scaling_reason :: "string \<Rightarrow> u64 \<Rightarrow> u64 \<Rightarrow> u64 \<Rightarrow> string" where
  "scaling_reason verb queue_depth target workers =
     ''queue_depth='' @ show_word queue_depth @ '' '' @ verb @ '' target_per_worker='' @ show_word target @
     '' for workers='' @ show_word workers"

text \<open>A zero \<^verbatim>\<open>target_queue_per_worker\<close> makes the division panic: \<^term>\<open>None\<close>.\<close>

definition plan_scaling :: "u64 \<Rightarrow> u64 \<Rightarrow> scaling_policy \<Rightarrow> scaling_decision option" where
  "plan_scaling queue_depth active_workers p =
     (if sp_target_queue_per_worker p = 0 then None
      else
        let safe_workers = min (max active_workers (sp_min_workers p)) (sp_max_workers p);
            target = sp_target_queue_per_worker p;
            desired = min (max ((queue_depth + saturating_sub target 1) div target) (sp_min_workers p))
                        (sp_max_workers p)
        in Some
          (if desired > safe_workers then
             \<lparr>sd_previous_workers = safe_workers,
              sd_recommended_workers =
                min (min (safe_workers + sp_scale_step p) desired) (sp_max_workers p),
              sd_action = ''scale_up'', sd_reason = scaling_reason ''exceeds'' queue_depth target safe_workers\<rparr>
           else if desired < safe_workers then
             \<lparr>sd_previous_workers = safe_workers,
              sd_recommended_workers =
                max (max (saturating_sub safe_workers (sp_scale_step p)) desired) (sp_min_workers p),
              sd_action = ''scale_down'', sd_reason = scaling_reason ''below'' queue_depth target safe_workers\<rparr>
           else
             \<lparr>sd_previous_workers = safe_workers, sd_recommended_workers = safe_workers,
              sd_action = ''hold'', sd_reason = ''queue pressure balanced''\<rparr>))"

section \<open>The queue artifact\<close>

record queue_artifact =
  qa_schema_version :: string
  qa_updated_unix_ms :: u64
  qa_items :: "swarm_envelope list"

definition queue_default :: "u64 \<Rightarrow> queue_artifact" where
  "queue_default now = \<lparr>qa_schema_version = ''swarm_queue_v1'', qa_updated_unix_ms = now, qa_items = []\<rparr>"

fun validate_items :: "swarm_envelope list \<Rightarrow> (unit, string) rresult" where
  "validate_items [] = Ok ()"
| "validate_items (item # items) =
     (case envelope_validate item of Inl err \<Rightarrow> Err err | Inr _ \<Rightarrow> validate_items items)"

definition queue_validate :: "queue_artifact \<Rightarrow> (unit, string) rresult" where
  "queue_validate q =
     (if qa_schema_version q \<noteq> ''swarm_queue_v1'' then Err ''queue_schema_mismatch''
      else validate_items (qa_items q))"

text \<open>The stable sort by descending priority, then by id.\<close>

definition priority_key :: "swarm_envelope \<Rightarrow> nat \<times> string" where
  "priority_key e = (255 - unat (se_priority e), se_id e)"

definition sort_priority :: "queue_artifact \<Rightarrow> queue_artifact" where
  "sort_priority q = q\<lparr>qa_items := sort_key priority_key (qa_items q)\<rparr>"

definition push :: "queue_artifact \<Rightarrow> u64 \<Rightarrow> swarm_envelope \<Rightarrow> (unit, string) rresult \<times> queue_artifact" where
  "push q now item =
     (let item1 = item\<lparr>se_status := Pending\<rparr>
      in (case envelope_validate item1 of
            Inl err \<Rightarrow> (Err err, q)
          | Inr _ \<Rightarrow>
              (Ok (), (sort_priority (q\<lparr>qa_items := qa_items q @ [item1]\<rparr>))\<lparr>qa_updated_unix_ms := now\<rparr>)))"

record queue_io =
  qi_create_parent :: "string \<Rightarrow> (unit, string) rresult"
  qi_encode :: "queue_artifact \<Rightarrow> (string, string) rresult"
  qi_decode :: "string \<Rightarrow> (queue_artifact, string) rresult"
  qi_write :: "string \<Rightarrow> (unit, string) rresult"
  qi_read :: "string \<Rightarrow> (unit, string) rresult"

text \<open>The files are a map from paths to contents; \<open>qi_write\<close> and \<open>qi_read\<close> say whether the access
  succeeds.\<close>

definition queue_save ::
  "queue_io \<Rightarrow> (string \<rightharpoonup> string) \<Rightarrow> queue_artifact \<Rightarrow> string \<Rightarrow> (unit, string) rresult \<times> (string \<rightharpoonup> string)" where
  "queue_save io files q path =
     (case queue_validate q of
        Inl err \<Rightarrow> (Err err, files)
      | Inr _ \<Rightarrow>
          (case qi_create_parent io path of
             Inl e \<Rightarrow> (Err (''queue_parent_create_failed:'' @ e), files)
           | Inr _ \<Rightarrow>
               (case qi_encode io q of
                  Inl e \<Rightarrow> (Err (''queue_encode_failed:'' @ e), files)
                | Inr text \<Rightarrow>
                    (case qi_write io path of
                       Inl e \<Rightarrow> (Err (''queue_write_failed:'' @ e), files)
                     | Inr _ \<Rightarrow> (Ok (), files(path \<mapsto> text))))))"

definition queue_load ::
  "queue_io \<Rightarrow> (string \<rightharpoonup> string) \<Rightarrow> u64 \<Rightarrow> string \<Rightarrow> (queue_artifact, string) rresult" where
  "queue_load io files now path =
     (case files path of
        None \<Rightarrow> Ok (queue_default now)
      | Some raw \<Rightarrow>
          (case qi_read io path of
             Inl e \<Rightarrow> Err (''queue_read_failed:'' @ e)
           | Inr _ \<Rightarrow>
               (case qi_decode io raw of
                  Inl e \<Rightarrow> Err (''queue_decode_failed:'' @ e)
                | Inr queue \<Rightarrow>
                    (case queue_validate queue of
                       Inl err \<Rightarrow> Err err | Inr _ \<Rightarrow> Ok (sort_priority queue)))))"

section \<open>Upgrades\<close>

record upgrade_policy =
  up_allow_upgrade :: bool
  up_allow_rollback :: bool

record upgrade_receipt =
  ur_ok :: bool
  ur_action :: string
  ur_from_version :: string
  ur_to_version :: string
  ur_rollback_available :: bool
  ur_ts_unix_ms :: u64

definition apply_upgrade :: "u64 \<Rightarrow> string \<Rightarrow> string \<Rightarrow> upgrade_policy \<Rightarrow> upgrade_receipt" where
  "apply_upgrade now from_version to_version policy =
     \<lparr>ur_ok = up_allow_upgrade policy,
      ur_action = (if up_allow_upgrade policy then ''upgrade_applied'' else ''upgrade_denied''),
      ur_from_version = from_version, ur_to_version = to_version,
      ur_rollback_available = (up_allow_upgrade policy \<and> up_allow_rollback policy), ur_ts_unix_ms = now\<rparr>"

definition apply_rollback :: "u64 \<Rightarrow> string \<Rightarrow> string \<Rightarrow> upgrade_policy \<Rightarrow> upgrade_receipt" where
  "apply_rollback now from_version to_version policy =
     \<lparr>ur_ok = up_allow_rollback policy,
      ur_action = (if up_allow_rollback policy then ''rollback_applied'' else ''rollback_denied''),
      ur_from_version = from_version, ur_to_version = to_version,
      ur_rollback_available = False, ur_ts_unix_ms = now\<rparr>"

section \<open>Generated ids\<close>

lemma hex_char_inj: "d < 16 \<Longrightarrow> e < 16 \<Longrightarrow> hex_char d = hex_char e \<longleftrightarrow> d = e"
proof -
  assume a: "d < 16" "e < 16"
  have nat: "char_nat (hex_char x) = (if x < 10 then 48 + x else 87 + x)" if "x < 16" for x
    using that by (simp add: hex_char_def)
  show ?thesis
  proof
    assume "hex_char d = hex_char e"
    then have "char_nat (hex_char d) = char_nat (hex_char e)" by simp
    then show "d = e" using a by (simp add: nat split: if_splits)
  qed simp
qed

lemma length_hex_pad [simp]: "length (hex_pad k n) = k"
  by (induction k arbitrary: n) simp_all

lemma hex_pad_inject:
  "m < 16 ^ k \<Longrightarrow> n < 16 ^ k \<Longrightarrow> hex_pad k m = hex_pad k n \<longleftrightarrow> m = n"
proof (induction k arbitrary: m n)
  case (Suc k)
  have "m div 16 < 16 ^ k" "n div 16 < 16 ^ k"
    using Suc.prems by (simp_all add: less_mult_imp_div_less mult.commute)
  then show ?case
    using Suc.IH [of "m div 16" "n div 16"] by (auto simp: hex_char_inj) (metis div_mult_mod_eq)
qed simp

fun auto_ids :: "u64 \<Rightarrow> string list \<Rightarrow> string list" where
  "auto_ids counter [] = []"
| "auto_ids counter (p # ps) =
     (case auto_id counter p of (ident, counter') \<Rightarrow> ident # auto_ids counter' ps)"

lemma length_auto_ids [simp]: "length (auto_ids c ps) = length ps"
  by (induction ps arbitrary: c) (simp_all add: auto_id_def)

lemma auto_ids_nth:
  "i < length ps \<Longrightarrow> auto_ids c ps ! i =
     sanitize_prefix (ps ! i) @ ''-'' @ hex_pad 16 (unat (c + of_nat (Suc i)))"
proof (induction ps arbitrary: c i)
  case (Cons p ps)
  then show ?case by (cases i) (simp_all add: auto_id_def add_ac)
qed simp

lemma suffix_hex_inject:
  assumes "xs @ ''-'' @ hex_pad 16 (unat (a :: u64)) = ys @ ''-'' @ hex_pad 16 (unat b)"
  shows "a = b"
proof -
  have "hex_pad 16 (unat a) = hex_pad 16 (unat b)"
    using assms append_eq_append_conv [of "xs @ ''-''" "ys @ ''-''" "hex_pad 16 (unat a)" "hex_pad 16 (unat b)"]
    by simp
  moreover have "unat x < 16 ^ 16" for x :: u64 using unsigned_less [of x, where ?'a = nat] by simp
  ultimately show ?thesis by (simp add: hex_pad_inject word_unat_eq_iff)
qed

section \<open>Tracker steps\<close>

text \<open>The successful operations as a step relation, labelled by the call.\<close>

datatype tracker_call = Dispatch swarm_envelope string | Transition string task_status

inductive tracker_step :: "in_flight_tracker \<Rightarrow> tracker_call \<Rightarrow> in_flight_tracker \<Rightarrow> bool" where
  dispatched: "dispatch t now e owner = (Ok (), t') \<Longrightarrow> tracker_step t (Dispatch e owner) t'"
| transitioned: "transition t now i s = (Ok (), t') \<Longrightarrow> tracker_step t (Transition i s) t'"

inductive tracker_trace :: "in_flight_tracker \<Rightarrow> tracker_call list \<Rightarrow> in_flight_tracker \<Rightarrow> bool" where
  trace_nil: "tracker_trace t [] t"
| trace_cons: "tracker_step t c t' \<Longrightarrow> tracker_trace t' cs t'' \<Longrightarrow> tracker_trace t (c # cs) t''"

inductive_cases tracker_dispatchE: "tracker_step t (Dispatch e owner) t'"
inductive_cases tracker_transitionE: "tracker_step t (Transition i s) t'"

inductive_simps tracker_trace_simps: "tracker_trace t [] t'" "tracker_trace t (c # cs) t'"

definition active :: "in_flight_tracker \<Rightarrow> string \<Rightarrow> bool" where
  "active t i = (case bt_get t i of Some r \<Rightarrow> if_status r \<in> {Pending, InProgress} | None \<Rightarrow> False)"

definition finishes :: "string \<Rightarrow> tracker_call \<Rightarrow> bool" where
  "finishes i c = (case c of Transition j s \<Rightarrow> j = i \<and> s \<in> {Complete, Failed} | Dispatch _ _ \<Rightarrow> False)"

lemma dispatch_Ok:
  assumes "dispatch t now e owner = (Ok (), t')"
  shows "\<not> active t (se_id e)" "active t' (se_id e)" "i \<noteq> se_id e \<Longrightarrow> bt_get t' i = bt_get t i"
    and "\<exists>r. bt_get t' (se_id e) = Some r \<and> if_owner r = owner"
  using assms by (auto simp: dispatch_def active_def bt_get_insert split: sum.splits if_splits option.splits)

lemma step_keeps_active:
  assumes "tracker_step t c t'" "active t i" "\<not> finishes i c"
  shows "active t' i"
  using assms
proof (cases rule: tracker_step.cases)
  case (dispatched now e owner)
  then show ?thesis
    using dispatch_Ok [OF dispatched(2)] assms(2) by (cases "i = se_id e") (simp_all add: active_def)
next
  case (transitioned now j s)
  then show ?thesis
    using assms(2,3) by (cases s) (auto simp: transition_def active_def finishes_def bt_get_insert split: option.splits if_splits)
qed

lemma trace_keeps_active:
  "tracker_trace t cs t' \<Longrightarrow> active t i \<Longrightarrow> \<not> list_ex (finishes i) cs \<Longrightarrow> active t' i"
  by (induction rule: tracker_trace.induct) (auto dest: step_keeps_active)

lemma tracker_trace_append:
  "tracker_trace t (cs @ ds) t'' \<longleftrightarrow> (\<exists>t'. tracker_trace t cs t' \<and> tracker_trace t' ds t'')"
  by (induction cs arbitrary: t) (auto simp: tracker_trace_simps)

section \<open>Scaling on natural numbers\<close>

definition toward :: "nat \<Rightarrow> nat \<Rightarrow> nat \<Rightarrow> nat" where
  "toward step goal cur =
     (if cur < goal then min (cur + step) goal else if goal < cur then max (cur - step) goal else cur)"

definition desired_workers :: "scaling_policy \<Rightarrow> u64 \<Rightarrow> nat" where
  "desired_workers p q =
     min (max ((unat q + (unat (sp_target_queue_per_worker p) - 1)) div unat (sp_target_queue_per_worker p))
            (unat (sp_min_workers p))) (unat (sp_max_workers p))"

definition scaling_ok :: "scaling_policy \<Rightarrow> u64 \<Rightarrow> bool" where
  "scaling_ok p q \<longleftrightarrow>
     sp_target_queue_per_worker p \<noteq> 0 \<and> sp_min_workers p \<le> sp_max_workers p \<and>
     unat q + unat (sp_target_queue_per_worker p) < 2 ^ 64 \<and>
     unat (sp_max_workers p) + unat (sp_scale_step p) < 2 ^ 64"

lemma unat_min_max:
  "unat (min a b) = min (unat a) (unat b)" "unat (max a b) = max (unat a) (unat (b :: u64))"
  by (simp_all add: min_def max_def word_le_nat_alt)

lemma toward_between:
  "lo \<le> cur \<Longrightarrow> cur \<le> hi \<Longrightarrow> lo \<le> goal \<Longrightarrow> goal \<le> hi \<Longrightarrow> lo \<le> toward s goal cur \<and> toward s goal cur \<le> hi"
  by (auto simp: toward_def)

lemma toward_reaches:
  "0 < s \<Longrightarrow> (cur - goal) + (goal - cur) \<le> n \<Longrightarrow> (toward s goal ^^ n) cur = goal"
proof (induction n arbitrary: cur)
  case (Suc n)
  have "(toward s goal cur - goal) + (goal - toward s goal cur) \<le> n"
    using Suc.prems by (auto simp: toward_def)
  then show ?case using Suc.IH Suc.prems(1) by (simp add: funpow_swap1)
qed simp

lemma plan_scaling_toward:
  assumes "scaling_ok p q"
  shows "\<exists>d. plan_scaling q w p = Some d \<and>
     unat (sd_previous_workers d) = min (max (unat w) (unat (sp_min_workers p))) (unat (sp_max_workers p)) \<and>
     unat (sd_recommended_workers d) = toward (unat (sp_scale_step p)) (desired_workers p q)
       (unat (sd_previous_workers d))"
proof -
  let ?t = "sp_target_queue_per_worker p" and ?lo = "sp_min_workers p" and ?hi = "sp_max_workers p"
    and ?s = "sp_scale_step p"
  define safe where "safe = min (max w ?lo) ?hi"
  define des where "des = min (max ((q + saturating_sub ?t 1) div ?t) ?lo) ?hi"
  have t: "0 < unat ?t" using assms by (simp add: scaling_ok_def unat_gt_0)
  have "unat (q + saturating_sub ?t 1) = unat q + (unat ?t - 1)"
    using assms t by (auto simp: scaling_ok_def unat_word_ariths rust_simps intro!: mod_less)
  then have des: "unat des = desired_workers p q"
    by (simp add: des_def desired_workers_def unat_min_max unat_div)
  have hi: "unat safe \<le> unat ?hi" "unat des \<le> unat ?hi" and lo: "unat ?lo \<le> unat des"
    using assms by (simp_all add: safe_def des_def unat_min_max scaling_ok_def word_le_nat_alt)
  have add: "unat (safe + ?s) = unat safe + unat ?s"
    using assms hi by (simp add: scaling_ok_def unat_word_ariths)
  have plan: "plan_scaling q w p = Some
      (if des > safe then
         \<lparr>sd_previous_workers = safe, sd_recommended_workers = min (min (safe + ?s) des) ?hi,
          sd_action = ''scale_up'', sd_reason = scaling_reason ''exceeds'' q ?t safe\<rparr>
       else if des < safe then
         \<lparr>sd_previous_workers = safe,
          sd_recommended_workers = max (max (saturating_sub safe ?s) des) ?lo,
          sd_action = ''scale_down'', sd_reason = scaling_reason ''below'' q ?t safe\<rparr>
       else
         \<lparr>sd_previous_workers = safe, sd_recommended_workers = safe,
          sd_action = ''hold'', sd_reason = ''queue pressure balanced''\<rparr>)"
    using assms by (simp only: plan_scaling_def scaling_ok_def Let_def safe_def des_def if_False)
  have "\<exists>d. plan_scaling q w p = Some d \<and> sd_previous_workers d = safe \<and>
      unat (sd_recommended_workers d) = toward (unat ?s) (unat des) (unat safe)"
    unfolding plan using hi lo
    by (auto simp: toward_def unat_min_max add rust_simps word_less_nat_alt)
  then show ?thesis by (auto simp: des safe_def unat_min_max)
qed

section \<open>The queue\<close>

lemma validate_items_iff: "validate_items items = Ok () \<longleftrightarrow> (\<forall>e \<in> set items. envelope_validate e = Ok ())"
  by (induction items) (auto split: sum.splits)

lemma queue_validate_iff:
  "queue_validate q = Ok () \<longleftrightarrow>
     qa_schema_version q = ''swarm_queue_v1'' \<and> (\<forall>e \<in> set (qa_items q). envelope_validate e = Ok ())"
  by (simp add: queue_validate_def validate_items_iff)

definition in_priority_order :: "swarm_envelope list \<Rightarrow> bool" where
  "in_priority_order es = sorted_wrt
     (\<lambda>a b. se_priority b < se_priority a \<or> (se_priority a = se_priority b \<and> se_id a \<le> se_id b)) es"

lemma in_priority_order_sort: "in_priority_order (sort_key priority_key es)"
proof -
  have "sorted_wrt (\<lambda>a b. priority_key a \<le> priority_key b) (sort_key priority_key es)"
    using sorted_sort_key [of priority_key es] by (simp add: sorted_wrt_map)
  moreover have "se_priority b < se_priority a \<or> (se_priority a = se_priority b \<and> se_id a \<le> se_id b)"
    if "priority_key a \<le> priority_key b" for a b
  proof -
    have "unat (se_priority a) < 256" "unat (se_priority b) < 256"
      using unsigned_less [of "se_priority a", where ?'a = nat] unsigned_less [of "se_priority b", where ?'a = nat]
      by simp_all
    with that show ?thesis
      by (auto simp: priority_key_def less_eq_prod_def word_less_nat_alt word_unat_eq_iff)
  qed
  ultimately show ?thesis unfolding in_priority_order_def by (rule sorted_wrt_mono_rel [rotated]) blast
qed

section \<open>Properties\<close>

text \<open>C6: a task is never dispatched twice while it is in flight. In any sequence of successful tracker
  calls, between two dispatches of the same task id the task was moved to \<open>Complete\<close> or \<open>Failed\<close>.\<close>

theorem no_double_dispatch:
  assumes "tracker_trace t (Dispatch e owner # mid @ [Dispatch e' owner']) t'" and "se_id e = se_id e'"
  shows "list_ex (finishes (se_id e)) mid"
proof (rule ccontr)
  assume none: "\<not> ?thesis"
  from assms(1) obtain t1 t2 where steps: "tracker_step t (Dispatch e owner) t1"
    "tracker_trace t1 mid t2" "tracker_step t2 (Dispatch e' owner') t'"
    by (auto simp: tracker_trace_simps tracker_trace_append)
  from steps(1) have "active t1 (se_id e)" by (auto elim: tracker_dispatchE dest: dispatch_Ok(2))
  with steps(2) none have "active t2 (se_id e)" by (simp add: trace_keeps_active)
  moreover from steps(3) have "\<not> active t2 (se_id e')" by (auto elim: tracker_dispatchE dest: dispatch_Ok(1))
  ultimately show False using assms(2) by simp
qed

definition sample_task :: swarm_envelope where
  "sample_task =
     \<lparr>se_id = ''t-1'', se_reply_to = None, se_route = ''r'', se_payload = JNull, se_priority = 3,
      se_status = Pending, se_created_unix_ms = 0\<rparr>"

lemma sample_task_valid: "envelope_validate sample_task = Ok ()"
  by (simp add: sample_task_def envelope_validate_def blank_def trim_def is_ws_def char_nat_def)

theorem no_double_dispatch_witness:
  "list_ex (finishes ''t-1'') [Transition ''t-1'' Complete]"
proof -
  have id: "se_id sample_task = ''t-1''" by (simp add: sample_task_def)
  let ?r = "\<lambda>o' s. \<lparr>if_owner = o', if_status = s, if_updated_unix_ms = 0\<rparr>"
  have "tracker_step [] (Dispatch sample_task ''w1'') [(''t-1'', ?r ''w1'' InProgress)]"
    by (rule dispatched [of _ 0]) (simp add: dispatch_def sample_task_valid id)
  moreover have "tracker_step [(''t-1'', ?r ''w1'' InProgress)] (Transition ''t-1'' Complete)
      [(''t-1'', ?r ''w1'' Complete)]"
    by (rule transitioned [of _ 0]) (simp add: transition_def)
  moreover have "tracker_step [(''t-1'', ?r ''w1'' Complete)] (Dispatch sample_task ''w2'')
      [(''t-1'', ?r ''w2'' InProgress)]"
    by (rule dispatched [of _ 0]) (simp add: dispatch_def sample_task_valid id)
  ultimately have "tracker_trace [] [Dispatch sample_task ''w1'', Transition ''t-1'' Complete,
      Dispatch sample_task ''w2''] [(''t-1'', ?r ''w2'' InProgress)]"
    by (blast intro: trace_cons trace_nil)
  then show ?thesis
    using no_double_dispatch [of "[]" sample_task "''w1''" "[Transition ''t-1'' Complete]" sample_task "''w2''"]
    by (simp add: id)
qed

text \<open>The generated ids are unique. Whatever prefixes are asked for, \<open>2 ^ 64\<close> consecutive calls of
  \<open>auto_id\<close> never return the same id twice, from any counter value, wrap-around included.\<close>

lemma auto_ids_distinct:
  assumes "length ps \<le> 2 ^ 64"
  shows "distinct (auto_ids counter ps)"
  unfolding distinct_conv_nth
proof (intro allI impI)
  fix i j assume ij: "i < length (auto_ids counter ps)" "j < length (auto_ids counter ps)" "i \<noteq> j"
  show "auto_ids counter ps ! i \<noteq> auto_ids counter ps ! j"
  proof
    assume "auto_ids counter ps ! i = auto_ids counter ps ! j"
    then have "counter + of_nat (Suc i) = counter + of_nat (Suc j)"
      using ij by (simp only: auto_ids_nth length_auto_ids) (erule suffix_hex_inject)
    then have "(of_nat i :: u64) = of_nat j" by simp
    then have "unat (of_nat i :: u64) = unat (of_nat j :: u64)" by simp
    moreover have "unat (of_nat k :: u64) = k" if "k < 2 ^ 64" for k
      using that by (simp only: unat_of_nat) (simp add: take_bit_nat_eq_self)
    ultimately show False using ij assms by simp
  qed
qed

lemma auto_ids_distinct_witness: "distinct (auto_ids (- 1) [''Planner'', ''planner'', [], ''x''])"
  by (rule auto_ids_distinct) simp

text \<open>C34: pushing keeps the queue in order and loses nothing. On a valid queue, pushing succeeds exactly
  when the item is valid; then the queue is valid and ordered by descending priority with ties by id,
  and holds exactly the old items and the new one, marked pending. A rejected push changes nothing.\<close>

theorem push_keeps_queue:
  assumes "queue_validate q = Ok ()"
  shows "case push q now item of (res, q') \<Rightarrow>
     res = envelope_validate item \<and> queue_validate q' = Ok () \<and>
     (if res = Ok () then in_priority_order (qa_items q') \<and>
        mset (qa_items q') = add_mset (item\<lparr>se_status := Pending\<rparr>) (mset (qa_items q))
      else q' = q)"
proof -
  have "envelope_validate (item\<lparr>se_status := Pending\<rparr>) = envelope_validate item"
    by (simp add: envelope_validate_def)
  then show ?thesis
    using assms
    by (auto simp: push_def Let_def sort_priority_def queue_validate_iff in_priority_order_sort
        split: sum.splits)
qed

theorem push_keeps_queue_witness:
  "in_priority_order (qa_items (snd (push (queue_default 0) 5 sample_task)))"
proof -
  have "queue_validate (queue_default 0) = Ok ()" by (simp add: queue_validate_iff queue_default_def)
  from push_keeps_queue [OF this, where now = 5 and item = sample_task] show ?thesis
    by (simp add: case_prod_unfold sample_task_valid)
qed

text \<open>Repeated scaling decisions with a constant queue depth.\<close>

fun scale_rounds :: "scaling_policy \<Rightarrow> u64 \<Rightarrow> nat \<Rightarrow> u64 \<Rightarrow> u64 option" where
  "scale_rounds p q 0 w = Some w"
| "scale_rounds p q (Suc n) w =
     (case plan_scaling q w p of Some d \<Rightarrow> scale_rounds p q n (sd_recommended_workers d) | None \<Rightarrow> None)"

lemma scale_rounds_toward:
  assumes "scaling_ok p q" "unat (sp_min_workers p) \<le> unat w" "unat w \<le> unat (sp_max_workers p)"
  shows "\<exists>w'. scale_rounds p q n w = Some w' \<and>
     unat w' = (toward (unat (sp_scale_step p)) (desired_workers p q) ^^ n) (unat w)"
  using assms(2,3)
proof (induction n arbitrary: w)
  case (Suc n)
  obtain d where d: "plan_scaling q w p = Some d"
    "unat (sd_recommended_workers d) = toward (unat (sp_scale_step p)) (desired_workers p q) (unat w)"
    using plan_scaling_toward [OF assms(1), of w] Suc.prems by auto
  have "unat (sp_min_workers p) \<le> unat (sp_max_workers p)"
    using assms(1) by (simp add: scaling_ok_def word_le_nat_alt)
  then have "unat (sp_min_workers p) \<le> unat (sd_recommended_workers d)"
    "unat (sd_recommended_workers d) \<le> unat (sp_max_workers p)"
    using toward_between [OF Suc.prems, of "desired_workers p q" "unat (sp_scale_step p)"]
    by (simp_all add: d(2) desired_workers_def)
  from Suc.IH [OF this] show ?case by (simp add: d funpow_swap1)
qed simp



text \<open>A saved queue loads back in order. When the text written for a valid queue decodes to it and
  the file accesses succeed, loading gives the same envelopes in priority order; a queue that fails
  validation is never written.\<close>

lemma queue_save_load_roundtrip:
  assumes "qi_encode io q = Ok text" and "qi_decode io text = Ok q"
    and "qi_create_parent io path = Ok ()" and "qi_write io path = Ok ()" and "qi_read io path = Ok ()"
  shows "case queue_save io files q path of (res, files') \<Rightarrow>
     res = queue_validate q \<and>
     (if res = Ok () then \<exists>q'. queue_load io files' now path = Ok q' \<and>
        mset (qa_items q') = mset (qa_items q) \<and> in_priority_order (qa_items q') \<and>
        queue_validate q' = Ok ()
      else files' = files)"
proof (cases "queue_validate q = Ok ()")
  case True
  then have "queue_validate (sort_priority q) = Ok ()" by (simp add: queue_validate_iff sort_priority_def)
  with True assms show ?thesis
    by (simp add: queue_save_def queue_load_def) (simp add: sort_priority_def in_priority_order_sort)
next
  case False
  then obtain err where "queue_validate q = Err err" by (cases "queue_validate q") auto
  then show ?thesis by (simp add: queue_save_def)
qed

lemma queue_save_load_roundtrip_witness:
  "let q = snd (push (queue_default 0) 5 sample_task);
       io = \<lparr>qi_create_parent = (\<lambda>_. Ok ()), qi_encode = (\<lambda>_. Ok ''q''), qi_decode = (\<lambda>_. Ok q),
             qi_write = (\<lambda>_. Ok ()), qi_read = (\<lambda>_. Ok ())\<rparr>
   in fst (queue_save io Map.empty q ''p'') = queue_validate q"
proof -
  let ?q = "snd (push (queue_default 0) 5 sample_task)"
  let ?io = "\<lparr>qi_create_parent = (\<lambda>_. Ok ()), qi_encode = (\<lambda>_. Ok ''q''), qi_decode = (\<lambda>_. Ok ?q),
             qi_write = (\<lambda>_. Ok ()), qi_read = (\<lambda>_. Ok ())\<rparr>"
  show ?thesis
    using queue_save_load_roundtrip [of ?io ?q "''q''" "''p''" 0 Map.empty] by (simp add: Let_def case_prod_unfold)
qed

end
