(* ===== verification/Safety_Gates.thy ===== *)
theory Safety_Gates
  imports BTree_Map
begin

text \<open>
  Three fail-closed gates of \<^verbatim>\<open>core/layer0\<close>: \<^verbatim>\<open>burn_oracle_budget_gate\<close>,
  \<^verbatim>\<open>persona_dispatch_security_gate\<close> and \<^verbatim>\<open>foundation_hook_enforcer\<close>. Each evaluates a request to a
  decision with a receipt and a deterministic key. What the first two share, that the receipt
  repeats the decision and a denial names a code other than \<^verbatim>\<open>ok\<close>, is the locale \<open>receipted_gate\<close>.
\<close>

section \<open>The burn oracle budget gate\<close>

datatype oracle_status = Available u64 | Unavailable

record burn_request =
  br_requested_burn_units :: u64
  br_max_allowed_burn_units :: u64
  br_oracle_status :: oracle_status

record burn_receipt =
  bc_schema_id :: string
  bc_check_id :: string
  bc_ok :: bool
  bc_code :: string
  bc_requested_burn_units :: u64
  bc_max_allowed_burn_units :: u64
  bc_oracle_remaining_burn_units :: "u64 option"
  bc_deterministic_key :: string

record burn_decision =
  bd_ok :: bool
  bd_code :: string
  bd_receipt :: burn_receipt

definition bit01 :: "bool \<Rightarrow> string" where
  "bit01 b = (if b then ''1'' else ''0'')"

definition burn_receipt_new :: "bool \<Rightarrow> string \<Rightarrow> u64 \<Rightarrow> u64 \<Rightarrow> u64 option \<Rightarrow> burn_receipt" where
  "burn_receipt_new ok code requested max_allowed remaining =
     \<lparr>bc_schema_id = ''burn_oracle_budget_gate_receipt'', bc_check_id = ''burn_oracle_budget_gate'',
      bc_ok = ok, bc_code = code, bc_requested_burn_units = requested,
      bc_max_allowed_burn_units = max_allowed, bc_oracle_remaining_burn_units = remaining,
      bc_deterministic_key = ''burn_oracle_budget_gate|'' @ bit01 ok @ ''|'' @ code @ ''|'' @
        show_word requested @ ''|'' @ show_word max_allowed @ ''|'' @
        (case remaining of Some v \<Rightarrow> show_word v | None \<Rightarrow> ''none'')\<rparr>"

definition burn_denied :: "string \<Rightarrow> u64 \<Rightarrow> u64 \<Rightarrow> u64 option \<Rightarrow> burn_decision" where
  "burn_denied code requested max_allowed remaining =
     \<lparr>bd_ok = False, bd_code = code,
      bd_receipt = burn_receipt_new False code requested max_allowed remaining\<rparr>"

definition burn_allow :: "u64 \<Rightarrow> u64 \<Rightarrow> u64 option \<Rightarrow> burn_decision" where
  "burn_allow requested max_allowed remaining =
     \<lparr>bd_ok = True, bd_code = ''ok'',
      bd_receipt = burn_receipt_new True ''ok'' requested max_allowed remaining\<rparr>"

definition evaluate_burn_oracle_budget_gate :: "burn_request \<Rightarrow> burn_decision" where
  "evaluate_burn_oracle_budget_gate request =
     (let requested = br_requested_burn_units request;
          max_allowed = br_max_allowed_burn_units request;
          remaining = (case br_oracle_status request of Available r \<Rightarrow> Some r | Unavailable \<Rightarrow> None)
      in if max_allowed = 0 then burn_denied ''budget_policy_invalid'' requested max_allowed remaining
         else if requested = 0 then burn_denied ''request_below_minimum'' requested max_allowed remaining
         else if requested > max_allowed
         then burn_denied ''budget_bound_exceeded'' requested max_allowed remaining
         else
           (case br_oracle_status request of
              Unavailable \<Rightarrow> burn_denied ''oracle_unavailable_fail_closed'' requested max_allowed None
            | Available r \<Rightarrow>
                if requested > r then burn_denied ''oracle_budget_exceeded'' requested max_allowed (Some r)
                else burn_allow requested max_allowed (Some r)))"

section \<open>The persona dispatch gate\<close>

record persona_dispatch_envelope =
  pe_schema_id :: string
  pe_check_id :: string
  pe_ok :: bool
  pe_code :: string
  pe_script_rel :: string
  pe_requested_lens :: "string option"
  pe_selected_lens :: "string option"
  pe_fallback_used :: bool
  pe_deterministic_key :: string

record persona_dispatch_decision =
  pg_ok :: bool
  pg_code :: string
  pg_selected_lens :: "string option"
  pg_envelope :: persona_dispatch_envelope

definition token_char :: "char \<Rightarrow> char" where
  "token_char ch =
     (let lc = char_to_ascii_lowercase ch
      in if is_ascii_alphanumeric lc \<or> lc \<in> {CHR ''_'', CHR ''.'', CHR '':'', CHR ''/'', CHR ''-''}
         then lc else CHR ''_'')"

fun token_loop :: "nat \<Rightarrow> string \<Rightarrow> string \<Rightarrow> bool \<Rightarrow> string" where
  "token_loop max_len [] out prev_underscore = out"
| "token_loop max_len (ch # cs) out prev_underscore =
     (let mapped = token_char ch
      in if mapped = CHR ''_'' \<and> prev_underscore then token_loop max_len cs out True
         else
           let out1 = out @ [mapped]
           in if length out1 \<ge> max_len then out1
              else token_loop max_len cs out1 (mapped = CHR ''_''))"

definition normalize_token :: "string \<Rightarrow> nat \<Rightarrow> string" where
  "normalize_token raw max_len = trim_matches (CHR ''_'') (token_loop max_len (trim raw) [] False)"

definition normalize_lens :: "string option \<Rightarrow> string option" where
  "normalize_lens raw =
     (case raw of
        Some v \<Rightarrow> let n = normalize_token v 64 in if n \<noteq> [] then Some n else None
      | None \<Rightarrow> None)"

definition normalize_lens_list :: "string list \<Rightarrow> string list" where
  "normalize_lens_list valid_lenses =
     fold (\<lambda>raw out. let norm = normalize_token raw 64
                      in if norm = [] \<or> norm \<in> set out then out else out @ [norm]) valid_lenses []"

definition blocks :: "string \<Rightarrow> string \<Rightarrow> bool" where
  "blocks normalized_script blocked_norm \<longleftrightarrow>
     blocked_norm \<noteq> [] \<and>
     (normalized_script = blocked_norm \<or> starts_with normalized_script (blocked_norm @ ''/''))"

definition blocked_path :: "string \<Rightarrow> string list \<Rightarrow> string option" where
  "blocked_path script_rel blocked_paths =
     List.find (blocks (normalize_token script_rel 300)) (map (\<lambda>b. normalize_token b 300) blocked_paths)"

definition make_decision ::
  "bool \<Rightarrow> string \<Rightarrow> string \<Rightarrow> string option \<Rightarrow> string option \<Rightarrow> bool \<Rightarrow> persona_dispatch_decision" where
  "make_decision ok code script_rel requested_lens selected_lens fallback_used =
     (let normalized_script = normalize_token script_rel 300;
          token = (\<lambda>o'. case o' of Some s \<Rightarrow> s | None \<Rightarrow> ''none'');
          key = ''persona_dispatch_security_gate|'' @ bit01 ok @ ''|'' @ code @ ''|'' @ normalized_script @
            ''|'' @ token requested_lens @ ''|'' @ token selected_lens @ ''|'' @ bit01 fallback_used
      in \<lparr>pg_ok = ok, pg_code = code, pg_selected_lens = selected_lens,
          pg_envelope =
            \<lparr>pe_schema_id = ''persona_dispatch_security_gate_receipt'',
             pe_check_id = ''persona_dispatch_security_gate'', pe_ok = ok, pe_code = code,
             pe_script_rel = normalized_script, pe_requested_lens = requested_lens,
             pe_selected_lens = selected_lens, pe_fallback_used = fallback_used,
             pe_deterministic_key = key\<rparr>\<rparr>)"

definition select_lens :: "string option \<Rightarrow> string list \<Rightarrow> string option" where
  "select_lens requested lenses =
     (case Option.bind requested (\<lambda>lens. List.find (\<lambda>candidate. candidate = lens) lenses) of
        Some lens \<Rightarrow> Some lens
      | None \<Rightarrow> (case lenses of [] \<Rightarrow> None | l # _ \<Rightarrow> Some l))"

definition evaluate_persona_dispatch_gate ::
  "string \<Rightarrow> string option \<Rightarrow> string list \<Rightarrow> string list \<Rightarrow> bool \<Rightarrow> bool \<Rightarrow> persona_dispatch_decision" where
  "evaluate_persona_dispatch_gate script_rel requested_lens valid_lenses blocked_paths
       covenant_violation tamper_signal =
     (let requested = normalize_lens requested_lens
      in if covenant_violation
         then make_decision False ''covenant_violation_fail_closed'' script_rel requested None False
         else if tamper_signal
         then make_decision False ''tamper_signal_fail_closed'' script_rel requested None False
         else if blocked_path script_rel blocked_paths \<noteq> None
         then make_decision False ''blocked_dispatch_path'' script_rel requested None False
         else
           let selected = select_lens requested (normalize_lens_list valid_lenses);
               fallback_used = (case (requested, selected) of
                  (Some r, Some s) \<Rightarrow> r \<noteq> s | _ \<Rightarrow> False)
           in if selected = None
              then make_decision False ''no_valid_lens_fail_closed'' script_rel requested None False
              else make_decision True ''ok'' script_rel requested selected fallback_used)"

section \<open>The foundation hook enforcer\<close>

record hook_coverage_receipt =
  hc_schema_id :: string
  hc_check_id :: string
  hc_ok :: bool
  hc_fail_closed :: bool
  hc_claim :: string
  hc_evidence :: "string list"
  hc_required_hooks :: "string list"
  hc_observed_hooks :: "string list"
  hc_missing_hooks :: "string list"
  hc_receipt_key :: string

definition normalize_hook :: "string \<Rightarrow> string option" where
  "normalize_hook raw =
     (let normalized = to_ascii_lowercase (trim raw) in if normalized = [] then None else Some normalized)"

definition sorted_unique :: "string list \<Rightarrow> string list" where
  "sorted_unique values = btree_set (List.map_filter normalize_hook values)"

definition check_id_or_unknown :: "string \<Rightarrow> string" where
  "check_id_or_unknown check_id =
     (case normalize_hook check_id of Some c \<Rightarrow> c | None \<Rightarrow> ''unknown_check'')"

definition build_receipt_key ::
  "string \<Rightarrow> bool \<Rightarrow> bool \<Rightarrow> string list \<Rightarrow> string list \<Rightarrow> string list \<Rightarrow> string" where
  "build_receipt_key check_id ok fail_closed required observed missing =
     check_id_or_unknown check_id @ ''|ok='' @ bit01 ok @ ''|fail_closed='' @ bit01 fail_closed @
     ''|required='' @ join '','' required @ ''|observed='' @ join '','' observed @
     ''|missing='' @ join '','' missing"

definition source_claim :: "bool \<Rightarrow> string list \<Rightarrow> string" where
  "source_claim fail_closed missing =
     (if fail_closed then ''unable_to_prove_source_hook_coverage''
      else if missing = [] then ''all_required_hooks_observed_in_source''
      else ''required_hooks_missing_from_source'')"

definition completeness_claim :: "bool \<Rightarrow> string list \<Rightarrow> string" where
  "completeness_claim fail_closed missing =
     (if fail_closed then ''unable_to_prove_required_hook_completeness''
      else if missing = [] then ''required_hook_list_is_complete''
      else ''required_hook_list_missing_mandatory_hooks'')"

definition evaluate_source_hook_coverage ::
  "string \<Rightarrow> string list \<Rightarrow> string \<Rightarrow> hook_coverage_receipt" where
  "evaluate_source_hook_coverage check_id required_hooks source =
     (let required = sorted_unique required_hooks;
          normalized_source = to_ascii_lowercase source;
          observed = filter (\<lambda>hook. str_contains normalized_source hook) required;
          missing = filter (\<lambda>hook. hook \<notin> set observed) required;
          fail_closed = (required = [] \<or> trim source = []);
          ok = (\<not> fail_closed \<and> missing = []);
          check = check_id_or_unknown check_id
      in \<lparr>hc_schema_id = ''foundation_hook_enforcer/v1'', hc_check_id = check, hc_ok = ok,
          hc_fail_closed = fail_closed, hc_claim = source_claim fail_closed missing,
          hc_evidence =
            [''required_count='' @ show_nat (length required),
             ''observed_count='' @ show_nat (length observed),
             ''missing_count='' @ show_nat (length missing),
             ''source_nonempty='' @ bit01 (trim source \<noteq> []),
             ''required='' @ join '','' required, ''observed='' @ join '','' observed,
             ''missing='' @ join '','' missing],
          hc_required_hooks = required, hc_observed_hooks = observed, hc_missing_hooks = missing,
          hc_receipt_key = build_receipt_key check ok fail_closed required observed missing\<rparr>)"

definition evaluate_required_hook_completeness ::
  "string \<Rightarrow> string list \<Rightarrow> string list \<Rightarrow> hook_coverage_receipt" where
  "evaluate_required_hook_completeness check_id required_hooks mandatory_hooks =
     (let required = sorted_unique required_hooks;
          mandatory = sorted_unique mandatory_hooks;
          observed = filter (\<lambda>hook. hook \<in> set required) mandatory;
          missing = filter (\<lambda>hook. hook \<notin> set required) mandatory;
          fail_closed = (required = [] \<or> mandatory = []);
          ok = (\<not> fail_closed \<and> missing = []);
          check = check_id_or_unknown check_id
      in \<lparr>hc_schema_id = ''foundation_hook_enforcer/v1'', hc_check_id = check, hc_ok = ok,
          hc_fail_closed = fail_closed, hc_claim = completeness_claim fail_closed missing,
          hc_evidence =
            [''required_count='' @ show_nat (length required),
             ''mandatory_count='' @ show_nat (length mandatory),
             ''observed_count='' @ show_nat (length observed),
             ''missing_count='' @ show_nat (length missing),
             ''required='' @ join '','' required, ''mandatory='' @ join '','' mandatory,
             ''observed='' @ join '','' observed, ''missing='' @ join '','' missing],
          hc_required_hooks = mandatory, hc_observed_hooks = observed, hc_missing_hooks = missing,
          hc_receipt_key = build_receipt_key check ok fail_closed mandatory observed missing\<rparr>)"

section \<open>The contract of a receipted gate\<close>

locale receipted_gate =
  fixes evaluate :: "'r \<Rightarrow> 'd"
    and ok :: "'d \<Rightarrow> bool" and code :: "'d \<Rightarrow> string"
    and receipt_ok :: "'d \<Rightarrow> bool" and receipt_code :: "'d \<Rightarrow> string"
  assumes receipt_repeats: "receipt_ok (evaluate r) = ok (evaluate r)" "receipt_code (evaluate r) = code (evaluate r)"
    and ok_code: "ok (evaluate r) \<longleftrightarrow> code (evaluate r) = ''ok''"
begin

lemma receipt_decides: "receipt_code (evaluate r) = ''ok'' \<longleftrightarrow> ok (evaluate r)"
  by (simp add: receipt_repeats ok_code)

lemma denial_named: "\<not> ok (evaluate r) \<Longrightarrow> receipt_code (evaluate r) \<noteq> ''ok'' \<and> \<not> receipt_ok (evaluate r)"
  by (simp add: receipt_decides receipt_repeats(1))

end

interpretation burn_gate: receipted_gate evaluate_burn_oracle_budget_gate bd_ok bd_code
  "\<lambda>d. bc_ok (bd_receipt d)" "\<lambda>d. bc_code (bd_receipt d)"
  by unfold_locales
    (auto simp: evaluate_burn_oracle_budget_gate_def burn_denied_def burn_allow_def burn_receipt_new_def
      Let_def split: oracle_status.splits)

interpretation persona_gate: receipted_gate
  "\<lambda>(s, req, valid, blocked, cov, tamper). evaluate_persona_dispatch_gate s req valid blocked cov tamper"
  pg_ok pg_code "\<lambda>d. pe_ok (pg_envelope d)" "\<lambda>d. pe_code (pg_envelope d)"
  by unfold_locales
    (auto simp: evaluate_persona_dispatch_gate_def make_decision_def Let_def split: prod.splits)

section \<open>Normalised tokens\<close>

text \<open>A string is a token when its characters are fixed by \<open>token_char\<close> and no two underscores are
  adjacent; \<open>starts_clean\<close> says how it may continue after an underscore.\<close>

fun is_token :: "bool \<Rightarrow> string \<Rightarrow> bool" where
  "is_token prev [] = True"
| "is_token prev (c # cs) \<longleftrightarrow>
     token_char c = c \<and> \<not> (c = CHR ''_'' \<and> prev) \<and> is_token (c = CHR ''_'') cs"

lemma token_char_idem [simp]: "token_char (token_char c) = token_char c"
proof -
  have "char_to_ascii_lowercase (CHR ''_'') = CHR ''_''"
    by (simp add: char_to_ascii_lowercase_def is_ascii_upper_def char_nat_def)
  then show ?thesis by (simp add: token_char_def Let_def)
qed

lemma is_token_append:
  "is_token prev (xs @ ys) \<longleftrightarrow>
     is_token prev xs \<and> is_token (if xs = [] then prev else last xs = CHR ''_'') ys"
  by (induction xs arbitrary: prev) auto

lemma token_loop_is_token:
  assumes "is_token False out" and "prev \<longleftrightarrow> out \<noteq> [] \<and> last out = CHR ''_''"
  shows "is_token False (token_loop n cs out prev)"
  using assms
proof (induction cs arbitrary: out prev)
  case (Cons ch cs)
  show ?case
  proof (cases "token_char ch = CHR ''_'' \<and> prev")
    case True
    then show ?thesis using Cons.IH [of out True] Cons.prems by simp
  next
    case False
    then have "is_token False (out @ [token_char ch])" using Cons.prems by (auto simp: is_token_append)
    with False Cons.IH [of "out @ [token_char ch]" "token_char ch = CHR ''_''"] show ?thesis
      by (auto simp: Let_def)
  qed
qed simp

lemma token_loop_length:
  "length out < n \<Longrightarrow> length (token_loop n cs out prev) \<le> n"
  by (induction n cs out prev rule: token_loop.induct) (auto simp: Let_def)

lemma token_loop_token:
  "is_token prev cs \<Longrightarrow> length out + length cs \<le> n \<Longrightarrow> token_loop n cs out prev = out @ cs"
proof (induction n cs out prev rule: token_loop.induct)
  case (2 n ch cs out prev)
  then show ?case by (cases cs) (auto simp: Let_def)
qed simp

lemma is_token_set: "is_token prev cs \<Longrightarrow> c \<in> set cs \<Longrightarrow> token_char c = c"
  by (induction cs arbitrary: prev) auto

lemma token_char_not_ws: "token_char c = c \<Longrightarrow> \<not> is_ws c"
  by (auto simp: token_char_def Let_def char_class_defs char_nat_def split: if_splits)

lemma trim_matches_split:
  obtains p q where "s = p @ trim_matches ch s @ q"
    "trim_matches ch s \<noteq> [] \<Longrightarrow> hd (trim_matches ch s) \<noteq> ch \<and> last (trim_matches ch s) \<noteq> ch"
proof -
  let ?P = "\<lambda>c. c = ch" and ?t = "trim_matches ch s"
  define y where "y = dropWhile ?P s"
  have t: "?t = rev (dropWhile ?P (rev y))" by (simp add: trim_matches_def y_def)
  have y: "y = ?t @ rev (takeWhile ?P (rev y))"
    unfolding t by (metis rev_append rev_rev_ident takeWhile_dropWhile_id)
  have "s = takeWhile ?P s @ y" by (simp add: y_def)
  then have "s = takeWhile ?P s @ ?t @ rev (takeWhile ?P (rev y))" using y by simp
  moreover have "hd ?t \<noteq> ch \<and> last ?t \<noteq> ch" if ne: "?t \<noteq> []"
  proof
    have "y \<noteq> []" using ne t by auto
    then have "hd y \<noteq> ch" using hd_dropWhile [of ?P s] by (simp add: y_def)
    moreover have "hd y = hd ?t" using ne by (subst y) simp
    ultimately show "hd ?t \<noteq> ch" by simp
    have "dropWhile ?P (rev y) \<noteq> []" using ne t by auto
    then have "hd (dropWhile ?P (rev y)) \<noteq> ch" by (rule hd_dropWhile)
    then show "last ?t \<noteq> ch" by (simp add: t last_rev)
  qed
  ultimately show ?thesis by (rule that)
qed

lemma trim_matches_id: "s = [] \<or> hd s \<noteq> ch \<and> last s \<noteq> ch \<Longrightarrow> trim_matches ch s = s"
proof (cases s rule: rev_cases)
  case (snoc ys y)
  moreover assume "s = [] \<or> hd s \<noteq> ch \<and> last s \<noteq> ch"
  ultimately show ?thesis by (cases ys) (simp_all add: trim_matches_def)
qed (simp add: trim_matches_def)

lemma is_token_False: "is_token prev s \<Longrightarrow> is_token False s"
  by (cases s) auto

lemma normalize_token_facts:
  fixes raw n
  defines "t \<equiv> normalize_token raw n"
  shows "is_token False t" "0 < n \<Longrightarrow> length t \<le> n" "t \<noteq> [] \<Longrightarrow> hd t \<noteq> CHR ''_'' \<and> last t \<noteq> CHR ''_''"
proof -
  let ?l = "token_loop n (trim raw) [] False"
  obtain p q where split: "?l = p @ t @ q" and ends: "t \<noteq> [] \<Longrightarrow> hd t \<noteq> CHR ''_'' \<and> last t \<noteq> CHR ''_''"
    using trim_matches_split [of ?l "CHR ''_''"] by (metis t_def normalize_token_def)
  have "is_token False ?l" by (rule token_loop_is_token) simp_all
  then show "is_token False t" by (auto simp: split is_token_append dest: is_token_False)
  show "length t \<le> n" if "0 < n" using token_loop_length [of "[]" n "trim raw" False] that by (simp add: split)
  show "hd t \<noteq> CHR ''_'' \<and> last t \<noteq> CHR ''_''" if "t \<noteq> []" using ends [OF that] .
qed

lemma normalize_token_token:
  assumes "is_token False t" "length t \<le> n" "t = [] \<or> hd t \<noteq> CHR ''_'' \<and> last t \<noteq> CHR ''_''"
  shows "normalize_token t n = t"
proof -
  have "trim t = t"
  proof (cases "t = []")
    case False
    then show ?thesis
      using is_token_set [OF assms(1)] by (intro trim_id token_char_not_ws) simp_all
  qed simp
  moreover have "token_loop n t [] False = t" using token_loop_token [of False t "[]" n] assms by simp
  ultimately show ?thesis using assms(3) by (simp add: normalize_token_def trim_matches_id)
qed

lemma set_normalize_lens_list:
  "set (normalize_lens_list valid) = (\<lambda>v. normalize_token v 64) ` set valid - {[]}"
proof -
  have "set (fold (\<lambda>raw out. let norm = normalize_token raw 64
      in if norm = [] \<or> norm \<in> set out then out else out @ [norm]) valid out) =
    set out \<union> ((\<lambda>v. normalize_token v 64) ` set valid - {[]})" for out
    by (induction valid arbitrary: out) (auto simp: Let_def)
  then show ?thesis by (simp add: normalize_lens_list_def)
qed

lemma find_None_all: "List.find P xs = None \<longleftrightarrow> \<not> list_ex P xs"
  by (auto simp: find_None_iff list_ex_iff)

lemma select_lens_facts:
  "select_lens requested lenses = None \<longleftrightarrow> lenses = []"
  "select_lens requested lenses = Some l \<Longrightarrow> l \<in> set lenses"
  "r \<in> set lenses \<Longrightarrow> select_lens (Some r) lenses = Some r"
  by (auto simp: select_lens_def find_Some_iff find_None_iff split: option.splits list.splits bind_splits)

section \<open>Properties\<close>

text \<open>The budget gate allows a burn exactly when it is positive, within the configured maximum, and
  within what an available oracle says remains. With the oracle unavailable nothing is allowed. The
  receipt repeats the verdict, and its code is \<open>ok\<close> only for an allowed burn.\<close>

lemma burn_gate_allows_iff:
  "(bd_ok (evaluate_burn_oracle_budget_gate request) \<longleftrightarrow>
     0 < br_requested_burn_units request \<and>
     br_requested_burn_units request \<le> br_max_allowed_burn_units request \<and>
     (\<exists>r. br_oracle_status request = Available r \<and> br_requested_burn_units request \<le> r)) \<and>
   bc_ok (bd_receipt (evaluate_burn_oracle_budget_gate request)) = bd_ok (evaluate_burn_oracle_budget_gate request) \<and>
   (bc_code (bd_receipt (evaluate_burn_oracle_budget_gate request)) = ''ok'') =
     bd_ok (evaluate_burn_oracle_budget_gate request)"
proof -
  have "bd_ok (evaluate_burn_oracle_budget_gate request) \<longleftrightarrow>
     0 < br_requested_burn_units request \<and>
     br_requested_burn_units request \<le> br_max_allowed_burn_units request \<and>
     (\<exists>r. br_oracle_status request = Available r \<and> br_requested_burn_units request \<le> r)"
    by (auto simp: evaluate_burn_oracle_budget_gate_def burn_denied_def burn_allow_def Let_def not_less
        word_gt_0 split: oracle_status.splits if_splits)
  then show ?thesis using burn_gate.receipt_repeats(1) burn_gate.receipt_decides by blast
qed

text \<open>The persona gate dispatches a script exactly when no covenant violation and no tamper signal
  is raised, its normalised path is not a blocked path or below one, and at least one lens is valid.
  The lens it selects is always one of the valid ones, and is the requested one whenever that is
  valid.\<close>

lemma persona_gate_dispatches_iff:
  fixes script requested valid blocked cov tamper
  defines "d \<equiv> evaluate_persona_dispatch_gate script requested valid blocked cov tamper"
    and "lenses \<equiv> (\<lambda>v. normalize_token v 64) ` set valid - {[]}"
  shows "(pg_ok d \<longleftrightarrow> \<not> cov \<and> \<not> tamper \<and> lenses \<noteq> {} \<and>
       \<not> list_ex (\<lambda>b. blocks (normalize_token script 300) (normalize_token b 300)) blocked) \<and>
     (pg_selected_lens d = None \<longleftrightarrow> \<not> pg_ok d) \<and>
     (\<forall>l. pg_selected_lens d = Some l \<longrightarrow> l \<in> lenses \<and>
        (\<forall>r. normalize_lens requested = Some r \<longrightarrow> r \<in> lenses \<longrightarrow> l = r))"
proof -
  have bl: "blocked_path script blocked = None \<longleftrightarrow>
      \<not> list_ex (\<lambda>b. blocks (normalize_token script 300) (normalize_token b 300)) blocked"
    by (simp add: blocked_path_def find_None_all list_ex_iff)
  have ls: "lenses = set (normalize_lens_list valid)" by (simp add: lenses_def set_normalize_lens_list)
  show ?thesis
    unfolding d_def evaluate_persona_dispatch_gate_def Let_def bl [symmetric] ls
    by (auto simp: make_decision_def Let_def select_lens_facts(1,3) dest: select_lens_facts(2))
qed

lemma persona_gate_dispatches_iff_witness:
  "pg_ok (evaluate_persona_dispatch_gate ''scripts/run.ts'' (Some ''guardian'') [''Guardian''] [''secrets''] False False)"
proof -
  let ?d = "evaluate_persona_dispatch_gate ''scripts/run.ts'' (Some ''guardian'') [''Guardian''] [''secrets''] False False"
  have n: "normalize_token ''Guardian'' 64 = ''guardian''" by code_simp
  have b: "\<not> blocks (normalize_token ''scripts/run.ts'' 300) (normalize_token ''secrets'' 300)" by code_simp
  show ?thesis
    using persona_gate_dispatches_iff [of "''scripts/run.ts''" "Some ''guardian''" "[''Guardian'']" "[''secrets'']" False False]
      n b by simp
qed

text \<open>Normalised tokens are canonical. Normalising a script path or lens gives a text of at most
  the requested length, without upper case, blanks, doubled or outer underscores, and normalising it
  again changes nothing, so that two spellings are compared by their canonical form.\<close>

lemma normalize_token_canonical:
  assumes "0 < n"
  shows "normalize_token (normalize_token raw n) n = normalize_token raw n \<and>
     length (normalize_token raw n) \<le> n \<and> is_token False (normalize_token raw n)"
  using normalize_token_facts [where raw = raw and n = n] normalize_token_token [of "normalize_token raw n" n] assms
  by blast

lemma normalize_token_canonical_witness:
  "normalize_token (normalize_token ''__A  b'' 3) 3 = normalize_token ''__A  b'' 3"
  using normalize_token_canonical [of 3 "''__A  b''"] by simp

text \<open>The hook enforcer passes a source exactly when there is something to prove and all of it is
  there: a non-empty list of required hooks, a non-blank source, and every normalised hook occurring in
  the lower-cased source. The receipt does not depend on the order, the spelling or the repetition of
  the required hooks: lists with the same normalised hooks give the same receipt.\<close>

lemma hook_coverage_exact:
  "(hc_ok (evaluate_source_hook_coverage cid hooks source) \<longleftrightarrow>
     sorted_unique hooks \<noteq> [] \<and> trim source \<noteq> [] \<and>
     list_all (\<lambda>h. sublist h (to_ascii_lowercase source)) (sorted_unique hooks)) \<and>
   (set (List.map_filter normalize_hook hooks) = set (List.map_filter normalize_hook hooks') \<longrightarrow>
      evaluate_source_hook_coverage cid hooks source = evaluate_source_hook_coverage cid hooks' source)"
proof -
  have "evaluate_source_hook_coverage cid hooks source = evaluate_source_hook_coverage cid hooks' source"
    if "set (List.map_filter normalize_hook hooks) = set (List.map_filter normalize_hook hooks')"
  proof -
    have "sorted_unique hooks = sorted_unique hooks'"
      using that unfolding sorted_unique_def by (rule btree_set_cong)
    then show ?thesis by (simp add: evaluate_source_hook_coverage_def)
  qed
  moreover have "hc_ok (evaluate_source_hook_coverage cid hooks source) \<longleftrightarrow>
     sorted_unique hooks \<noteq> [] \<and> trim source \<noteq> [] \<and>
     list_all (\<lambda>h. sublist h (to_ascii_lowercase source)) (sorted_unique hooks)"
    by (auto simp: evaluate_source_hook_coverage_def Let_def filter_empty_conv list_all_iff
        str_contains_iff_sublist)
  ultimately show ?thesis by simp
qed

lemma hook_coverage_exact_witness:
  "evaluate_source_hook_coverage ''c'' ['' B '', ''a'', ''b''] ''x a'' =
     evaluate_source_hook_coverage ''c'' [''A'', ''b''] ''x a''"
proof -
  have "set (List.map_filter normalize_hook ['' B '', ''a'', ''b'']) =
      set (List.map_filter normalize_hook [''A'', ''b''])" by code_simp
  then show ?thesis
    using hook_coverage_exact [of "''c''" "['' B '', ''a'', ''b'']" "''x a''" "[''A'', ''b'']"] by blast
qed

text \<open>A path that reaches a blocked directory through a parent step is not recognised as blocked.\<close>

lemma dotdot_path_not_blocked: "blocked_path ''scripts/../secrets/run.ts'' [''secrets''] = None"
  by code_simp

end
