(* ===== verification/Layer1_Services.thy ===== *)
theory Layer1_Services
  imports BTree_Map
begin

text \<open>
  The policy services of \<^verbatim>\<open>core/layer1\<close>: the versioned storage engine, resource budgets and backend
  selection, the update policy, the IPC policy, the task scheduler and the capability sandbox. The
  storage engine is used through the locale \<open>record_store\<close>, whose laws it is shown to satisfy.
\<close>

section \<open>Storage\<close>

record storage_record =
  sr_key :: string
  sr_value :: string
  sr_version :: u64
  sr_updated_ms :: u64

datatype storage_error = InvalidKey | NotFound | VersionConflict

type_synonym storage_engine = "(string, storage_record) btree"

definition valid_key :: "string \<Rightarrow> bool" where
  "valid_key key =
     (\<not> blank key \<and>
      list_all (\<lambda>ch. is_ascii_alphanumeric ch \<or> ch \<in> {CHR ''_'', CHR ''-'', CHR ''.'', CHR ''/''}) key)"

definition storage_get :: "storage_engine \<Rightarrow> string \<Rightarrow> (storage_record, storage_error) rresult" where
  "storage_get st key = (case bt_get st key of Some r \<Rightarrow> Ok r | None \<Rightarrow> Err NotFound)"

text \<open>The version of a key, 0 when it is absent.\<close>

definition current_version :: "storage_engine \<Rightarrow> string \<Rightarrow> u64" where
  "current_version st key = (case bt_get st key of Some r \<Rightarrow> sr_version r | None \<Rightarrow> 0)"

definition storage_put ::
  "storage_engine \<Rightarrow> string \<Rightarrow> string \<Rightarrow> u64 option \<Rightarrow> u64 \<Rightarrow>
     (storage_record, storage_error) rresult \<times> storage_engine" where
  "storage_put st key value expected_version now =
     (if \<not> valid_key key then (Err InvalidKey, st)
      else if (case expected_version of Some expected \<Rightarrow> expected \<noteq> current_version st key | None \<Rightarrow> False)
      then (Err VersionConflict, st)
      else
        let next_version = (case bt_get st key of Some row \<Rightarrow> sr_version row + 1 | None \<Rightarrow> 1);
            record = \<lparr>sr_key = key, sr_value = value, sr_version = next_version, sr_updated_ms = now\<rparr>
        in (Ok record, bt_insert key record st))"

definition storage_delete ::
  "storage_engine \<Rightarrow> string \<Rightarrow> (storage_record, storage_error) rresult \<times> storage_engine" where
  "storage_delete st key =
     (case bt_get st key of Some r \<Rightarrow> (Ok r, bt_remove key st) | None \<Rightarrow> (Err NotFound, st))"

section \<open>Resources\<close>

record resource_budget =
  rb_cpu_quota_millis :: u64
  rb_memory_quota_bytes :: u64
  rb_io_quota_bytes :: u64

record resource_usage =
  rg_cpu_used_millis :: u64
  rg_memory_used_bytes :: u64
  rg_io_used_bytes :: u64

definition EDGE_MEMORY_THRESHOLD_BYTES :: u64 where
  "EDGE_MEMORY_THRESHOLD_BYTES = 512 * 1024 * 1024"

definition EDGE_CPU_CORE_THRESHOLD :: u16 where
  "EDGE_CPU_CORE_THRESHOLD = 1"

record hardware_profile =
  hp_total_memory_bytes :: u64
  hp_cpu_cores :: u16
  hp_has_mmu :: bool

datatype inference_backend = Primary | Edge

datatype backend_override = ForcePrimary | ForceEdge

record backend_selection_receipt =
  bs_backend :: inference_backend
  bs_constrained_hardware :: bool
  bs_reason :: string

definition budget_allows :: "resource_budget \<Rightarrow> resource_usage \<Rightarrow> bool" where
  "budget_allows b u \<longleftrightarrow>
     rg_cpu_used_millis u \<le> rb_cpu_quota_millis b \<and>
     rg_memory_used_bytes u \<le> rb_memory_quota_bytes b \<and> rg_io_used_bytes u \<le> rb_io_quota_bytes b"

definition is_constrained_hardware :: "hardware_profile \<Rightarrow> bool" where
  "is_constrained_hardware p \<longleftrightarrow>
     \<not> hp_has_mmu p \<or> hp_total_memory_bytes p < EDGE_MEMORY_THRESHOLD_BYTES \<or>
     hp_cpu_cores p \<le> EDGE_CPU_CORE_THRESHOLD"

definition select_inference_backend ::
  "hardware_profile \<Rightarrow> backend_override option \<Rightarrow> backend_selection_receipt" where
  "select_inference_backend profile backend_override =
     (let constrained = is_constrained_hardware profile
      in (case backend_override of
            Some ForcePrimary \<Rightarrow>
              \<lparr>bs_backend = Primary, bs_constrained_hardware = constrained, bs_reason = ''override_force_primary''\<rparr>
          | Some ForceEdge \<Rightarrow>
              \<lparr>bs_backend = Edge, bs_constrained_hardware = constrained, bs_reason = ''override_force_edge''\<rparr>
          | None \<Rightarrow>
              if constrained
              then \<lparr>bs_backend = Edge, bs_constrained_hardware = True, bs_reason = ''tier_d_constrained_hardware''\<rparr>
              else \<lparr>bs_backend = Primary, bs_constrained_hardware = False, bs_reason = ''default_primary_backend''\<rparr>))"

section \<open>Updates\<close>

record update_package =
  pk_version :: string
  pk_artifact_sha256 :: string
  pk_size_bytes :: u64
  pk_capabilities :: "string list"

record update_policy =
  ap_max_size_bytes :: u64
  ap_required_capability :: string
  ap_allow_prerelease :: bool

datatype update_decision = Approved | Rejected string

definition valid_sha256 :: "string \<Rightarrow> bool" where
  "valid_sha256 raw \<longleftrightarrow> length raw = 64 \<and> list_all is_ascii_hexdigit raw"

definition update_evaluate :: "update_policy \<Rightarrow> update_package \<Rightarrow> update_decision" where
  "update_evaluate policy package =
     (if blank (pk_version package) then Rejected ''version_missing''
      else if \<not> ap_allow_prerelease policy \<and> CHR ''-'' \<in> set (pk_version package)
      then Rejected ''prerelease_blocked''
      else if pk_size_bytes package > ap_max_size_bytes policy then Rejected ''artifact_size_exceeds_policy''
      else if \<not> valid_sha256 (pk_artifact_sha256 package) then Rejected ''artifact_sha256_invalid''
      else if ap_required_capability policy \<notin> set (pk_capabilities package)
      then Rejected ''missing_required_capability''
      else Approved)"

section \<open>IPC\<close>

record ipc_envelope =
  ie_channel :: string
  ie_payload :: "u8 list"
  ie_nonce :: string
  ie_ts_millis :: u64

record ipc_policy =
  ip_allowed_channels :: "string list"
  ip_max_payload_bytes :: nat

datatype ipc_error = InvalidChannel | PayloadTooLarge | MissingNonce

definition ipc_validate :: "ipc_policy \<Rightarrow> ipc_envelope \<Rightarrow> (unit, ipc_error) rresult" where
  "ipc_validate policy e =
     (if blank (ie_nonce e) then Err MissingNonce
      else if length (ie_payload e) > ip_max_payload_bytes policy then Err PayloadTooLarge
      else if ie_channel e \<notin> set (ip_allowed_channels policy) then Err InvalidChannel
      else Ok ())"

text \<open>The bytes that \<^verbatim>\<open>deterministic_envelope_hash\<close> feeds to the digest, which is its first argument.\<close>

definition envelope_hash_input :: "ipc_envelope \<Rightarrow> string" where
  "envelope_hash_input e =
     ie_channel e @ ''|'' @ ie_nonce e @ ''|'' @ show_word (ie_ts_millis e) @ ''|'' @
     map (\<lambda>b. char_of (unat b)) (ie_payload e)"

definition deterministic_envelope_hash :: "(string \<Rightarrow> string) \<Rightarrow> ipc_envelope \<Rightarrow> string" where
  "deterministic_envelope_hash sha256_hex e = sha256_hex (envelope_hash_input e)"

section \<open>Tasks and sandboxes\<close>

record claim_evidence =
  cl_claim :: string
  cl_evidence :: string

record task =
  tk_id :: string
  tk_description :: string
  tk_claim_evidence :: "claim_evidence list"

datatype schedule_decision = Ready | MissingClaimEvidence

definition scheduler_evaluate :: "task \<Rightarrow> schedule_decision" where
  "scheduler_evaluate t =
     (if tk_claim_evidence t = [] then MissingClaimEvidence
      else if list_ex (\<lambda>entry. blank (cl_claim entry) \<or> blank (cl_evidence entry)) (tk_claim_evidence t)
      then MissingClaimEvidence else Ready)"

record capability_handle =
  ch_name :: string
  ch_granted :: bool

record sandbox =
  sb_capabilities :: "capability_handle list"

definition can_execute :: "sandbox \<Rightarrow> string \<Rightarrow> bool" where
  "can_execute s capability_name =
     list_ex (\<lambda>cap. ch_granted cap \<and> ch_name cap = capability_name) (sb_capabilities s)"

definition run_stub :: "sandbox \<Rightarrow> string \<Rightarrow> (unit, string) rresult" where
  "run_stub s capability_name =
     (if can_execute s capability_name then Ok () else Err ''capability_denied'')"

section \<open>The contract of a versioned store\<close>

text \<open>Calls that change a store: writes with an optional expected version, and deletes.\<close>

datatype ('k, 'v) store_call = PutCall 'k 'v "u64 option" | DeleteCall 'k

fun puts_to :: "'k \<Rightarrow> ('k, 'v) store_call \<Rightarrow> bool" where
  "puts_to k (PutCall k' v e) = (k' = k)"
| "puts_to k (DeleteCall k') = False"

locale record_store =
  fixes read_version :: "'s \<Rightarrow> 'k \<Rightarrow> u64"
    and wr :: "'s \<Rightarrow> 'k \<Rightarrow> 'v \<Rightarrow> u64 option \<Rightarrow> bool \<times> 's"
    and rm :: "'s \<Rightarrow> 'k \<Rightarrow> bool \<times> 's"
  assumes write_version: "fst (wr s k v e) \<Longrightarrow> read_version (snd (wr s k v e)) k = read_version s k + 1"
    and write_other: "k' \<noteq> k \<Longrightarrow> read_version (snd (wr s k v e)) k' = read_version s k'"
    and write_refused: "\<not> fst (wr s k v e) \<Longrightarrow> snd (wr s k v e) = s"
    and write_conflict: "fst (wr s k v (Some n)) \<Longrightarrow> n = read_version s k"
    and remove_other: "k' \<noteq> k \<Longrightarrow> read_version (snd (rm s k)) k' = read_version s k'"
begin

fun call :: "'s \<Rightarrow> ('k, 'v) store_call \<Rightarrow> bool \<times> 's" where
  "call s (PutCall k v e) = wr s k v e"
| "call s (DeleteCall k) = rm s k"

fun calls :: "'s \<Rightarrow> ('k, 'v) store_call list \<Rightarrow> bool list \<times> 's" where
  "calls s [] = ([], s)"
| "calls s (c # cs) = (let r = call s c; rs = calls (snd r) cs in (fst r # fst rs, snd rs))"

definition accepted_on :: "'k \<Rightarrow> ('k, 'v) store_call list \<Rightarrow> bool list \<Rightarrow> nat" where
  "accepted_on k cs oks = length (filter (\<lambda>(c, ok). puts_to k c \<and> ok) (zip cs oks))"

lemma call_version:
  assumes "c \<noteq> DeleteCall k"
  shows "read_version (snd (call s c)) k = read_version s k + (if puts_to k c \<and> fst (call s c) then 1 else 0)"
proof (cases c)
  case (PutCall k' v e)
  then show ?thesis
    using write_version [of s k' v e] write_other [of k k' s v e] write_refused [of s k' v e]
    by (cases "k' = k"; cases "fst (wr s k' v e)") auto
qed (use assms remove_other in auto)

lemma version_counts:
  assumes "DeleteCall k \<notin> set cs"
  shows "read_version (snd (calls s cs)) k = read_version s k + of_nat (accepted_on k cs (fst (calls s cs)))"
  using assms
proof (induction cs arbitrary: s)
  case (Cons c cs)
  then show ?case using call_version [of c k s] by (auto simp: Let_def accepted_on_def add_ac)
qed (simp add: accepted_on_def)

text \<open>No lost update: once a write on a key was accepted and the key not deleted, a write that still
  expects the version from before it is refused.\<close>

lemma stale_write_refused:
  assumes "DeleteCall k \<notin> set cs"
    and "0 < accepted_on k cs (fst (calls s cs))" "accepted_on k cs (fst (calls s cs)) < 2 ^ 64"
  shows "\<not> fst (wr (snd (calls s cs)) k v (Some (read_version s k)))"
proof
  let ?n = "accepted_on k cs (fst (calls s cs))"
  assume "fst (wr (snd (calls s cs)) k v (Some (read_version s k)))"
  then have "(of_nat ?n :: u64) = 0" using write_conflict version_counts [OF assms(1), of s] by fastforce
  then have "unat (of_nat ?n :: u64) = 0" by simp
  then show False using assms(2,3) by (simp only: unat_of_nat) (simp add: take_bit_nat_eq_self)
qed

end

definition put_ok ::
  "storage_engine \<Rightarrow> string \<Rightarrow> string \<times> u64 \<Rightarrow> u64 option \<Rightarrow> bool \<times> storage_engine" where
  "put_ok st key v expected =
     (case storage_put st key (fst v) expected (snd v) of (res, st') \<Rightarrow> (\<exists>r. res = Ok r, st'))"

lemma put_ok_simps:
  "fst (put_ok st key v e) \<longleftrightarrow>
     valid_key key \<and> (case e of Some n \<Rightarrow> n = current_version st key | None \<Rightarrow> True)"
  "snd (put_ok st key v e) =
     (if fst (put_ok st key v e)
      then bt_insert key \<lparr>sr_key = key, sr_value = fst v, sr_version = current_version st key + 1,
        sr_updated_ms = snd v\<rparr> st else st)"
  by (auto simp: put_ok_def storage_put_def Let_def current_version_def split: option.splits)

definition delete_ok :: "storage_engine \<Rightarrow> string \<Rightarrow> bool \<times> storage_engine" where
  "delete_ok st key = (case storage_delete st key of (res, st') \<Rightarrow> (\<exists>r. res = Ok r, st'))"

interpretation storage: record_store current_version put_ok delete_ok
proof (unfold_locales, goal_cases)
  case (1 s k v e)
  then show ?case by (simp add: put_ok_simps(2)) (simp add: current_version_def bt_get_insert)
next
  case (2 k' k s v e)
  then show ?case by (simp add: put_ok_simps(2)) (simp add: current_version_def bt_get_insert)
next
  case (3 s k v e)
  then show ?case by (simp add: put_ok_simps(2))
next
  case (4 s k v n)
  then show ?case by (simp add: put_ok_simps(1))
next
  case (5 k' k s)
  then show ?case
    by (simp add: delete_ok_def storage_delete_def current_version_def bt_get_remove_other split: option.splits)
qed

section \<open>Runs of the storage engine\<close>

text \<open>A sequence of puts \<open>PutCall key (value, time) expected\<close> and deletes \<open>DeleteCall key\<close>, with the
  outcome of each.\<close>

type_synonym storage_call = "(string, string \<times> u64) store_call"

fun storage_run :: "storage_engine \<Rightarrow> storage_call list \<Rightarrow> bool list \<times> storage_engine" where
  "storage_run st [] = ([], st)"
| "storage_run st (PutCall key (value, now) expected # calls) =
     (case storage_put st key value expected now of
        (res, st') \<Rightarrow> (case storage_run st' calls of (oks, st'') \<Rightarrow> ((\<exists>r. res = Ok r) # oks, st'')))"
| "storage_run st (DeleteCall key # calls) =
     (case storage_delete st key of
        (res, st') \<Rightarrow> (case storage_run st' calls of (oks, st'') \<Rightarrow> ((\<exists>r. res = Ok r) # oks, st'')))"

definition accepted_puts :: "string \<Rightarrow> storage_call list \<Rightarrow> bool list \<Rightarrow> nat" where
  "accepted_puts key calls oks = length (filter (\<lambda>(c, ok). puts_to key c \<and> ok) (zip calls oks))"

lemma ok_call_simps:
  "put_ok st key (value, now) expected =
     (\<exists>r. fst (storage_put st key value expected now) = Ok r, snd (storage_put st key value expected now))"
  "delete_ok st key = (\<exists>r. fst (storage_delete st key) = Ok r, snd (storage_delete st key))"
  by (simp_all add: put_ok_def delete_ok_def case_prod_unfold)

lemma storage_run_calls: "storage_run st cs = storage.calls st cs"
proof (induction cs arbitrary: st)
  case (Cons c cs)
  show ?case
  proof (cases c)
    case (PutCall key v expected)
    then show ?thesis
      using ok_call_simps(1) [of st key "fst v" "snd v" expected]
      by (cases v) (simp add: Cons.IH storage.calls.simps storage.call.simps case_prod_unfold Let_def)
  next
    case (DeleteCall key)
    then show ?thesis
      using ok_call_simps(2) [of st key]
      by (simp add: Cons.IH storage.calls.simps storage.call.simps case_prod_unfold Let_def)
  qed
qed (simp add: storage.calls.simps)

lemma accepted_puts_on: "accepted_puts = storage.accepted_on"
  by (intro ext) (simp add: accepted_puts_def storage.accepted_on_def)

section \<open>Properties\<close>

text \<open>C8: the storage engine loses no update of a key that is not deleted meanwhile. A client reads the
  version of a key; other clients then make any sequence of puts and deletes, of which some puts on that
  key are accepted and none is a delete of that key (deletes of other keys are free). The client's put that
  expects the version it read is then refused with a version conflict and changes nothing. Fewer than
  \<open>2 ^ 64\<close> puts are accepted in between, since the version counter is a 64-bit word. A delete of the key
  itself starts its versions anew and takes the guarantee away: see \<open>delete_resets_version\<close>.\<close>

theorem storage_no_lost_update:
  assumes "storage_run st calls = (oks, st')" and "DeleteCall key \<notin> set calls"
    and "0 < accepted_puts key calls oks" and "accepted_puts key calls oks < 2 ^ 64"
    and "valid_key key"
  shows "storage_put st' key value (Some (current_version st key)) now = (Err VersionConflict, st')"
proof -
  have "\<not> fst (put_ok st' key (value, now) (Some (current_version st key)))"
    using storage.stale_write_refused [OF assms(2), of st "(value, now)"] assms(1,3,4)
    by (simp add: storage_run_calls accepted_puts_on)
  then have "current_version st key \<noteq> current_version st' key" using assms(5) by (simp add: put_ok_simps(1))
  then show ?thesis using assms(5) by (simp add: storage_put_def)
qed

theorem storage_no_lost_update_witness:
  "storage_put (snd (storage_run [] [PutCall ''k'' (''v1'', 5) None, DeleteCall ''j''])) ''k'' ''v2'' (Some 0) 9 =
     (Err VersionConflict, snd (storage_run [] [PutCall ''k'' (''v1'', 5) None, DeleteCall ''j'']))"
proof -
  let ?cs = "[PutCall ''k'' (''v1'', 5) None, DeleteCall ''j''] :: storage_call list"
  have k: "valid_key ''k''" by code_simp
  have v: "current_version [] ''k'' = 0" by (simp add: current_version_def)
  obtain oks st' where r: "storage_run [] ?cs = (oks, st')" by force
  then have "oks = [True, False]" using k by (auto simp: storage_put_def storage_delete_def Let_def)
  then have acc: "accepted_puts ''k'' ?cs oks = 1" by (simp add: accepted_puts_def)
  show ?thesis using storage_no_lost_update [OF r, of "''k''"] acc k v r by simp
qed

text \<open>The abstract engine: keys to values, versions and times, with the three operations on it.\<close>

type_synonym storage_map = "string \<Rightarrow> (string \<times> u64 \<times> u64) option"

definition storage_abs :: "storage_engine \<Rightarrow> storage_map" where
  "storage_abs st key = map_option (\<lambda>r. (sr_value r, sr_version r, sr_updated_ms r)) (bt_get st key)"

definition storage_inv :: "storage_engine \<Rightarrow> bool" where
  "storage_inv st \<longleftrightarrow> bt_wf st \<and> list_all (\<lambda>(k, r). valid_key k \<and> sr_key r = k) st"

definition spec_get :: "storage_map \<Rightarrow> string \<Rightarrow> (storage_record, storage_error) rresult" where
  "spec_get m key =
     (case m key of None \<Rightarrow> Err NotFound
      | Some (v, n, t) \<Rightarrow> Ok \<lparr>sr_key = key, sr_value = v, sr_version = n, sr_updated_ms = t\<rparr>)"

definition spec_put ::
  "storage_map \<Rightarrow> string \<Rightarrow> string \<Rightarrow> u64 option \<Rightarrow> u64 \<Rightarrow> (storage_record, storage_error) rresult \<times> storage_map"
where
  "spec_put m key value expected now =
     (let version = (case m key of Some (_, n, _) \<Rightarrow> n | None \<Rightarrow> 0)
      in if \<not> valid_key key then (Err InvalidKey, m)
         else if expected \<in> {None, Some version}
         then (Ok \<lparr>sr_key = key, sr_value = value, sr_version = version + 1, sr_updated_ms = now\<rparr>,
               m(key \<mapsto> (value, version + 1, now)))
         else (Err VersionConflict, m))"

definition spec_delete :: "storage_map \<Rightarrow> string \<Rightarrow> (storage_record, storage_error) rresult \<times> storage_map" where
  "spec_delete m key = (spec_get m key, m(key := None))"

lemma storage_inv_key: "storage_inv st \<Longrightarrow> bt_get st key = Some r \<Longrightarrow> sr_key r = key"
  by (auto simp: storage_inv_def list_all_iff bt_get_map_of dest!: map_of_SomeD)

lemma storage_inv_put:
  "storage_inv st \<Longrightarrow> storage_inv (snd (storage_put st key value expected now))"
proof -
  have "set (bt_insert k v m) \<subseteq> insert (k, v) (set m)" for k and v :: storage_record and m
    by (induction k v m rule: bt_insert.induct) auto
  then show "storage_inv st \<Longrightarrow> ?thesis"
    by (fastforce simp: storage_inv_def storage_put_def Let_def bt_wf_insert list_all_iff)
qed

lemma storage_inv_delete: "storage_inv st \<Longrightarrow> storage_inv (snd (storage_delete st key))"
proof -
  have "set (bt_remove key st) \<subseteq> set st" by (induction key st rule: bt_remove.induct) auto
  then show "storage_inv st \<Longrightarrow> ?thesis"
    by (auto simp: storage_inv_def storage_delete_def bt_wf_remove list_all_iff split: option.splits)
qed

lemma storage_get_spec: "storage_inv st \<Longrightarrow> storage_get st key = spec_get (storage_abs st) key"
  by (auto simp: storage_get_def spec_get_def storage_abs_def storage_inv_key split: option.splits)

text \<open>C30: the storage engine refines a map from keys to values, versions and times, results included. A
  get returns exactly the record the map holds, or \<open>NotFound\<close>. A put fails with \<open>InvalidKey\<close> or
  \<open>VersionConflict\<close> and changes nothing, or returns and stores the record with the next version and the
  given time. A delete returns what a get would have returned and leaves the key unmapped. Engines stay
  sorted maps whose records carry their own valid key.\<close>

theorem storage_refines_map:
  assumes "storage_inv st"
  shows "storage_get st key = spec_get (storage_abs st) key \<and>
     map_prod id storage_abs (storage_put st key value expected now) =
       spec_put (storage_abs st) key value expected now \<and>
     map_prod id storage_abs (storage_delete st key) = spec_delete (storage_abs st) key \<and>
     storage_inv (snd (storage_put st key value expected now)) \<and>
     storage_inv (snd (storage_delete st key))"
proof -
  have wf: "bt_wf st" using assms by (simp add: storage_inv_def)
  have ins: "storage_abs (bt_insert key r st) =
      (storage_abs st)(key \<mapsto> (sr_value r, sr_version r, sr_updated_ms r))" for r
    by (intro ext) (simp add: storage_abs_def bt_get_insert)
  have rem: "storage_abs (bt_remove key st) = (storage_abs st)(key := None)"
    using wf by (intro ext) (simp add: storage_abs_def bt_get_remove)
  have "map_prod id storage_abs (storage_put st key value expected now) =
      spec_put (storage_abs st) key value expected now"
    by (cases expected) (auto simp: storage_put_def spec_put_def Let_def ins current_version_def
        storage_abs_def [of st key] split: option.splits)
  moreover have "map_prod id storage_abs (storage_delete st key) = spec_delete (storage_abs st) key"
    using storage_inv_key [OF assms, of key]
    by (auto simp: storage_delete_def spec_delete_def spec_get_def rem storage_abs_def [of st key] fun_upd_idem
        split: option.splits)
  ultimately show ?thesis
    using storage_get_spec [OF assms] storage_inv_put [OF assms] storage_inv_delete [OF assms] by simp
qed

theorem storage_refines_map_witness:
  "map_prod id storage_abs (storage_put [] ''a/b'' ''v'' None 7) =
     (Ok \<lparr>sr_key = ''a/b'', sr_value = ''v'', sr_version = 1, sr_updated_ms = 7\<rparr>, [''a/b'' \<mapsto> (''v'', 1, 7)])"
proof -
  have "valid_key ''a/b''" by code_simp
  moreover have "storage_inv []" by (simp add: storage_inv_def)
  moreover have "storage_abs [] = Map.empty" by (intro ext) (simp add: storage_abs_def)
  ultimately show ?thesis
    using storage_refines_map [of "[]" "''a/b''" "''v''" None 7] by (simp add: spec_put_def)
qed

text \<open>An IPC message is admitted exactly when it has a nonce, fits the payload bound and uses an
  allowed channel, and the text that is hashed for it determines the envelope as long as the channel and
  the nonce carry no separator: distinct admitted envelopes then never share the text under their
  hash.\<close>

lemma ipc_hash_input_injective:
  assumes "CHR ''|'' \<notin> set (ie_channel e) \<union> set (ie_nonce e)"
    and "CHR ''|'' \<notin> set (ie_channel e') \<union> set (ie_nonce e')"
  shows "(envelope_hash_input e = envelope_hash_input e' \<longleftrightarrow> e = e') \<and>
     (ipc_validate policy e = Ok () \<longleftrightarrow>
        \<not> blank (ie_nonce e) \<and> length (ie_payload e) \<le> ip_max_payload_bytes policy \<and>
        ie_channel e \<in> set (ip_allowed_channels policy))"
proof -
  have dig: "CHR ''|'' \<notin> set (show_nat n)" for n
    using show_nat_digits [of n] by (auto simp: is_ascii_digit_def Let_def char_nat_def dest: bspec)
  have pay: "inj (\<lambda>b :: u8. char_of (unat b) :: char)"
  proof (rule injI)
    fix a b :: u8
    assume "(char_of (unat a) :: char) = char_of (unat b)"
    then have "of_char (char_of (unat a) :: char) = (of_char (char_of (unat b) :: char) :: nat)" by simp
    moreover have "unat x < 256" for x :: u8 using unsigned_less [of x, where ?'a = nat] by simp
    ultimately show "a = b" by (simp add: word_unat_eq_iff)
  qed
  have "e = e'" if "envelope_hash_input e = envelope_hash_input e'"
    using that assms dig
    by (cases e, cases e')
      (auto simp: envelope_hash_input_def append_sep_inject inj_map_eq_map [OF pay] word_unat_eq_iff)
  then show ?thesis by (auto simp: ipc_validate_def)
qed

lemma ipc_hash_input_injective_witness:
  "envelope_hash_input \<lparr>ie_channel = ''c'', ie_payload = [1], ie_nonce = ''n'', ie_ts_millis = 2\<rparr> \<noteq>
   envelope_hash_input \<lparr>ie_channel = ''c'', ie_payload = [1], ie_nonce = ''n'', ie_ts_millis = 12\<rparr>"
  using ipc_hash_input_injective [of
      "\<lparr>ie_channel = ''c'', ie_payload = [1], ie_nonce = ''n'', ie_ts_millis = 2\<rparr>"
      "\<lparr>ie_channel = ''c'', ie_payload = [1], ie_nonce = ''n'', ie_ts_millis = 12\<rparr>"]
  by simp

text \<open>An update is approved exactly when it names a version, is no pre-release unless those are
  allowed, fits the size bound, carries a well-formed SHA-256 digest and has the required
  capability.\<close>

lemma update_approved_iff:
  "update_evaluate policy package = Approved \<longleftrightarrow>
     \<not> blank (pk_version package) \<and>
     (ap_allow_prerelease policy \<or> CHR ''-'' \<notin> set (pk_version package)) \<and>
     pk_size_bytes package \<le> ap_max_size_bytes policy \<and>
     length (pk_artifact_sha256 package) = 64 \<and> list_all is_ascii_hexdigit (pk_artifact_sha256 package) \<and>
     ap_required_capability policy \<in> set (pk_capabilities package)"
  by (auto simp: update_evaluate_def valid_sha256_def)

text \<open>Deleting a key forgets its version: a client that read version 1 before the key was deleted and
  written anew is not refused.\<close>

lemma delete_resets_version:
  assumes "valid_key key" "bt_wf st"
  shows "current_version (snd (storage_put (snd (storage_delete st key)) key value None now)) key = 1"
proof -
  have "bt_get (snd (storage_delete st key)) key = None"
    using assms(2) by (simp add: storage_delete_def bt_get_remove split: option.splits)
  then show ?thesis using assms(1) by (simp add: storage_put_def current_version_def bt_get_insert Let_def)
qed

end
