(* ===== verification/Memory_Policy.thy ===== *)
theory Memory_Policy
  imports BTree_Map
begin

text \<open>
  The memory layer: the last-writer-wins merge of \<^verbatim>\<open>core/layer0/memory/src/crdt.rs\<close>, and from
  \<^verbatim>\<open>core/layer1/memory_runtime\<close> the recall policy, the token telemetry and the lens-map annotations.
  Counts of type \<^verbatim>\<open>usize\<close> that are only compared are natural numbers. \<^verbatim>\<open>clamp\<close> panics when its bounds
  are crossed, which is \<^term>\<open>None\<close>. The ranking check, which compares floating-point scores, is not
  modelled.
\<close>

section \<open>The replicated map\<close>

record crdt_cell =
  cc_value :: string
  cc_clock :: u64
  cc_node :: string

type_synonym crdt_map = "(string, crdt_cell) btree"

definition take_incoming :: "crdt_cell \<Rightarrow> crdt_cell \<Rightarrow> bool" where
  "take_incoming incoming existing \<longleftrightarrow>
     cc_clock incoming > cc_clock existing \<or>
     (cc_clock incoming = cc_clock existing \<and> cc_node incoming > cc_node existing)"

definition merge_entry :: "string \<times> crdt_cell \<Rightarrow> crdt_map \<Rightarrow> crdt_map" where
  "merge_entry e out =
     (case bt_get out (fst e) of
        None \<Rightarrow> bt_insert (fst e) (snd e) out
      | Some existing \<Rightarrow>
          if take_incoming (snd e) existing then bt_insert (fst e) (snd e) out else out)"

definition crdt_merge :: "crdt_map \<Rightarrow> crdt_map \<Rightarrow> crdt_map" where
  "crdt_merge left right = fold merge_entry right left"

section \<open>The recall policy\<close>

datatype fail_closed_mode = Reject | Trim

definition mode_from_raw :: "string \<Rightarrow> fail_closed_mode" where
  "mode_from_raw raw =
     (if to_ascii_lowercase (trim raw) \<in> {''trim'', ''cap'', ''clamp''} then Trim else Reject)"

record recall_budget_input =
  ri_requested_top :: nat
  ri_requested_max_files :: nat
  ri_requested_expand_lines :: nat
  ri_mode :: fail_closed_mode
  ri_max_top :: nat
  ri_max_files :: nat
  ri_max_expand_lines :: nat

record recall_budget_decision =
  rd_ok :: bool
  rd_reason_code :: string
  rd_trimmed :: bool
  rd_effective_top :: nat
  rd_effective_max_files :: nat
  rd_effective_expand_lines :: nat

definition clamp_checked :: "nat \<Rightarrow> nat \<Rightarrow> nat \<Rightarrow> nat option" where
  "clamp_checked lo hi x = (if lo \<le> hi then Some (clamp lo hi x) else None)"

definition recall_exceeds :: "recall_budget_input \<Rightarrow> bool" where
  "recall_exceeds input \<longleftrightarrow>
     ri_requested_top input > ri_max_top input \<or> ri_requested_max_files input > ri_max_files input \<or>
     ri_requested_expand_lines input > ri_max_expand_lines input"

definition enforce_recall_budget :: "recall_budget_input \<Rightarrow> recall_budget_decision option" where
  "enforce_recall_budget input =
     (let exceeds = recall_exceeds input
      in if exceeds \<and> ri_mode input = Reject then
           Some \<lparr>rd_ok = False, rd_reason_code = ''recall_budget_exceeded'', rd_trimmed = False,
                 rd_effective_top = ri_max_top input, rd_effective_max_files = ri_max_files input,
                 rd_effective_expand_lines = ri_max_expand_lines input\<rparr>
         else
           (case clamp_checked 1 (ri_max_top input) (ri_requested_top input) of
              None \<Rightarrow> None
            | Some eff_top \<Rightarrow>
                (case clamp_checked 1 (ri_max_files input) (ri_requested_max_files input) of
                   None \<Rightarrow> None
                 | Some files \<Rightarrow>
                     (case clamp_checked 0 (ri_max_expand_lines input) (ri_requested_expand_lines input) of
                        None \<Rightarrow> None
                      | Some lines \<Rightarrow>
                          Some \<lparr>rd_ok = True,
                                rd_reason_code = (if exceeds then ''recall_budget_trimmed'' else ''within_budget''),
                                rd_trimmed = exceeds, rd_effective_top = eff_top, rd_effective_max_files = files,
                                rd_effective_expand_lines = lines\<rparr>))))"

text \<open>The decisions with only a verdict and a code: \<^verbatim>\<open>IndexFirstDecision\<close>, \<^verbatim>\<open>NodeOnlyDecision\<close>,
  \<^verbatim>\<open>HydrationGuardDecision\<close>.\<close>

record policy_verdict =
  pv_ok :: bool
  pv_reason_code :: string

definition verdict :: "bool \<Rightarrow> string \<Rightarrow> policy_verdict" where
  "verdict ok code = \<lparr>pv_ok = ok, pv_reason_code = code\<rparr>"

definition enforce_index_first :: "string list \<Rightarrow> nat \<Rightarrow> policy_verdict" where
  "enforce_index_first index_sources entries_total =
     (if entries_total = 0 then verdict False ''index_entries_missing''
      else if index_sources = [] then verdict False ''index_sources_missing''
      else verdict True ''index_authority_ok'')"

definition enforce_node_only :: "string \<Rightarrow> string \<Rightarrow> policy_verdict" where
  "enforce_node_only node_id uid =
     (if trim node_id = [] \<and> trim uid = [] then verdict False ''missing_node_or_uid''
      else verdict True ''node_scoped_lookup'')"

record hydration_guard_input =
  hg_bootstrap :: bool
  hg_lazy_hydration :: bool
  hg_estimated_hydration_tokens :: u32
  hg_max_bootstrap_tokens :: u32
  hg_force :: bool

definition enforce_hydration_guard :: "hydration_guard_input \<Rightarrow> policy_verdict" where
  "enforce_hydration_guard input =
     (if \<not> hg_bootstrap input then verdict True ''not_bootstrap''
      else if hg_force input then verdict True ''bootstrap_force_override''
      else if \<not> hg_lazy_hydration input then verdict False ''bootstrap_requires_lazy_hydration''
      else if hg_estimated_hydration_tokens input > hg_max_bootstrap_tokens input
      then verdict False ''bootstrap_hydration_token_cap_exceeded''
      else verdict True ''bootstrap_hydration_ok'')"

record freshness_decision =
  fd_ok :: bool
  fd_stale :: bool
  fd_reason_code :: string
  fd_age_ms :: "u64 option"
  fd_threshold_ms :: u64

definition enforce_index_freshness :: "u64 \<Rightarrow> u64 option \<Rightarrow> u64 \<Rightarrow> bool \<Rightarrow> freshness_decision" where
  "enforce_index_freshness now newest_mtime max_age allow_stale =
     (let threshold = max max_age 1
      in (case newest_mtime of
            None \<Rightarrow>
              \<lparr>fd_ok = allow_stale, fd_stale = True,
               fd_reason_code = (if allow_stale then ''freshness_timestamp_missing_allowed''
                                 else ''freshness_timestamp_missing_blocked''),
               fd_age_ms = None, fd_threshold_ms = threshold\<rparr>
          | Some newest \<Rightarrow>
              let age = saturating_sub now newest; stale = age > threshold
              in if stale \<and> \<not> allow_stale then
                   \<lparr>fd_ok = False, fd_stale = True, fd_reason_code = ''index_stale_blocked'',
                    fd_age_ms = Some age, fd_threshold_ms = threshold\<rparr>
                 else
                   \<lparr>fd_ok = True, fd_stale = stale,
                    fd_reason_code = (if stale then ''index_stale_allowed'' else ''index_fresh''),
                    fd_age_ms = Some age, fd_threshold_ms = threshold\<rparr>))"

section \<open>Token telemetry\<close>

datatype retrieval_mode = IndexOnly | NodeRead | FullFile

fun mode_as_str :: "retrieval_mode \<Rightarrow> string" where
  "mode_as_str IndexOnly = ''index-only''"
| "mode_as_str NodeRead = ''node-read''"
| "mode_as_str FullFile = ''full-file''"

record token_telemetry_event =
  te_startup_tokens :: u32
  te_hydration_tokens :: u32
  te_retrieval_tokens :: u32
  te_response_tokens :: u32
  te_mode :: retrieval_mode

definition total_tokens :: "token_telemetry_event \<Rightarrow> u32" where
  "total_tokens e =
     saturating_add (saturating_add (saturating_add (te_startup_tokens e) (te_hydration_tokens e))
       (te_retrieval_tokens e)) (te_response_tokens e)"

record token_telemetry_summary =
  ts_event_count :: u32
  ts_total_tokens :: u32
  ts_by_mode :: "(string, u32) btree"

definition add_event ::
  "token_telemetry_event \<Rightarrow> u32 \<times> (string, u32) btree \<Rightarrow> u32 \<times> (string, u32) btree" where
  "add_event e acc =
     (let (total, by_mode) = acc; key = mode_as_str (te_mode e);
          entry = (case bt_get by_mode key of Some n \<Rightarrow> n | None \<Rightarrow> 0)
      in (saturating_add total (total_tokens e), bt_insert key (saturating_add entry (total_tokens e)) by_mode))"

definition summarize :: "token_telemetry_event list \<Rightarrow> token_telemetry_summary" where
  "summarize events =
     (let (total, by_mode) = fold add_event events (0, [])
      in \<lparr>ts_event_count = of_nat (length events), ts_total_tokens = total, ts_by_mode = by_mode\<rparr>)"

record burn_slo_decision =
  bl_ok :: bool
  bl_total_tokens :: u32
  bl_threshold_tokens :: u32
  bl_reason :: string

definition evaluate_burn_slo :: "token_telemetry_event \<Rightarrow> u32 \<Rightarrow> burn_slo_decision" where
  "evaluate_burn_slo e threshold =
     (let total = total_tokens e
      in if total \<le> threshold
         then \<lparr>bl_ok = True, bl_total_tokens = total, bl_threshold_tokens = threshold, bl_reason = ''within_budget''\<rparr>
         else \<lparr>bl_ok = False, bl_total_tokens = total, bl_threshold_tokens = threshold,
               bl_reason = ''burn_threshold_exceeded''\<rparr>)"

section \<open>Lens-map annotations\<close>

record lensmap_annotation =
  la_tags :: "string list"
  la_nodes :: "string list"
  la_jots :: "string list"

record lensmap_annotation_validation =
  lv_ok :: bool
  lv_errors :: "string list"
  lv_annotation :: "lensmap_annotation option"

record lensmap_document_validation =
  ld_ok :: bool
  ld_errors :: "string list"
  ld_annotation_count :: nat
  ld_annotations :: "lensmap_annotation list"

definition FIELD_MAX_COUNT :: nat where "FIELD_MAX_COUNT = 32"
definition TOKEN_MAX_LEN :: nat where "TOKEN_MAX_LEN = 64"

definition lens_token :: "string \<Rightarrow> string" where
  "lens_token raw = to_ascii_lowercase (trim raw)"

definition token_is_valid :: "string \<Rightarrow> bool" where
  "token_is_valid raw \<longleftrightarrow>
     (let token = lens_token raw
      in token \<noteq> [] \<and> length token \<le> TOKEN_MAX_LEN \<and>
         list_all (\<lambda>b. is_ascii_alphanumeric b \<or> b \<in> {CHR ''-'', CHR ''_'', CHR ''.'', CHR ''/''}) token)"

definition parse_field :: "string \<Rightarrow> string list" where
  "parse_field value = filter (\<lambda>token. token \<noteq> []) (map lens_token (split_on (CHR '','') value))"

definition dedupe_ordered :: "string list \<Rightarrow> string list" where
  "dedupe_ordered items = fold (\<lambda>item out. if item \<in> set out then out else out @ [item]) items []"

definition parse_pair :: "string \<Rightarrow> (string \<times> string) option" where
  "parse_pair raw =
     (case split_once (CHR ''='') raw of
        None \<Rightarrow> None
      | Some (key, value) \<Rightarrow>
          let k = trim key; v = trim value in if k = [] \<or> v = [] then None else Some (k, v))"

record lens_acc =
  lc_tags :: "string list"
  lc_nodes :: "string list"
  lc_jots :: "string list"
  lc_errors :: "string list"

definition add_segment :: "string \<Rightarrow> lens_acc \<Rightarrow> lens_acc" where
  "add_segment segment acc =
     (case parse_pair segment of
        None \<Rightarrow> acc\<lparr>lc_errors := lc_errors acc @ [''invalid_segment:'' @ segment]\<rparr>
      | Some (key, value) \<Rightarrow>
          let parsed = parse_field value; k = to_ascii_lowercase key
          in if parsed = [] then acc\<lparr>lc_errors := lc_errors acc @ [''empty_field:'' @ key]\<rparr>
             else if k \<in> {''tag'', ''tags''} then acc\<lparr>lc_tags := lc_tags acc @ parsed\<rparr>
             else if k \<in> {''node'', ''nodes''} then acc\<lparr>lc_nodes := lc_nodes acc @ parsed\<rparr>
             else if k \<in> {''jot'', ''jots''} then acc\<lparr>lc_jots := lc_jots acc @ parsed\<rparr>
             else acc\<lparr>lc_errors := lc_errors acc @ [''unknown_field:'' @ k]\<rparr>)"

definition annotation_rejected :: "string list \<Rightarrow> lensmap_annotation_validation" where
  "annotation_rejected errors = \<lparr>lv_ok = False, lv_errors = errors, lv_annotation = None\<rparr>"

definition annotation_body :: "string \<Rightarrow> string" where
  "annotation_body line =
     (case strip_prefix line ''@lensmap'' of Some rest \<Rightarrow> trim rest | None \<Rightarrow> line)"

definition check_fields :: "string list \<Rightarrow> string list \<Rightarrow> string list \<Rightarrow> string list" where
  "check_fields tags nodes jots =
     (if length tags > FIELD_MAX_COUNT then [''tags_overflow''] else []) @
     (if length nodes > FIELD_MAX_COUNT then [''nodes_overflow''] else []) @
     (if length jots > FIELD_MAX_COUNT then [''jots_overflow''] else []) @
     map (\<lambda>token. ''invalid_token:'' @ token) (filter (\<lambda>t. \<not> token_is_valid t) (tags @ nodes @ jots)) @
     (if tags = [] \<and> nodes = [] \<and> jots = [] then [''empty_annotation''] else [])"

definition parse_lensmap_annotation :: "string \<Rightarrow> lensmap_annotation_validation" where
  "parse_lensmap_annotation raw =
     (let line = trim raw
      in if line = [] then annotation_rejected [''annotation_empty'']
         else
           let body = annotation_body line
           in if body = [] then annotation_rejected [''annotation_fields_missing'']
              else
                let acc = fold add_segment (split_whitespace body)
                      \<lparr>lc_tags = [], lc_nodes = [], lc_jots = [], lc_errors = []\<rparr>;
                    tags = dedupe_ordered (lc_tags acc);
                    nodes = dedupe_ordered (lc_nodes acc);
                    jots = dedupe_ordered (lc_jots acc);
                    errors = lc_errors acc @ check_fields tags nodes jots
                in if errors = []
                   then \<lparr>lv_ok = True, lv_errors = errors,
                         lv_annotation = Some \<lparr>la_tags = tags, la_nodes = nodes, la_jots = jots\<rparr>\<rparr>
                   else annotation_rejected errors)"

text \<open>\<^verbatim>\<open>&line[offset..]\<close> from the first occurrence of the marker.\<close>

fun from_marker :: "string \<Rightarrow> string \<Rightarrow> string" where
  "from_marker p [] = []"
| "from_marker p (c # cs) = (if starts_with (c # cs) p then c # cs else from_marker p cs)"

definition line_error :: "nat \<Rightarrow> string \<Rightarrow> string" where
  "line_error idx err = ''line_'' @ show_nat (idx + 1) @ '':'' @ err"

fun add_nodes :: "nat \<Rightarrow> string list \<Rightarrow> string list \<Rightarrow> string list \<Rightarrow> string list \<times> string list" where
  "add_nodes idx [] seen errors = (seen, errors)"
| "add_nodes idx (node # nodes) seen errors =
     (if node \<in> set seen then add_nodes idx nodes seen (errors @ [line_error idx (''duplicate_node:'' @ node)])
      else add_nodes idx nodes (node # seen) errors)"

fun validate_lines ::
  "nat \<Rightarrow> string list \<Rightarrow> string list \<Rightarrow> string list \<Rightarrow> lensmap_annotation list \<Rightarrow>
     string list \<times> lensmap_annotation list" where
  "validate_lines idx [] seen errors annotations = (errors, annotations)"
| "validate_lines idx (line # lines) seen errors annotations =
     (if \<not> str_contains line ''@lensmap'' then validate_lines (Suc idx) lines seen errors annotations
      else
        let parsed = parse_lensmap_annotation (from_marker ''@lensmap'' line)
        in (case (if lv_ok parsed then lv_annotation parsed else None) of
              None \<Rightarrow> validate_lines (Suc idx) lines seen (errors @ map (line_error idx) (lv_errors parsed)) annotations
            | Some ann \<Rightarrow>
                (case add_nodes idx (la_nodes ann) seen errors of
                   (seen', errors') \<Rightarrow> validate_lines (Suc idx) lines seen' errors' (annotations @ [ann]))))"

definition validate_lensmap_document :: "string \<Rightarrow> lensmap_document_validation" where
  "validate_lensmap_document raw =
     (let (errors, annotations) = validate_lines 0 (rust_lines raw) [] [] [];
          errors1 = (if annotations = [] then errors @ [''document_annotations_missing''] else errors)
      in \<lparr>ld_ok = (errors1 = []), ld_errors = errors1, ld_annotation_count = length annotations,
          ld_annotations = annotations\<rparr>)"

section \<open>Merging\<close>

definition pick :: "crdt_cell option \<Rightarrow> crdt_cell option \<Rightarrow> crdt_cell option" where
  "pick existing incoming =
     (case incoming of
        None \<Rightarrow> existing
      | Some c \<Rightarrow> (case existing of None \<Rightarrow> Some c | Some e \<Rightarrow> Some (if take_incoming c e then c else e)))"

lemma bt_get_merge_entry:
  "bt_get (merge_entry (k, c) out) k' = (if k' = k then pick (bt_get out k) (Some c) else bt_get out k')"
  by (auto simp: merge_entry_def pick_def bt_get_insert split: option.splits)

lemma bt_wf_merge_entry: "bt_wf out \<Longrightarrow> bt_wf (merge_entry e out)"
  by (simp add: merge_entry_def bt_wf_insert split: option.splits)

lemma bt_wf_merge [simp]: "bt_wf l \<Longrightarrow> bt_wf (crdt_merge l r)"
  unfolding crdt_merge_def by (induction r arbitrary: l) (simp_all add: bt_wf_merge_entry)

lemma bt_get_merge:
  "bt_wf r \<Longrightarrow> bt_get (crdt_merge l r) k = pick (bt_get l k) (bt_get r k)"
  unfolding crdt_merge_def
proof (induction r arbitrary: l)
  case Nil
  then show ?case by (simp add: pick_def)
next
  case (Cons e r)
  obtain k' c where e: "e = (k', c)" by force
  have wf: "bt_wf r" and fresh: "bt_get r k' = None"
    using Cons.prems by (auto simp: e bt_wf_Cons bt_get_None_iff)
  show ?case using Cons.IH [OF wf, of "merge_entry e l"] fresh
    by (auto simp: e bt_get_merge_entry pick_def split: option.splits)
qed

lemma take_incoming_order:
  "\<not> take_incoming c c"
  "take_incoming a b \<Longrightarrow> take_incoming b c \<Longrightarrow> take_incoming a c"
  "\<not> take_incoming a b \<Longrightarrow> \<not> take_incoming b c \<Longrightarrow> \<not> take_incoming a c"
  by (auto simp: take_incoming_def)

lemma pick_assoc: "pick (pick a b) c = pick a (pick b c)"
proof (cases "a = None \<or> b = None \<or> c = None")
  case True
  then show ?thesis by (auto simp: pick_def split: option.splits)
next
  case False
  then obtain x y z where "a = Some x" "b = Some y" "c = Some z" by auto
  then show ?thesis
    using take_incoming_order(2) [of z y x] take_incoming_order(3) [of z y x] by (simp add: pick_def)
qed

text \<open>Cells from one history: a clock and a node name one write to a key.\<close>

definition one_history :: "(string \<times> crdt_cell) set \<Rightarrow> bool" where
  "one_history U \<longleftrightarrow> (\<forall>k c c'. (k, c) \<in> U \<longrightarrow> (k, c') \<in> U \<longrightarrow>
     cc_clock c = cc_clock c' \<longrightarrow> cc_node c = cc_node c' \<longrightarrow> c = c')"

definition drawn_from :: "(string \<times> crdt_cell) set \<Rightarrow> crdt_map \<Rightarrow> bool" where
  "drawn_from U m \<longleftrightarrow> bt_wf m \<and> (\<forall>k c. bt_get m k = Some c \<longrightarrow> (k, c) \<in> U)"

lemma pick_commute:
  assumes "one_history U" "\<forall>c. a = Some c \<longrightarrow> (k, c) \<in> U" "\<forall>c. b = Some c \<longrightarrow> (k, c) \<in> U"
  shows "pick a b = pick b a"
proof (cases a)
  case (Some x)
  show ?thesis
  proof (cases b)
    case (Some y)
    have "take_incoming x y \<or> take_incoming y x \<or> x = y"
      using assms \<open>a = Some x\<close> \<open>b = Some y\<close> by (auto simp: take_incoming_def one_history_def not_less_iff_gr_or_eq)
    moreover have "\<not> (take_incoming x y \<and> take_incoming y x)"
      using take_incoming_order(1,2) by blast
    ultimately show ?thesis using \<open>a = Some x\<close> Some by (auto simp: pick_def)
  qed (simp add: pick_def Some)
qed (simp add: pick_def split: option.splits)

lemma pick_in:
  "pick a b = Some c \<Longrightarrow> a = Some c \<or> b = Some c"
  by (auto simp: pick_def split: option.splits if_splits)

lemma drawn_from_merge:
  "drawn_from U l \<Longrightarrow> drawn_from U r \<Longrightarrow> drawn_from U (crdt_merge l r)"
  by (auto simp: drawn_from_def bt_get_merge dest!: pick_in)

lemma crdt_merge_assoc:
  "bt_wf a \<Longrightarrow> bt_wf b \<Longrightarrow> bt_wf c \<Longrightarrow>
     crdt_merge (crdt_merge a b) c = crdt_merge a (crdt_merge b c)"
  by (rule bt_ext) (simp_all add: bt_get_merge pick_assoc)

lemma crdt_merge_commute:
  assumes "one_history U" "drawn_from U a" "drawn_from U b"
  shows "crdt_merge a b = crdt_merge b a"
proof (rule bt_ext)
  fix k
  show "bt_get (crdt_merge a b) k = bt_get (crdt_merge b a) k"
    using assms pick_commute [OF assms(1), of "bt_get a k" k "bt_get b k"]
    by (simp add: bt_get_merge drawn_from_def)
qed (use assms in \<open>simp_all add: drawn_from_def\<close>)

text \<open>Merging is a commutative, idempotent action of the replicas of one history.\<close>

lemma crdt_merge_swap:
  assumes "one_history U" "drawn_from U x" "drawn_from U y" "drawn_from U z"
  shows "crdt_merge (crdt_merge z y) x = crdt_merge (crdt_merge z x) y"
proof -
  have wf: "bt_wf x" "bt_wf y" "bt_wf z" using assms by (simp_all add: drawn_from_def)
  have "crdt_merge (crdt_merge z y) x = crdt_merge z (crdt_merge x y)"
    using wf crdt_merge_commute [OF assms(1,2,3)] by (simp add: crdt_merge_assoc)
  then show ?thesis using wf by (simp add: crdt_merge_assoc)
qed

lemma crdt_merge_twice:
  assumes "bt_wf m" "bt_wf x"
  shows "crdt_merge (crdt_merge m x) x = crdt_merge m x"
proof (rule bt_ext)
  show "bt_get (crdt_merge (crdt_merge m x) x) k = bt_get (crdt_merge m x) k" for k
    using assms by (auto simp: bt_get_merge pick_def take_incoming_order(1) split: option.splits)
qed (use assms in simp_all)

abbreviation merge_all :: "crdt_map list \<Rightarrow> crdt_map \<Rightarrow> crdt_map" where
  "merge_all replicas start \<equiv> fold (\<lambda>r m. crdt_merge m r) replicas start"

lemma merge_all_push:
  assumes "one_history U" "list_all (drawn_from U) rs" "drawn_from U x" "drawn_from U z"
  shows "crdt_merge (merge_all rs z) x = merge_all rs (crdt_merge z x)"
  using assms(2,4)
proof (induction rs arbitrary: z)
  case (Cons y rs)
  then show ?case using crdt_merge_swap [OF assms(1,3), of y z] drawn_from_merge by simp
qed simp

lemma merge_all_absorbs:
  assumes "one_history U" "list_all (drawn_from U) rs" "drawn_from U m" "r \<in> set rs"
  shows "crdt_merge (merge_all rs m) r = merge_all rs m"
  using assms(2-4)
proof (induction rs arbitrary: m)
  case (Cons x rs)
  show ?case
  proof (cases "r \<in> set rs")
    case True
    then show ?thesis using Cons drawn_from_merge by simp
  next
    case False
    then have r: "r = x" using Cons.prems(3) by simp
    have d: "drawn_from U x" "drawn_from U m" "list_all (drawn_from U) rs" using Cons.prems by simp_all
    then have "crdt_merge (crdt_merge m x) x = crdt_merge m x"
      by (simp add: crdt_merge_twice drawn_from_def)
    then show ?thesis
      using merge_all_push [OF assms(1) d(3,1) drawn_from_merge [OF d(2,1)]] by (simp add: r)
  qed
qed simp

text \<open>What a merge has to find: the cells that some replica holds under a key, and the newest of them, by
  clock and then by node.\<close>

definition held_at :: "crdt_map list \<Rightarrow> string \<Rightarrow> crdt_cell set" where
  "held_at ms k = {c. \<exists>m \<in> set ms. bt_get m k = Some c}"

definition newest :: "crdt_cell set \<Rightarrow> crdt_cell \<Rightarrow> bool" where
  "newest S c \<longleftrightarrow> c \<in> S \<and>
     (\<forall>d \<in> S. cc_clock d < cc_clock c \<or> cc_clock d = cc_clock c \<and> cc_node d \<le> cc_node c)"

lemma newest_pick:
  "newest S c \<Longrightarrow> pick (Some c) (Some d) = Some e \<Longrightarrow> newest (insert d S) e"
  by (fastforce simp: newest_def pick_def take_incoming_def not_less split: if_splits)

lemma held_at_Cons:
  "held_at (m # ms) k = (case bt_get m k of None \<Rightarrow> held_at ms k | Some c \<Rightarrow> insert c (held_at ms k))"
  by (auto simp: held_at_def split: option.splits)

lemma held_at_snoc: "held_at (ms @ [m]) k = held_at (m # ms) k"
  by (auto simp: held_at_def)

lemma merge_all_newest:
  assumes "bt_wf start" "list_all bt_wf replicas"
  shows "case bt_get (merge_all replicas start) k of
      None \<Rightarrow> held_at (start # replicas) k = {} | Some c \<Rightarrow> newest (held_at (start # replicas) k) c"
  using assms(2)
proof (induction replicas rule: rev_induct)
  case Nil
  then show ?case by (auto simp: held_at_Cons newest_def held_at_def split: option.splits)
next
  case (snoc r rs)
  let ?m = "merge_all rs start" and ?S = "held_at (start # rs) k"
  have get: "bt_get (merge_all (rs @ [r]) start) k = pick (bt_get ?m k) (bt_get r k)"
    using snoc.prems by (simp add: bt_get_merge)
  have S: "held_at (start # rs @ [r]) k = (case bt_get r k of None \<Rightarrow> ?S | Some d \<Rightarrow> insert d ?S)"
    using held_at_snoc [of "start # rs" r k] held_at_Cons [of r "start # rs" k] by simp
  have IH: "case bt_get ?m k of None \<Rightarrow> ?S = {} | Some c \<Rightarrow> newest ?S c" using snoc by simp
  show ?case
  proof (cases "bt_get r k")
    case None
    then show ?thesis using IH unfolding get S by (simp add: pick_def split: option.splits)
  next
    case (Some d)
    show ?thesis
    proof (cases "bt_get ?m k")
      case None
      then show ?thesis using IH Some unfolding get S by (simp add: pick_def newest_def)
    next
      case (Some c)
      then have "newest ?S c" using IH by simp
      moreover obtain e where "pick (Some c) (Some d) = Some e" by (simp add: pick_def)
      ultimately show ?thesis using newest_pick Some \<open>bt_get r k = Some d\<close> unfolding get S by fastforce
    qed
  qed
qed

lemma newest_unique:
  assumes "one_history U" "list_all (drawn_from U) ms" "newest (held_at ms k) c" "newest (held_at ms k) d"
  shows "c = d"
proof -
  have "(k, c) \<in> U" "(k, d) \<in> U"
    using assms(2-4) by (auto simp: newest_def held_at_def drawn_from_def list_all_iff)
  moreover have "cc_clock c = cc_clock d" "cc_node c = cc_node d"
    using assms(3,4) by (force simp: newest_def)+
  ultimately show ?thesis using assms(1) by (auto simp: one_history_def)
qed

lemma merge_all_get_iff:
  assumes "one_history U" "list_all (drawn_from U) (start # replicas)"
  shows "bt_get (merge_all replicas start) k = Some c \<longleftrightarrow> newest (held_at (start # replicas) k) c"
proof -
  have "bt_wf start" "list_all bt_wf replicas" using assms(2) by (auto simp: drawn_from_def list_all_iff)
  note merged = merge_all_newest [OF this, of k]
  show ?thesis
  proof (cases "bt_get (merge_all replicas start) k")
    case None
    then show ?thesis using merged by (simp add: newest_def)
  next
    case (Some d)
    then have "newest (held_at (start # replicas) k) d" using merged by simp
    then show ?thesis using Some newest_unique [OF assms] by auto
  qed
qed

section \<open>Telemetry\<close>

definition true_tokens :: "token_telemetry_event \<Rightarrow> nat" where
  "true_tokens e = unat (te_startup_tokens e) + unat (te_hydration_tokens e) +
     unat (te_retrieval_tokens e) + unat (te_response_tokens e)"

abbreviation cap32 :: "nat \<Rightarrow> nat" where
  "cap32 n \<equiv> min (2 ^ 32 - 1) n"

lemma unat_total_tokens: "unat (total_tokens e) = cap32 (true_tokens e)"
  by (simp add: total_tokens_def true_tokens_def rust_simps)

definition mode_tokens :: "string \<Rightarrow> token_telemetry_event list \<Rightarrow> nat" where
  "mode_tokens m events = sum_list (map true_tokens (filter (\<lambda>e. mode_as_str (te_mode e) = m) events))"

lemma fold_add_event:
  assumes "fold add_event events (t, m) = (t', m')"
  shows "unat t' = cap32 (unat t + sum_list (map true_tokens events))"
    and "(case bt_get m' k of Some n \<Rightarrow> unat n | None \<Rightarrow> 0) =
       cap32 ((case bt_get m k of Some n \<Rightarrow> unat n | None \<Rightarrow> 0) + mode_tokens k events)"
proof -
  have le: "unat x \<le> 2 ^ 32 - 1" for x :: u32 using unsigned_less [of x, where ?'a = nat] by simp
  show "unat t' = cap32 (unat t + sum_list (map true_tokens events))"
    using assms
  proof (induction events arbitrary: t m)
    case Nil
    then show ?case using le [of t] by simp
  next
    case (Cons e events)
    then show ?case
      using Cons.IH [of "saturating_add t (total_tokens e)"]
      by (auto simp: add_event_def Let_def unat_total_tokens rust_simps min_def)
  qed
  show "(case bt_get m' k of Some n \<Rightarrow> unat n | None \<Rightarrow> 0) =
       cap32 ((case bt_get m k of Some n \<Rightarrow> unat n | None \<Rightarrow> 0) + mode_tokens k events)"
    using assms
  proof (induction events arbitrary: t m)
    case Nil
    then show ?case
      using le [of "the (bt_get m k)"] by (cases "bt_get m k") (simp_all add: mode_tokens_def)
  next
    case (Cons e events)
    let ?key = "mode_as_str (te_mode e)"
    let ?m = "bt_insert ?key (saturating_add (case bt_get m ?key of Some n \<Rightarrow> n | None \<Rightarrow> 0) (total_tokens e)) m"
    have "fold add_event events (saturating_add t (total_tokens e), ?m) = (t', m')"
      using Cons.prems by (simp add: add_event_def [of e] Let_def)
    from Cons.IH [OF this] show ?case
      by (auto simp: mode_tokens_def bt_get_insert unat_total_tokens rust_simps min_def split: option.splits)
  qed
qed

section \<open>Annotations\<close>

lemma dedupe_ordered_facts: "set (dedupe_ordered xs) = set xs" "distinct (dedupe_ordered xs)"
proof -
  have "set (fold (\<lambda>item out. if item \<in> set out then out else out @ [item]) xs out) = set out \<union> set xs \<and>
      (distinct out \<longrightarrow> distinct (fold (\<lambda>item out. if item \<in> set out then out else out @ [item]) xs out))" for out
    by (induction xs arbitrary: out) auto
  from this [of "[]"] show "set (dedupe_ordered xs) = set xs" "distinct (dedupe_ordered xs)"
    by (simp_all add: dedupe_ordered_def)
qed

definition annotation_wf :: "lensmap_annotation \<Rightarrow> bool" where
  "annotation_wf a \<longleftrightarrow>
     distinct (la_tags a) \<and> distinct (la_nodes a) \<and> distinct (la_jots a) \<and>
     length (la_tags a) \<le> 32 \<and> length (la_nodes a) \<le> 32 \<and> length (la_jots a) \<le> 32 \<and>
     la_tags a @ la_nodes a @ la_jots a \<noteq> [] \<and>
     list_all token_is_valid (la_tags a @ la_nodes a @ la_jots a)"

lemma parse_annotation_wf:
  "lv_annotation (parse_lensmap_annotation raw) = Some a \<Longrightarrow> annotation_wf a"
  by (auto simp: parse_lensmap_annotation_def Let_def annotation_rejected_def check_fields_def
      annotation_wf_def FIELD_MAX_COUNT_def dedupe_ordered_facts list_all_iff filter_empty_conv
      split: if_splits)

lemma add_nodes_facts:
  assumes "add_nodes idx nodes seen errors = (seen', errors')"
  shows "\<exists>more. errors' = errors @ more \<and>
     (more = [] \<longrightarrow> distinct nodes \<and> set nodes \<inter> set seen = {} \<and> set seen' = set nodes \<union> set seen)"
  using assms
proof (induction nodes arbitrary: seen errors)
  case (Cons node nodes)
  show ?case
  proof (cases "node \<in> set seen")
    case True
    then show ?thesis using Cons.IH [of seen "errors @ [line_error idx (''duplicate_node:'' @ node)]"] Cons.prems
      by auto
  next
    case False
    then show ?thesis using Cons.IH [of "node # seen" errors] Cons.prems by auto
  qed
qed simp

lemma validate_lines_errors:
  "validate_lines idx lines seen errors anns = (errors', anns') \<Longrightarrow> \<exists>more. errors' = errors @ more"
proof (induction lines arbitrary: idx seen errors anns)
  case (Cons line lines)
  let ?p = "parse_lensmap_annotation (from_marker ''@lensmap'' line)"
  show ?case
  proof (cases "str_contains line ''@lensmap''")
    case True
    show ?thesis
    proof (cases "if lv_ok ?p then lv_annotation ?p else None")
      case None
      then show ?thesis using Cons True by (fastforce simp: Let_def)
    next
      case (Some ann)
      obtain seen' e' where n: "add_nodes idx (la_nodes ann) seen errors = (seen', e')" by force
      then obtain more where "e' = errors @ more" using add_nodes_facts by blast
      then show ?thesis
        using Cons.IH [of "Suc idx" seen' e' "anns @ [ann]"] Cons.prems True Some n by (auto simp: Let_def)
    qed
  qed (use Cons in auto)
qed simp

lemma validate_lines_wf:
  "validate_lines idx lines seen errors anns = (errors', anns') \<Longrightarrow> list_all annotation_wf anns \<Longrightarrow>
     list_all annotation_wf anns'"
proof (induction lines arbitrary: idx seen errors anns)
  case (Cons line lines)
  let ?p = "parse_lensmap_annotation (from_marker ''@lensmap'' line)"
  show ?case
  proof (cases "str_contains line ''@lensmap''")
    case True
    show ?thesis
    proof (cases "if lv_ok ?p then lv_annotation ?p else None")
      case None
      then show ?thesis using Cons True by (auto simp: Let_def)
    next
      case (Some ann)
      then have wf: "annotation_wf ann" by (auto intro: parse_annotation_wf split: if_splits)
      obtain seen' e' where n: "add_nodes idx (la_nodes ann) seen errors = (seen', e')" by force
      then show ?thesis
        using Cons.IH [of "Suc idx" seen' e' "anns @ [ann]"] Cons.prems True Some wf by (auto simp: Let_def)
    qed
  qed (use Cons in auto)
qed simp

lemma validate_lines_distinct:
  "validate_lines idx lines seen errors anns = ([], anns') \<Longrightarrow> distinct (concat (map la_nodes anns)) \<Longrightarrow>
     set (concat (map la_nodes anns)) = set seen \<Longrightarrow> distinct (concat (map la_nodes anns'))"
proof (induction lines arbitrary: idx seen errors anns)
  case (Cons line lines)
  let ?p = "parse_lensmap_annotation (from_marker ''@lensmap'' line)"
  show ?case
  proof (cases "str_contains line ''@lensmap''")
    case True
    show ?thesis
    proof (cases "if lv_ok ?p then lv_annotation ?p else None")
      case None
      then show ?thesis using Cons True by (auto simp: Let_def)
    next
      case (Some ann)
      obtain seen' e' where n: "add_nodes idx (la_nodes ann) seen errors = (seen', e')" by force
      have rest: "validate_lines (Suc idx) lines seen' e' (anns @ [ann]) = ([], anns')"
        using Cons.prems(1) True Some n by (simp add: Let_def)
      then have "e' = []" using validate_lines_errors by fastforce
      then have "distinct (la_nodes ann) \<and> set (la_nodes ann) \<inter> set seen = {} \<and>
          set seen' = set (la_nodes ann) \<union> set seen"
        using add_nodes_facts [OF n] by auto
      then show ?thesis using Cons.IH [OF rest] Cons.prems(2,3) by auto
    qed
  qed (use Cons in auto)
qed simp

section \<open>Properties\<close>

text \<open>C9: replicas converge to the last writes. When the cells of all replicas come from one history (a
  clock value and a node identify one write to a key), merging two replicas is commutative, associative and
  idempotent. A replica that merges any collection of others holds under each key exactly the newest cell
  that it or one of them had, the one with the highest clock and among those the highest node, so it is the
  same map whatever the order in which they arrive, and merging one of them again changes nothing.\<close>

theorem crdt_replicas_converge:
  assumes "one_history U" and "drawn_from U start" and "list_all (drawn_from U) replicas"
    and "mset replicas = mset replicas'"
    and "drawn_from U a" and "drawn_from U b" and "drawn_from U c"
  shows "crdt_merge a b = crdt_merge b a \<and>
     crdt_merge (crdt_merge a b) c = crdt_merge a (crdt_merge b c) \<and>
     crdt_merge a a = a \<and>
     (bt_get (fold (\<lambda>r m. crdt_merge m r) replicas start) k = Some cell \<longleftrightarrow>
        (\<exists>m \<in> set (start # replicas). bt_get m k = Some cell) \<and>
        (\<forall>m \<in> set (start # replicas). \<forall>d. bt_get m k = Some d \<longrightarrow>
           cc_clock d < cc_clock cell \<or> cc_clock d = cc_clock cell \<and> cc_node d \<le> cc_node cell)) \<and>
     fold (\<lambda>r m. crdt_merge m r) replicas start = fold (\<lambda>r m. crdt_merge m r) replicas' start \<and>
     list_all (\<lambda>r. crdt_merge (fold (\<lambda>r m. crdt_merge m r) replicas start) r =
       fold (\<lambda>r m. crdt_merge m r) replicas start) replicas"
proof (intro conjI)
  have all: "drawn_from U r" if "r \<in> set replicas" for r using that assms(3) by (simp add: list_all_iff)
  have wf: "bt_wf a" "bt_wf b" "bt_wf c" using assms(5-7) by (simp_all add: drawn_from_def)
  show "crdt_merge a b = crdt_merge b a" using assms by (intro crdt_merge_commute)
  show "crdt_merge (crdt_merge a b) c = crdt_merge a (crdt_merge b c)" using wf by (rule crdt_merge_assoc)
  show "crdt_merge a a = a" using wf(1)
    by (intro bt_ext) (auto simp: bt_get_merge pick_def split: option.splits)
  have "bt_get (merge_all replicas start) k = Some cell \<longleftrightarrow> newest (held_at (start # replicas) k) cell"
    using assms(1-3) by (intro merge_all_get_iff) simp_all
  then show "bt_get (merge_all replicas start) k = Some cell \<longleftrightarrow>
      (\<exists>m \<in> set (start # replicas). bt_get m k = Some cell) \<and>
      (\<forall>m \<in> set (start # replicas). \<forall>d. bt_get m k = Some d \<longrightarrow>
         cc_clock d < cc_clock cell \<or> cc_clock d = cc_clock cell \<and> cc_node d \<le> cc_node cell)"
    unfolding newest_def held_at_def by blast
  show "merge_all replicas start = merge_all replicas' start"
    by (rule fold_permuted_eq [where P = "drawn_from U"])
      (use assms all crdt_merge_swap drawn_from_merge in auto)
  show "list_all (\<lambda>r. crdt_merge (merge_all replicas start) r = merge_all replicas start) replicas"
    unfolding list_all_iff using merge_all_absorbs [OF assms(1,3,2)] by blast
qed

theorem crdt_replicas_converge_witness:
  "let a = [(''t'', \<lparr>cc_value = ''x'', cc_clock = 1, cc_node = ''n1''\<rparr>)];
       b = [(''t'', \<lparr>cc_value = ''y'', cc_clock = 2, cc_node = ''n2''\<rparr>)]
   in crdt_merge (crdt_merge [] a) b = crdt_merge (crdt_merge [] b) a \<and>
      bt_get (crdt_merge (crdt_merge [] a) b) ''t'' =
        Some \<lparr>cc_value = ''y'', cc_clock = 2, cc_node = ''n2''\<rparr>"
proof -
  let ?a = "[(''t'', \<lparr>cc_value = ''x'', cc_clock = 1, cc_node = ''n1''\<rparr>)]"
    and ?b = "[(''t'', \<lparr>cc_value = ''y'', cc_clock = 2, cc_node = ''n2''\<rparr>)]"
  let ?U = "set ?a \<union> set ?b"
  have h: "one_history ?U" by (auto simp: one_history_def)
  have d: "drawn_from ?U []" "drawn_from ?U ?a" "drawn_from ?U ?b"
    by (auto simp: drawn_from_def bt_wf_def bt_keys_def split: if_splits)
  have all: "list_all (drawn_from ?U) [?a, ?b]" "mset [?a, ?b] = mset [?b, ?a]" using d by simp_all
  note r = crdt_replicas_converge [OF h d(1) all d(2,3,2), of "''t''" "snd (hd ?b)"]
  have "bt_get (fold (\<lambda>r m. crdt_merge m r) [?a, ?b] []) ''t'' = Some (snd (hd ?b))"
    by (rule r [THEN conjunct2, THEN conjunct2, THEN conjunct2, THEN conjunct1, THEN iffD2]) simp
  moreover have "fold (\<lambda>r m. crdt_merge m r) [?a, ?b] [] = fold (\<lambda>r m. crdt_merge m r) [?b, ?a] []"
    using r by blast
  ultimately show ?thesis by simp
qed

text \<open>The recall budget is respected. Unless a configured maximum is zero the decision exists; a
  request over budget is refused in reject mode, and otherwise the effective numbers lie within the
  maxima, at least one file and one result, and are the requested ones whenever those are within bounds
  and positive.\<close>

lemma recall_budget_respected:
  assumes "0 < ri_max_top input" and "0 < ri_max_files input"
  shows "\<exists>d. enforce_recall_budget input = Some d \<and>
     (rd_ok d \<longleftrightarrow> \<not> (recall_exceeds input \<and> ri_mode input = Reject)) \<and>
     rd_effective_top d \<le> ri_max_top input \<and> 1 \<le> rd_effective_top d \<and>
     rd_effective_max_files d \<le> ri_max_files input \<and> 1 \<le> rd_effective_max_files d \<and>
     rd_effective_expand_lines d \<le> ri_max_expand_lines input \<and>
     (\<not> recall_exceeds input \<longrightarrow>
        rd_effective_top d = max 1 (ri_requested_top input) \<and>
        rd_effective_max_files d = max 1 (ri_requested_max_files input) \<and>
        rd_effective_expand_lines d = ri_requested_expand_lines input)"
  using assms
  by (auto simp: enforce_recall_budget_def clamp_checked_def recall_exceeds_def clamp_def Let_def)

lemma recall_budget_respected_witness:
  "\<exists>d. enforce_recall_budget \<lparr>ri_requested_top = 90, ri_requested_max_files = 0, ri_requested_expand_lines = 5,
       ri_mode = Trim, ri_max_top = 50, ri_max_files = 20, ri_max_expand_lines = 300\<rparr> = Some d \<and>
     rd_effective_top d \<le> 50"
  using recall_budget_respected [of "\<lparr>ri_requested_top = 90, ri_requested_max_files = 0,
      ri_requested_expand_lines = 5, ri_mode = Trim, ri_max_top = 50, ri_max_files = 20,
      ri_max_expand_lines = 300\<rparr>"]
  by auto

text \<open>A configured maximum of zero makes the decision panic unless the request is refused outright.\<close>

lemma recall_zero_maximum_panics:
  assumes "ri_max_top input = 0 \<or> ri_max_files input = 0"
  shows "enforce_recall_budget input = None \<longleftrightarrow> \<not> (recall_exceeds input \<and> ri_mode input = Reject)"
  using assms by (auto simp: enforce_recall_budget_def clamp_checked_def Let_def)

text \<open>The telemetry summary is exact up to saturation. The total is the true number of tokens of all
  events, capped at the largest 32-bit value, in whatever order the events come, and each mode's entry
  is the capped number of tokens of the events of that mode.\<close>

lemma telemetry_summary_exact:
  "unat (ts_total_tokens (summarize events)) = min (2 ^ 32 - 1) (sum_list (map true_tokens events)) \<and>
   (case bt_get (ts_by_mode (summarize events)) m of Some n \<Rightarrow> unat n | None \<Rightarrow> 0) =
     min (2 ^ 32 - 1) (sum_list (map true_tokens (filter (\<lambda>e. mode_as_str (te_mode e) = m) events)))"
proof -
  obtain t b where f: "fold add_event events (0, []) = (t, b)" by force
  show ?thesis
    using fold_add_event(1) [OF f] fold_add_event(2) [OF f, of m]
    by (simp add: summarize_def f mode_tokens_def)
qed

text \<open>A lens-map document that validates is well formed. Every annotation it yields has distinct,
  valid, at most 32 tags, nodes and jots and is not empty, and no node is annotated twice in the whole
  document; at least one annotation is present.\<close>

lemma lensmap_document_wf:
  assumes "ld_ok (validate_lensmap_document raw)"
  shows "list_all annotation_wf (ld_annotations (validate_lensmap_document raw)) \<and>
     distinct (concat (map la_nodes (ld_annotations (validate_lensmap_document raw)))) \<and>
     0 < ld_annotation_count (validate_lensmap_document raw)"
proof -
  obtain errors anns where v: "validate_lines 0 (rust_lines raw) [] [] [] = (errors, anns)" by force
  have "errors = []" "anns \<noteq> []" using assms by (simp_all add: validate_lensmap_document_def v split: if_splits)
  then show ?thesis
    using validate_lines_wf [OF v] validate_lines_distinct [of 0 "rust_lines raw" "[]" "[]" "[]" anns] v
    by (simp add: validate_lensmap_document_def)
qed

lemma lensmap_document_wf_witness:
  "0 < ld_annotation_count (validate_lensmap_document ''x @lensmap tags=a nodes=n1,n2'')"
proof -
  have "ld_ok (validate_lensmap_document ''x @lensmap tags=a nodes=n1,n2'')" by code_simp
  from lensmap_document_wf [OF this] show ?thesis by blast
qed

text \<open>Two cells with one clock and one node but different values do not commute.\<close>

lemma same_stamp_not_commutative:
  "crdt_merge [(''t'', \<lparr>cc_value = ''x'', cc_clock = 1, cc_node = ''n''\<rparr>)]
     [(''t'', \<lparr>cc_value = ''y'', cc_clock = 1, cc_node = ''n''\<rparr>)] \<noteq>
   crdt_merge [(''t'', \<lparr>cc_value = ''y'', cc_clock = 1, cc_node = ''n''\<rparr>)]
     [(''t'', \<lparr>cc_value = ''x'', cc_clock = 1, cc_node = ''n''\<rparr>)]"
  by (simp add: crdt_merge_def merge_entry_def take_incoming_def)

end
