(* ===== verification/Spine_Authority.thy ===== *)
theory Spine_Authority
  imports Sample_Libs
begin

text \<open>
  The spine of layer 2, \<^verbatim>\<open>core/layer2/spine/src/authority.rs\<close> and \<^verbatim>\<open>spine.rs\<close>: the evidence run plan,
  the background scheduler and the idle scheduler. Files are a map from paths to contents that the
  schedulers read and write; a write can fail, which the code ignores. The record \<open>spine_env\<close> holds
  what the code takes from libraries and the platform: the JSON reader and the indented printer, which
  paths can be written, and reading and printing RFC 3339 times. Times are nanoseconds since the epoch.
  One call reads the clock four times (\<open>spine_clock\<close>): the local hour, the time for the elapsed minutes,
  and twice the time that is printed. Printing a JSON value does not fail, so the fallback texts of
  the sources are never used.
\<close>

section \<open>Environment\<close>

record spine_env =
  sn_parse :: "string \<Rightarrow> json option"
  sn_pretty :: "json \<Rightarrow> string"
  sn_writable :: "string \<Rightarrow> bool"
  sn_parse_ts :: "string \<Rightarrow> int option"
  sn_show_ts :: "nat \<Rightarrow> string"

record spine_clock =
  sk_hour :: nat
  sk_since :: nat
  sk_now :: nat
  sk_ts :: nat

section \<open>Helpers\<close>

definition spine_hash :: "libs \<Rightarrow> json \<Rightarrow> string" where
  "spine_hash L payload = sha256_hex L (json_to_string L payload)"

definition spine_receipt :: "libs \<Rightarrow> json \<Rightarrow> json" where
  "spine_receipt L out = json_set ''receipt_hash'' (JStr (spine_hash L out)) out"

definition spine_contract_receipt :: "libs \<Rightarrow> string \<Rightarrow> string \<Rightarrow> u64 option \<Rightarrow> json" where
  "spine_contract_receipt L mode date max_eyes =
     spine_receipt L (json_object
       [(''ok'', JBool True), (''type'', JStr ''spine_contract_receipt''),
        (''authority'', JStr ''core/layer2/spine''), (''mode'', JStr mode), (''date'', JStr date),
        (''max_eyes'', case max_eyes of Some n \<Rightarrow> json_word n | None \<Rightarrow> JNull)])"

fun trim_start_dashes :: "string \<Rightarrow> string" where
  "trim_start_dashes (a # b # s) =
     (if a = CHR ''-'' \<and> b = CHR ''-'' then trim_start_dashes s else a # b # s)"
| "trim_start_dashes s = s"

definition parse_arg ::
  "string \<Rightarrow> string list \<times> (string, string) btree \<Rightarrow> string list \<times> (string, string) btree" where
  "parse_arg token acc =
     (let text = trim token; (positional, flags) = acc
      in if \<not> starts_with text ''--'' then (positional @ [text], flags)
         else
           (case split_once (CHR ''='') text of
              Some (k, v) \<Rightarrow> (positional, bt_insert (trim_start_dashes k) v flags)
            | None \<Rightarrow> (positional, bt_insert (trim_start_dashes text) ''true'' flags)))"

definition parse_args :: "string list \<Rightarrow> string list \<times> (string, string) btree" where
  "parse_args raw = fold parse_arg raw ([], [])"

definition clean_token :: "string option \<Rightarrow> nat \<Rightarrow> string" where
  "clean_token v max_len = take max_len (trim (unwrap_or v []))"

definition parse_bool :: "string option \<Rightarrow> bool \<Rightarrow> bool" where
  "parse_bool v fallback =
     (case v of
        None \<Rightarrow> fallback
      | Some raw \<Rightarrow>
          (let t = to_ascii_lowercase (trim raw)
           in if t \<in> {''1'', ''true'', ''yes'', ''on''} then True
              else if t \<in> {''0'', ''false'', ''no'', ''off''} then False
              else fallback))"

definition clamp_i64 :: "int option \<Rightarrow> int \<Rightarrow> int \<Rightarrow> int \<Rightarrow> int" where
  "clamp_i64 v lo hi fallback =
     (case v of
        None \<Rightarrow> fallback
      | Some n \<Rightarrow> (let n1 = (if n < lo then lo else n) in if n1 > hi then hi else n1))"

definition read_json :: "spine_env \<Rightarrow> files \<Rightarrow> string \<Rightarrow> json option" where
  "read_json E fs path = Option.bind (fs path) (sn_parse E)"

definition fs_write :: "spine_env \<Rightarrow> string \<Rightarrow> string \<Rightarrow> files \<Rightarrow> files" where
  "fs_write E path body fs = (if sn_writable E path then fs(path \<mapsto> body) else fs)"

abbreviation nl :: string where
  "nl \<equiv> [CHR 0x0A]"

definition write_json :: "spine_env \<Rightarrow> string \<Rightarrow> json \<Rightarrow> files \<Rightarrow> files" where
  "write_json E path v fs = fs_write E path (sn_pretty E v @ nl) fs"

definition append_jsonl :: "spine_env \<Rightarrow> libs \<Rightarrow> string \<Rightarrow> json \<Rightarrow> files \<Rightarrow> files" where
  "append_jsonl E L path v fs = fs_write E path (unwrap_or (fs path) [] @ json_to_string L v @ nl) fs"

definition resolve_path :: "string \<Rightarrow> json option \<Rightarrow> string \<Rightarrow> string" where
  "resolve_path root raw default_rel =
     (case raw of
        Some (JStr text) \<Rightarrow> if trim text \<noteq> [] then path_join root (trim text) else path_join root default_rel
      | _ \<Rightarrow> path_join root default_rel)"

section \<open>The evidence run plan\<close>

definition normalize_pressure :: "string option \<Rightarrow> string" where
  "normalize_pressure raw =
     (let t = to_ascii_lowercase (trim (unwrap_or raw []))
      in if t = ''soft'' then ''soft'' else if t = ''hard'' then ''hard'' else ''none'')"

definition compute_evidence_run_plan :: "int option \<Rightarrow> string option \<Rightarrow> string option \<Rightarrow> json" where
  "compute_evidence_run_plan configured_runs_raw budget_pressure_raw projected_pressure_raw =
     (let configured_runs = clamp_i64 configured_runs_raw 0 6 2;
          budget_pressure = normalize_pressure budget_pressure_raw;
          projected_pressure = normalize_pressure projected_pressure_raw;
          pressure_throttle = (budget_pressure \<noteq> ''none'' \<or> projected_pressure \<noteq> ''none'');
          evidence_runs = (if pressure_throttle then min configured_runs 1 else configured_runs)
      in json_object
           [(''configured_runs'', JInt configured_runs), (''budget_pressure'', JStr budget_pressure),
            (''projected_pressure'', JStr projected_pressure),
            (''pressure_throttle'', JBool pressure_throttle), (''evidence_runs'', JInt evidence_runs)])"

definition run_evidence_run_plan :: "libs \<Rightarrow> string list \<Rightarrow> int \<times> json" where
  "run_evidence_run_plan L args =
     (let flags = snd (parse_args args);
          configured_runs = Option.bind (bt_get flags ''configured-runs'') parse_i64
      in (0, spine_receipt L (json_object
           [(''ok'', JBool True), (''type'', JStr ''spine_evidence_run_plan''),
            (''authority'', JStr ''core/layer2/spine''),
            (''plan'', compute_evidence_run_plan configured_runs (bt_get flags ''budget-pressure'')
               (bt_get flags ''projected-pressure''))])))"

section \<open>Shared parts of the schedulers\<close>

definition in_quiet_hours :: "nat \<Rightarrow> int \<Rightarrow> int \<Rightarrow> bool" where
  "in_quiet_hours hour start end' =
     (if start = end' then False
      else if start < end' then start \<le> int hour \<and> int hour < end'
      else start \<le> int hour \<or> int hour < end')"

definition I64_MAX :: int where
  "I64_MAX = 2 ^ 63 - 1"

definition minutes_since :: "spine_env \<Rightarrow> nat \<Rightarrow> string option \<Rightarrow> int" where
  "minutes_since E now ts =
     (case ts of
        None \<Rightarrow> I64_MAX
      | Some raw \<Rightarrow>
          (case sn_parse_ts E raw of
             None \<Rightarrow> I64_MAX
           | Some dt \<Rightarrow> max 0 ((int now - dt) div 60000000000)))"

definition scheduler_command :: "string list \<Rightarrow> string" where
  "scheduler_command positional =
     (case positional of [] \<Rightarrow> ''status'' | c # _ \<Rightarrow> to_ascii_lowercase c)"

definition scheduler_owner :: "(string, string) btree \<Rightarrow> string" where
  "scheduler_owner flags =
     clean_token (case bt_get flags ''owner'' of Some v \<Rightarrow> Some v | None \<Rightarrow> bt_get flags ''owner_id'') 120"

definition missing_owner :: "libs \<Rightarrow> string \<Rightarrow> json" where
  "missing_owner L type_name = spine_receipt L (json_object
     [(''ok'', JBool False), (''type'', JStr type_name), (''error'', JStr ''missing_owner''),
      (''authority'', JStr ''core/layer2/spine'')])"

record scheduler_paths =
  ph_policy :: string
  ph_events :: string
  ph_latest :: string
  ph_receipts :: string
  ph_state :: string

definition policy_paths :: "json \<Rightarrow> json" where
  "policy_paths policy = unwrap_or (json_get policy ''paths'') (json_object [])"

definition load_policy :: "spine_env \<Rightarrow> files \<Rightarrow> string \<Rightarrow> json" where
  "load_policy E fs path = unwrap_or (read_json E fs path) (json_object [])"

definition publish :: "spine_env \<Rightarrow> libs \<Rightarrow> scheduler_paths \<Rightarrow> json \<Rightarrow> files \<Rightarrow> files" where
  "publish E L p out fs =
     write_json E (ph_latest p) out
       (append_jsonl E L (ph_receipts p) out (append_jsonl E L (ph_events p) out fs))"

section \<open>The background scheduler\<close>

definition background_paths :: "spine_env \<Rightarrow> files \<Rightarrow> string \<Rightarrow> (string, string) btree \<Rightarrow> scheduler_paths" where
  "background_paths E fs root flags =
     (let policy_path = unwrap_or (bt_get flags ''policy'')
            (path_join root ''client/runtime/config/background_hands_scheduler_policy.json'');
          paths = policy_paths (load_policy E fs policy_path)
      in \<lparr>ph_policy = policy_path,
          ph_events = resolve_path root (json_get paths ''events_path'')
            ''local/state/spine/background_hands/events.jsonl'',
          ph_latest = resolve_path root (json_get paths ''latest_path'')
            ''local/state/spine/background_hands/latest.json'',
          ph_receipts = resolve_path root (json_get paths ''receipts_path'')
            ''local/state/spine/background_hands/receipts.jsonl'',
          ph_state = []\<rparr>)"

definition run_background_hands_scheduler ::
  "spine_env \<Rightarrow> libs \<Rightarrow> spine_clock \<Rightarrow> string \<Rightarrow> string list \<Rightarrow> files \<Rightarrow> (int \<times> json) \<times> files" where
  "run_background_hands_scheduler E L clk root args fs =
     (let (positional, flags) = parse_args args;
          command = scheduler_command positional;
          p = background_paths E fs root flags;
          owner = scheduler_owner flags;
          task = clean_token (bt_get flags ''task'') 120;
          cadence = clean_token (bt_get flags ''cadence'') 64
      in if command = ''status'' then
           ((0, spine_receipt L (json_object
              [(''ok'', JBool True), (''type'', JStr ''background_hands_scheduler_status''),
               (''authority'', JStr ''core/layer2/spine''), (''policy_path'', JStr (ph_policy p)),
               (''latest'', unwrap_or (read_json E fs (ph_latest p)) JNull)])), fs)
         else if owner = [] then ((1, missing_owner L ''background_hands_scheduler_error''), fs)
         else
           let out = spine_receipt L (json_object
                 [(''ok'', JBool True), (''type'', JStr ''background_hands_scheduler_receipt''),
                  (''authority'', JStr ''core/layer2/spine''),
                  (''event'', JStr (if command = ''configure'' then ''background_hand_configure''
                                    else ''background_hand_schedule'')),
                  (''owner_id'', JStr owner), (''task'', JStr (if task = [] then ''queue_gc'' else task)),
                  (''cadence'', JStr (if cadence = [] then ''hourly'' else cadence)),
                  (''risk_tier'', JInt (unwrap_or (Option.bind (bt_get flags ''risk-tier'') parse_i64) 2)),
                  (''ts'', JStr (sn_show_ts E (sk_ts clk)))])
           in ((0, out), publish E L p out fs))"

section \<open>The idle scheduler\<close>

definition rsi_paths :: "spine_env \<Rightarrow> files \<Rightarrow> string \<Rightarrow> (string, string) btree \<Rightarrow> scheduler_paths" where
  "rsi_paths E fs root flags =
     (let policy_path = unwrap_or (bt_get flags ''policy'')
            (path_join root ''client/runtime/config/rsi_idle_hands_scheduler_policy.json'');
          paths = policy_paths (load_policy E fs policy_path)
      in \<lparr>ph_policy = policy_path,
          ph_events = resolve_path root (json_get paths ''events_path'')
            ''local/state/spine/rsi_idle_hands_scheduler/events.jsonl'',
          ph_latest = resolve_path root (json_get paths ''latest_path'')
            ''local/state/spine/rsi_idle_hands_scheduler/latest.json'',
          ph_receipts = resolve_path root (json_get paths ''receipts_path'')
            ''local/state/spine/rsi_idle_hands_scheduler/receipts.jsonl'',
          ph_state = resolve_path root (json_get paths ''scheduler_state_path'')
            ''local/state/spine/rsi_idle_hands_scheduler/state.json''\<rparr>)"

definition rsi_initial_state :: json where
  "rsi_initial_state = json_object
     [(''schema_id'', JStr ''rsi_idle_hands_scheduler_state''), (''schema_version'', JStr ''1.0''),
      (''runs'', JInt 0), (''updated_at'', JNull), (''last_run_at'', JNull), (''last_ok'', JNull),
      (''suppressed_quiet_hours'', JInt 0), (''last_result'', JNull)]"

record rsi_decision =
  rk_strict :: bool
  rk_apply :: bool
  rk_min_interval :: int
  rk_quiet :: bool
  rk_since :: int
  rk_throttled :: bool
  rk_suppressed :: bool
  rk_run_ok :: bool

definition rsi_decide :: "spine_env \<Rightarrow> spine_clock \<Rightarrow> json \<Rightarrow> (string, string) btree \<Rightarrow> json \<Rightarrow> rsi_decision" where
  "rsi_decide E clk policy flags state =
     (let strict_default = unwrap_or (Option.bind (json_get policy ''strict_default'') as_bool) True;
          strict = parse_bool (bt_get flags ''strict'') strict_default;
          apply = parse_bool (bt_get flags ''apply'') False;
          force = parse_bool (bt_get flags ''force'') False;
          quiet_start = unwrap_or (Option.bind (json_get policy ''quiet_hours_start'') as_i64) 23;
          quiet_end = unwrap_or (Option.bind (json_get policy ''quiet_hours_end'') as_i64) 8;
          min_interval = clamp_i64
            (case Option.bind (bt_get flags ''interval-minutes'') parse_i64 of
               Some n \<Rightarrow> Some n
             | None \<Rightarrow> Option.bind (json_get policy ''min_interval_minutes'') as_i64) 1 (24 * 60) 15;
          quiet = in_quiet_hours (sk_hour clk) quiet_start quiet_end;
          since = minutes_since E (sk_since clk) (Option.bind (json_get state ''last_run_at'') as_str);
          throttled = (since < min_interval);
          suppressed = (\<not> force \<and> (quiet \<or> throttled));
          gate_ok = True; scheduler_ok = True; rsi_ok = True
      in \<lparr>rk_strict = strict, rk_apply = apply, rk_min_interval = min_interval, rk_quiet = quiet,
          rk_since = since, rk_throttled = throttled, rk_suppressed = suppressed,
          rk_run_ok = (gate_ok \<and> (suppressed \<or> (scheduler_ok \<and> rsi_ok)))\<rparr>)"

definition rsi_next_state :: "string \<Rightarrow> string \<Rightarrow> rsi_decision \<Rightarrow> json \<Rightarrow> json" where
  "rsi_next_state now owner d state =
     (let runs = i64_wrap (unwrap_or (Option.bind (json_get state ''runs'') as_i64) 0 +
            (if rk_suppressed d then 0 else 1));
          suppressed_quiet_hours = i64_wrap
            (unwrap_or (Option.bind (json_get state ''suppressed_quiet_hours'') as_i64) 0 +
             (if rk_suppressed d \<and> rk_quiet d then 1 else 0))
      in json_object
           [(''schema_id'', JStr ''rsi_idle_hands_scheduler_state''), (''schema_version'', JStr ''1.0''),
            (''runs'', JInt runs), (''updated_at'', JStr now),
            (''last_run_at'', if rk_suppressed d then unwrap_or (json_get state ''last_run_at'') JNull
                              else JStr now),
            (''last_ok'', JBool (rk_run_ok d)),
            (''suppressed_quiet_hours'', JInt suppressed_quiet_hours),
            (''last_result'', json_object
               [(''owner_id'', JStr owner), (''ts'', JStr now), (''suppressed'', JBool (rk_suppressed d)),
                (''quiet'', JBool (rk_quiet d)), (''throttled'', JBool (rk_throttled d)),
                (''gate_ok'', JBool True), (''run_ok'', JBool (rk_run_ok d))])])"

definition rsi_receipt :: "libs \<Rightarrow> string \<Rightarrow> string \<Rightarrow> rsi_decision \<Rightarrow> json \<Rightarrow> json" where
  "rsi_receipt L ts owner d state =
     (let out = json_object
            [(''ok'', JBool (rk_run_ok d \<or> \<not> rk_strict d)),
             (''type'', JStr ''rsi_idle_hands_scheduler_receipt''),
             (''authority'', JStr ''core/layer2/spine''), (''event'', JStr ''rsi_idle_hands_scheduler_run''),
             (''owner_id'', JStr owner), (''strict'', JBool (rk_strict d)), (''apply'', JBool (rk_apply d)),
             (''suppressed'', JBool (rk_suppressed d)), (''quiet_hours'', JBool (rk_quiet d)),
             (''throttled'', JBool (rk_throttled d)), (''min_interval_minutes'', JInt (rk_min_interval d)),
             (''minutes_since_last_run'', if rk_since d = I64_MAX then JNull else JInt (rk_since d)),
             (''gate_ok'', JBool True), (''scheduler_ok'', JBool True), (''rsi_ok'', JBool True),
             (''scheduler_state'', state), (''ts'', JStr ts)];
          out1 = (if rk_strict d \<and> \<not> rk_run_ok d
                  then json_set ''error'' (JStr ''rsi_idle_hands_scheduler_failed'')
                         (json_set ''ok'' (JBool False) out)
                  else out)
      in spine_receipt L out1)"

definition run_rsi_idle_hands_scheduler ::
  "spine_env \<Rightarrow> libs \<Rightarrow> spine_clock \<Rightarrow> string \<Rightarrow> string list \<Rightarrow> files \<Rightarrow> (int \<times> json) \<times> files" where
  "run_rsi_idle_hands_scheduler E L clk root args fs =
     (let (positional, flags) = parse_args args;
          command = scheduler_command positional;
          p = rsi_paths E fs root flags;
          policy = load_policy E fs (ph_policy p);
          state = unwrap_or (read_json E fs (ph_state p)) rsi_initial_state;
          owner = scheduler_owner flags
      in if command = ''status'' then
           ((0, spine_receipt L (json_object
              [(''ok'', JBool True), (''type'', JStr ''rsi_idle_hands_scheduler_status''),
               (''authority'', JStr ''core/layer2/spine''), (''scheduler_state'', state),
               (''policy_path'', JStr (ph_policy p))])), fs)
         else if owner = [] then ((1, missing_owner L ''rsi_idle_hands_scheduler_error''), fs)
         else
           let d = rsi_decide E clk policy flags state;
               state' = (if rk_apply d then rsi_next_state (sn_show_ts E (sk_now clk)) owner d state
                         else state);
               fs' = (if rk_apply d then write_json E (ph_state p) state' fs else fs);
               out = rsi_receipt L (sn_show_ts E (sk_ts clk)) owner d state';
               code = (if unwrap_or (Option.bind (json_get out ''ok'') as_bool) False then 0 else 1)
           in ((code, out), publish E L p out fs'))"

section \<open>Facts about files and receipts\<close>

lemma json_get_json_set:
  "json_get (json_set k v j) k' =
     (if k' = k \<and> (\<exists>m. j = JObj m) then Some v else json_get j k')"
  by (cases j) (auto simp: bt_get_insert)

lemma json_get_spine_receipt:
  "k \<noteq> ''receipt_hash'' \<Longrightarrow> json_get (spine_receipt L out) k = json_get out k"
  by (simp add: spine_receipt_def json_get_json_set)

lemma fs_write_other [simp]: "q \<noteq> path \<Longrightarrow> fs_write E path body fs q = fs q"
  by (simp add: fs_write_def)

lemma publish_other:
  "q \<notin> {ph_events p, ph_latest p, ph_receipts p} \<Longrightarrow> publish E L p out fs q = fs q"
  by (simp add: publish_def write_json_def append_jsonl_def)

lemma rsi_run_ok [simp]: "rk_run_ok (rsi_decide E clk policy flags state)"
  by (simp add: rsi_decide_def Let_def)

lemma rsi_receipt_get:
  "json_get (rsi_receipt L ts owner (rsi_decide E clk policy flags state) state') ''suppressed'' =
     Some (JBool (rk_suppressed (rsi_decide E clk policy flags state)))"
  "json_get (rsi_receipt L ts owner (rsi_decide E clk policy flags state) state') ''apply'' =
     Some (JBool (rk_apply (rsi_decide E clk policy flags state)))"
  "json_get (rsi_receipt L ts owner (rsi_decide E clk policy flags state) state') ''min_interval_minutes'' =
     Some (JInt (rk_min_interval (rsi_decide E clk policy flags state)))"
  by (simp_all add: rsi_receipt_def Let_def json_get_spine_receipt json_get_object)

text \<open>The law of the parser the scheduler relies on: a printed value is read back. It is stated for every value of the
  model, also for those that no parser returns (objects that are not sorted, floats that are not numbers).\<close>

definition json_reads_back :: "spine_env \<Rightarrow> bool" where
  "json_reads_back E \<longleftrightarrow> (\<forall>v. sn_parse E (sn_pretty E v @ nl) = Some v)"

text \<open>Publishing appends one line to the two journals and never drops one; the latest file is what the
  status command reads back.\<close>

lemma publish_journals:
  assumes "sn_writable E (ph_events p)" "sn_writable E (ph_receipts p)" "sn_writable E (ph_latest p)"
    and "distinct [ph_events p, ph_receipts p, ph_latest p]"
  shows "publish E L p out fs (ph_events p) = Some (unwrap_or (fs (ph_events p)) [] @ json_to_string L out @ nl)"
    and "publish E L p out fs (ph_receipts p) = Some (unwrap_or (fs (ph_receipts p)) [] @ json_to_string L out @ nl)"
    and "json_reads_back E \<Longrightarrow> read_json E (publish E L p out fs) (ph_latest p) = Some out"
  using assms by (auto simp: publish_def write_json_def append_jsonl_def fs_write_def read_json_def
      json_reads_back_def)

text \<open>The plan runs between zero and six evidence runs, and at most one under pressure.\<close>

lemma evidence_runs_bounded:
  "\<exists>n. json_get (compute_evidence_run_plan c b q) ''evidence_runs'' = Some (JInt n) \<and> 0 \<le> n \<and> n \<le> 6 \<and>
     (normalize_pressure b \<noteq> ''none'' \<or> normalize_pressure q \<noteq> ''none'' \<longrightarrow> n \<le> 1)"
  by (auto simp: compute_evidence_run_plan_def Let_def json_get_object clamp_i64_def split: option.splits)

text \<open>The three verdicts that strict mode would act on are constants, so with an owner the scheduler
  always reports success.\<close>

lemma idle_scheduler_never_fails:
  assumes "scheduler_owner (snd (parse_args args)) \<noteq> []"
  shows "fst (fst (run_rsi_idle_hands_scheduler E L clk root args fs)) = 0"
  using assms
  by (simp add: run_rsi_idle_hands_scheduler_def case_prod_unfold Let_def rsi_receipt_def
      json_get_spine_receipt json_get_object unwrap_or_def)

section \<open>Runners that stamp their last execution\<close>

text \<open>A runner keeps in its state the stamp of the last request it executed. As long as a later request
  is not executed the stamp stays, so what the runner compares with the clock is the time of the last
  execution, however many requests were refused since.\<close>

locale stamped_runner =
  fixes step :: "'s \<Rightarrow> 'r \<Rightarrow> 's" and executed :: "'s \<Rightarrow> 'r \<Rightarrow> bool" and last_stamp :: "'s \<Rightarrow> 'k option"
    and stamp :: "'r \<Rightarrow> 'k" and ok :: "'s \<Rightarrow> bool" and admissible :: "'r \<Rightarrow> bool"
  assumes ok_step: "ok s \<Longrightarrow> admissible r \<Longrightarrow> ok (step s r)"
    and last_step: "ok s \<Longrightarrow> admissible r \<Longrightarrow>
      last_stamp (step s r) = (if executed s r then Some (stamp r) else last_stamp s)"
begin

lemma ok_steps: "ok s \<Longrightarrow> list_all admissible rs \<Longrightarrow> ok (foldl step s rs)"
  by (induction rs arbitrary: s) (simp_all add: ok_step)

lemma last_idle:
  assumes "ok s" and "list_all admissible rs"
    and "\<And>i. i < length rs \<Longrightarrow> \<not> executed (foldl step s (take i rs)) (rs ! i)"
  shows "last_stamp (foldl step s rs) = last_stamp s"
  using assms
proof (induction rs arbitrary: s)
  case (Cons r rs)
  have "\<not> executed (foldl step (step s r) (take i rs)) (rs ! i)" if "i < length rs" for i
    using Cons.prems(3) [of "Suc i"] that by simp
  moreover have "\<not> executed s r" using Cons.prems(3) [of 0] by simp
  ultimately show ?case
    using Cons.IH [of "step s r"] Cons.prems(1,2) by (simp add: ok_step last_step)
qed simp

lemma last_after_execution:
  assumes "ok s" "admissible r" "list_all admissible rs" "executed s r"
    and "\<And>i. i < length rs \<Longrightarrow> \<not> executed (foldl step (step s r) (take i rs)) (rs ! i)"
  shows "last_stamp (foldl step (step s r) rs) = Some (stamp r)"
  using last_idle [of "step s r" rs] assms by (simp add: ok_step last_step)

end

section \<open>The idle scheduler as a stamped runner\<close>

type_synonym idle_request = "string list \<times> spine_clock"

definition idle_out :: "spine_env \<Rightarrow> libs \<Rightarrow> string \<Rightarrow> files \<Rightarrow> idle_request \<Rightarrow> json" where
  "idle_out E L root fs r = snd (fst (run_rsi_idle_hands_scheduler E L (snd r) root (fst r) fs))"

definition idle_step :: "spine_env \<Rightarrow> libs \<Rightarrow> string \<Rightarrow> files \<Rightarrow> idle_request \<Rightarrow> files" where
  "idle_step E L root fs r = snd (run_rsi_idle_hands_scheduler E L (snd r) root (fst r) fs)"

text \<open>A request is executed when its receipt says that it was applied and not suppressed.\<close>

definition idle_executed :: "spine_env \<Rightarrow> libs \<Rightarrow> string \<Rightarrow> files \<Rightarrow> idle_request \<Rightarrow> bool" where
  "idle_executed E L root fs r \<longleftrightarrow>
     json_get (idle_out E L root fs r) ''apply'' = Some (JBool True) \<and>
     json_get (idle_out E L root fs r) ''suppressed'' = Some (JBool False)"

definition same_policy :: "string option \<Rightarrow> idle_request \<Rightarrow> bool" where
  "same_policy policy r \<longleftrightarrow> bt_get (snd (parse_args (fst r))) ''policy'' = policy"

definition policy_flag :: "string option \<Rightarrow> (string, string) btree" where
  "policy_flag policy = (case policy of Some q \<Rightarrow> [(''policy'', q)] | None \<Rightarrow> [])"

definition idle_paths :: "spine_env \<Rightarrow> string \<Rightarrow> string option \<Rightarrow> files \<Rightarrow> scheduler_paths" where
  "idle_paths E root policy fs = rsi_paths E fs root (policy_flag policy)"

definition idle_last :: "spine_env \<Rightarrow> string \<Rightarrow> string option \<Rightarrow> files \<Rightarrow> string option" where
  "idle_last E root policy fs =
     Option.bind (json_get (unwrap_or (read_json E fs (ph_state (idle_paths E root policy fs)))
       rsi_initial_state) ''last_run_at'') as_str"

text \<open>What the scheduler relies on: JSON text reads back as what was printed, the state file can be
  written, and the state and the policy have files of their own.\<close>

definition idle_files_ok :: "spine_env \<Rightarrow> string \<Rightarrow> string option \<Rightarrow> files \<Rightarrow> bool" where
  "idle_files_ok E root policy fs \<longleftrightarrow>
     (let p = idle_paths E root policy fs
      in sn_writable E (ph_state p) \<and> ph_policy p \<noteq> ph_state p \<and>
         {ph_policy p, ph_state p} \<inter> {ph_events p, ph_latest p, ph_receipts p} = {})"

definition idle_ok :: "spine_env \<Rightarrow> string \<Rightarrow> string option \<Rightarrow> files \<Rightarrow> bool" where
  "idle_ok E root policy fs \<longleftrightarrow> json_reads_back E \<and> idle_files_ok E root policy fs"

lemma rsi_paths_cong:
  "bt_get flags ''policy'' = bt_get flags' ''policy'' \<Longrightarrow> rsi_paths E fs root flags = rsi_paths E fs root flags'"
  by (simp add: rsi_paths_def)

lemma rsi_paths_files:
  assumes "fs' (ph_policy (rsi_paths E fs root flags)) = fs (ph_policy (rsi_paths E fs root flags))"
  shows "rsi_paths E fs' root flags = rsi_paths E fs root flags"
proof -
  let ?q = "unwrap_or (bt_get flags ''policy'')
    (path_join root ''client/runtime/config/rsi_idle_hands_scheduler_policy.json'')"
  have "fs' ?q = fs ?q" using assms by (simp add: rsi_paths_def Let_def)
  then show ?thesis by (simp add: rsi_paths_def Let_def load_policy_def read_json_def)
qed

lemma same_policy_paths:
  "same_policy policy r \<Longrightarrow> rsi_paths E fs root (snd (parse_args (fst r))) = idle_paths E root policy fs"
  unfolding idle_paths_def same_policy_def policy_flag_def
  by (rule rsi_paths_cong) (auto split: option.splits)

text \<open>A call either reports its status or a missing owner and touches nothing, or it decides, writes the
  new state when it applies, and publishes its receipt.\<close>

lemma idle_cases:
  fixes E L root fs r
  defines "flags \<equiv> snd (parse_args (fst r))" and "P \<equiv> rsi_paths E fs root (snd (parse_args (fst r)))"
  defines "state \<equiv> unwrap_or (read_json E fs (ph_state P)) rsi_initial_state"
  defines "d \<equiv> rsi_decide E (snd r) (load_policy E fs (ph_policy P)) flags state"
  obtains (Refused) "idle_step E L root fs r = fs" "json_get (idle_out E L root fs r) ''apply'' = None"
      "json_get (idle_out E L root fs r) ''suppressed'' = None"
  | (Decided) owner ts state' where
      "state' = (if rk_apply d then rsi_next_state (sn_show_ts E (sk_now (snd r))) owner d state else state)"
      "idle_out E L root fs r = rsi_receipt L ts owner d state'"
      "idle_step E L root fs r = publish E L P (idle_out E L root fs r)
         (if rk_apply d then write_json E (ph_state P) state' fs else fs)"
proof -
  obtain positional where args: "parse_args (fst r) = (positional, flags)"
    unfolding flags_def by (metis prod.collapse)
  consider "scheduler_command positional = ''status''" | "scheduler_command positional \<noteq> ''status''"
    "scheduler_owner flags = []" | "scheduler_command positional \<noteq> ''status''" "scheduler_owner flags \<noteq> []"
    by blast
  then show thesis
  proof cases
    case 1
    then show ?thesis
      by (intro Refused) (simp_all add: idle_step_def idle_out_def run_rsi_idle_hands_scheduler_def args Let_def
          json_get_spine_receipt json_get_object)
  next
    case 2
    then show ?thesis
      by (intro Refused) (simp_all add: idle_step_def idle_out_def run_rsi_idle_hands_scheduler_def args Let_def
          missing_owner_def json_get_spine_receipt json_get_object)
  next
    case 3
    show ?thesis
      by (rule Decided [of "if rk_apply d then rsi_next_state (sn_show_ts E (sk_now (snd r))) (scheduler_owner flags) d state
            else state" "scheduler_owner flags" "sn_show_ts E (sk_ts (snd r))"])
        (use 3 args in \<open>simp_all add: idle_step_def idle_out_def run_rsi_idle_hands_scheduler_def Let_def
          d_def state_def P_def\<close>)
  qed
qed

lemma rsi_next_state_last:
  "Option.bind (json_get (rsi_next_state now owner d state) ''last_run_at'') as_str =
     (if rk_suppressed d then Option.bind (json_get state ''last_run_at'') as_str else Some now)"
  by (simp add: rsi_next_state_def Let_def json_get_object unwrap_or_def split: option.splits)

lemma idle_step_facts:
  assumes ok: "idle_ok E root policy fs" and r: "same_policy policy r"
  shows "idle_paths E root policy (idle_step E L root fs r) = idle_paths E root policy fs"
    and "idle_last E root policy (idle_step E L root fs r) =
      (if idle_executed E L root fs r then Some (sn_show_ts E (sk_now (snd r))) else idle_last E root policy fs)"
    and "idle_step E L root fs r (ph_policy (idle_paths E root policy fs)) = fs (ph_policy (idle_paths E root policy fs))"
proof -
  let ?P = "idle_paths E root policy fs" and ?fs' = "idle_step E L root fs r"
  note P = same_policy_paths [OF r, of E fs root]
  have ok': "sn_writable E (ph_state ?P)" "ph_policy ?P \<noteq> ph_state ?P"
    "ph_policy ?P \<notin> {ph_events ?P, ph_latest ?P, ph_receipts ?P}"
    "ph_state ?P \<notin> {ph_events ?P, ph_latest ?P, ph_receipts ?P}"
    using ok by (auto simp: idle_ok_def idle_files_ok_def Let_def)
  show "?fs' (ph_policy ?P) = fs (ph_policy ?P)"
    by (cases rule: idle_cases [of E L root fs r])
      (use ok' in \<open>auto simp: P publish_other write_json_def\<close>)
  then show paths: "idle_paths E root policy ?fs' = ?P"
    using rsi_paths_files unfolding idle_paths_def by blast
  show "idle_last E root policy ?fs' =
      (if idle_executed E L root fs r then Some (sn_show_ts E (sk_now (snd r))) else idle_last E root policy fs)"
  proof (cases rule: idle_cases [of E L root fs r])
    case Refused
    then show ?thesis by (simp add: idle_executed_def)
  next
    case (Decided owner ts state')
    have content: "?fs' (ph_state ?P) = (if rk_apply (rsi_decide E (snd r) (load_policy E fs (ph_policy ?P))
        (snd (parse_args (fst r))) (unwrap_or (read_json E fs (ph_state ?P)) rsi_initial_state))
        then Some (sn_pretty E state' @ nl) else fs (ph_state ?P))"
      using ok' by (simp add: Decided(3) P publish_other write_json_def fs_write_def)
    show ?thesis
      using ok Decided(1) unfolding idle_last_def paths idle_executed_def Decided(2) rsi_receipt_get
      by (auto simp: read_json_def content P rsi_next_state_last idle_ok_def json_reads_back_def unwrap_or_def)
  qed
qed

lemma idle_step_ok:
  "idle_ok E root policy fs \<Longrightarrow> same_policy policy r \<Longrightarrow> idle_ok E root policy (idle_step E L root fs r)"
  using idle_step_facts(1) by (simp add: idle_ok_def idle_files_ok_def)

interpretation idle: stamped_runner "idle_step E L root" "idle_executed E L root" "idle_last E root policy"
  "\<lambda>r. sn_show_ts E (sk_now (snd r))" "idle_ok E root policy" "same_policy policy" for E L root policy
  by unfold_locales (simp_all add: idle_step_ok idle_step_facts(2))


section \<open>Properties\<close>

text \<open>C40: idle runs keep their distance. Take a request that was executed, any number of requests that
  were not, and then a request that is executed without \<^verbatim>\<open>--force\<close>: its clock shows at least the
  minimal interval more than the time recorded for the first. The interval is the one its receipt reports,
  between one minute and one day. (All requests name the same policy file, JSON text reads back, printed
  times read back to the millisecond, and the state file can be written and is not shared.)\<close>

theorem idle_runs_spaced:
  assumes "json_reads_back E" and "idle_files_ok E root policy fs"
    and "\<forall>t. sn_parse_ts E (sn_show_ts E t) = Some (int (t - t mod 1000000))"
    and "list_all (same_policy policy) (first # between @ [second])"
    and "idle_executed E L root fs first"
    and "\<forall>i < length between. \<not> idle_executed E L root
           (foldl (idle_step E L root) (idle_step E L root fs first) (take i between)) (between ! i)"
    and "idle_executed E L root (foldl (idle_step E L root) (idle_step E L root fs first) between) second"
    and "\<not> parse_bool (bt_get (snd (parse_args (fst second))) ''force'') False"
  shows "\<exists>m. json_get (idle_out E L root
        (foldl (idle_step E L root) (idle_step E L root fs first) between) second) ''min_interval_minutes'' =
        Some (JInt m) \<and> 1 \<le> m \<and> m \<le> 24 * 60 \<and>
     int (sk_now (snd first) - sk_now (snd first) mod 1000000) + m * 60000000000 \<le> int (sk_since (snd second))"
proof -
  define fs2 where "fs2 = foldl (idle_step E L root) (idle_step E L root fs first) between"
  have last: "idle_last E root policy fs2 = Some (sn_show_ts E (sk_now (snd first)))"
    unfolding fs2_def by (rule idle.last_after_execution) (use assms in \<open>auto simp: idle_ok_def\<close>)
  have exec2: "idle_executed E L root fs2 second" using assms(7) by (simp add: fs2_def)
  have P: "rsi_paths E fs2 root (snd (parse_args (fst second))) = idle_paths E root policy fs2"
    using assms(4) by (simp add: same_policy_paths)
  let ?state = "unwrap_or (read_json E fs2 (ph_state (idle_paths E root policy fs2))) rsi_initial_state"
  let ?d = "rsi_decide E (snd second) (load_policy E fs2 (ph_policy (idle_paths E root policy fs2)))
    (snd (parse_args (fst second))) ?state"
  have d: "json_get (idle_out E L root fs2 second) ''min_interval_minutes'' = Some (JInt (rk_min_interval ?d)) \<and>
      \<not> rk_suppressed ?d"
    by (cases rule: idle_cases [of E L root fs2 second])
      (use exec2 in \<open>auto simp: idle_executed_def P rsi_receipt_get\<close>)
  have interval: "1 \<le> rk_min_interval ?d \<and> rk_min_interval ?d \<le> 24 * 60"
    by (simp add: rsi_decide_def Let_def clamp_i64_def split: option.splits)
  have since: "rk_since ?d = max 0 ((int (sk_since (snd second)) -
      int (sk_now (snd first) - sk_now (snd first) mod 1000000)) div 60000000000)"
    using last assms(3) by (simp add: rsi_decide_def Let_def minutes_since_def idle_last_def)
  have "rk_min_interval ?d \<le> rk_since ?d"
    using d assms(8) by (auto simp: rsi_decide_def Let_def)
  then have "rk_min_interval ?d \<le> (int (sk_since (snd second)) -
      int (sk_now (snd first) - sk_now (snd first) mod 1000000)) div 60000000000"
    using interval since by linarith
  then have "rk_min_interval ?d * 60000000000 \<le> int (sk_since (snd second)) -
      int (sk_now (snd first) - sk_now (snd first) mod 1000000)" by linarith
  with d interval show ?thesis by (auto simp: fs2_def)
qed

text \<open>An environment in which the assumptions hold: a JSON printer with its inverse and decimal times.\<close>

definition sample_spine_env :: spine_env where
  "sample_spine_env =
     \<lparr>sn_parse = (\<lambda>t. if t \<in> range (\<lambda>v. code_json v @ nl) then Some (inv (\<lambda>v. code_json v @ nl) t) else None),
      sn_pretty = code_json, sn_writable = (\<lambda>_. True),
      sn_parse_ts = (\<lambda>s. Some (int (digits_value s) * 1000000)),
      sn_show_ts = (\<lambda>t. show_nat (t div 1000000))\<rparr>"

definition sample_idle_request :: "nat \<Rightarrow> idle_request" where
  "sample_idle_request t = ([''run'', ''--owner=me'', ''--apply=1''],
     \<lparr>sk_hour = 12, sk_since = t, sk_now = t, sk_ts = t\<rparr>)"

lemma sample_spine_env_laws:
  "json_reads_back sample_spine_env"
  "sn_parse_ts sample_spine_env (sn_show_ts sample_spine_env t) = Some (int (t - t mod 1000000))"
proof -
  have "inj (\<lambda>v. code_json v @ nl)" by (simp add: inj_def code_json_inject)
  from inv_f_f [OF this] show "json_reads_back sample_spine_env"
    by (simp add: json_reads_back_def sample_spine_env_def)
  show "sn_parse_ts sample_spine_env (sn_show_ts sample_spine_env t) = Some (int (t - t mod 1000000))"
    by (simp add: sample_spine_env_def minus_mod_eq_div_mult)
qed

lemma sample_idle_files_ok: "idle_files_ok sample_spine_env [] None Map.empty"
proof -
  have "idle_paths sample_spine_env [] None Map.empty =
    \<lparr>ph_policy = ''client/runtime/config/rsi_idle_hands_scheduler_policy.json'',
     ph_events = ''local/state/spine/rsi_idle_hands_scheduler/events.jsonl'',
     ph_latest = ''local/state/spine/rsi_idle_hands_scheduler/latest.json'',
     ph_receipts = ''local/state/spine/rsi_idle_hands_scheduler/receipts.jsonl'',
     ph_state = ''local/state/spine/rsi_idle_hands_scheduler/state.json''\<rparr>"
    by (simp add: idle_paths_def rsi_paths_def policy_flag_def load_policy_def read_json_def policy_paths_def
        json_object_def unwrap_or_def resolve_path_def path_join_def path_is_absolute_def starts_with_def)
  then show ?thesis by (simp add: idle_files_ok_def sample_spine_env_def)
qed

lemma sample_idle_args:
  "parse_args [''run'', ''--owner=me'', ''--apply=1''] = ([''run''], [(''apply'', ''1''), (''owner'', ''me'')])"
  by code_simp

lemma sample_same_policy: "same_policy None (sample_idle_request t)"
  by (simp add: same_policy_def sample_idle_request_def sample_idle_args)

lemma sample_idle_executed:
  assumes "minutes_since E t (idle_last E [] None fs) \<ge> 15" and "load_policy E fs
    (ph_policy (idle_paths E [] None fs)) = json_object []"
  shows "idle_executed E L [] fs (sample_idle_request t)"
proof -
  note P = same_policy_paths [OF sample_same_policy, of E fs "[]" t]
  have "scheduler_command [''run''] \<noteq> ''status''" "scheduler_owner [(''apply'', ''1''), (''owner'', ''me'')] = ''me''"
    "parse_bool (Some ''1'') False" by code_simp+
  then show ?thesis
    using assms P
    by (simp add: idle_executed_def idle_out_def sample_idle_request_def run_rsi_idle_hands_scheduler_def
        sample_idle_args Let_def rsi_receipt_get)
      (simp add: rsi_decide_def json_object_def in_quiet_hours_def unwrap_or_def clamp_i64_def parse_bool_def
        idle_last_def sample_idle_args)
qed

theorem idle_runs_spaced_witness:
  "\<exists>m. json_get (idle_out sample_spine_env sample_libs []
      (idle_step sample_spine_env sample_libs [] Map.empty (sample_idle_request 0))
      (sample_idle_request 900000000000)) ''min_interval_minutes'' = Some (JInt m) \<and>
     m * 60000000000 \<le> 900000000000"
proof -
  let ?E = sample_spine_env and ?L = sample_libs
  let ?fs1 = "idle_step ?E ?L [] Map.empty (sample_idle_request 0)"
  have ok: "idle_ok ?E [] None Map.empty"
    by (simp add: idle_ok_def sample_spine_env_laws sample_idle_files_ok)
  have empty: "load_policy ?E fs q = json_object []" if "fs q = None" for fs q
    using that by (simp add: load_policy_def read_json_def unwrap_or_def)
  have e1: "idle_executed ?E ?L [] Map.empty (sample_idle_request 0)"
    by (rule sample_idle_executed)
      (simp_all add: empty idle_last_def read_json_def unwrap_or_def rsi_initial_state_def json_get_object
        minutes_since_def I64_MAX_def)
  note facts = idle_step_facts [OF ok sample_same_policy, of ?L 0]
  have policy: "?fs1 (ph_policy (idle_paths ?E [] None Map.empty)) = None" by (simp add: facts(3))
  have e2: "idle_executed ?E ?L [] ?fs1 (sample_idle_request 900000000000)"
    by (rule sample_idle_executed)
      (simp_all add: facts e1 minutes_since_def sample_spine_env_laws policy empty, simp add: sample_idle_request_def)
  have clock: "sk_now (snd (sample_idle_request n)) = n" "sk_since (snd (sample_idle_request n)) = n"
    "\<not> parse_bool (bt_get (snd (parse_args (fst (sample_idle_request n)))) ''force'') False" for n
    by (simp_all add: sample_idle_request_def sample_idle_args parse_bool_def)
  have "\<exists>m. json_get (idle_out ?E ?L [] ?fs1 (sample_idle_request 900000000000)) ''min_interval_minutes'' =
      Some (JInt m) \<and> 1 \<le> m \<and> m \<le> 24 * 60 \<and> m * 60000000000 \<le> 900000000000"
    using idle_runs_spaced [of ?E "[]" None Map.empty "sample_idle_request 0" "[]"
        "sample_idle_request 900000000000" ?L] e1 e2
    by (simp add: sample_spine_env_laws sample_idle_files_ok sample_same_policy clock)
  then show ?thesis by blast
qed

end
