(* ===== verification/Sprint_Contract.thy ===== *)
theory Sprint_Contract
  imports Sample_Libs
begin

text \<open>
  Sprint contracts, \<^verbatim>\<open>core/layer2/execution/src/sprint_contract.rs\<close>: a batch of tasks may be declared
  done only under the rules of the enforcer. Reading the JSON payload and printing the JSON result are
  parameters of \<open>run_sprint_contract_json\<close>; the clock text is an argument. The default preamble contains
  a dash beyond ASCII, written here as its three bytes.
\<close>

section \<open>Data\<close>

record contract_task_input =
  ti_id :: "string option"
  ti_title :: "string option"
  ti_status :: "string option"

record contract_plan_input =
  pi_batch_mode :: "bool option"
  pi_tasks :: "contract_task_input list option"

record sprint_contract_input =
  si_sprint_id :: "string option"
  si_batch_id :: "string option"
  si_requested_status :: "string option"
  si_approval_recorded :: "bool option"
  si_enforcer_active :: "bool option"
  si_preamble_text :: "string option"
  si_accepted_preamble :: "string option"
  si_proof_refs :: "string list option"
  si_blockers :: "string list option"
  si_strict :: "bool option"
  si_apply :: "bool option"
  si_policy_path :: "string option"
  si_plan :: "contract_plan_input option"

record contract_task =
  ck_id :: string
  ck_title :: string
  ck_status :: string

record sprint_contract_output =
  so_schema_id :: string
  so_schema_version :: string
  so_type_name :: string
  so_ts :: string
  so_ok :: bool
  so_sprint_id :: string
  so_batch_id :: "string option"
  so_requested_status :: string
  so_effective_status :: string
  so_approval_recorded :: bool
  so_enforcer :: json
  so_checks :: "(string, bool) btree"
  so_violations :: "string list"
  so_task_summary :: json
  so_tasks :: "contract_task list"
  so_proof_refs :: "string list"
  so_blockers :: "string list"
  so_policy_path :: string
  so_audit_id :: string
  so_strict :: bool
  so_apply :: bool

section \<open>Normalising text\<close>

definition clean_text :: "string \<Rightarrow> nat \<Rightarrow> string" where
  "clean_text v max_len = take max_len (join '' '' (split_whitespace v))"

definition sprint_token_keep :: "char \<Rightarrow> bool" where
  "sprint_token_keep ch \<longleftrightarrow>
     is_ascii_alphanumeric ch \<or> ch \<in> {CHR ''_'', CHR ''.'', CHR '':'', CHR ''/'', CHR ''-''}"

fun sprint_token_loop :: "bool \<Rightarrow> string \<Rightarrow> string" where
  "sprint_token_loop prev_underscore [] = []"
| "sprint_token_loop prev_underscore (ch # cs) =
     (let normalized = (if sprint_token_keep ch then ch else CHR ''_'')
      in if normalized = CHR ''_''
         then if prev_underscore then sprint_token_loop True cs
              else CHR ''_'' # sprint_token_loop True cs
         else normalized # sprint_token_loop False cs)"

definition sprint_token :: "string \<Rightarrow> nat \<Rightarrow> string" where
  "sprint_token v max_len =
     take max_len (trim_matches (CHR ''_'')
       (sprint_token_loop False (to_ascii_lowercase (clean_text v max_len))))"

definition normalize_status :: "string \<Rightarrow> string" where
  "normalize_status v =
     (let token = sprint_token v 40
      in if token = ''done'' then ''completed'' else if token = [] then ''in_progress'' else token)"

definition normalize_list :: "string list option \<Rightarrow> string list" where
  "normalize_list input = filter (\<lambda>v. v \<noteq> []) (map (\<lambda>v. clean_text v 320) (unwrap_or input []))"

definition sprint_hash :: "libs \<Rightarrow> string \<Rightarrow> nat \<Rightarrow> string" where
  "sprint_hash L seed len = take len (sha256_hex L seed)"

section \<open>Checks\<close>

fun validate_order_from :: "bool \<Rightarrow> contract_task list \<Rightarrow> bool" where
  "validate_order_from seen [] = True"
| "validate_order_from seen (task # tasks) =
     (let is_completed = (ck_status task = ''completed''); seen' = (seen \<or> \<not> is_completed)
      in if is_completed \<and> seen' then False else validate_order_from seen' tasks)"

definition validate_order :: "contract_task list \<Rightarrow> bool" where
  "validate_order tasks = validate_order_from False tasks"

fun as_u64 :: "json \<Rightarrow> int option" where
  "as_u64 (JInt i) = (if 0 \<le> i \<and> i < 2 ^ 64 then Some i else None)"
| "as_u64 _ = None"

definition count_status :: "contract_task \<Rightarrow> (string, json) btree \<Rightarrow> (string, json) btree" where
  "count_status task by_status =
     (let current = unwrap_or (Option.bind (bt_get by_status (ck_status task)) as_u64) 0
      in bt_insert (ck_status task) (JInt (current + 1)) by_status)"

definition summarize_tasks :: "contract_task list \<Rightarrow> json" where
  "summarize_tasks tasks = json_object
     [(''total'', JInt (int (length tasks))), (''by_status'', JObj (fold count_status tasks []))]"

definition contract_task_of :: "nat \<times> contract_task_input \<Rightarrow> contract_task" where
  "contract_task_of it =
     (let (idx, task) = it;
          id_seed = unwrap_or (ti_id task) (''task_'' @ show_nat (idx + 1));
          token = sprint_token id_seed 100
      in \<lparr>ck_id = (if token = [] then ''task_'' @ show_nat (idx + 1) else token),
          ck_title = clean_text (unwrap_or (ti_title task) id_seed) 200,
          ck_status = normalize_status (unwrap_or (ti_status task) ''in_progress'')\<rparr>)"

definition DEFAULT_PREAMBLE :: string where
  "DEFAULT_PREAMBLE =
     ''ENFORCER RULES ACTIVE '' @ [CHR 0xE2, CHR 0x80, CHR 0x94] @
     '' READ docs/workspace/codex_enforcer.md FIRST.''"

definition plan_tasks :: "sprint_contract_input \<Rightarrow> contract_task list" where
  "plan_tasks i =
     map contract_task_of (enumerate 0 (unwrap_or (Option.bind (si_plan i) pi_tasks) []))"

definition sprint_preambles :: "sprint_contract_input \<Rightarrow> string \<times> string" where
  "sprint_preambles i =
     (clean_text (unwrap_or (si_preamble_text i) []) 220,
      clean_text (unwrap_or (si_accepted_preamble i) DEFAULT_PREAMBLE) 220)"

definition sprint_requested :: "sprint_contract_input \<Rightarrow> string" where
  "sprint_requested i = sprint_token (unwrap_or (si_requested_status i) ''in_progress'') 40"

definition sprint_batch :: "sprint_contract_input \<Rightarrow> string" where
  "sprint_batch i = sprint_token (unwrap_or (si_batch_id i) []) 120"

definition sprint_checks :: "sprint_contract_input \<Rightarrow> (string, bool) btree" where
  "sprint_checks i =
     (let tasks = plan_tasks i;
          (preamble_text, accepted_preamble) = sprint_preambles i;
          all_completed = (tasks \<noteq> [] \<and> list_all (\<lambda>t. ck_status t = ''completed'') tasks);
          no_premature_done = (sprint_requested i \<noteq> ''done'' \<or>
            (all_completed \<and> normalize_list (si_blockers i) = [] \<and> normalize_list (si_proof_refs i) \<noteq> [] \<and>
             unwrap_or (si_approval_recorded i) False))
      in fold (\<lambda>(k, v). bt_insert k v)
           [(''enforcer_preamble_ack'', unwrap_or (si_enforcer_active i) False \<and> preamble_text = accepted_preamble),
            (''batch_id_present'', sprint_batch i \<noteq> []),
            (''single_batch_mode'', unwrap_or (Option.bind (si_plan i) pi_batch_mode) True),
            (''ordered_execution'', validate_order tasks),
            (''no_skip'', tasks \<noteq> [] \<and> \<not> list_ex (\<lambda>t. ck_status t = ''skipped'') tasks),
            (''audit_artifact_ready'', True),
            (''no_premature_done'', no_premature_done)] [])"

definition sprint_violations :: "(string, bool) btree \<Rightarrow> string list" where
  "sprint_violations checks = map fst (filter (\<lambda>(k, v). \<not> v) checks)"

section \<open>The contract\<close>

definition sprint_contract :: "libs \<Rightarrow> string \<Rightarrow> sprint_contract_input \<Rightarrow> sprint_contract_output" where
  "sprint_contract L now i =
     (let sprint_id = clean_text (unwrap_or (si_sprint_id i) ''V6-RUST50-CONF-002'') 80;
          batch_id = sprint_batch i;
          requested_status = sprint_requested i;
          (preamble_text, accepted_preamble) = sprint_preambles i;
          proof_refs = normalize_list (si_proof_refs i);
          tasks = plan_tasks i;
          checks = sprint_checks i;
          violations = sprint_violations checks;
          ok = (violations = []);
          audit_seed = sprint_id @ ''|'' @ batch_id @ ''|'' @ requested_status @ ''|'' @
            show_nat (length tasks) @ ''|'' @ join '','' violations @ ''|'' @ join '','' proof_refs
      in \<lparr>so_schema_id = ''rust50_sprint_contract_audit'', so_schema_version = ''1.0'',
          so_type_name = ''rust50_sprint_contract'', so_ts = now, so_ok = ok, so_sprint_id = sprint_id,
          so_batch_id = (if batch_id = [] then None else Some batch_id),
          so_requested_status = (if requested_status = [] then ''in_progress'' else requested_status),
          so_effective_status =
            (if ok then if requested_status = ''done'' then ''DONE_READY_FOR_HUMAN_AUDIT'' else ''IN_PROGRESS''
             else ''PAUSED''),
          so_approval_recorded = unwrap_or (si_approval_recorded i) False,
          so_enforcer = json_object
            [(''active'', JBool (unwrap_or (si_enforcer_active i) False)),
             (''preamble_expected'', JStr accepted_preamble), (''preamble_provided'', JStr preamble_text)],
          so_checks = checks, so_violations = violations, so_task_summary = summarize_tasks tasks,
          so_tasks = tasks, so_proof_refs = proof_refs, so_blockers = normalize_list (si_blockers i),
          so_policy_path = clean_text (unwrap_or (si_policy_path i) []) 320,
          so_audit_id = ''audit_'' @ sprint_hash L audit_seed 20,
          so_strict = unwrap_or (si_strict i) True, so_apply = unwrap_or (si_apply i) True\<rparr>)"

definition run_sprint_contract_json ::
  "libs \<Rightarrow> (string \<Rightarrow> (sprint_contract_input, string) rresult) \<Rightarrow>
     (sprint_contract_output \<Rightarrow> (string, string) rresult) \<Rightarrow> string \<Rightarrow> string \<Rightarrow> (string, string) rresult" where
  "run_sprint_contract_json L parse encode now payload =
     (case parse payload of
        Inl e \<Rightarrow> Err (''payload_parse_failed:'' @ e)
      | Inr i \<Rightarrow>
          (case encode (sprint_contract L now i) of
             Inl e \<Rightarrow> Err (''output_serialize_failed:'' @ e)
           | Inr text \<Rightarrow> Ok text))"

section \<open>Facts\<close>

abbreviation completed :: "contract_task \<Rightarrow> bool" where
  "completed t \<equiv> ck_status t = ''completed''"

lemma validate_order_from_iff:
  "validate_order_from seen tasks \<longleftrightarrow>
     list_all (\<lambda>t. \<not> completed t) (if seen then tasks else dropWhile completed tasks)"
proof (induction tasks arbitrary: seen)
  case (Cons t ts)
  show ?case by (cases "completed t"; cases seen) (simp_all add: Cons.IH Let_def)
qed simp

text \<open>Execution is ordered exactly when the completed tasks come first.\<close>

lemma validate_order_iff:
  "validate_order tasks \<longleftrightarrow> list_all (\<lambda>t. \<not> completed t) (dropWhile completed tasks)"
  by (simp only: validate_order_def validate_order_from_iff if_False)

lemma no_False_iff: "distinct (map fst m) \<Longrightarrow> (\<forall>k. map_of m k \<noteq> Some False) \<longleftrightarrow> list_all snd m"
  by (simp add: list_all_iff Ball_def) (metis (full_types) map_of_eq_Some_iff prod.collapse snd_conv)

lemma sprint_violations_Nil:
  assumes "bt_wf checks"
  shows "sprint_violations checks = [] \<longleftrightarrow> (\<forall>k. bt_get checks k \<noteq> Some False)"
proof -
  have "distinct (map fst checks)" using distinct_bt_keys [OF assms] by (simp add: bt_keys_def)
  then have "bt_get checks k = Some False \<longleftrightarrow> (k, False) \<in> set checks" for k
    by (simp add: bt_get_map_of)
  then show ?thesis by (auto simp: sprint_violations_def filter_empty_conv)
qed

lemma bt_wf_sprint_checks: "bt_wf (sprint_checks i)"
  unfolding sprint_checks_def Let_def case_prod_unfold by (rule bt.wf_fold_insert [unfolded case_prod_unfold]) simp

text \<open>What a contract needs to be in order.\<close>

definition sprint_in_order :: "sprint_contract_input \<Rightarrow> bool" where
  "sprint_in_order i \<longleftrightarrow>
     unwrap_or (si_enforcer_active i) False \<and> fst (sprint_preambles i) = snd (sprint_preambles i) \<and>
     sprint_batch i \<noteq> [] \<and> unwrap_or (Option.bind (si_plan i) pi_batch_mode) True \<and>
     validate_order (plan_tasks i) \<and> plan_tasks i \<noteq> [] \<and>
     list_all (\<lambda>t. ck_status t \<noteq> ''skipped'') (plan_tasks i)"

definition sprint_may_finish :: "sprint_contract_input \<Rightarrow> bool" where
  "sprint_may_finish i \<longleftrightarrow>
     list_all completed (plan_tasks i) \<and> normalize_list (si_blockers i) = [] \<and>
     normalize_list (si_proof_refs i) \<noteq> [] \<and> unwrap_or (si_approval_recorded i) False"

lemma bt_get_sprint_checks:
  "bt_get (sprint_checks i) k = map_of (rev
     [(''enforcer_preamble_ack'', unwrap_or (si_enforcer_active i) False \<and>
         fst (sprint_preambles i) = snd (sprint_preambles i)),
      (''batch_id_present'', sprint_batch i \<noteq> []),
      (''single_batch_mode'', unwrap_or (Option.bind (si_plan i) pi_batch_mode) True),
      (''ordered_execution'', validate_order (plan_tasks i)),
      (''no_skip'', plan_tasks i \<noteq> [] \<and> \<not> list_ex (\<lambda>t. ck_status t = ''skipped'') (plan_tasks i)),
      (''audit_artifact_ready'', True),
      (''no_premature_done'', sprint_requested i \<noteq> ''done'' \<or>
         ((plan_tasks i \<noteq> [] \<and> list_all completed (plan_tasks i)) \<and> normalize_list (si_blockers i) = [] \<and>
          normalize_list (si_proof_refs i) \<noteq> [] \<and> unwrap_or (si_approval_recorded i) False))]) k"
  unfolding sprint_checks_def Let_def case_prod_unfold
  by (subst bt.get_fold_insert [unfolded case_prod_unfold]) (simp_all split: option.split)

lemma not_list_ex: "\<not> list_ex P xs \<longleftrightarrow> list_all (\<lambda>x. \<not> P x) xs"
  by (induction xs) auto

lemma sprint_ok_iff:
  "sprint_violations (sprint_checks i) = [] \<longleftrightarrow>
     sprint_in_order i \<and> (sprint_requested i = ''done'' \<longrightarrow> sprint_may_finish i)"
proof -
  have "(\<forall>k. map_of (rev [(''enforcer_preamble_ack'', a), (''batch_id_present'', b), (''single_batch_mode'', c),
      (''ordered_execution'', d), (''no_skip'', e), (''audit_artifact_ready'', True),
      (''no_premature_done'', f)]) k \<noteq> Some False) \<longleftrightarrow> a \<and> b \<and> c \<and> d \<and> e \<and> f" for a b c d e f
    by (subst no_False_iff) (simp, simp add: conj_ac)
  then show ?thesis
    unfolding sprint_violations_Nil [OF bt_wf_sprint_checks] bt_get_sprint_checks
    by (simp only: sprint_in_order_def sprint_may_finish_def not_list_ex) blast
qed

section \<open>Properties\<close>

text \<open>Nothing is declared done prematurely. A contract is reported as ready for the audit exactly when
  done was requested and the enforcer's preamble is acknowledged, the batch has an id and is a single
  batch, there is at least one task, every task is completed, no blocker is open, a proof reference is
  given and the approval is recorded. It is in progress exactly when something else was requested of an
  ordered plan without skipped tasks; in all other cases it is paused, and the violated checks are
  named.\<close>

lemma sprint_status_exact:
  "(so_effective_status (sprint_contract L now i) = ''DONE_READY_FOR_HUMAN_AUDIT'' \<longleftrightarrow>
      sprint_requested i = ''done'' \<and> sprint_may_finish i \<and> plan_tasks i \<noteq> [] \<and>
      unwrap_or (si_enforcer_active i) False \<and> fst (sprint_preambles i) = snd (sprint_preambles i) \<and>
      sprint_batch i \<noteq> [] \<and> unwrap_or (Option.bind (si_plan i) pi_batch_mode) True) \<and>
   (so_effective_status (sprint_contract L now i) = ''IN_PROGRESS'' \<longleftrightarrow>
      sprint_requested i \<noteq> ''done'' \<and> sprint_in_order i) \<and>
   (so_effective_status (sprint_contract L now i) = ''PAUSED'' \<longleftrightarrow>
      so_violations (sprint_contract L now i) \<noteq> []) \<and>
   set (so_violations (sprint_contract L now i)) = {k. bt_get (sprint_checks i) k = Some False}"
proof -
  have finish: "sprint_in_order i" if "sprint_may_finish i" "plan_tasks i \<noteq> []"
    "unwrap_or (si_enforcer_active i) False" "fst (sprint_preambles i) = snd (sprint_preambles i)"
    "sprint_batch i \<noteq> []" "unwrap_or (Option.bind (si_plan i) pi_batch_mode) True"
  proof -
    have c: "\<forall>t \<in> set (plan_tasks i). completed t" using that(1) by (simp add: sprint_may_finish_def list_all_iff)
    then have "dropWhile completed (plan_tasks i) = []" by (simp only: dropWhile_eq_Nil_conv)
    then have "validate_order (plan_tasks i)" by (simp only: validate_order_iff list.pred_inject)
    then show ?thesis using that c by (simp add: sprint_in_order_def list_all_iff)
  qed
  have status: "so_effective_status (sprint_contract L now i) =
      (if sprint_violations (sprint_checks i) = []
       then if sprint_requested i = ''done'' then ''DONE_READY_FOR_HUMAN_AUDIT'' else ''IN_PROGRESS''
       else ''PAUSED'')"
    "so_violations (sprint_contract L now i) = sprint_violations (sprint_checks i)"
    by (simp_all add: sprint_contract_def Let_def case_prod_unfold)
  have keys: "distinct (map fst (sprint_checks i))"
    using distinct_bt_keys [OF bt_wf_sprint_checks] by (simp add: bt_keys_def)
  have viol: "set (sprint_violations (sprint_checks i)) = {k. bt_get (sprint_checks i) k = Some False}"
    using keys by (force simp: sprint_violations_def bt_get_map_of)
  show ?thesis
    unfolding status viol sprint_ok_iff
    using finish by (cases "sprint_requested i = ''done''") (auto simp: sprint_in_order_def)
qed

end
