(* ===== verification/Security_Gate.thy ===== *)
theory Security_Gate
  imports Vault_Policy
begin

text \<open>
  The security gate of layer 0, \<^verbatim>\<open>core/layer0/security/src/lib.rs\<close>: every operation is put to the vault,
  scored, and either passes or trips a shutdown that is written to disk together with an alert for a
  human. The vault operations (seal, rotate, audit) go through the gate.

  The score is an \<^verbatim>\<open>f64\<close> in the source. It is computed from bytes and small integer constants with one
  division by 100, so it is a multiple of a hundredth up to the rounding of the last bit; the model keeps
  it in hundredths. The comparison with the integer threshold and the texts with two and three decimals are
  the same for the rounded value. The JSON form of the number is a parameter (\<open>sx_float\<close>), like the
  embedded policy and profile, the JSON printers and the outcome of each file access in \<open>security_env\<close>.
\<close>

section \<open>Data\<close>

record security_operation_request =
  sq_operation_id :: string
  sq_subsystem :: string
  sq_action :: string
  sq_actor :: string
  sq_risk_class :: string
  sq_payload_digest :: "string option"
  sq_tags :: "string list"
  sq_covenant_violation :: bool
  sq_tamper_signal :: bool
  sq_key_age_hours :: u32
  sq_operator_quorum :: u8
  sq_audit_receipt_nonce :: "string option"
  sq_zk_proof :: "string option"
  sq_ciphertext_digest :: "string option"

definition default_key_age_hours :: u32 where
  "default_key_age_hours = 1"

definition default_operator_quorum :: u8 where
  "default_operator_quorum = 2"

definition security_operation_request_default :: security_operation_request where
  "security_operation_request_default =
     \<lparr>sq_operation_id = ''op_default'', sq_subsystem = ''system'', sq_action = ''execute'',
      sq_actor = ''operator'', sq_risk_class = ''normal'', sq_payload_digest = None, sq_tags = [],
      sq_covenant_violation = False, sq_tamper_signal = False, sq_key_age_hours = default_key_age_hours,
      sq_operator_quorum = default_operator_quorum, sq_audit_receipt_nonce = Some ''nonce-default'',
      sq_zk_proof = Some ''zk-proof-default'', sq_ciphertext_digest = Some ''sha256:cipher-default''\<rparr>"

record security_decision =
  sd_ok :: bool
  sd_fail_closed :: bool
  sd_shutdown_required :: bool
  sd_human_alert_required :: bool
  sd_sovereignty_score :: int
  sd_sovereignty_threshold_pct :: u8
  sd_decision_digest :: string
  sd_reasons :: "string list"
  sd_vault_decision :: vault_decision

record security_alert =
  sa_ts :: string
  sa_operation_id :: string
  sa_subsystem :: string
  sa_action :: string
  sa_actor :: string
  sa_severity :: string
  sa_reason :: string

datatype security_gate_error =
    RequestDecodeFailed string
  | VaultPolicyLoadFailed string
  | ObservabilityProfileLoadFailed string
  | SecurityEncodeFailed string
  | IoFailed string
  | ValidationFailed string

fun show_security_gate_error :: "security_gate_error \<Rightarrow> string" where
  "show_security_gate_error (RequestDecodeFailed msg) = ''request_decode_failed:'' @ msg"
| "show_security_gate_error (VaultPolicyLoadFailed msg) = ''vault_policy_load_failed:'' @ msg"
| "show_security_gate_error (ObservabilityProfileLoadFailed msg) = ''observability_profile_load_failed:'' @ msg"
| "show_security_gate_error (SecurityEncodeFailed msg) = ''encode_failed:'' @ msg"
| "show_security_gate_error (IoFailed msg) = ''io_failed:'' @ msg"
| "show_security_gate_error (ValidationFailed msg) = ''validation_failed:'' @ msg"

record sovereignty_scorer =
  sv_integrity_weight_pct :: u8
  sv_continuity_weight_pct :: u8
  sv_reliability_weight_pct :: u8
  sv_chaos_penalty_pct :: u8
  sv_fail_closed_threshold_pct :: u8

definition sovereignty_scorer_default :: sovereignty_scorer where
  "sovereignty_scorer_default =
     \<lparr>sv_integrity_weight_pct = 45, sv_continuity_weight_pct = 25, sv_reliability_weight_pct = 20,
      sv_chaos_penalty_pct = 10, sv_fail_closed_threshold_pct = 60\<rparr>"

record security_env =
  sx_policy :: "(vault_policy, string) rresult"
  sx_policy_json :: "(string, string) rresult"
  sx_envelope :: "vault_runtime_envelope option"
  sx_scorer :: "(sovereignty_scorer, string) rresult"
  sx_float :: "int \<Rightarrow> json"
  sx_text :: "json \<Rightarrow> (string, string) rresult"
  sx_pretty :: "json \<Rightarrow> (string, string) rresult"
  sx_mkdir :: "string \<Rightarrow> (unit, string) rresult"
  sx_write :: "string \<Rightarrow> (unit, string) rresult"
  sx_rename :: "string \<Rightarrow> (unit, string) rresult"
  sx_open :: "string \<Rightarrow> (unit, string) rresult"
  sx_append :: "string \<Rightarrow> (unit, string) rresult"
  sx_pid :: nat

section \<open>Text helpers\<close>

definition security_now_iso :: "u64 \<Rightarrow> string" where
  "security_now_iso secs = show_word secs @ ''Z''"

definition security_token :: "string \<Rightarrow> nat \<Rightarrow> string" where
  "security_token raw max_len =
     to_ascii_lowercase (trim_matches (CHR ''_'') (take max_len (map (\<lambda>ch.
       if is_ascii_alphanumeric ch \<or> ch \<in> {CHR ''_'', CHR ''-'', CHR ''.'', CHR '':'', CHR ''/''}
       then ch else CHR ''_'') (trim raw))))"

definition has_tag :: "string list \<Rightarrow> string \<Rightarrow> bool" where
  "has_tag tags target =
     (let needle = security_token target 64 in list_ex (\<lambda>tag. security_token tag 64 = needle) tags)"

text \<open>A score in hundredths, with two and with three decimals.\<close>

definition show_score2 :: "int \<Rightarrow> string" where
  "show_score2 score =
     (let n = nat score in show_nat (n div 100) @ ''.'' @ show_nat (n div 10 mod 10) @ show_nat (n mod 10))"

definition show_score3 :: "int \<Rightarrow> string" where
  "show_score3 score = show_score2 score @ ''0''"

definition digest_parts :: "libs \<Rightarrow> string list \<Rightarrow> string" where
  "digest_parts L parts = sha256_hex L (concat (map (\<lambda>part. part @ ''|'') parts))"

definition digest_for_decision ::
  "libs \<Rightarrow> security_operation_request \<Rightarrow> string list \<Rightarrow> int \<Rightarrow> string" where
  "digest_for_decision L req reasons score =
     sha256_hex L (sq_operation_id req @ sq_subsystem req @ sq_action req @ sq_actor req @
       show_score3 score @ concat reasons)"

section \<open>The decision\<close>

definition to_vault_request :: "security_operation_request \<Rightarrow> vault_operation_request" where
  "to_vault_request req =
     \<lparr>vq_operation_id = sq_operation_id req, vq_key_id = sq_subsystem req @ '':'' @ sq_action req,
      vq_action = sq_action req, vq_zk_proof = sq_zk_proof req,
      vq_ciphertext_digest =
        (case sq_ciphertext_digest req of Some d \<Rightarrow> Some d | None \<Rightarrow> sq_payload_digest req),
      vq_fhe_noise_budget = (if has_tag (sq_tags req) ''aggressive'' then 12 else 24),
      vq_key_age_hours = sq_key_age_hours req, vq_tamper_signal = sq_tamper_signal req,
      vq_operator_quorum = sq_operator_quorum req,
      vq_audit_receipt_nonce = sq_audit_receipt_nonce req\<rparr>"

definition compute_sovereignty_score ::
  "sovereignty_scorer \<Rightarrow> security_operation_request \<Rightarrow> vault_decision \<Rightarrow> int \<times> u8" where
  "compute_sovereignty_score weights req vault_decision =
     (let integrity = (if vd_allowed vault_decision then 100 else 0);
          continuity = (if sq_covenant_violation req then 0
                        else if eq_ignore_ascii_case (sq_risk_class req) ''critical'' then 65
                        else if eq_ignore_ascii_case (sq_risk_class req) ''high'' then 80
                        else 95);
          reliability = (if sq_tamper_signal req then 0 else if has_tag (sq_tags req) ''drift'' then 70 else 95);
          weighted = integrity * uint (sv_integrity_weight_pct weights) +
            continuity * uint (sv_continuity_weight_pct weights) +
            reliability * uint (sv_reliability_weight_pct weights);
          chaos_penalty =
            (if sq_covenant_violation req \<or> sq_tamper_signal req \<or> has_tag (sq_tags req) ''drift''
             then uint (sv_chaos_penalty_pct weights) else 0)
      in (clamp 0 10000 (weighted - 100 * chaos_penalty), sv_fail_closed_threshold_pct weights))"

definition security_vault_decision :: "libs \<Rightarrow> security_env \<Rightarrow> vault_policy \<Rightarrow> security_operation_request \<Rightarrow> vault_decision" where
  "security_vault_decision L X policy req = evaluate_vault_policy L (sx_envelope X) policy (to_vault_request req)"

definition security_decide ::
  "libs \<Rightarrow> vault_decision \<Rightarrow> sovereignty_scorer \<Rightarrow> security_operation_request \<Rightarrow> security_decision" where
  "security_decide L vault_decision weights req =
     (let (score, threshold) = compute_sovereignty_score weights req vault_decision;
          below = (score < 100 * uint threshold);
          reasons0 =
            (if sq_covenant_violation req then [''covenant_violation_detected''] else []) @
            (if sq_tamper_signal req then [''tamper_signal_detected''] else []) @
            (if below then [''sovereignty_score_below_threshold:'' @ show_score2 score @ ''<'' @ show_word threshold]
             else []) @
            vd_reasons vault_decision;
          fail_closed = (sq_covenant_violation req \<or> sq_tamper_signal req \<or> below \<or>
            (\<not> vd_allowed vault_decision \<and> vd_fail_closed vault_decision));
          reasons = (if reasons0 = [] then [''security_gate_allow''] else reasons0);
          ok = (\<not> fail_closed \<and> vd_allowed vault_decision)
      in \<lparr>sd_ok = ok, sd_fail_closed = fail_closed, sd_shutdown_required = fail_closed,
          sd_human_alert_required = fail_closed, sd_sovereignty_score = score,
          sd_sovereignty_threshold_pct = threshold,
          sd_decision_digest = digest_for_decision L req reasons score, sd_reasons = reasons,
          sd_vault_decision = vault_decision\<rparr>)"

definition evaluate_operation ::
  "libs \<Rightarrow> security_env \<Rightarrow> security_operation_request \<Rightarrow> (security_decision, security_gate_error) rresult" where
  "evaluate_operation L X req =
     (case sx_policy X of
        Inl err \<Rightarrow> Err (VaultPolicyLoadFailed (show_vault_error (PolicyLoadFailed err)))
      | Inr policy \<Rightarrow>
          (case sx_scorer X of
             Inl err \<Rightarrow> Err (ObservabilityProfileLoadFailed err)
           | Inr weights \<Rightarrow> Ok (security_decide L (security_vault_decision L X policy req) weights req)))"

section \<open>Enforcement\<close>

definition path_file_name :: "string \<Rightarrow> string" where
  "path_file_name p = rev (takeWhile (\<lambda>c. c \<noteq> CHR ''/'') (rev p))"

definition path_parent :: "string \<Rightarrow> string" where
  "path_parent p = butlast (take (length p - length (path_file_name p)) p)"

definition with_extension :: "string \<Rightarrow> string \<Rightarrow> string" where
  "with_extension p ext =
     (let name = path_file_name p;
          stem = rev (tl (dropWhile (\<lambda>c. c \<noteq> CHR ''.'') (rev name)))
      in take (length p - length name) p @ (if stem = [] then name else stem) @ ''.'' @ ext)"

definition write_json_atomic ::
  "security_env \<Rightarrow> string \<Rightarrow> json \<Rightarrow> files \<Rightarrow> (unit, security_gate_error) rresult \<times> files" where
  "write_json_atomic X path v fs =
     (case sx_mkdir X (path_parent path) of
        Inl err \<Rightarrow> (Err (IoFailed (''mkdir_failed:'' @ err)), fs)
      | Inr _ \<Rightarrow>
          let tmp = with_extension path (''tmp-'' @ show_nat (sx_pid X))
          in (case sx_pretty X v of
                Inl err \<Rightarrow> (Err (SecurityEncodeFailed err), fs)
              | Inr payload \<Rightarrow>
                  (case sx_write X tmp of
                     Inl err \<Rightarrow> (Err (IoFailed (''write_tmp_failed:'' @ err)), fs)
                   | Inr _ \<Rightarrow>
                       (case sx_rename X path of
                          Inl err \<Rightarrow> (Err (IoFailed (''rename_failed:'' @ err)), fs(tmp \<mapsto> payload))
                        | Inr _ \<Rightarrow> (Ok (), (fs(tmp := None))(path \<mapsto> payload))))))"

definition append_alert ::
  "security_env \<Rightarrow> string \<Rightarrow> json \<Rightarrow> files \<Rightarrow> (unit, security_gate_error) rresult \<times> files" where
  "append_alert X path v fs =
     (case sx_mkdir X (path_parent path) of
        Inl err \<Rightarrow> (Err (IoFailed (''mkdir_failed:'' @ err)), fs)
      | Inr _ \<Rightarrow>
          (case sx_text X v of
             Inl err \<Rightarrow> (Err (SecurityEncodeFailed err), fs)
           | Inr line \<Rightarrow>
               (case sx_open X path of
                  Inl err \<Rightarrow> (Err (IoFailed (''open_append_failed:'' @ err)), fs)
                | Inr _ \<Rightarrow>
                    let old = unwrap_or (fs path) []
                    in (case sx_append X path of
                          Inl err \<Rightarrow> (Err (IoFailed (''append_failed:'' @ err)), fs(path \<mapsto> old))
                        | Inr _ \<Rightarrow> (Ok (), fs(path \<mapsto> old @ line @ [CHR 0x0A]))))))"

definition first_reason :: "security_decision \<Rightarrow> string \<Rightarrow> string" where
  "first_reason decision fallback = (case sd_reasons decision of [] \<Rightarrow> fallback | r # _ \<Rightarrow> r)"

definition alert_for :: "u64 \<Rightarrow> security_operation_request \<Rightarrow> security_decision \<Rightarrow> security_alert" where
  "alert_for now req decision =
     \<lparr>sa_ts = security_now_iso now, sa_operation_id = sq_operation_id req,
      sa_subsystem = sq_subsystem req, sa_action = sq_action req, sa_actor = sq_actor req,
      sa_severity = ''critical'', sa_reason = first_reason decision ''fail_closed_triggered''\<rparr>"

definition security_alert_json :: "security_alert \<Rightarrow> json" where
  "security_alert_json a = json_object
     [(''ts'', JStr (sa_ts a)), (''operation_id'', JStr (sa_operation_id a)),
      (''subsystem'', JStr (sa_subsystem a)), (''action'', JStr (sa_action a)),
      (''actor'', JStr (sa_actor a)), (''severity'', JStr (sa_severity a)),
      (''reason'', JStr (sa_reason a))]"

definition shutdown_json :: "u64 \<Rightarrow> security_operation_request \<Rightarrow> security_decision \<Rightarrow> json" where
  "shutdown_json now req decision = json_object
     [(''ok'', JBool False), (''fail_closed'', JBool True), (''ts'', JStr (security_now_iso now)),
      (''operation_id'', JStr (sq_operation_id req)), (''subsystem'', JStr (sq_subsystem req)),
      (''action'', JStr (sq_action req)), (''actor'', JStr (sq_actor req)),
      (''reason'', JStr (first_reason decision ''fail_closed'')),
      (''decision_digest'', JStr (sd_decision_digest decision)), (''status'', JStr ''shutdown'')]"

definition shutdown_path :: "string \<Rightarrow> string" where
  "shutdown_path state_root = path_join (path_join state_root ''security'') ''hard_shutdown.json''"

definition alerts_path :: "string \<Rightarrow> string" where
  "alerts_path state_root = path_join (path_join state_root ''security'') ''human_alerts.jsonl''"

definition enforce_operation ::
  "libs \<Rightarrow> security_env \<Rightarrow> u64 \<times> u64 \<Rightarrow> security_operation_request \<Rightarrow> string \<Rightarrow> files \<Rightarrow>
     (security_decision, security_gate_error) rresult \<times> files" where
  "enforce_operation L X clk req state_root fs =
     (case evaluate_operation L X req of
        Inl err \<Rightarrow> (Err err, fs)
      | Inr decision \<Rightarrow>
          if \<not> sd_fail_closed decision then (Ok decision, fs)
          else
            (case write_json_atomic X (shutdown_path state_root) (shutdown_json (fst clk) req decision) fs of
               (Inl err, fs1) \<Rightarrow> (Err err, fs1)
             | (Inr _, fs1) \<Rightarrow>
                 (case append_alert X (alerts_path state_root)
                         (security_alert_json (alert_for (snd clk) req decision)) fs1 of
                    (Inl err, fs2) \<Rightarrow> (Err err, fs2)
                  | (Inr _, fs2) \<Rightarrow> (Ok decision, fs2))))"

section \<open>JSON entry points\<close>

definition rule_evaluation_json :: "rule_evaluation \<Rightarrow> json" where
  "rule_evaluation_json r = json_object
     [(''rule_id'', JStr (ru_rule_id r)), (''passed'', JBool (ru_passed r)),
      (''fail_closed'', JBool (ru_fail_closed r)), (''reason'', JStr (ru_reason r))]"

definition vault_decision_json :: "vault_decision \<Rightarrow> json" where
  "vault_decision_json d = json_object
     [(''policy_id'', JStr (vd_policy_id d)), (''policy_digest'', JStr (vd_policy_digest d)),
      (''operation_id'', JStr (vd_operation_id d)), (''key_id'', JStr (vd_key_id d)),
      (''action'', JStr (vd_action d)), (''allowed'', JBool (vd_allowed d)),
      (''fail_closed'', JBool (vd_fail_closed d)), (''status'', JStr (vd_status d)),
      (''should_rotate'', JBool (vd_should_rotate d)), (''rotate_reason'', json_opt_str (vd_rotate_reason d)),
      (''reasons'', json_str_list (vd_reasons d)),
      (''rule_results'', JArr (map rule_evaluation_json (vd_rule_results d)))]"

definition security_decision_json :: "security_env \<Rightarrow> security_decision \<Rightarrow> json" where
  "security_decision_json X d = json_object
     [(''ok'', JBool (sd_ok d)), (''fail_closed'', JBool (sd_fail_closed d)),
      (''shutdown_required'', JBool (sd_shutdown_required d)),
      (''human_alert_required'', JBool (sd_human_alert_required d)),
      (''sovereignty_score_pct'', sx_float X (sd_sovereignty_score d)),
      (''sovereignty_threshold_pct'', json_word (sd_sovereignty_threshold_pct d)),
      (''decision_digest'', JStr (sd_decision_digest d)), (''reasons'', json_str_list (sd_reasons d)),
      (''vault_decision'', vault_decision_json (sd_vault_decision d))]"

text \<open>\<^verbatim>\<open>serde_json::to_string(..).map_err(EncodeFailed)\<close>.\<close>

definition encode_json :: "security_env \<Rightarrow> json \<Rightarrow> (string, security_gate_error) rresult" where
  "encode_json X v = (case sx_text X v of Inl err \<Rightarrow> Err (SecurityEncodeFailed err) | Inr text \<Rightarrow> Ok text)"

definition evaluate_operation_json ::
  "libs \<Rightarrow> security_env \<Rightarrow> (string \<Rightarrow> (security_operation_request, string) rresult) \<Rightarrow> string \<Rightarrow>
     (string, security_gate_error) rresult" where
  "evaluate_operation_json L X parse request_json =
     (case parse request_json of
        Inl err \<Rightarrow> Err (RequestDecodeFailed err)
      | Inr req \<Rightarrow>
          (case evaluate_operation L X req of
             Inl err \<Rightarrow> Err err
           | Inr decision \<Rightarrow>
               encode_json X (json_object [(''ok'', JBool True), (''decision'', security_decision_json X decision)])))"

definition enforce_operation_json ::
  "libs \<Rightarrow> security_env \<Rightarrow> u64 \<times> u64 \<Rightarrow> (string \<Rightarrow> (security_operation_request, string) rresult) \<Rightarrow> string \<Rightarrow>
     string \<Rightarrow> files \<Rightarrow> (string, security_gate_error) rresult \<times> files" where
  "enforce_operation_json L X clk parse request_json state_root fs =
     (case parse request_json of
        Inl err \<Rightarrow> (Err (RequestDecodeFailed err), fs)
      | Inr req \<Rightarrow>
          (case enforce_operation L X clk req state_root fs of
             (Inl err, fs') \<Rightarrow> (Err err, fs')
           | (Inr decision, fs') \<Rightarrow>
               (encode_json X (json_object
                  [(''ok'', JBool True), (''decision'', security_decision_json X decision)]), fs')))"

section \<open>Vault operations\<close>

record vault_seal_request =
  vs_operation_id :: string
  vs_key_id :: string
  vs_data_base64 :: string
  vs_actor :: string
  vs_covenant_violation :: bool
  vs_tamper_signal :: bool
  vs_operator_quorum :: u8
  vs_key_age_hours :: u32
  vs_audit_receipt_nonce :: "string option"
  vs_zk_proof :: "string option"

record vault_rotate_request =
  vr_operation_id :: string
  vr_actor :: string
  vr_key_ids :: "string list"
  vr_rotate_reason :: "string option"
  vr_covenant_violation :: bool
  vr_tamper_signal :: bool
  vr_operator_quorum :: u8
  vr_key_age_hours :: u32
  vr_audit_receipt_nonce :: "string option"
  vr_zk_proof :: "string option"

record vault_audit_request =
  va_operation_id :: string
  va_actor :: string

definition actor_or_operator :: "string \<Rightarrow> string" where
  "actor_or_operator actor = (if blank actor then ''operator'' else actor)"

definition to_security_request_for_seal ::
  "libs \<Rightarrow> vault_seal_request \<Rightarrow> (security_operation_request, security_gate_error) rresult" where
  "to_security_request_for_seal L req =
     (if blank (vs_operation_id req) then Err (ValidationFailed ''operation_id_required'')
      else if blank (vs_key_id req) then Err (ValidationFailed ''key_id_required'')
      else if blank (vs_data_base64 req) then Err (ValidationFailed ''data_base64_required'')
      else Ok
        \<lparr>sq_operation_id = vs_operation_id req, sq_subsystem = ''vault'', sq_action = ''seal'',
         sq_actor = actor_or_operator (vs_actor req), sq_risk_class = ''critical'',
         sq_payload_digest = Some (''sha256:'' @ digest_parts L [vs_key_id req, vs_data_base64 req]),
         sq_tags = [''vault'', ''seal''], sq_covenant_violation = vs_covenant_violation req,
         sq_tamper_signal = vs_tamper_signal req, sq_key_age_hours = vs_key_age_hours req,
         sq_operator_quorum = vs_operator_quorum req, sq_audit_receipt_nonce = vs_audit_receipt_nonce req,
         sq_zk_proof = vs_zk_proof req,
         sq_ciphertext_digest =
           Some (''sha256:'' @ digest_parts L [vs_key_id req, vs_data_base64 req, ''cipher''])\<rparr>)"

definition rotate_key_ids :: "vault_rotate_request \<Rightarrow> string list" where
  "rotate_key_ids req = (if vr_key_ids req = [] then [''all_keys''] else vr_key_ids req)"

definition to_security_request_for_rotate ::
  "libs \<Rightarrow> vault_rotate_request \<Rightarrow> (security_operation_request, security_gate_error) rresult" where
  "to_security_request_for_rotate L req =
     (if blank (vr_operation_id req) then Err (ValidationFailed ''operation_id_required'')
      else Ok
        \<lparr>sq_operation_id = vr_operation_id req, sq_subsystem = ''vault'', sq_action = ''rotate'',
         sq_actor = actor_or_operator (vr_actor req), sq_risk_class = ''critical'',
         sq_payload_digest = Some (''sha256:'' @ digest_parts L
           [join '','' (rotate_key_ids req), unwrap_or (vr_rotate_reason req) ''rotate_all'']),
         sq_tags = [''vault'', ''rotate''], sq_covenant_violation = vr_covenant_violation req,
         sq_tamper_signal = vr_tamper_signal req, sq_key_age_hours = vr_key_age_hours req,
         sq_operator_quorum = vr_operator_quorum req, sq_audit_receipt_nonce = vr_audit_receipt_nonce req,
         sq_zk_proof = vr_zk_proof req,
         sq_ciphertext_digest =
           Some (''sha256:'' @ digest_parts L [join '','' (rotate_key_ids req), ''rotate''])\<rparr>)"

definition deny_json :: "security_env \<Rightarrow> security_decision \<Rightarrow> json" where
  "deny_json X decision = json_object
     [(''ok'', JBool False), (''status'', JStr ''deny_fail_closed''),
      (''decision'', security_decision_json X decision)]"

definition sealed_json :: "libs \<Rightarrow> security_env \<Rightarrow> vault_seal_request \<Rightarrow> security_decision \<Rightarrow> json" where
  "sealed_json L X req decision = json_object
     [(''ok'', JBool True), (''status'', JStr ''sealed''), (''operation_id'', JStr (vs_operation_id req)),
      (''key_id'', JStr (vs_key_id req)),
      (''sealed_digest'', JStr (''sha256:'' @ digest_parts L
         [vs_key_id req, vs_data_base64 req, sd_decision_digest decision,
          unwrap_or (vs_audit_receipt_nonce req) ''none''])),
      (''decision'', security_decision_json X decision)]"

definition seal_json ::
  "libs \<Rightarrow> security_env \<Rightarrow> u64 \<times> u64 \<Rightarrow> (string \<Rightarrow> (vault_seal_request, string) rresult) \<Rightarrow> string \<Rightarrow> string \<Rightarrow>
     files \<Rightarrow> (string, security_gate_error) rresult \<times> files" where
  "seal_json L X clk parse request_json state_root fs =
     (case parse request_json of
        Inl err \<Rightarrow> (Err (RequestDecodeFailed err), fs)
      | Inr req \<Rightarrow>
          (case to_security_request_for_seal L req of
             Inl err \<Rightarrow> (Err err, fs)
           | Inr security_req \<Rightarrow>
               (case enforce_operation L X clk security_req state_root fs of
                  (Inl err, fs') \<Rightarrow> (Err err, fs')
                | (Inr decision, fs') \<Rightarrow>
                    if sd_fail_closed decision \<or> \<not> sd_ok decision
                    then (encode_json X (deny_json X decision), fs')
                    else (encode_json X (sealed_json L X req decision), fs'))))"

definition rotated_json :: "libs \<Rightarrow> security_env \<Rightarrow> vault_rotate_request \<Rightarrow> security_decision \<Rightarrow> json" where
  "rotated_json L X req decision = json_object
     [(''ok'', JBool True), (''status'', JStr ''rotated''), (''operation_id'', JStr (vr_operation_id req)),
      (''reason'', JStr (unwrap_or (vr_rotate_reason req) ''rotate_all'')),
      (''rotated_keys'', JInt (int (length (rotate_key_ids req)))),
      (''receipts'', JArr (map (\<lambda>key_id. json_object
         [(''key_id'', JStr key_id),
          (''rotation_receipt'', JStr (''sha256:'' @ digest_parts L
             [key_id, unwrap_or (vr_rotate_reason req) ''rotate'', sd_decision_digest decision]))])
         (rotate_key_ids req))),
      (''decision'', security_decision_json X decision)]"

definition rotate_all_json ::
  "libs \<Rightarrow> security_env \<Rightarrow> u64 \<times> u64 \<Rightarrow> (string \<Rightarrow> (vault_rotate_request, string) rresult) \<Rightarrow> string \<Rightarrow> string \<Rightarrow>
     files \<Rightarrow> (string, security_gate_error) rresult \<times> files" where
  "rotate_all_json L X clk parse request_json state_root fs =
     (case parse request_json of
        Inl err \<Rightarrow> (Err (RequestDecodeFailed err), fs)
      | Inr req \<Rightarrow>
          (case to_security_request_for_rotate L req of
             Inl err \<Rightarrow> (Err err, fs)
           | Inr security_req \<Rightarrow>
               (case enforce_operation L X clk security_req state_root fs of
                  (Inl err, fs') \<Rightarrow> (Err err, fs')
                | (Inr decision, fs') \<Rightarrow>
                    if sd_fail_closed decision \<or> \<not> sd_ok decision
                    then (encode_json X (deny_json X decision), fs')
                    else (encode_json X (rotated_json L X req decision), fs'))))"

definition audit_json ::
  "libs \<Rightarrow> security_env \<Rightarrow> u64 \<Rightarrow> (string \<Rightarrow> (vault_audit_request, string) rresult) \<Rightarrow> string \<Rightarrow>
     (string, security_gate_error) rresult" where
  "audit_json L X now parse request_json =
     (case parse request_json of
        Inl err \<Rightarrow> Err (RequestDecodeFailed err)
      | Inr req \<Rightarrow>
          (case sx_policy X of
             Inl err \<Rightarrow> Err (VaultPolicyLoadFailed (show_vault_error (PolicyLoadFailed err)))
           | Inr policy \<Rightarrow>
               (case sx_policy_json X of
                  Inl err \<Rightarrow> Err (VaultPolicyLoadFailed err)
                | Inr policy_json \<Rightarrow>
                    encode_json X (json_object
                      [(''ok'', JBool True), (''status'', JStr ''audited''),
                       (''operation_id'', JStr (va_operation_id req)),
                       (''actor'', JStr (actor_or_operator (va_actor req))),
                       (''policy_id'', JStr (vp_policy_id policy)),
                       (''policy_digest'', JStr (''sha256:'' @
                          digest_parts L [vp_policy_id policy, show_word (vp_version policy), policy_json])),
                       (''rules_count'', JInt (int (length (vp_rules policy)))),
                       (''auto_rotate_enabled'', JBool (ar_enabled (vp_auto_rotate policy))),
                       (''fail_closed_rules'', JInt (int (length (filter pr_fail_closed (vp_rules policy))))),
                       (''ts'', JStr (security_now_iso now))]))))"

section \<open>Facts\<close>

lemma security_decide_ok_iff:
  "sd_ok (security_decide L vd w req) \<longleftrightarrow>
     \<not> sq_covenant_violation req \<and> \<not> sq_tamper_signal req \<and> vd_allowed vd \<and>
     100 * uint (sv_fail_closed_threshold_pct w) \<le> fst (compute_sovereignty_score w req vd)"
  "sd_fail_closed (security_decide L vd w req) \<longleftrightarrow>
     sq_covenant_violation req \<or> sq_tamper_signal req \<or>
     fst (compute_sovereignty_score w req vd) < 100 * uint (sv_fail_closed_threshold_pct w) \<or>
     (\<not> vd_allowed vd \<and> vd_fail_closed vd)"
  by (auto simp: security_decide_def compute_sovereignty_score_def Let_def)

text \<open>The weights of the embedded profile: an operation the vault denies cannot reach the threshold, and a
  clean one that the vault allows always does, drift and a critical risk class included.\<close>

lemma default_score:
  assumes "\<not> sq_covenant_violation req" "\<not> sq_tamper_signal req"
  shows "6000 \<le> fst (compute_sovereignty_score sovereignty_scorer_default req vd) \<longleftrightarrow> vd_allowed vd"
  using assms by (simp add: compute_sovereignty_score_def sovereignty_scorer_default_def clamp_def)

lemma path_join_relative:
  assumes "q \<noteq> []" "last q \<noteq> CHR ''/''" "\<not> path_is_absolute n"
  shows "path_join q n = q @ ''/'' @ n"
  using assms by (simp add: path_join_def)

lemma security_dir:
  "\<exists>q. shutdown_path root = q @ ''/hard_shutdown.json'' \<and> alerts_path root = q @ ''/human_alerts.jsonl''"
proof -
  let ?q = "path_join root ''security''"
  have "?q \<noteq> [] \<and> last ?q = CHR ''y''" by (simp add: path_join_def path_is_absolute_def starts_with_def)
  then show ?thesis
    by (intro exI [of _ ?q])
      (simp add: shutdown_path_def alerts_path_def path_join_relative path_is_absolute_def starts_with_def)
qed

lemma path_file_name_append: "CHR ''/'' \<notin> set n \<Longrightarrow> path_file_name (q @ ''/'' @ n) = n"
proof -
  assume "CHR ''/'' \<notin> set n"
  then have "takeWhile (\<lambda>c. c \<noteq> CHR ''/'') (rev n @ [CHR ''/''] @ rev q) = rev n"
    by (subst takeWhile_append2) auto
  then show ?thesis by (simp add: path_file_name_def)
qed

lemma shutdown_tmp:
  "with_extension (q @ ''/hard_shutdown.json'') ext = q @ ''/hard_shutdown.'' @ ext"
  using path_file_name_append [of "''hard_shutdown.json''" q] by (simp add: with_extension_def)

lemma shutdown_paths_distinct:
  "shutdown_path root \<noteq> alerts_path root"
  "with_extension (shutdown_path root) ext \<noteq> alerts_path root"
proof -
  obtain q where q: "shutdown_path root = q @ ''/hard_shutdown.json''" "alerts_path root = q @ ''/human_alerts.jsonl''"
    using security_dir by blast
  show "shutdown_path root \<noteq> alerts_path root" by (simp add: q)
  show "with_extension (shutdown_path root) ext \<noteq> alerts_path root" by (simp add: q shutdown_tmp)
qed

lemma write_json_atomic_Ok:
  assumes "write_json_atomic X path v fs = (Ok u, fs')"
  shows "\<exists>payload. sx_pretty X v = Ok payload \<and>
     fs' = (fs(with_extension path (''tmp-'' @ show_nat (sx_pid X)) := None))(path \<mapsto> payload)"
  using assms by (auto simp: write_json_atomic_def Let_def split: sum.splits)

lemma append_alert_Ok:
  assumes "append_alert X path v fs = (Ok u, fs')"
  shows "\<exists>line. sx_text X v = Ok line \<and> fs' = fs(path \<mapsto> unwrap_or (fs path) [] @ line @ [CHR 0x0A])"
  using assms by (auto simp: append_alert_def Let_def split: sum.splits)

text \<open>The digest of a decision joins the fields without separators: requests that split the same
  text differently share it.\<close>

lemma decision_digest_ambiguous:
  "digest_for_decision L (req\<lparr>sq_operation_id := ''ab'', sq_subsystem := ''c''\<rparr>) reasons score =
   digest_for_decision L (req\<lparr>sq_operation_id := ''a'', sq_subsystem := ''bc''\<rparr>) reasons score"
  by (simp add: digest_for_decision_def)

text \<open>Sealing goes through the gate: a text is returned only for a well-formed request that was decided,
  and it reports a seal exactly when the gate let the operation pass.\<close>

lemma seal_json_Ok:
  assumes "seal_json L X clk parse request_json root fs = (Ok text, fs')"
  shows "\<exists>req sreq d. parse request_json = Ok req \<and> to_security_request_for_seal L req = Ok sreq \<and>
     enforce_operation L X clk sreq root fs = (Ok d, fs') \<and>
     encode_json X (if sd_fail_closed d \<or> \<not> sd_ok d then deny_json X d else sealed_json L X req d) = Ok text"
  using assms by (auto simp: seal_json_def split: sum.splits prod.splits if_splits)

text \<open>An environment whose blobs load and whose file accesses succeed, and a request with a tamper
  signal.\<close>

definition sample_security_env :: security_env where
  "sample_security_env =
     \<lparr>sx_policy = Ok sample_vault_policy, sx_policy_json = Ok [], sx_envelope = Some sample_vault_envelope,
      sx_scorer = Ok sovereignty_scorer_default, sx_float = JInt, sx_text = (\<lambda>v. Ok (code_json v)),
      sx_pretty = (\<lambda>v. Ok (code_json v)), sx_mkdir = (\<lambda>_. Ok ()), sx_write = (\<lambda>_. Ok ()),
      sx_rename = (\<lambda>_. Ok ()), sx_open = (\<lambda>_. Ok ()), sx_append = (\<lambda>_. Ok ()), sx_pid = 7\<rparr>"

definition sample_tampered :: security_operation_request where
  "sample_tampered = security_operation_request_default\<lparr>sq_tamper_signal := True\<rparr>"

section \<open>Properties\<close>

text \<open>C38: the security gate is closed by default. With the weights of the embedded profile an operation
  passes exactly when it carries no covenant violation and no tamper signal and the vault allows it, and
  everything that does not pass trips the shutdown: there is no soft denial.\<close>

theorem security_gate_exact:
  assumes "sx_policy X = Ok policy" and "sx_scorer X = Ok sovereignty_scorer_default"
  shows "\<exists>d. evaluate_operation L X req = Ok d \<and>
     (sd_ok d \<longleftrightarrow> \<not> sq_covenant_violation req \<and> \<not> sq_tamper_signal req \<and>
        vd_allowed (evaluate_vault_policy L (sx_envelope X) policy (to_vault_request req))) \<and>
     (sd_fail_closed d \<longleftrightarrow> \<not> sd_ok d)"
proof -
  let ?vd = "evaluate_vault_policy L (sx_envelope X) policy (to_vault_request req)"
  have threshold: "100 * uint (sv_fail_closed_threshold_pct sovereignty_scorer_default) = 6000"
    by (simp add: sovereignty_scorer_default_def)
  have "fst (compute_sovereignty_score sovereignty_scorer_default req ?vd) < 6000 \<longleftrightarrow> \<not> vd_allowed ?vd"
    if "\<not> sq_covenant_violation req" "\<not> sq_tamper_signal req"
    using default_score [OF that, of ?vd] by linarith
  then show ?thesis
    using assms default_score [of req ?vd]
    by (auto simp: evaluate_operation_def security_decide_ok_iff threshold security_vault_decision_def)
qed

theorem security_gate_exact_witness:
  "\<exists>d. evaluate_operation sample_libs sample_security_env sample_tampered = Ok d \<and> \<not> sd_ok d \<and> sd_fail_closed d"
  using security_gate_exact [of sample_security_env sample_vault_policy sample_libs sample_tampered]
  by (auto simp: sample_security_env_def sample_tampered_def)

text \<open>C39: a shutdown is on disk before the gate answers. Whenever enforcing an operation returns a decision,
  the decision is the gate's, and if it is closed then the shutdown file holds the record of this
  operation with its first reason and the alert has been appended to what the alert file held; an
  operation that passes writes nothing. A failed write makes the call fail instead.\<close>

theorem enforce_records_shutdown:
  assumes "enforce_operation L X clk req root fs = (Ok d, fs')"
  shows "evaluate_operation L X req = Ok d \<and>
     (if sd_fail_closed d
      then \<exists>payload line. sx_pretty X (shutdown_json (fst clk) req d) = Ok payload \<and>
        sx_text X (security_alert_json (alert_for (snd clk) req d)) = Ok line \<and>
        fs' (shutdown_path root) = Some payload \<and>
        fs' (alerts_path root) = Some (unwrap_or (fs (alerts_path root)) [] @ line @ [CHR 0x0A])
      else fs' = fs)"
proof (cases "evaluate_operation L X req")
  case (Inr decision)
  show ?thesis
  proof (cases "sd_fail_closed decision")
    case True
    obtain fs1 u where w: "write_json_atomic X (shutdown_path root) (shutdown_json (fst clk) req decision) fs = (Ok u, fs1)"
      and a: "append_alert X (alerts_path root) (security_alert_json (alert_for (snd clk) req decision)) fs1 = (Ok (), fs')"
      and d: "decision = d"
      using assms True Inr by (auto simp: enforce_operation_def split: prod.splits sum.splits)
    from write_json_atomic_Ok [OF w] append_alert_Ok [OF a] show ?thesis
      using True Inr shutdown_paths_distinct [of root] shutdown_paths_distinct [of root, THEN not_sym]
      by (auto simp: d)
  qed (use assms Inr in \<open>auto simp: enforce_operation_def\<close>)
qed (use assms in \<open>simp add: enforce_operation_def\<close>)

theorem enforce_records_shutdown_witness:
  "\<exists>d fs'. enforce_operation sample_libs sample_security_env (5, 6) sample_tampered ''st'' Map.empty = (Ok d, fs') \<and>
     sd_fail_closed d \<and> fs' (shutdown_path ''st'') = Some (code_json (shutdown_json 5 sample_tampered d))"
proof -
  let ?X = sample_security_env
  let ?d = "security_decide sample_libs (security_vault_decision sample_libs ?X sample_vault_policy sample_tampered)
    sovereignty_scorer_default sample_tampered"
  have closed: "sd_fail_closed ?d" by (simp add: security_decide_ok_iff sample_tampered_def)
  have env: "evaluate_operation sample_libs ?X sample_tampered = Ok ?d" "\<And>v. sx_pretty ?X v = Ok (code_json v)"
    by (simp_all add: evaluate_operation_def sample_security_env_def)
  have io: "sx_mkdir ?X p = Ok ()" "sx_write ?X p = Ok ()" "sx_rename ?X p = Ok ()" "sx_open ?X p = Ok ()"
    "sx_append ?X p = Ok ()" "sx_text ?X v = Ok (code_json v)" for p v
    by (simp_all add: sample_security_env_def)
  have "\<exists>fs'. enforce_operation sample_libs ?X (5, 6) sample_tampered ''st'' Map.empty = (Ok ?d, fs')"
    using closed env io by (simp add: enforce_operation_def write_json_atomic_def append_alert_def Let_def)
  then obtain fs' where e: "enforce_operation sample_libs ?X (5, 6) sample_tampered ''st'' Map.empty = (Ok ?d, fs')"
    by blast
  from enforce_records_shutdown [OF e] closed env(2) e show ?thesis by auto
qed

end
