(* ===== verification/Layer_Adapters.thy ===== *)
theory Layer_Adapters
  imports Json_Value
begin

text \<open>
  The small crates at the borders of the kernel: the layer topology
  (\<^verbatim>\<open>core/layer0/kernel_layers\<close>), the profile of the tiny runtime (\<^verbatim>\<open>core/layer0/tiny_runtime\<close>), the
  adapter for exotic hardware below layer 0 (\<^verbatim>\<open>core/layer_minus_one/exotic_wrapper\<close>) and the one for
  operating-system extensions above layer 2 (\<^verbatim>\<open>core/layer3/os_extension_wrapper\<close>). The features a build
  enables are an argument of \<open>topology_active\<close>.
\<close>

section \<open>Layers\<close>

datatype kernel_layer = LayerMinusOne | Layer0 | Layer1 | Layer2 | Layer3

record layer_topology =
  lt_layer_minus_one :: bool
  lt_layer0 :: bool
  lt_layer1 :: bool
  lt_layer2 :: bool
  lt_layer3 :: bool

definition topology_active :: "(string \<Rightarrow> bool) \<Rightarrow> layer_topology" where
  "topology_active feature =
     \<lparr>lt_layer_minus_one = feature ''layer_minus_one'', lt_layer0 = feature ''layer0'',
      lt_layer1 = feature ''layer1'', lt_layer2 = feature ''layer2'', lt_layer3 = feature ''layer3''\<rparr>"

definition highest_enabled_layer :: "layer_topology \<Rightarrow> kernel_layer option" where
  "highest_enabled_layer t =
     (if lt_layer3 t then Some Layer3 else if lt_layer2 t then Some Layer2
      else if lt_layer1 t then Some Layer1 else if lt_layer0 t then Some Layer0
      else if lt_layer_minus_one t then Some LayerMinusOne else None)"

primrec layer_rank :: "kernel_layer \<Rightarrow> nat" where
  "layer_rank LayerMinusOne = 0"
| "layer_rank Layer0 = 1"
| "layer_rank Layer1 = 2"
| "layer_rank Layer2 = 3"
| "layer_rank Layer3 = 4"

primrec layer_enabled :: "layer_topology \<Rightarrow> kernel_layer \<Rightarrow> bool" where
  "layer_enabled t LayerMinusOne = lt_layer_minus_one t"
| "layer_enabled t Layer0 = lt_layer0 t"
| "layer_enabled t Layer1 = lt_layer1 t"
| "layer_enabled t Layer2 = lt_layer2 t"
| "layer_enabled t Layer3 = lt_layer3 t"

instantiation kernel_layer :: linorder
begin

definition less_eq_kernel_layer :: "kernel_layer \<Rightarrow> kernel_layer \<Rightarrow> bool" where
  "less_eq_kernel_layer a b \<longleftrightarrow> layer_rank a \<le> layer_rank b"

definition less_kernel_layer :: "kernel_layer \<Rightarrow> kernel_layer \<Rightarrow> bool" where
  "less_kernel_layer a b \<longleftrightarrow> layer_rank a < layer_rank b"

instance
proof
  fix a b c :: kernel_layer
  show "a < b \<longleftrightarrow> a \<le> b \<and> \<not> b \<le> a" by (auto simp: less_eq_kernel_layer_def less_kernel_layer_def)
  show "a \<le> a" by (simp add: less_eq_kernel_layer_def)
  show "a \<le> b \<Longrightarrow> b \<le> c \<Longrightarrow> a \<le> c" by (simp add: less_eq_kernel_layer_def)
  show "a \<le> b \<Longrightarrow> b \<le> a \<Longrightarrow> a = b" by (cases a; cases b) (simp_all add: less_eq_kernel_layer_def)
  show "a \<le> b \<or> b \<le> a" by (auto simp: less_eq_kernel_layer_def)
qed

end

text \<open>The reported layer is the greatest of the enabled ones.\<close>

lemma highest_enabled_layer_Some:
  "highest_enabled_layer t = Some l \<longleftrightarrow> layer_enabled t l \<and> (\<forall>l'. layer_enabled t l' \<longrightarrow> l' \<le> l)"
proof -
  have all: "(\<forall>l'. P l') \<longleftrightarrow> P LayerMinusOne \<and> P Layer0 \<and> P Layer1 \<and> P Layer2 \<and> P Layer3" for P
    by (metis kernel_layer.exhaust)
  show ?thesis
    by (cases l) (auto simp: highest_enabled_layer_def all less_eq_kernel_layer_def)
qed

section \<open>The tiny runtime\<close>

record tiny_runtime_profile =
  tr_profile :: string
  tr_no_std :: bool
  tr_max_heap_kib :: u32
  tr_max_concurrent_hands :: u16
  tr_supports_hibernation :: bool
  tr_supports_receipt_batching :: bool

definition TINY_PROFILE :: tiny_runtime_profile where
  "TINY_PROFILE =
     \<lparr>tr_profile = ''tiny-embedded'', tr_no_std = True, tr_max_heap_kib = 4096,
      tr_max_concurrent_hands = 64, tr_supports_hibernation = True, tr_supports_receipt_batching = True\<rparr>"

definition saturating_mul :: "'a::len word \<Rightarrow> 'a word \<Rightarrow> 'a word" where
  "saturating_mul a b = (if unat a * unat b < 2 ^ LENGTH('a) then a * b else - 1)"

definition normalized_capacity_score :: "u32 \<Rightarrow> u16 \<Rightarrow> u16" where
  "normalized_capacity_score mem_kib hands =
     (let mem_cap = (if mem_kib \<ge> tr_max_heap_kib TINY_PROFILE then 100
            else saturating_mul mem_kib 100 div max (tr_max_heap_kib TINY_PROFILE) 1 :: u32);
          hand_cap = (if hands \<ge> tr_max_concurrent_hands TINY_PROFILE then 100
            else saturating_mul (ucast hands) 100 div ucast (max (tr_max_concurrent_hands TINY_PROFILE) 1) :: u32)
      in ucast ((mem_cap + hand_cap) div 2))"

section \<open>Exotic signals and extensions\<close>

datatype exotic_domain = Ternary | Quantum | Neural | Analog | Unknown

fun show_exotic_domain :: "exotic_domain \<Rightarrow> string" where
  "show_exotic_domain Ternary = ''Ternary''"
| "show_exotic_domain Quantum = ''Quantum''"
| "show_exotic_domain Neural = ''Neural''"
| "show_exotic_domain Analog = ''Analog''"
| "show_exotic_domain Unknown = ''Unknown''"

record exotic_envelope =
  xe_domain :: exotic_domain
  xe_adapter_id :: string
  xe_signal_type :: string
  xe_payload_ref :: string
  xe_ts_ms :: int

record layer0_envelope =
  le_source_layer :: string
  le_adapter_id :: string
  le_capability_class :: string
  le_deterministic_digest :: string
  le_ts_ms :: int

record degradation_contract =
  dg_primary :: string
  dg_fallback :: string
  dg_reason :: string

definition show_int :: "int \<Rightarrow> string" where
  "show_int i = (if i < 0 then ''-'' else []) @ show_nat (nat \<bar>i\<bar>)"

definition exotic_digest_text :: "exotic_envelope \<Rightarrow> string \<Rightarrow> string" where
  "exotic_digest_text e capability_class =
     show_exotic_domain (xe_domain e) @ ''|'' @ xe_adapter_id e @ ''|'' @ xe_signal_type e @ ''|'' @
     xe_payload_ref e @ ''|'' @ show_int (xe_ts_ms e) @ ''|'' @ capability_class"

definition wrap_exotic_signal :: "libs \<Rightarrow> exotic_envelope \<Rightarrow> string \<Rightarrow> layer0_envelope" where
  "wrap_exotic_signal L e capability_class =
     \<lparr>le_source_layer = ''layer_minus_one'', le_adapter_id = xe_adapter_id e,
      le_capability_class = trim capability_class,
      le_deterministic_digest = sha256_hex L (exotic_digest_text e capability_class),
      le_ts_ms = xe_ts_ms e\<rparr>"

fun default_degradation :: "exotic_domain \<Rightarrow> degradation_contract" where
  "default_degradation Quantum =
     \<lparr>dg_primary = ''quantum_domain'', dg_fallback = ''classical_approximation'',
      dg_reason = ''qpu_unavailable_or_fidelity_below_gate''\<rparr>"
| "default_degradation Neural =
     \<lparr>dg_primary = ''neural_io'', dg_fallback = ''standard_ui_io'', dg_reason = ''consent_kernel_unavailable''\<rparr>"
| "default_degradation Ternary =
     \<lparr>dg_primary = ''ternary_domain'', dg_fallback = ''binary_encoding'', dg_reason = ''no_ternary_backend''\<rparr>"
| "default_degradation _ =
     \<lparr>dg_primary = ''exotic_domain'', dg_fallback = ''binary_safe_mode'',
      dg_reason = ''unsupported_or_unknown_domain''\<rparr>"

record os_extension_descriptor =
  od_extension_id :: string
  od_namespace :: string
  od_capability_manifest_hash :: string
  od_syscall_surface :: "string list"
  od_driver_surface :: "string list"

record os_extension_envelope =
  oe_source_layer :: string
  oe_extension_id :: string
  oe_namespace :: string
  oe_action :: string
  oe_ts_ms :: int

definition wrap_os_extension :: "os_extension_descriptor \<Rightarrow> string \<Rightarrow> int \<Rightarrow> os_extension_envelope" where
  "wrap_os_extension descriptor action ts_ms =
     \<lparr>oe_source_layer = ''layer3'', oe_extension_id = od_extension_id descriptor,
      oe_namespace = od_namespace descriptor, oe_action = trim action, oe_ts_ms = ts_ms\<rparr>"

section \<open>Facts\<close>

text \<open>The capacity score is a percentage: the mean of the two shares, each cut off at 100.\<close>

lemma unat_mean:
  assumes "unat (a :: u32) \<le> 100" "unat b \<le> 100"
  shows "unat (ucast ((a + b) div 2) :: u16) = (unat a + unat b) div 2"
proof -
  have "unat (a + b) = unat a + unat b" using assms by (simp add: unat_word_ariths)
  then have "unat ((a + b) div 2) = (unat a + unat b) div 2" by (simp add: unat_div)
  moreover have "(unat a + unat b) div 2 < 2 ^ 16" using assms by simp
  ultimately show ?thesis by (simp add: unsigned_ucast_eq take_bit_nat_eq_self)
qed

lemma unat_capacity_score:
  "unat (normalized_capacity_score mem hands) =
     (min 100 (unat mem * 100 div 4096) + min 100 (unat hands * 100 div 64)) div 2"
proof -
  have mem: "unat ((if mem \<ge> 4096 then 100 else saturating_mul mem 100 div max 4096 1) :: u32) =
      min 100 (unat mem * 100 div 4096)"
  proof (cases "mem \<ge> 4096")
    case False
    then have lt: "unat mem < 4096" by (simp add: word_le_nat_alt)
    then have "unat (mem * 100) = unat mem * 100" by (simp add: unat_word_ariths)
    then show ?thesis using False lt by (simp add: saturating_mul_def unat_div)
  qed (simp add: word_le_nat_alt)
  have hand: "unat ((if hands \<ge> 64 then 100 else saturating_mul (ucast hands) 100 div ucast (max (64 :: u16) 1)) :: u32) =
      min 100 (unat hands * 100 div 64)"
  proof (cases "hands \<ge> 64")
    case False
    then have lt: "unat hands < 64" by (simp add: word_le_nat_alt)
    have u: "unat (ucast hands :: u32) = unat hands"
      using lt by (simp add: unsigned_ucast_eq take_bit_nat_eq_self)
    then have "unat ((ucast hands :: u32) * 100) = unat hands * 100" using lt by (simp add: unat_word_ariths)
    then show ?thesis using False lt u by (simp add: saturating_mul_def unat_div)
  qed (simp add: word_le_nat_alt)
  have score: "normalized_capacity_score mem hands = ucast
      (((if mem \<ge> 4096 then 100 else saturating_mul mem 100 div max 4096 1) +
        (if hands \<ge> 64 then 100 else saturating_mul (ucast hands) 100 div ucast (max (64 :: u16) 1)) :: u32) div 2)"
    by (simp only: normalized_capacity_score_def TINY_PROFILE_def Let_def tiny_runtime_profile.simps)
  show ?thesis unfolding score by (subst unat_mean) (simp_all only: mem hand min.cobounded1)
qed

lemma show_int_inject: "show_int i = show_int j \<Longrightarrow> i = j"
proof -
  have "hd (show_nat n) \<noteq> CHR ''-''" for n
    using show_nat_digits [of n] show_nat_nonempty [of n]
    by (auto simp: is_ascii_digit_def char_nat_def Let_def dest!: bspec [OF _ hd_in_set])
  then have "show_nat n \<noteq> CHR ''-'' # s" for n s by (metis list.sel(1))
  then show "show_int i = show_int j \<Longrightarrow> i = j"
    by (auto simp: show_int_def split: if_splits) (metis)
qed

text \<open>The text under the digest of an exotic signal determines the envelope when no field carries the
  separator.\<close>

lemma exotic_digest_text_inject:
  assumes "CHR ''|'' \<notin> set (xe_adapter_id e) \<union> set (xe_signal_type e) \<union> set (xe_payload_ref e)"
    and "CHR ''|'' \<notin> set (xe_adapter_id e') \<union> set (xe_signal_type e') \<union> set (xe_payload_ref e')"
    and "exotic_digest_text e c = exotic_digest_text e' c'"
  shows "e = e' \<and> c = c'"
proof -
  have dom: "CHR ''|'' \<notin> set (show_exotic_domain d)" for d by (cases d) simp_all
  have dom_inj: "show_exotic_domain d = show_exotic_domain d' \<Longrightarrow> d = d'" for d d' by (cases d; cases d') simp_all
  have "CHR ''|'' \<notin> set (show_nat n)" for n
    using show_nat_digits [of n] by (auto simp: is_ascii_digit_def char_nat_def Let_def dest: bspec)
  then have num: "CHR ''|'' \<notin> set (show_int i)" for i by (simp add: show_int_def)
  from assms show ?thesis
    by (cases e, cases e')
      (auto simp: exotic_digest_text_def append_sep_inject dom num dest: dom_inj show_int_inject)
qed

end
