(* ===== verification/Regex_Match.thy ===== *)
theory Regex_Match
  imports Rust_Base
begin

text \<open>
  Regular expressions as far as the sources use the crate \<^verbatim>\<open>regex\<close>: a fixed pattern that is anchored at
  both ends and asked with \<^verbatim>\<open>is_match\<close>. \<open>rx_lang\<close> is the set of texts a pattern describes,
  \<open>rx_is_match\<close> decides it by derivatives. Classes are predicates on characters; \<^verbatim>\<open>\d\<close> is the class of the
  ASCII digits, as for all text in this library.
\<close>

datatype rx =
    RxEmpty
  | RxEps
  | RxClass "char \<Rightarrow> bool"
  | RxSeq rx rx
  | RxAlt rx rx
  | RxStar rx

abbreviation rx_chr :: "char \<Rightarrow> rx" where
  "rx_chr c \<equiv> RxClass (\<lambda>x. x = c)"

definition rx_plus :: "rx \<Rightarrow> rx" where
  "rx_plus r = RxSeq r (RxStar r)"

primrec rx_pow :: "rx \<Rightarrow> nat \<Rightarrow> rx" where
  "rx_pow r 0 = RxEps"
| "rx_pow r (Suc n) = RxSeq r (rx_pow r n)"

definition rx_opt :: "rx \<Rightarrow> rx" where
  "rx_opt r = RxAlt r RxEps"

definition rx_alts :: "rx list \<Rightarrow> rx" where
  "rx_alts rs = foldr RxAlt rs RxEmpty"

definition rx_seqs :: "rx list \<Rightarrow> rx" where
  "rx_seqs rs = foldr RxSeq rs RxEps"

primrec rx_text :: "string \<Rightarrow> rx" where
  "rx_text [] = RxEps"
| "rx_text (c # cs) = RxSeq (rx_chr c) (rx_text cs)"

section \<open>Meaning\<close>

inductive_set star_lang :: "string set \<Rightarrow> string set" for A where
  star_Nil: "[] \<in> star_lang A"
| star_app: "xs \<in> A \<Longrightarrow> ys \<in> star_lang A \<Longrightarrow> xs @ ys \<in> star_lang A"

primrec rx_lang :: "rx \<Rightarrow> string set" where
  "rx_lang RxEmpty = {}"
| "rx_lang RxEps = {[]}"
| "rx_lang (RxClass p) = {[c] |c. p c}"
| "rx_lang (RxSeq r q) = {xs @ ys |xs ys. xs \<in> rx_lang r \<and> ys \<in> rx_lang q}"
| "rx_lang (RxAlt r q) = rx_lang r \<union> rx_lang q"
| "rx_lang (RxStar r) = star_lang (rx_lang r)"

section \<open>Matching\<close>

primrec rx_nullable :: "rx \<Rightarrow> bool" where
  "rx_nullable RxEmpty = False"
| "rx_nullable RxEps = True"
| "rx_nullable (RxClass p) = False"
| "rx_nullable (RxSeq r q) = (rx_nullable r \<and> rx_nullable q)"
| "rx_nullable (RxAlt r q) = (rx_nullable r \<or> rx_nullable q)"
| "rx_nullable (RxStar r) = True"

primrec rx_deriv :: "char \<Rightarrow> rx \<Rightarrow> rx" where
  "rx_deriv c RxEmpty = RxEmpty"
| "rx_deriv c RxEps = RxEmpty"
| "rx_deriv c (RxClass p) = (if p c then RxEps else RxEmpty)"
| "rx_deriv c (RxSeq r q) =
     (let d = RxSeq (rx_deriv c r) q in if rx_nullable r then RxAlt d (rx_deriv c q) else d)"
| "rx_deriv c (RxAlt r q) = RxAlt (rx_deriv c r) (rx_deriv c q)"
| "rx_deriv c (RxStar r) = RxSeq (rx_deriv c r) (RxStar r)"

definition rx_is_match :: "rx \<Rightarrow> string \<Rightarrow> bool" where
  "rx_is_match r s = rx_nullable (fold rx_deriv s r)"

text \<open>The class \<^verbatim>\<open>\w\<close>, the assertion \<^verbatim>\<open>\b\<close> at a position, and \<^verbatim>\<open>is_match\<close> of the pattern \<^verbatim>\<open>\br\b\<close>: some
  part of the text matches and has a boundary at both ends.\<close>

definition is_word_char :: "char \<Rightarrow> bool" where
  "is_word_char c = (is_ascii_alphanumeric c \<or> c = CHR ''_'')"

definition at_boundary :: "string \<Rightarrow> nat \<Rightarrow> bool" where
  "at_boundary s i =
     ((0 < i \<and> is_word_char (s ! (i - 1))) \<noteq> (i < length s \<and> is_word_char (s ! i)))"

definition rx_word_match :: "rx \<Rightarrow> string \<Rightarrow> bool" where
  "rx_word_match r s =
     list_ex (\<lambda>i. at_boundary s i \<and>
       list_ex (\<lambda>j. at_boundary s j \<and> rx_is_match r (take (j - i) (drop i s))) [i..<Suc (length s)])
     [0..<Suc (length s)]"

text \<open>\<^verbatim>\<open>Regex::new\<close> on a pattern of literals: a backslash before a meta character stands for that
  character, any other character for itself; a bare meta character is no literal. \<close>

definition is_rx_meta :: "char \<Rightarrow> bool" where
  "is_rx_meta c = (c \<in> set ''.*+?^$|[]{}()'' \<or> c = CHR 0x5C)"

fun rx_parse_literals :: "string \<Rightarrow> rx option" where
  "rx_parse_literals [] = Some RxEps"
| "rx_parse_literals (c # cs) =
     (if c = CHR 0x5C
      then (case cs of
              [] \<Rightarrow> None
            | d # ds \<Rightarrow> if is_rx_meta d then map_option (RxSeq (rx_chr d)) (rx_parse_literals ds) else None)
      else if is_rx_meta c then None
      else map_option (RxSeq (rx_chr c)) (rx_parse_literals cs))"

section \<open>Matching decides the language\<close>

lemma rx_nullable_iff: "rx_nullable r \<longleftrightarrow> [] \<in> rx_lang r"
  by (induction r) (auto intro: star_Nil)

lemma star_lang_Cons:
  assumes "c # xs \<in> star_lang A"
  shows "\<exists>ys zs. xs = ys @ zs \<and> c # ys \<in> A \<and> zs \<in> star_lang A"
proof -
  have "\<exists>ys zs. xs = ys @ zs \<and> c # ys \<in> A \<and> zs \<in> star_lang A"
    if "w \<in> star_lang A" "w = c # xs" for w
    using that
  proof (induction arbitrary: xs)
    case (star_app us vs)
    then show ?case by (cases us) auto
  qed simp
  with assms show ?thesis by blast
qed

lemma star_lang_step:
  "c # xs \<in> star_lang A \<longleftrightarrow> (\<exists>ys zs. xs = ys @ zs \<and> c # ys \<in> A \<and> zs \<in> star_lang A)"
  using star_lang_Cons star_app [of "c # _" A] by fastforce

lemma rx_deriv_lang: "xs \<in> rx_lang (rx_deriv c r) \<longleftrightarrow> c # xs \<in> rx_lang r"
proof (induction r arbitrary: xs)
  case (RxSeq r q)
  have "c # xs \<in> rx_lang (RxSeq r q) \<longleftrightarrow>
      (\<exists>ys zs. xs = ys @ zs \<and> c # ys \<in> rx_lang r \<and> zs \<in> rx_lang q) \<or>
      ([] \<in> rx_lang r \<and> c # xs \<in> rx_lang q)"
    by (auto simp: Cons_eq_append_conv)
  with RxSeq show ?case by (auto simp: Let_def rx_nullable_iff)
next
  case (RxStar r)
  then show ?case by (auto simp: star_lang_step)
qed auto

theorem rx_is_match_iff: "rx_is_match r s \<longleftrightarrow> s \<in> rx_lang r"
proof -
  have "[] \<in> rx_lang (fold rx_deriv s r) \<longleftrightarrow> s \<in> rx_lang r"
    by (induction s arbitrary: r) (simp_all add: rx_deriv_lang)
  then show ?thesis by (simp add: rx_is_match_def rx_nullable_iff)
qed

section \<open>The patterns the sources are built from\<close>

lemma star_lang_class: "star_lang {[c] |c. p c} = {xs. list_all p xs}"
proof (intro equalityI subsetI CollectI)
  fix xs assume "xs \<in> star_lang {[c] |c. p c}"
  then show "list_all p xs" by induction auto
next
  fix xs assume "xs \<in> {xs. list_all p xs}"
  then have "list_all p xs" by simp
  then show "xs \<in> star_lang {[c] |c. p c}"
  proof (induction xs)
    case (Cons x xs)
    then have "[x] \<in> {[c] |c. p c}" and "xs \<in> star_lang {[c] |c. p c}" by auto
    then have "[x] @ xs \<in> star_lang {[c] |c. p c}" by (rule star_app)
    then show ?case by simp
  qed (simp add: star_Nil)
qed

lemma rx_lang_class_seq:
  "rx_lang (RxSeq (RxClass p) r) = {c # ys |c ys. p c \<and> ys \<in> rx_lang r}"
proof (intro equalityI subsetI)
  fix xs assume "xs \<in> {c # ys |c ys. p c \<and> ys \<in> rx_lang r}"
  then obtain c ys where "xs = [c] @ ys" "[c] \<in> rx_lang (RxClass p)" "ys \<in> rx_lang r" by auto
  then show "xs \<in> rx_lang (RxSeq (RxClass p) r)" unfolding rx_lang.simps(4) by blast
qed auto

lemma rx_lang_plus_class: "rx_lang (rx_plus (RxClass p)) = {xs. xs \<noteq> [] \<and> list_all p xs}"
proof -
  have "rx_lang (RxStar (RxClass p)) = {xs. list_all p xs}" by (simp add: star_lang_class)
  then show ?thesis unfolding rx_plus_def rx_lang_class_seq by (auto simp: neq_Nil_conv)
qed

lemma rx_lang_pow_class: "rx_lang (rx_pow (RxClass p) n) = {xs. length xs = n \<and> list_all p xs}"
proof (induction n)
  case (Suc n)
  have "xs \<in> rx_lang (rx_pow (RxClass p) (Suc n)) \<longleftrightarrow> length xs = Suc n \<and> list_all p xs" for xs
    unfolding rx_pow.simps rx_lang_class_seq Suc by (cases xs) auto
  then show ?case by blast
qed auto

lemma rx_lang_text: "rx_lang (rx_text s) = {s}"
  by (induction s) auto

lemma rx_lang_chr_seq: "rx_lang (RxSeq (rx_chr c) r) = (#) c ` rx_lang r"
  unfolding rx_lang_class_seq by auto

lemmas rx_lang_simps = rx_lang_plus_class rx_lang_pow_class rx_lang_text rx_lang_chr_seq

text \<open>Occurrences with boundaries, as a split of the text.\<close>

lemma rx_word_match_iff:
  "rx_word_match r s \<longleftrightarrow>
     (\<exists>pre mid post. s = pre @ mid @ post \<and> mid \<in> rx_lang r \<and>
        at_boundary s (length pre) \<and> at_boundary s (length pre + length mid))"
  (is "?L = ?R")
proof
  assume ?L
  then have "\<exists>i\<in>{0..<Suc (length s)}. at_boundary s i \<and> (\<exists>j\<in>{i..<Suc (length s)}. at_boundary s j \<and>
      take (j - i) (drop i s) \<in> rx_lang r)"
    by (simp only: rx_word_match_def rx_is_match_iff list_ex_iff set_upt)
  then obtain i j where i: "at_boundary s i" and "j \<in> {i..<Suc (length s)}" and j: "at_boundary s j"
    and m: "take (j - i) (drop i s) \<in> rx_lang r"
    by (elim bexE conjE) (rule that)
  then have ij: "i \<le> j" "j \<le> length s" by simp_all
  let ?mid = "take (j - i) (drop i s)"
  have "s = take i s @ ?mid @ drop (j - i) (drop i s)" by (simp only: append_take_drop_id)
  moreover have "length (take i s) = i" "length ?mid = j - i" using ij by simp_all
  ultimately show ?R using ij i j m by (metis le_add_diff_inverse)
next
  assume ?R
  then obtain pre mid post where s: "s = pre @ mid @ post" and m: "mid \<in> rx_lang r"
    and b: "at_boundary s (length pre)" "at_boundary s (length pre + length mid)" by blast
  have "take (length pre + length mid - length pre) (drop (length pre) s) = mid"
    and "length pre \<in> {0..<Suc (length s)}"
    and "length pre + length mid \<in> {length pre..<Suc (length s)}" using s by simp_all
  with m b show ?L
    unfolding rx_word_match_def rx_is_match_iff list_ex_iff set_upt by (metis (no_types))
qed

end
