(* ===== verification/Float_View.thy ===== *)
theory Float_View
  imports Complex_Main Rust_Base
begin

text \<open>
  \<^verbatim>\<open>f64\<close> for code that compares, rounds to an integer and converts, but does no rounding arithmetic: not
  a number, the two infinities, and the finite values, each of which is a rational number. The operations
  below are exact on finite values: comparison, \<^verbatim>\<open>max\<close>, \<^verbatim>\<open>min\<close>, \<^verbatim>\<open>floor\<close>, \<^verbatim>\<open>round\<close> (half away from zero) and
  the saturating conversion to an unsigned integer. The two zeros are one value, since no operation here
  tells them apart. Code that adds, multiplies or divides floats is not modelled with this type.
\<close>

datatype f64 = NaN | PosInf | NegInf | Fin rat

definition is_finite :: "f64 \<Rightarrow> bool" where
  "is_finite x = (case x of Fin _ \<Rightarrow> True | _ \<Rightarrow> False)"

fun f64_lt :: "f64 \<Rightarrow> f64 \<Rightarrow> bool" where
  "f64_lt (Fin a) (Fin b) = (a < b)"
| "f64_lt (Fin a) PosInf = True"
| "f64_lt NegInf (Fin b) = True"
| "f64_lt NegInf PosInf = True"
| "f64_lt _ _ = False"

definition f64_eq :: "f64 \<Rightarrow> f64 \<Rightarrow> bool" where
  "f64_eq x y = (x \<noteq> NaN \<and> x = y)"

definition f64_le :: "f64 \<Rightarrow> f64 \<Rightarrow> bool" where
  "f64_le x y = (f64_lt x y \<or> f64_eq x y)"

text \<open>\<^verbatim>\<open>f64::max\<close> and \<^verbatim>\<open>min\<close> return the other operand when one is not a number.\<close>

definition f64_max :: "f64 \<Rightarrow> f64 \<Rightarrow> f64" where
  "f64_max x y = (if x = NaN then y else if y = NaN then x else if f64_lt x y then y else x)"

definition f64_min :: "f64 \<Rightarrow> f64 \<Rightarrow> f64" where
  "f64_min x y = (if x = NaN then y else if y = NaN then x else if f64_lt y x then y else x)"

text \<open>\<^verbatim>\<open>f64::clamp\<close>; it panics when the bounds are not ordered, and the sources give it constants.\<close>

definition f64_clamp :: "f64 \<Rightarrow> f64 \<Rightarrow> f64 \<Rightarrow> f64" where
  "f64_clamp lo hi x = (if f64_lt x lo then lo else if f64_lt hi x then hi else x)"

fun f64_floor :: "f64 \<Rightarrow> f64" where
  "f64_floor (Fin q) = Fin (of_int \<lfloor>q\<rfloor>)"
| "f64_floor x = x"

definition round_rat :: "rat \<Rightarrow> int" where
  "round_rat q = (if q < 0 then \<lceil>q - 1 / 2\<rceil> else \<lfloor>q + 1 / 2\<rfloor>)"

fun f64_round :: "f64 \<Rightarrow> f64" where
  "f64_round (Fin q) = Fin (of_int (round_rat q))"
| "f64_round x = x"

text \<open>\<^verbatim>\<open>as u32\<close>, \<^verbatim>\<open>as u64\<close>: towards zero, saturating, and zero for what is not a number.\<close>

definition f64_as_nat :: "nat \<Rightarrow> f64 \<Rightarrow> nat" where
  "f64_as_nat hi x =
     (case x of Fin q \<Rightarrow> min (nat \<lfloor>q\<rfloor>) hi | PosInf \<Rightarrow> hi | _ \<Rightarrow> 0)"

definition f64_as_u32 :: "f64 \<Rightarrow> u32" where
  "f64_as_u32 x = of_nat (f64_as_nat (2 ^ 32 - 1) x)"

definition f64_as_u64 :: "f64 \<Rightarrow> u64" where
  "f64_as_u64 x = of_nat (f64_as_nat (2 ^ 64 - 1) x)"

text \<open>\<^verbatim>\<open>filter(|v| v.is_finite())\<close> on an optional value.\<close>

definition finite_only :: "f64 option \<Rightarrow> f64 option" where
  "finite_only v = (case v of Some x \<Rightarrow> if is_finite x then Some x else None | None \<Rightarrow> None)"

section \<open>Laws\<close>

lemma is_finite_iff [simp]: "is_finite x \<longleftrightarrow> (\<exists>q. x = Fin q)"
  by (cases x) (simp_all add: is_finite_def)

lemma f64_le_Fin [simp]: "f64_le (Fin a) (Fin b) \<longleftrightarrow> a \<le> b"
  by (auto simp: f64_le_def f64_eq_def)

lemma f64_max_Fin [simp]: "f64_max (Fin a) (Fin b) = Fin (max a b)"
  by (simp add: f64_max_def max_def)

lemma f64_min_Fin [simp]: "f64_min (Fin a) (Fin b) = Fin (min a b)"
  by (simp add: f64_min_def min_def)

lemma finite_only_simps [simp]:
  "finite_only None = None" "finite_only (Some (Fin q)) = Some (Fin q)" "finite_only (Some NaN) = None"
  "finite_only (Some PosInf) = None" "finite_only (Some NegInf) = None"
  by (simp_all add: finite_only_def)

lemma f64_as_nat_le: "f64_as_nat hi x \<le> hi"
  by (simp add: f64_as_nat_def split: f64.splits)

lemma round_rat_int [simp]: "round_rat (of_int n) = n"
proof (cases "n < 0")
  case True
  then show ?thesis by (simp add: round_rat_def ceiling_eq_iff)
next
  case False
  then show ?thesis by (simp add: round_rat_def floor_eq_iff)
qed

lemma round_rat_near: "\<bar>of_int (round_rat q) - q\<bar> \<le> 1 / 2"
proof (cases "q < 0")
  case True
  moreover have "q - 1 / 2 \<le> of_int \<lceil>q - 1 / 2\<rceil>" "of_int \<lceil>q - 1 / 2\<rceil> < q - 1 / 2 + 1" by linarith+
  ultimately show ?thesis unfolding round_rat_def by (simp only: if_True)
next
  case False
  moreover have "of_int \<lfloor>q + 1 / 2\<rfloor> \<le> q + 1 / 2" "q + 1 / 2 < of_int \<lfloor>q + 1 / 2\<rfloor> + 1" by linarith+
  ultimately show ?thesis unfolding round_rat_def by (simp only: if_False)
qed

end
