(* ===== verification/Autoscale_Text.thy ===== *)
theory Autoscale_Text
  imports Regex_Match BTree_Map Float_View
begin

text \<open>
  The text functions of \<^verbatim>\<open>core/layer2/execution/src/autoscale.rs\<close>: white space, objective ids, directive
  tokens, keys of cooldowns, value currencies, domains, proposal files. Each takes the fields of its input
  struct and returns the one field of its output struct. An optional text that is missing counts as the
  empty one. Indexing a text by bytes (\<^verbatim>\<open>token[..5]\<close>) is by characters here, as all text is ASCII.
\<close>

section \<open>Optional texts\<close>

text \<open>\<^verbatim>\<open>as_deref().unwrap_or("")\<close>, then with \<^verbatim>\<open>trim\<close>, and with \<^verbatim>\<open>to_ascii_lowercase\<close> on top.\<close>

abbreviation opt_str :: "string option \<Rightarrow> string" where
  "opt_str v \<equiv> unwrap_or v ''''"

definition opt_trim :: "string option \<Rightarrow> string" where
  "opt_trim v = trim (opt_str v)"

definition opt_lower :: "string option \<Rightarrow> string" where
  "opt_lower v = to_ascii_lowercase (trim (opt_str v))"

definition normalize_spaces :: "string \<Rightarrow> string" where
  "normalize_spaces s = join '' '' (split_whitespace s)"

definition compute_normalize_spaces :: "string option \<Rightarrow> string" where
  "compute_normalize_spaces text = join '' '' (split_whitespace (opt_str text))"

definition ends_with :: "string \<Rightarrow> string \<Rightarrow> bool" where
  "ends_with s p = starts_with (rev s) (rev p)"

text \<open>Loops that trim and drop blank entries, and loops that push what a set has not seen.\<close>

definition trimmed_rows :: "string list \<Rightarrow> string list" where
  "trimmed_rows rows = filter (\<lambda>v. v \<noteq> []) (map trim rows)"

definition lowered_rows :: "string list \<Rightarrow> string list" where
  "lowered_rows rows = filter (\<lambda>v. v \<noteq> []) (map (\<lambda>v. to_ascii_lowercase (trim v)) rows)"

fun push_new :: "string list \<Rightarrow> string list \<Rightarrow> string list" where
  "push_new seen [] = []"
| "push_new seen (v # vs) =
     (if v = [] \<or> v \<in> set seen then push_new seen vs else v # push_new (v # seen) vs)"

section \<open>Objective ids\<close>

definition sanitize_directive_objective_id :: "string \<Rightarrow> string" where
  "sanitize_directive_objective_id raw =
     (let value = trim raw;
          rest = tl value;
          digits = takeWhile is_ascii_digit rest;
          tail = dropWhile is_ascii_digit rest
      in if value = [] then []
         else if hd value \<noteq> CHR ''T'' then []
         else if digits = [] \<or> tail = [] \<or> hd tail \<noteq> CHR ''_'' then []
         else if tl tail = [] then []
         else if \<not> list_all (\<lambda>b. is_ascii_alphanumeric b \<or> b = CHR ''_'') (tl tail) then []
         else value)"

definition sanitize_directive_objective_id_single_digit :: "string \<Rightarrow> string" where
  "sanitize_directive_objective_id_single_digit raw =
     (let value = trim raw in
      if length value < 4 then []
      else if value ! 0 \<noteq> CHR ''T'' \<or> \<not> is_ascii_digit (value ! 1) \<or> value ! 2 \<noteq> CHR ''_'' then []
      else if \<not> list_all (\<lambda>b. is_ascii_alphanumeric b \<or> b = CHR ''_'') (drop 3 value) then []
      else value)"

text \<open>The patterns \<^verbatim>\<open>^T[0-9]_[A-Za-z0-9_]+$\<close> and \<^verbatim>\<open>^T[0-9]+_[A-Za-z0-9_]+$\<close>.\<close>

definition rx_objective_id :: rx where
  "rx_objective_id = RxSeq (rx_chr CHR ''T'') (RxSeq (RxClass is_ascii_digit)
     (RxSeq (rx_chr CHR ''_'') (rx_plus (RxClass is_word_char))))"

definition rx_objective_token :: rx where
  "rx_objective_token = RxSeq (rx_chr CHR ''T'') (RxSeq (rx_plus (RxClass is_ascii_digit))
     (RxSeq (rx_chr CHR ''_'') (rx_plus (RxClass is_word_char))))"

definition compute_sanitize_directive_objective_id :: "string option \<Rightarrow> string" where
  "compute_sanitize_directive_objective_id value =
     (let raw = opt_trim value in
      if raw = [] then [] else if \<not> rx_is_match rx_objective_id raw then [] else raw)"

text \<open>The maximal runs of word characters of a text. A match of \<^verbatim>\<open>\b(T[0-9]+_[A-Za-z0-9_]+)\b\<close> begins and
  ends at a boundary and holds word characters only, so it is such a run, and the leftmost match is the
  first run of that form.\<close>

fun word_runs :: "string \<Rightarrow> string \<Rightarrow> string list" where
  "word_runs acc [] = (if acc = [] then [] else [rev acc])"
| "word_runs acc (c # cs) =
     (if is_word_char c then word_runs (c # acc) cs
      else if acc = [] then word_runs [] cs else rev acc # word_runs [] cs)"

definition compute_extract_objective_id_token :: "string option \<Rightarrow> string option" where
  "compute_extract_objective_id_token value =
     (let text = compute_normalize_spaces value in
      if text = [] then None
      else if rx_is_match rx_objective_token text then Some text
      else find (rx_is_match rx_objective_token) (word_runs [] text))"

definition compute_has_linked_objective_entry ::
  "string option \<Rightarrow> string option \<Rightarrow> string option \<Rightarrow> bool" where
  "compute_has_linked_objective_entry objective_id directive_objective_id directive =
     (compute_extract_objective_id_token objective_id \<noteq> None \<or>
      compute_extract_objective_id_token directive_objective_id \<noteq> None \<or>
      compute_extract_objective_id_token directive \<noteq> None)"

text \<open>The pattern \<^verbatim>\<open>(?i)^T1(?:\b|[_:-])\<close>: after the two characters comes the end, a character that is no
  word character, or an underscore.\<close>

definition compute_is_tier1_objective_id :: "string option \<Rightarrow> bool" where
  "compute_is_tier1_objective_id objective_id =
     (let id = opt_trim objective_id in
      id \<noteq> [] \<and> starts_with (to_ascii_lowercase id) ''t1'' \<and>
      (case drop 2 id of [] \<Rightarrow> True | c # _ \<Rightarrow> \<not> is_word_char c \<or> c \<in> set ''_:-''))"

fun sanitized_ids_loop :: "nat \<Rightarrow> string list \<Rightarrow> string list \<Rightarrow> string list" where
  "sanitized_ids_loop limit out [] = out"
| "sanitized_ids_loop limit out (row # rows) =
     (if length out \<ge> limit then out
      else let sanitized = compute_sanitize_directive_objective_id (Some row) in
        if sanitized = [] \<or> sanitized \<in> set out then sanitized_ids_loop limit out rows
        else sanitized_ids_loop limit (out @ [sanitized]) rows)"

definition compute_sanitized_directive_id_list :: "f64 option \<Rightarrow> string list \<Rightarrow> string list" where
  "compute_sanitized_directive_id_list limit0 rows =
     (let limit = min (case finite_only limit0 of
                         Some v \<Rightarrow> f64_as_nat (2 ^ 64 - 1) (f64_floor (f64_max v (Fin 0)))
                       | None \<Rightarrow> 12) 200
      in if limit = 0 then [] else sanitized_ids_loop limit [] rows)"

record policy_hold_objective =
  pho_objective_id :: "string option"
  pho_objective_source :: "string option"
  pho_objective_ids :: "string list option"

definition compute_policy_hold_objective_context ::
  "string list \<Rightarrow> string list \<Rightarrow> string option \<Rightarrow> policy_hold_objective" where
  "compute_policy_hold_objective_context candidate_objective_ids pool_objective_ids dominant_objective_id =
     (let sanitized = map (\<lambda>raw. compute_sanitize_directive_objective_id (Some raw));
          ids0 = push_new [] (sanitized candidate_objective_ids);
          ids = (if ids0 = [] then push_new ids0 (sanitized pool_objective_ids) else ids0);
          dominant = compute_sanitize_directive_objective_id dominant_objective_id;
          objective_id = (if dominant \<noteq> [] then Some dominant
            else (case ids of [] \<Rightarrow> None | i # _ \<Rightarrow> Some i))
      in \<lparr> pho_objective_id = objective_id,
           pho_objective_source =
             (if objective_id \<noteq> None
              then (if dominant \<noteq> [] then Some ''directive_pulse_dominant'' else Some ''directive_pulse_pool'')
              else None),
           pho_objective_ids = (if length ids > 1 then Some (take 8 ids) else None) \<rparr>)"

section \<open>Directive text\<close>

definition compute_to_stem :: "string option \<Rightarrow> string" where
  "compute_to_stem token = (let token = opt_trim token in if length token \<le> 5 then token else take 5 token)"

definition compute_directive_token_hits :: "string list \<Rightarrow> string list \<Rightarrow> string list \<Rightarrow> string list" where
  "compute_directive_token_hits text_tokens text_stems directive_tokens =
     (let tokens = btree_set (trimmed_rows text_tokens);
          stems = btree_set (trimmed_rows text_stems)
      in filter (\<lambda>token. token \<in> set tokens \<or>
                  (let stem = (if length token \<le> 5 then token else take 5 token)
                   in stem \<noteq> [] \<and> stem \<in> set stems))
           (trimmed_rows directive_tokens))"

definition compute_normalize_directive_text :: "string option \<Rightarrow> string" where
  "compute_normalize_directive_text text =
     (let lowered = to_ascii_lowercase (opt_str text);
          scrubbed = map (\<lambda>ch. if is_ascii_alphanumeric ch then ch else CHR '' '') lowered
      in join '' '' (split_whitespace scrubbed))"

definition compute_tokenize_directive_text :: "string option \<Rightarrow> string list \<Rightarrow> string list" where
  "compute_tokenize_directive_text text stopwords0 =
     (let normalized = compute_normalize_directive_text text in
      if normalized = [] then []
      else let stopwords = btree_set (trimmed_rows stopwords0)
        in filter (\<lambda>token. length token \<ge> 3 \<and> \<not> list_all is_ascii_digit token \<and> token \<notin> set stopwords)
             (split_on CHR '' '' normalized))"

definition compute_strategy_marker_tokens ::
  "string option \<Rightarrow> string option \<Rightarrow> string list \<Rightarrow> string list \<Rightarrow> string list" where
  "compute_strategy_marker_tokens objective_primary objective_fitness_metric objective_secondary tags =
     (let text_parts = (case objective_primary of Some p \<Rightarrow> [p] | None \<Rightarrow> []) @
            (case objective_fitness_metric of Some m \<Rightarrow> [m] | None \<Rightarrow> []) @ objective_secondary @ tags;
          normalized = map (\<lambda>part. compute_normalize_directive_text (Some part)) text_parts
      in btree_set (concat (map (\<lambda>n. compute_tokenize_directive_text (Some n) [])
           (filter (\<lambda>n. n \<noteq> []) normalized))))"

definition compute_parse_lower_list :: "string list \<Rightarrow> string option \<Rightarrow> string list" where
  "compute_parse_lower_list rows csv =
     (if rows \<noteq> [] then lowered_rows rows else lowered_rows (split_on CHR '','' (opt_str csv)))"

definition compute_canary_failed_checks_allowed :: "string list \<Rightarrow> string list \<Rightarrow> bool" where
  "compute_canary_failed_checks_allowed failed_checks allowed_checks =
     (let failed = trimmed_rows failed_checks;
          allowed = btree_set (trimmed_rows allowed_checks)
      in if failed = [] \<or> allowed = [] then False else list_all (\<lambda>check. check \<in> set allowed) failed)"

record text_evidence =
  te_evidence_ref :: "string option"
  te_path :: "string option"
  te_title :: "string option"

record text_blob_input =
  tb_title :: "string option"
  tb_summary :: "string option"
  tb_suggested_next_command :: "string option"
  tb_suggested_command :: "string option"
  tb_notes :: "string option"
  tb_evidence :: "text_evidence list"

definition compute_proposal_text_blob :: "text_blob_input \<Rightarrow> string" where
  "compute_proposal_text_blob i =
     (let parts = map opt_trim [tb_title i, tb_summary i, tb_suggested_next_command i,
            tb_suggested_command i, tb_notes i];
          evidence = concat (map (\<lambda>ev. filter (\<lambda>v. v \<noteq> [])
            (map opt_trim [te_evidence_ref ev, te_path ev, te_title ev])) (tb_evidence i));
          joined = join '' | '' (filter (\<lambda>v. v \<noteq> []) (parts @ evidence))
      in to_ascii_lowercase (compute_normalize_spaces (Some joined)))"

text \<open>\<^verbatim>\<open>Regex::replace_all\<close> of \<^verbatim>\<open>[\s-]+\<close> by an underscore; \<open>b\<close> says that the character before was replaced.\<close>

fun replace_runs :: "(char \<Rightarrow> bool) \<Rightarrow> char \<Rightarrow> bool \<Rightarrow> string \<Rightarrow> string" where
  "replace_runs p d b [] = []"
| "replace_runs p d b (c # cs) =
     (if p c then (if b then replace_runs p d True cs else d # replace_runs p d True cs)
      else c # replace_runs p d False cs)"

definition compute_normalize_criteria_metric :: "string option \<Rightarrow> string" where
  "compute_normalize_criteria_metric value =
     replace_runs (\<lambda>c. is_ws c \<or> c = CHR ''-'') CHR ''_'' False
       (to_ascii_lowercase (normalize_spaces (opt_str value)))"

definition compute_criteria_pattern_keys ::
  "string option \<Rightarrow> string option \<Rightarrow> string option list \<Rightarrow> string list" where
  "compute_criteria_pattern_keys capability_key_hint capability_descriptor_key metrics =
     (let hint = to_ascii_lowercase (normalize_spaces (opt_str capability_key_hint));
          descriptor = to_ascii_lowercase (normalize_spaces (opt_str capability_descriptor_key));
          cap_key = (if hint \<noteq> [] then hint else if descriptor \<noteq> [] then descriptor else ''unknown'')
      in btree_set (map (\<lambda>metric. cap_key @ ''|'' @ metric)
           (filter (\<lambda>metric. metric \<noteq> []) (map compute_normalize_criteria_metric metrics))))"

section \<open>Cooldown keys\<close>

definition is_key_char :: "char \<Rightarrow> bool" where
  "is_key_char c = (is_ascii_lower c \<or> is_ascii_digit c \<or> c \<in> set '':_-'')"

definition key_fragment :: "string \<Rightarrow> string" where
  "key_fragment s = map (\<lambda>c. if is_key_char c then c else CHR ''_'') s"

definition sanitize_cooldown_fragment :: "string \<Rightarrow> string" where
  "sanitize_cooldown_fragment raw = key_fragment (to_ascii_lowercase (normalize_spaces raw))"

definition compute_execute_confidence_cooldown_key ::
  "string option \<Rightarrow> string option \<Rightarrow> string option \<Rightarrow> string" where
  "compute_execute_confidence_cooldown_key objective_id capability_key proposal_type =
     (let objective = sanitize_directive_objective_id_single_digit (opt_str objective_id);
          token = sanitize_cooldown_fragment objective;
          capability = sanitize_cooldown_fragment (opt_str capability_key);
          ptype = sanitize_cooldown_fragment (opt_str proposal_type)
      in if objective \<noteq> [] \<and> token \<noteq> [] then ''exec_confidence:objective:'' @ token
         else if capability \<noteq> [] then ''exec_confidence:capability:'' @ capability
         else if ptype \<noteq> [] then ''exec_confidence:type:'' @ ptype
         else [])"

definition compute_capability_cooldown_key :: "string option \<Rightarrow> string" where
  "compute_capability_cooldown_key capability_key =
     (let raw = opt_lower capability_key in
      if raw = [] then [] else ''capability:'' @ key_fragment raw)"

definition compute_readiness_retry_cooldown_key :: "string option \<Rightarrow> string option \<Rightarrow> string" where
  "compute_readiness_retry_cooldown_key strategy_id execution_mode =
     (let sid = key_fragment (to_ascii_lowercase (normalize_spaces (opt_str strategy_id)));
          mode = key_fragment (to_ascii_lowercase (normalize_spaces (opt_str execution_mode)))
      in if sid = [] then []
         else if mode = [] then ''readiness:strategy:'' @ sid
         else ''readiness:strategy:'' @ sid @ '':mode:'' @ mode)"

section \<open>Eyes, tools and domains\<close>

definition compute_source_eye_ref :: "string option \<Rightarrow> string option \<Rightarrow> string" where
  "compute_source_eye_ref meta_source_eye first_evidence_ref =
     (let meta_eye = opt_trim meta_source_eye; evidence_ref = opt_trim first_evidence_ref in
      if meta_eye \<noteq> [] then ''eye:'' @ meta_eye
      else if starts_with evidence_ref ''eye:'' then evidence_ref
      else ''eye:unknown_eye'')"

definition compute_source_eye_id :: "string option \<Rightarrow> string" where
  "compute_source_eye_id eye_ref =
     (let r = opt_trim eye_ref in unwrap_or (strip_prefix r ''eye:'') r)"

definition compute_deprioritized_source_proposal :: "string option \<Rightarrow> string list \<Rightarrow> bool" where
  "compute_deprioritized_source_proposal eye_id deprioritized_eye_ids =
     (let eye_id = opt_lower eye_id in
      eye_id \<noteq> [] \<and> list_ex (\<lambda>row. eq_ignore_ascii_case (trim row) eye_id) deprioritized_eye_ids)"

definition compute_escape_reg_exp :: "string option \<Rightarrow> string" where
  "compute_escape_reg_exp value =
     concat (map (\<lambda>ch. if ch \<in> set ''.*+?^${}()|[]'' \<or> ch = CHR 0x5C then [CHR 0x5C, ch] else [ch])
       (opt_str value))"

text \<open>\<^verbatim>\<open>\bbird[\s_-]*x\b\<close> and the escaped token between boundaries; a pattern that does not compile panics.\<close>

definition rx_bird_x :: rx where
  "rx_bird_x = RxSeq (rx_text ''bird'')
     (RxSeq (RxStar (RxClass (\<lambda>c. is_ws c \<or> c = CHR ''_'' \<or> c = CHR ''-''))) (rx_chr CHR ''x''))"

definition compute_tool_token_mentioned :: "string option \<Rightarrow> string option \<Rightarrow> bool option" where
  "compute_tool_token_mentioned blob token =
     (let text = opt_str blob; tok = opt_lower token in
      if text = [] \<or> tok = [] then Some False
      else (case rx_parse_literals (compute_escape_reg_exp (Some tok)) of
              None \<Rightarrow> None
            | Some exact \<Rightarrow> Some (rx_word_match exact text \<or>
                (tok = ''bird_x'' \<and> rx_word_match rx_bird_x text))))"

fun split_once_text :: "string \<Rightarrow> string \<Rightarrow> (string \<times> string) option" where
  "split_once_text p [] = (if p = [] then Some ([], []) else None)"
| "split_once_text p (c # cs) =
     (if starts_with (c # cs) p then Some ([], drop (length p) (c # cs))
      else map_option (\<lambda>(a, b). (c # a, b)) (split_once_text p cs))"

definition compute_url_domain :: "string option \<Rightarrow> string" where
  "compute_url_domain url =
     (let raw = opt_trim url in
      if raw = [] then []
      else case split_once_text ''://'' raw of
        None \<Rightarrow> []
      | Some (_, rest) \<Rightarrow>
          (let host_port = to_ascii_lowercase (trim (takeWhile (\<lambda>c. c \<notin> set ''/?#'') rest)) in
           if host_port = [] then []
           else let without_auth = last (split_on CHR ''@'' host_port) in
             if starts_with without_auth ''['' then takeWhile (\<lambda>c. c \<noteq> CHR '']'') without_auth @ '']''
             else takeWhile (\<lambda>c. c \<noteq> CHR '':'') without_auth))"

definition compute_domain_allowed :: "string option \<Rightarrow> string list \<Rightarrow> bool" where
  "compute_domain_allowed domain0 allowlist =
     (let domain = opt_lower domain0 in
      if domain = [] then False
      else if allowlist = [] then True
      else list_ex (\<lambda>raw. let allowed_domain = to_ascii_lowercase (trim raw) in
             allowed_domain \<noteq> [] \<and>
             (domain = allowed_domain \<or> ends_with domain (''.'' @ allowed_domain))) allowlist)"

section \<open>Value currencies\<close>

definition normalize_value_currency_token_with_allowed :: "string \<Rightarrow> string list \<Rightarrow> string" where
  "normalize_value_currency_token_with_allowed raw allowed_keys =
     (let token = to_ascii_lowercase (trim raw) in
      if token = [] then []
      else if allowed_keys = [] then token
      else if list_ex (\<lambda>key. eq_ignore_ascii_case (trim key) token) allowed_keys then token
      else [])"

definition compute_normalize_value_currency_token :: "string option \<Rightarrow> string list \<Rightarrow> string" where
  "compute_normalize_value_currency_token value allowed_keys =
     normalize_value_currency_token_with_allowed (opt_str value) allowed_keys"

definition compute_list_value_currencies ::
  "string list \<Rightarrow> string option \<Rightarrow> string list \<Rightarrow> string list" where
  "compute_list_value_currencies value_list value_csv allowed_keys =
     (let rows = (if value_list \<noteq> [] then value_list
                  else (case value_csv of
                          Some csv \<Rightarrow> trimmed_rows (split_on CHR '','' csv)
                        | None \<Rightarrow> []))
      in push_new [] (map (\<lambda>row. normalize_value_currency_token_with_allowed row allowed_keys) rows))"

text \<open>The six patterns between boundaries; \<open>rx_gap\<close> is \<^verbatim>\<open>[\s_-]\<close>.\<close>

definition rx_gap :: rx where
  "rx_gap = RxClass (\<lambda>c. is_ws c \<or> c = CHR ''_'' \<or> c = CHR ''-'')"

definition rx_words :: "string list \<Rightarrow> rx" where
  "rx_words ws = rx_alts (map rx_text ws)"

definition rx_revenue :: rx where
  "rx_revenue = rx_words [''revenue'', ''mrr'', ''arr'', ''cash'', ''money'', ''usd'', ''dollar'', ''profit'',
     ''pricing'', ''invoice'', ''paid'', ''payment'', ''billing'', ''income'']"

definition rx_delivery :: rx where
  "rx_delivery = RxAlt (rx_words [''deliver'', ''delivery'', ''ship'', ''release'', ''milestone'',
     ''throughput'', ''backlog''])
     (RxAlt (rx_seqs [rx_text ''lead'', rx_opt rx_gap, rx_text ''time''])
            (rx_seqs [rx_text ''cycle'', rx_opt rx_gap, rx_text ''time'']))"

definition rx_user :: rx where
  "rx_user = rx_words [''customer'', ''user'', ''adoption'', ''engagement'', ''retention'', ''conversion'',
     ''satisfaction'', ''onboarding'']"

definition rx_quality :: rx where
  "rx_quality = rx_words [''quality'', ''reliab'', ''uptime'', ''error'', ''stability'', ''safety'',
     ''accuracy'', ''resilience'', ''regression'']"

definition rx_time :: rx where
  "rx_time = RxAlt (rx_words [''latency'', ''faster'', ''payback''])
     (RxAlt (rx_seqs [rx_text ''time'', RxStar rx_gap, rx_text ''to'', RxStar rx_gap,
               rx_words [''value'', ''cash'', ''revenue'']])
            (rx_seqs [rx_text ''hour'', rx_opt (rx_text ''s''), rx_plus (RxClass is_ws), rx_text ''saved'']))"

definition rx_learning :: rx where
  "rx_learning = RxAlt (rx_words [''learn'', ''discovery'', ''research'', ''insight'', ''hypothesis''])
     (rx_seqs [rx_text ''ab'', rx_opt rx_gap, rx_text ''test''])"

definition compute_infer_value_currencies_from_directive_bits ::
  "string list \<Rightarrow> string list \<Rightarrow> string list" where
  "compute_infer_value_currencies_from_directive_bits bits allowed_keys =
     (let blob = to_ascii_lowercase (normalize_spaces (join '' '' bits)) in
      if blob = [] then []
      else let inferred = map snd (filter (\<lambda>(r, _). rx_word_match r blob)
             [(rx_revenue, ''revenue''), (rx_delivery, ''delivery''), (rx_user, ''user_value''),
              (rx_quality, ''quality''), (rx_time, ''time_savings''), (rx_learning, ''learning'')])
        in compute_list_value_currencies inferred None allowed_keys)"

section \<open>Modes, outcomes and reasons\<close>

definition compute_verified_entry_outcome :: "bool \<Rightarrow> string option \<Rightarrow> bool" where
  "compute_verified_entry_outcome outcome_verified outcome =
     (outcome_verified \<or> opt_lower outcome \<in> {''verified'', ''verified_success'', ''verified_pass'', ''shipped'',
        ''closed_won'', ''won'', ''paid'', ''revenue_verified'', ''pass''})"

definition compute_verified_revenue_action :: "bool \<Rightarrow> bool \<Rightarrow> string option \<Rightarrow> bool" where
  "compute_verified_revenue_action verified outcome_verified status =
     (verified \<or> outcome_verified \<or>
      opt_lower status \<in> {''verified'', ''won'', ''paid'', ''closed_won'', ''received''})"

definition compute_is_execute_mode :: "string option \<Rightarrow> bool" where
  "compute_is_execute_mode execution_mode =
     (let mode = opt_str execution_mode in mode = ''execute'' \<or> mode = ''canary_execute'')"

definition compute_execution_allowed_by_feature_flag ::
  "bool \<Rightarrow> bool \<Rightarrow> string option \<Rightarrow> bool \<Rightarrow> bool" where
  "compute_execution_allowed_by_feature_flag shadow_only autonomy_enabled execution_mode canary_allow_with_flag_off =
     (if shadow_only then True
      else if autonomy_enabled then True
      else canary_allow_with_flag_off \<and> opt_str execution_mode = ''canary_execute'')"

definition compute_policy_hold_reason_from_event ::
  "string option \<Rightarrow> string option \<Rightarrow> string option \<Rightarrow> string" where
  "compute_policy_hold_reason_from_event hold_reason route_block_reason result =
     (let hold_reason = normalize_spaces (opt_str hold_reason);
          route_block = normalize_spaces (opt_str route_block_reason);
          explicit = to_ascii_lowercase (if hold_reason \<noteq> [] then hold_reason else route_block);
          result = to_ascii_lowercase (normalize_spaces (opt_str result))
      in if explicit \<noteq> [] then explicit
         else if result \<noteq> [] then result
         else ''policy_hold_unknown'')"

definition compute_success_criteria_exempt_types :: "string list \<Rightarrow> string list \<Rightarrow> string list" where
  "compute_success_criteria_exempt_types policy_exempt_types env_exempt_types =
     push_new [] (map (\<lambda>raw. to_ascii_lowercase (normalize_spaces raw)) (policy_exempt_types @ env_exempt_types))"

definition compute_capability_descriptor :: "string option \<Rightarrow> string option \<Rightarrow> string \<times> string list" where
  "compute_capability_descriptor actuation_kind proposal_type =
     (let kind = to_ascii_lowercase (normalize_spaces (opt_str actuation_kind));
          ptype = to_ascii_lowercase (normalize_spaces (opt_str proposal_type));
          typ = (if ptype = [] then ''unknown'' else ptype)
      in if kind \<noteq> [] then (''actuation:'' @ kind, [''actuation''])
         else (''proposal:'' @ typ, [''proposal'']))"

section \<open>Arguments and proposal files\<close>

definition compute_parse_arg :: "string list \<Rightarrow> string option \<Rightarrow> string option" where
  "compute_parse_arg args name0 =
     (let name = opt_trim name0; pref = ''--'' @ name @ ''='' in
      if name = [] then None
      else map_option (drop (length pref)) (find (\<lambda>arg. starts_with arg pref) args))"

text \<open>The patterns \<^verbatim>\<open>^\d{4}-\d{2}-\d{2}$\<close> and \<^verbatim>\<open>^\d{4}-\d{2}-\d{2}\.json$\<close>.\<close>

definition rx_ymd :: "rx \<Rightarrow> rx" where
  "rx_ymd r = RxSeq (rx_pow (RxClass is_ascii_digit) 4) (RxSeq (rx_chr CHR ''-'')
     (RxSeq (rx_pow (RxClass is_ascii_digit) 2) (RxSeq (rx_chr CHR ''-'')
     (RxSeq (rx_pow (RxClass is_ascii_digit) 2) r))))"

definition compute_date_arg_or_today :: "string option \<Rightarrow> string option \<Rightarrow> string \<Rightarrow> string" where
  "compute_date_arg_or_today value today clock_date =
     (let candidate = opt_trim value in
      if rx_is_match (rx_ymd RxEps) candidate then candidate else unwrap_or today clock_date)"

definition compute_list_proposal_files :: "string list \<Rightarrow> string list" where
  "compute_list_proposal_files entries =
     sort (filter (rx_is_match (rx_ymd (rx_text ''.json''))) (map trim entries))"

fun trim_end_matches_rev :: "string \<Rightarrow> string \<Rightarrow> nat \<Rightarrow> string" where
  "trim_end_matches_rev p s 0 = s"
| "trim_end_matches_rev p s (Suc n) =
     (if p \<noteq> [] \<and> starts_with s p then trim_end_matches_rev p (drop (length p) s) n else s)"

definition trim_end_matches :: "string \<Rightarrow> string \<Rightarrow> string" where
  "trim_end_matches p s = rev (trim_end_matches_rev (rev p) (rev s) (length s))"

definition compute_latest_proposal_date :: "string list \<Rightarrow> string option \<Rightarrow> string option" where
  "compute_latest_proposal_date files max_date0 =
     (let max_date = opt_trim max_date0;
          dates = filter (\<lambda>d. max_date = [] \<or> d \<le> max_date)
            (filter (\<lambda>d. d \<noteq> [] \<and> rx_is_match (rx_ymd RxEps) d)
              (map (\<lambda>f. trim_end_matches ''.json'' (trim f)) files));
          sorted = sort dates
      in if sorted = [] then None else Some (last sorted))"

section \<open>Objective ids\<close>

lemma is_word_char_alt: "(\<lambda>b. is_ascii_alphanumeric b \<or> b = CHR ''_'') = is_word_char"
  by (simp add: is_word_char_def fun_eq_iff)

lemma is_ascii_digit_word: "is_ascii_digit c \<Longrightarrow> is_word_char c"
  by (simp add: is_word_char_def is_ascii_alphanumeric_def)

lemma rx_objective_id_iff:
  "rx_is_match rx_objective_id s \<longleftrightarrow>
     (\<exists>d w. s = CHR ''T'' # d # CHR ''_'' # w \<and> is_ascii_digit d \<and> w \<noteq> [] \<and> list_all is_word_char w)"
  unfolding rx_is_match_iff rx_objective_id_def rx_lang_class_seq rx_lang_plus_class by auto

lemma rx_objective_token_iff:
  "rx_is_match rx_objective_token s \<longleftrightarrow>
     (\<exists>ds w. s = CHR ''T'' # ds @ CHR ''_'' # w \<and> ds \<noteq> [] \<and> list_all is_ascii_digit ds \<and>
        w \<noteq> [] \<and> list_all is_word_char w)"
  unfolding rx_is_match_iff rx_objective_token_def rx_lang_chr_seq
  by (subst rx_lang.simps(4)) (auto simp: rx_lang_plus_class rx_lang_chr_seq)

lemma is_ascii_digit_underscore: "\<not> is_ascii_digit CHR ''_''"
  by code_simp

lemma takeWhile_digits_sep:
  "list_all is_ascii_digit ds \<Longrightarrow> takeWhile is_ascii_digit (ds @ CHR ''_'' # w) = ds \<and>
     dropWhile is_ascii_digit (ds @ CHR ''_'' # w) = CHR ''_'' # w"
  by (induction ds) (simp_all add: is_ascii_digit_def char_nat_def)

lemma sanitize_single_digit_iff:
  "sanitize_directive_objective_id_single_digit raw =
     (if rx_is_match rx_objective_id (trim raw) then trim raw else [])"
proof (cases "trim raw" rule: remdups_adj.cases)
  case (3 a b cs)
  then show ?thesis
    by (cases cs) (auto simp: sanitize_directive_objective_id_single_digit_def rx_objective_id_iff
        is_word_char_alt Let_def Suc_le_eq)
qed (simp_all add: sanitize_directive_objective_id_single_digit_def rx_objective_id_iff)

lemma sanitize_iff:
  "sanitize_directive_objective_id raw =
     (if rx_is_match rx_objective_token (trim raw) then trim raw else [])"
proof (cases "rx_is_match rx_objective_token (trim raw)")
  case True
  then obtain ds w where "trim raw = CHR ''T'' # ds @ CHR ''_'' # w" "ds \<noteq> []" "list_all is_ascii_digit ds"
    "w \<noteq> []" "list_all is_word_char w" by (auto simp: rx_objective_token_iff)
  then show ?thesis
    using True
    by (simp add: sanitize_directive_objective_id_def takeWhile_digits_sep is_word_char_alt Let_def
        is_ascii_digit_underscore)
next
  case False
  let ?r = "tl (trim raw)"
  let ?d = "takeWhile is_ascii_digit ?r" and ?t = "dropWhile is_ascii_digit ?r"
  have "trim raw \<noteq> [] \<Longrightarrow> hd (trim raw) = CHR ''T'' \<Longrightarrow> ?t \<noteq> [] \<Longrightarrow> hd ?t = CHR ''_'' \<Longrightarrow>
      trim raw = CHR ''T'' # ?d @ CHR ''_'' # tl ?t"
  proof -
    assume *: "trim raw \<noteq> []" "hd (trim raw) = CHR ''T''" "?t \<noteq> []" "hd ?t = CHR ''_''"
    have "?r = ?d @ ?t" by simp
    also have "?t = CHR ''_'' # tl ?t" using *(3,4) by (metis list.collapse)
    finally have "?r = ?d @ CHR ''_'' # tl ?t" .
    with *(1,2) show "trim raw = CHR ''T'' # ?d @ CHR ''_'' # tl ?t" by (metis list.collapse)
  qed
  moreover have "list_all is_ascii_digit ?d" by (auto simp: list_all_iff dest: set_takeWhileD)
  ultimately have "\<not> (trim raw \<noteq> [] \<and> hd (trim raw) = CHR ''T'' \<and> ?d \<noteq> [] \<and> ?t \<noteq> [] \<and>
      hd ?t = CHR ''_'' \<and> tl ?t \<noteq> [] \<and> list_all is_word_char (tl ?t))"
    using False unfolding rx_objective_token_iff by blast
  then show ?thesis using False by (auto simp: sanitize_directive_objective_id_def is_word_char_alt Let_def)
qed

lemma compute_sanitize_iff:
  "compute_sanitize_directive_objective_id v =
     (if rx_is_match rx_objective_id (opt_trim v) then opt_trim v else [])"
  by (auto simp: compute_sanitize_directive_objective_id_def Let_def)

text \<open>The three functions that check the id of a directive objective. The one that uses the regex crate and
  the hand-written one for a single digit are the same function; the hand-written scanner for many digits
  is the pattern by which ids are found in running text; and an id that passes the first passes the
  last, with the same result.\<close>

lemma objective_id_sanitizers_agree:
  "compute_sanitize_directive_objective_id (Some raw) = sanitize_directive_objective_id_single_digit raw \<and>
   sanitize_directive_objective_id raw =
     (if rx_is_match rx_objective_token (trim raw) then trim raw else []) \<and>
   (sanitize_directive_objective_id_single_digit raw = [] \<or>
    sanitize_directive_objective_id_single_digit raw = sanitize_directive_objective_id raw)"
proof -
  have "rx_is_match rx_objective_token (trim raw)" if "rx_is_match rx_objective_id (trim raw)"
  proof -
    from that obtain d w where "trim raw = CHR ''T'' # [d] @ CHR ''_'' # w" "list_all is_ascii_digit [d]"
      "w \<noteq> []" "list_all is_word_char w" by (auto simp: rx_objective_id_iff)
    then show ?thesis unfolding rx_objective_token_iff by blast
  qed
  then show ?thesis
    by (simp add: compute_sanitize_iff sanitize_single_digit_iff sanitize_iff opt_trim_def unwrap_or_def)
qed

text \<open>The two families differ: an id of tier 12 is kept in run events and refused as a cooldown key.\<close>

lemma sanitizers_differ_on_tiers:
  "sanitize_directive_objective_id ''T12_ship'' = ''T12_ship'' \<and>
   sanitize_directive_objective_id_single_digit ''T12_ship'' = []"
  by code_simp

section \<open>Lists without repetition\<close>

lemma push_new_facts:
  "distinct (push_new seen vs) \<and> set (push_new seen vs) = {v \<in> set vs. v \<noteq> []} - set seen"
  by (induction seen vs rule: push_new.induct) auto

lemma push_new_subseq: "subseq (push_new seen vs) vs"
  by (induction seen vs rule: push_new.induct) (auto intro: subseq_Cons')

lemma push_new_cong_set: "set s = set t \<Longrightarrow> push_new s vs = push_new t vs"
proof (induction vs arbitrary: s t)
  case (Cons v vs)
  show ?case using Cons.IH [of "v # s" "v # t"] Cons.IH [OF Cons.prems] Cons.prems by simp
qed simp

lemma sanitized_ids_loop_push_new:
  "length out \<le> limit \<Longrightarrow> sanitized_ids_loop limit out rows =
     out @ take (limit - length out)
       (push_new out (map (\<lambda>row. compute_sanitize_directive_objective_id (Some row)) rows))"
proof (induction limit out rows rule: sanitized_ids_loop.induct)
  case (2 limit out row rows)
  let ?s = "compute_sanitize_directive_objective_id (Some row)"
  have "push_new (?s # out) ws = push_new (out @ [?s]) ws" for ws by (rule push_new_cong_set) auto
  moreover have "limit - length out = Suc (limit - Suc (length out))" if "length out < limit" using that by simp
  ultimately show ?case using 2 by (auto simp: Let_def Suc_le_eq not_le)
qed simp

text \<open>The list of directive ids is the list of the sanitised rows with blanks and repetitions dropped, cut
  at the limit, which is at most 200; so it is free of repetitions, in the order of the rows, and every
  entry is an id that the sanitiser keeps.\<close>

lemma sanitized_directive_ids_exact:
  "\<exists>limit. limit \<le> 200 \<and> compute_sanitized_directive_id_list l rows =
      take limit (push_new [] (map (\<lambda>row. compute_sanitize_directive_objective_id (Some row)) rows)) \<and>
    distinct (compute_sanitized_directive_id_list l rows) \<and>
    list_all (\<lambda>i. i \<noteq> [] \<and> compute_sanitize_directive_objective_id (Some i) = i)
      (compute_sanitized_directive_id_list l rows) \<and>
    (case l of None \<Rightarrow> limit = 12 | Some _ \<Rightarrow> True)"
proof -
  define limit where "limit = min (case finite_only l of
      Some v \<Rightarrow> f64_as_nat (2 ^ 64 - 1) (f64_floor (f64_max v (Fin 0))) | None \<Rightarrow> 12) 200"
  let ?xs = "push_new [] (map (\<lambda>row. compute_sanitize_directive_objective_id (Some row)) rows)"
  have eq: "compute_sanitized_directive_id_list l rows = take limit ?xs"
    by (simp add: compute_sanitized_directive_id_list_def limit_def [symmetric] sanitized_ids_loop_push_new)
  have "i \<noteq> [] \<and> compute_sanitize_directive_objective_id (Some i) = i" if "i \<in> set (take limit ?xs)" for i
  proof -
    from that have "i \<in> set ?xs" by (rule in_set_takeD)
    then obtain row where "i \<noteq> []" "i = compute_sanitize_directive_objective_id (Some row)"
      using push_new_facts by fastforce
    then have "i \<noteq> []" "i = trim row" "rx_is_match rx_objective_id i"
      by (auto simp: compute_sanitize_iff opt_trim_def unwrap_or_def split: if_splits)
    then show ?thesis by (simp add: compute_sanitize_iff opt_trim_def unwrap_or_def trim_idem)
  qed
  then have "list_all (\<lambda>i. i \<noteq> [] \<and> compute_sanitize_directive_objective_id (Some i) = i) (take limit ?xs)"
    unfolding list_all_iff by blast
  moreover have "distinct (take limit ?xs)" using push_new_facts by (blast intro: distinct_take)
  moreover have "limit \<le> 200" "case l of None \<Rightarrow> limit = 12 | Some _ \<Rightarrow> True"
    by (simp_all add: limit_def split: option.splits)
  ultimately show ?thesis using eq by auto
qed

section \<open>Directive tokens\<close>

lemma split_on_acc_no_sep:
  "d \<notin> set s \<Longrightarrow> split_on_acc d acc s = [rev acc @ s]"
  by (induction d acc s rule: split_on_acc.induct) auto

lemma split_on_acc_word:
  "d \<notin> set w \<Longrightarrow> split_on_acc d acc (w @ d # s) = (rev acc @ w) # split_on_acc d [] s"
  by (induction w arbitrary: acc) auto

lemma split_on_join:
  assumes "ws \<noteq> []" and "\<forall>w \<in> set ws. d \<notin> set w"
  shows "split_on d (join [d] ws) = ws"
  using assms unfolding split_on_def
proof (induction ws rule: induct_list012)
  case (3 x y zs)
  then show ?case by (simp add: split_on_acc_word)
qed (simp_all add: split_on_acc_no_sep)

text \<open>The words of a directive text: its maximal alphanumeric runs in lower case.\<close>

definition directive_words :: "string \<Rightarrow> string list" where
  "directive_words text = split_whitespace
     (map (\<lambda>ch. if is_ascii_alphanumeric ch then ch else CHR '' '') (to_ascii_lowercase text))"

lemma split_ws_acc_chars:
  "w \<in> set (split_ws_acc acc s) \<Longrightarrow> set w \<subseteq> set acc \<union> set s"
  by (induction acc s rule: split_ws_acc.induct) (fastforce split: if_splits)+

lemma directive_words_chars:
  assumes "w \<in> set (directive_words text)"
  shows "w \<noteq> [] \<and> list_all is_ascii_alphanumeric w"
proof -
  let ?t = "map (\<lambda>ch. if is_ascii_alphanumeric ch then ch else CHR '' '') (to_ascii_lowercase text)"
  have "w \<noteq> [] \<and> (\<forall>c \<in> set w. \<not> is_ws c)" "set w \<subseteq> set ?t"
    using assms split_whitespace_words split_ws_acc_chars [of w "[]" ?t]
    unfolding directive_words_def split_whitespace_def by auto
  moreover have "\<forall>c \<in> set ?t. is_ascii_alphanumeric c \<or> is_ws c" by auto
  ultimately show ?thesis unfolding list_all_iff by blast
qed

lemma lower_space: "char_to_ascii_lowercase CHR '' '' = CHR '' ''"
  by code_simp

lemma directive_words_lower:
  assumes "w \<in> set (directive_words text)"
  shows "\<forall>c \<in> set w. char_to_ascii_lowercase c = c"
proof -
  let ?t = "map (\<lambda>ch. if is_ascii_alphanumeric ch then ch else CHR '' '') (to_ascii_lowercase text)"
  have "set w \<subseteq> set ?t"
    using assms split_ws_acc_chars [of w "[]" ?t] unfolding directive_words_def split_whitespace_def by auto
  moreover have "\<forall>c \<in> set ?t. char_to_ascii_lowercase c = c"
    by (auto simp: to_ascii_lowercase_def char_lower_idem lower_space)
  ultimately show ?thesis by blast
qed

lemma normalize_directive_text_words:
  "compute_normalize_directive_text text = join '' '' (directive_words (opt_str text))"
  by (simp add: compute_normalize_directive_text_def directive_words_def Let_def)

lemma set_join: "set (join sep ws) \<subseteq> set sep \<union> \<Union> (set ` set ws)"
  by (induction sep ws rule: join.induct) auto

lemma directive_words_join:
  "directive_words (join '' '' (directive_words text)) = directive_words text"
proof -
  let ?ws = "directive_words text"
  have chars: "c = CHR '' '' \<or> is_ascii_alphanumeric c \<and> char_to_ascii_lowercase c = c"
    if c: "c \<in> set (join '' '' ?ws)" for c
  proof (cases "c = CHR '' ''")
    case False
    then obtain w where "w \<in> set ?ws" "c \<in> set w" using c set_join [of "'' ''" ?ws] by auto
    then show ?thesis
      using directive_words_chars [of w "text"] directive_words_lower [of w "text"] unfolding list_all_iff by blast
  qed simp
  have "to_ascii_lowercase (join '' '' ?ws) = join '' '' ?ws"
    unfolding to_ascii_lowercase_def using chars lower_space by (intro map_idI) metis
  moreover have "map (\<lambda>ch. if is_ascii_alphanumeric ch then ch else CHR '' '') (join '' '' ?ws) = join '' '' ?ws"
    using chars by (intro map_idI) (metis (full_types))
  moreover have "split_whitespace (join '' '' ?ws) = ?ws"
    using split_whitespace_words by (intro split_whitespace_join) (auto simp: directive_words_def)
  ultimately show ?thesis unfolding directive_words_def by simp
qed

lemma tokenize_words:
  "compute_tokenize_directive_text text stopwords =
     filter (\<lambda>w. 3 \<le> length w \<and> \<not> list_all is_ascii_digit w \<and> w \<notin> set (trimmed_rows stopwords))
       (directive_words (opt_str text))"
proof (cases "directive_words (opt_str text) = []")
  case True
  then show ?thesis
    by (simp add: compute_tokenize_directive_text_def normalize_directive_text_words)
next
  case False
  let ?ws = "directive_words (opt_str text)"
  have ne: "join '' '' ?ws \<noteq> []"
    using False directive_words_chars [of "hd ?ws" "opt_str text"]
    by (cases ?ws rule: remdups_adj.cases) auto
  have "CHR '' '' \<notin> set w" if "w \<in> set ?ws" for w
    using that split_whitespace_words is_ws_space unfolding directive_words_def by blast
  then have "split_on CHR '' '' (join '' '' ?ws) = ?ws" using False by (intro split_on_join) auto
  with ne show ?thesis
    by (simp add: compute_tokenize_directive_text_def normalize_directive_text_words Let_def)
qed

text \<open>The tokens of a directive text are its maximal alphanumeric runs in lower case, in order, without the
  short ones, the numbers and the stopwords; normalising a text a second time changes nothing, so tokens
  can be computed from normalised text.\<close>

lemma directive_tokens_exact:
  "compute_tokenize_directive_text text stopwords =
     filter (\<lambda>w. 3 \<le> length w \<and> \<not> list_all is_ascii_digit w \<and> w \<notin> set (map trim stopwords))
       (directive_words (opt_str text)) \<and>
   compute_normalize_directive_text (Some (compute_normalize_directive_text text)) =
     compute_normalize_directive_text text \<and>
   compute_tokenize_directive_text (Some (compute_normalize_directive_text text)) stopwords =
     compute_tokenize_directive_text text stopwords"
proof -
  have "w \<in> set (trimmed_rows stopwords) \<longleftrightarrow> w \<in> set (map trim stopwords)"
    if "w \<in> set (directive_words (opt_str text))" for w
    using directive_words_chars [OF that] by (auto simp: trimmed_rows_def)
  then have "filter (\<lambda>w. 3 \<le> length w \<and> \<not> list_all is_ascii_digit w \<and> w \<notin> set (trimmed_rows stopwords))
      (directive_words (opt_str text)) =
    filter (\<lambda>w. 3 \<le> length w \<and> \<not> list_all is_ascii_digit w \<and> w \<notin> set (map trim stopwords))
      (directive_words (opt_str text))"
    by (intro filter_cong) auto
  then show ?thesis
    by (simp add: tokenize_words normalize_directive_text_words directive_words_join unwrap_or_def)
qed

section \<open>Tool tokens\<close>

lemma escape_Cons:
  "compute_escape_reg_exp (Some (c # s)) =
     (if is_rx_meta c then [CHR 0x5C, c] else [c]) @ compute_escape_reg_exp (Some s)"
  by (auto simp: compute_escape_reg_exp_def is_rx_meta_def unwrap_or_def)

lemma escape_parses: "rx_parse_literals (compute_escape_reg_exp (Some s)) = Some (rx_text s)"
proof (induction s)
  case (Cons c s)
  then show ?case by (cases "c = CHR 0x5C") (auto simp: escape_Cons is_rx_meta_def)
qed (simp add: compute_escape_reg_exp_def unwrap_or_def)

text \<open>Escaping makes every token a pattern that compiles and matches the token only, so asking whether a
  tool is mentioned never panics, and the answer is whether the token occurs in the text with a word
  boundary on both sides (or, for the one tool with several spellings, one of them does).\<close>

lemma tool_token_mentioned_exact:
  "rx_parse_literals (compute_escape_reg_exp (Some tok)) = Some (rx_text tok) \<and>
   compute_tool_token_mentioned (Some text) (Some tok) = Some
     (text \<noteq> [] \<and> \<not> blank tok \<and>
      ((\<exists>pre post. text = pre @ to_ascii_lowercase (trim tok) @ post \<and> at_boundary text (length pre) \<and>
          at_boundary text (length pre + length (trim tok))) \<or>
       to_ascii_lowercase (trim tok) = ''bird_x'' \<and> rx_word_match rx_bird_x text))"
proof -
  let ?t = "to_ascii_lowercase (trim tok)"
  have "?t = [] \<longleftrightarrow> blank tok" by (simp add: blank_def to_ascii_lowercase_def)
  moreover have "rx_word_match (rx_text ?t) text \<longleftrightarrow>
      (\<exists>pre post. text = pre @ ?t @ post \<and> at_boundary text (length pre) \<and>
         at_boundary text (length pre + length (trim tok)))"
    unfolding rx_word_match_iff rx_lang_text by (auto simp: length_to_ascii_lowercase)
  ultimately show ?thesis
    by (auto simp: compute_tool_token_mentioned_def escape_parses opt_lower_def unwrap_or_def Let_def)
qed

section \<open>Proposal files\<close>

lemma rx_ymd_iff:
  "rx_is_match (rx_ymd r) s \<longleftrightarrow>
     (\<exists>y m d t. s = y @ CHR ''-'' # m @ CHR ''-'' # d @ t \<and> length y = 4 \<and> length m = 2 \<and> length d = 2 \<and>
        list_all is_ascii_digit (y @ m @ d) \<and> t \<in> rx_lang r)"
  unfolding rx_is_match_iff rx_ymd_def rx_lang.simps(4) [of "rx_pow _ _"] rx_lang_chr_seq rx_lang_pow_class
  by (simp add: image_iff list_all_append) blast

lemma rx_ymd_append:
  "rx_is_match (rx_ymd (rx_text t)) s \<longleftrightarrow> (\<exists>d. s = d @ t \<and> rx_is_match (rx_ymd RxEps) d)"
proof
  assume "rx_is_match (rx_ymd (rx_text t)) s"
  then obtain y m d where "s = (y @ CHR ''-'' # m @ CHR ''-'' # d @ []) @ t" "length y = 4" "length m = 2"
    "length d = 2" "list_all is_ascii_digit (y @ m @ d)"
    unfolding rx_ymd_iff rx_lang_text by auto
  then show "\<exists>d. s = d @ t \<and> rx_is_match (rx_ymd RxEps) d"
    unfolding rx_ymd_iff [of RxEps] rx_lang.simps by blast
next
  assume "\<exists>d. s = d @ t \<and> rx_is_match (rx_ymd RxEps) d"
  then obtain y m d where "s = y @ CHR ''-'' # m @ CHR ''-'' # d @ t" "length y = 4" "length m = 2"
    "length d = 2" "list_all is_ascii_digit (y @ m @ d)"
    unfolding rx_ymd_iff rx_lang.simps by auto
  then show "rx_is_match (rx_ymd (rx_text t)) s" unfolding rx_ymd_iff rx_lang_text by blast
qed

lemma rx_ymd_shape:
  assumes "rx_is_match (rx_ymd RxEps) s"
  shows "s \<noteq> []" "is_ascii_digit (last s)" "list_all (\<lambda>c. \<not> is_ws c) s"
proof -
  obtain y m d where s: "s = y @ CHR ''-'' # m @ CHR ''-'' # d" "length d = 2"
    and l: "list_all is_ascii_digit (y @ m @ d)"
    using assms unfolding rx_ymd_iff by auto
  have "\<not> is_ws CHR ''-''" by code_simp
  moreover have "is_ascii_digit c \<Longrightarrow> \<not> is_ws c" for c
    by (auto simp: is_ascii_digit_def is_ws_def Let_def)
  ultimately show "s \<noteq> []" "is_ascii_digit (last s)" "list_all (\<lambda>c. \<not> is_ws c) s"
    using s l by (auto simp: list_all_iff)
qed

lemma trim_end_json:
  assumes "rx_is_match (rx_ymd RxEps) d"
  shows "trim_end_matches ''.json'' (d @ ''.json'') = d"
proof -
  obtain xs x where d: "d = xs @ [x]" "is_ascii_digit x"
    using rx_ymd_shape(1,2) [OF assms] by (metis append_butlast_last_id)
  moreover have "\<not> is_ascii_digit CHR ''n''" by code_simp
  ultimately have "x \<noteq> CHR ''n''" by auto
  then show ?thesis by (simp add: trim_end_matches_def d starts_with_def)
qed

lemma last_sort_Max: "xs \<noteq> [] \<Longrightarrow> last (sort xs) = Max (set xs)"
proof -
  assume ne: "xs \<noteq> []"
  let ?s = "sort xs"
  have "?s \<noteq> []" using ne by (metis set_empty set_sort)
  then obtain ys y where s: "?s = ys @ [y]" by (metis append_butlast_last_id)
  then have "\<forall>x \<in> set ?s. x \<le> y" using sorted_sort [of xs] by (auto simp: sorted_append)
  then have "Max (set ?s) = y" using s by (intro Max_eqI) auto
  then show ?thesis using s by (metis last_snoc set_sort)
qed

lemma sort_last_option:
  "(if sort xs = [] then None else Some (last (sort xs))) =
     (if set xs = {} then None else Some (Max (set xs)))"
  by (cases "xs = []") (auto simp: last_sort_Max dest: arg_cong [where f = set])

lemma rx_ymd_trim: "rx_is_match (rx_ymd RxEps) d \<Longrightarrow> trim (d @ ''.json'') = d @ ''.json''"
proof -
  assume "rx_is_match (rx_ymd RxEps) d"
  from rx_ymd_shape [OF this] show ?thesis
    by (intro trim_id) (auto simp: list_all_iff is_ws_def char_nat_def hd_append)
qed

text \<open>The date chosen from a listing of the proposal directory is the latest date for which the listing has
  a file and that is not after the given date; there is none exactly when no file qualifies.\<close>

lemma latest_proposal_date_maximal:
  "compute_latest_proposal_date (compute_list_proposal_files entries) max_date =
     (let ds = {d. rx_is_match (rx_ymd RxEps) d \<and> d @ ''.json'' \<in> trim ` set entries \<and>
                  (opt_trim max_date = [] \<or> d \<le> opt_trim max_date)}
      in if ds = {} then None else Some (Max ds))"
proof -
  let ?files = "compute_list_proposal_files entries"
  let ?strip = "\<lambda>f. trim_end_matches ''.json'' (trim f)"
  have "set (map ?strip ?files) = {d. rx_is_match (rx_ymd RxEps) d \<and> d @ ''.json'' \<in> trim ` set entries}"
  proof (intro equalityI subsetI)
    fix d assume "d \<in> set (map ?strip ?files)"
    then obtain e where e: "e \<in> set ?files" "d = ?strip e" by auto
    then obtain d' where "e = d' @ ''.json''" "rx_is_match (rx_ymd RxEps) d'" "e \<in> trim ` set entries"
      unfolding compute_list_proposal_files_def set_sort set_filter set_map rx_ymd_append by blast
    with e show "d \<in> {d. rx_is_match (rx_ymd RxEps) d \<and> d @ ''.json'' \<in> trim ` set entries}"
      by (simp add: rx_ymd_trim trim_end_json)
  next
    fix d assume "d \<in> {d. rx_is_match (rx_ymd RxEps) d \<and> d @ ''.json'' \<in> trim ` set entries}"
    then have "d @ ''.json'' \<in> set ?files" "?strip (d @ ''.json'') = d"
      by (auto simp: compute_list_proposal_files_def rx_ymd_append rx_ymd_trim trim_end_json
          simp del: rx_text.simps)
    then show "d \<in> set (map ?strip ?files)" unfolding set_map by (metis imageI)
  qed
  then have "set (filter (\<lambda>d. opt_trim max_date = [] \<or> d \<le> opt_trim max_date)
      (filter (\<lambda>d. d \<noteq> [] \<and> rx_is_match (rx_ymd RxEps) d) (map ?strip ?files))) =
    {d. rx_is_match (rx_ymd RxEps) d \<and> d @ ''.json'' \<in> trim ` set entries \<and>
        (opt_trim max_date = [] \<or> d \<le> opt_trim max_date)}" (is "set ?ds = ?D")
    by (auto simp only: set_filter mem_Collect_eq dest: rx_ymd_shape(1))
  with sort_last_option [of ?ds] have "(if sort ?ds = [] then None else Some (last (sort ?ds))) =
      (if ?D = {} then None else Some (Max ?D))"
    by (simp only:)
  then show ?thesis unfolding compute_latest_proposal_date_def Let_def .
qed

section \<open>Keys\<close>

text \<open>The key of a strategy with a mode can be the key of another strategy without one.\<close>

lemma readiness_key_ambiguous:
  "compute_readiness_retry_cooldown_key (Some ''alpha'') (Some ''beta'') =
   compute_readiness_retry_cooldown_key (Some ''alpha:mode:beta'') None"
  by code_simp

lemma key_fragment_idem: "key_fragment (key_fragment s) = key_fragment s"
  by (simp add: key_fragment_def is_key_char_def)

end
