(* ===== verification/Run_Events.thy ===== *)
theory Run_Events
  imports Autoscale_Text "HOL-Library.Product_Lexorder"
begin

text \<open>
  Run events of the autonomy loop, as \<^verbatim>\<open>core/layer2/execution/src/autoscale.rs\<close> classifies and counts them:
  holds, attempts, exhausted gates, missing progress, risk and lane counts, statuses of proposals. Every
  function of the source has a struct of the fields it reads; they all begin with the type and the result
  of an event, so they are extensions of the record \<open>run_event\<close>. Counters are \<^verbatim>\<open>u32\<close> and wrap.
\<close>

record run_event =
  re_event_type :: "string option"
  re_result :: "string option"

record outcome_event = run_event +
  re_outcome :: "string option"

record hold_event = run_event +
  re_policy_hold :: "bool option"

record counted_event = hold_event +
  re_proposal_id :: "string option"

record risk_event = run_event +
  re_risk :: "string option"
  re_proposal_risk :: "string option"

record selection_event = run_event +
  re_selection_mode :: "string option"

abbreviation is_run :: "'a run_event_scheme \<Rightarrow> bool" where
  "is_run e \<equiv> opt_lower (re_event_type e) = ''autonomy_run''"

section \<open>Holds and previews\<close>

definition is_policy_hold_result :: "string \<Rightarrow> bool" where
  "is_policy_hold_result result =
     (result \<noteq> [] \<and>
      (starts_with result ''no_candidates_policy_'' \<or>
       result \<in> set [''stop_init_gate_budget_autopause'', ''stop_init_gate_readiness'',
         ''stop_init_gate_readiness_blocked'', ''stop_init_gate_criteria_quality_insufficient'',
         ''stop_repeat_gate_mutation_guard'', ''score_only_fallback_route_block'',
         ''score_only_fallback_low_execution_confidence'']))"

definition compute_policy_hold_result :: "string option \<Rightarrow> bool" where
  "compute_policy_hold_result result = is_policy_hold_result (opt_trim result)"

definition compute_policy_hold_run_event :: "'a hold_event_scheme \<Rightarrow> bool" where
  "compute_policy_hold_run_event e =
     (is_run e \<and> (unwrap_or (re_policy_hold e) False \<or> is_policy_hold_result (opt_trim (re_result e))))"

definition compute_score_only_result :: "string option \<Rightarrow> bool" where
  "compute_score_only_result result =
     (opt_trim result \<in> set [''score_only_preview'', ''score_only_evidence'',
        ''stop_repeat_gate_preview_structural_cooldown'', ''stop_repeat_gate_preview_churn_cooldown''])"

record preview_event = run_event +
  pe_preview_verification_present :: "bool option"
  pe_preview_verification_passed :: "bool option"
  pe_preview_verification_outcome :: "string option"

definition compute_score_only_failure_like :: "'a preview_event_scheme \<Rightarrow> bool" where
  "compute_score_only_failure_like e =
     (let result = opt_trim (re_result e) in
      if \<not> is_run e then False
      else if \<not> compute_score_only_result (Some result) then False
      else if result = ''stop_repeat_gate_preview_structural_cooldown'' \<or>
              result = ''stop_repeat_gate_preview_churn_cooldown'' then True
      else if \<not> unwrap_or (pe_preview_verification_present e) False then False
      else if pe_preview_verification_passed e = Some False then True
      else opt_lower (pe_preview_verification_outcome e) = ''no_change'')"

section \<open>Attempts, exhausted gates and missing progress\<close>

definition attempt_results :: "string list" where
  "attempt_results = [''executed'', ''init_gate_stub'', ''init_gate_low_score'', ''init_gate_blocked_route'',
     ''stop_repeat_gate_directive_pulse_cooldown'', ''stop_repeat_gate_directive_pulse_tier_reservation'',
     ''stop_repeat_gate_human_escalation_pending'', ''stop_repeat_gate_capability_cap'',
     ''stop_repeat_gate_stale_signal'', ''stop_init_gate_quality_exhausted'',
     ''stop_init_gate_directive_fit_exhausted'', ''stop_init_gate_actionability_exhausted'',
     ''stop_init_gate_optimization_good_enough'', ''stop_init_gate_value_signal_exhausted'',
     ''stop_init_gate_tier1_governance'', ''stop_init_gate_composite_exhausted'',
     ''stop_repeat_gate_capability_cooldown'', ''stop_repeat_gate_capability_no_change_cooldown'',
     ''stop_repeat_gate_preview_churn_cooldown'', ''stop_repeat_gate_exhaustion_cooldown'',
     ''stop_repeat_gate_candidate_exhausted'']"

definition gate_exhausted_results :: "string list" where
  "gate_exhausted_results = [''stop_repeat_gate_stale_signal'', ''stop_repeat_gate_capability_cap'',
     ''stop_repeat_gate_directive_pulse_cooldown'', ''stop_repeat_gate_directive_pulse_tier_reservation'',
     ''stop_repeat_gate_human_escalation_pending'', ''init_gate_blocked_route'',
     ''stop_init_gate_quality_exhausted'', ''stop_init_gate_directive_fit_exhausted'',
     ''stop_init_gate_actionability_exhausted'', ''stop_init_gate_optimization_good_enough'',
     ''stop_init_gate_value_signal_exhausted'', ''stop_init_gate_tier1_governance'',
     ''stop_init_gate_medium_risk_guard'', ''stop_init_gate_medium_requires_canary'',
     ''stop_init_gate_composite_exhausted'', ''stop_repeat_gate_capability_cooldown'',
     ''stop_repeat_gate_capability_no_change_cooldown'', ''stop_repeat_gate_preview_churn_cooldown'',
     ''stop_repeat_gate_medium_canary_cap'', ''stop_repeat_gate_candidate_exhausted'']"

definition no_progress_results :: "string list" where
  "no_progress_results = [''init_gate_stub'', ''init_gate_low_score'', ''init_gate_blocked_route'',
     ''stop_repeat_gate_capability_cap'', ''stop_repeat_gate_directive_pulse_cooldown'',
     ''stop_repeat_gate_directive_pulse_tier_reservation'', ''stop_repeat_gate_human_escalation_pending'',
     ''stop_repeat_gate_stale_signal'', ''stop_init_gate_quality_exhausted'',
     ''stop_init_gate_directive_fit_exhausted'', ''stop_init_gate_actionability_exhausted'',
     ''stop_init_gate_optimization_good_enough'', ''stop_init_gate_value_signal_exhausted'',
     ''stop_init_gate_tier1_governance'', ''stop_init_gate_medium_risk_guard'',
     ''stop_init_gate_medium_requires_canary'', ''stop_init_gate_composite_exhausted'',
     ''stop_repeat_gate_capability_cooldown'', ''stop_repeat_gate_capability_no_change_cooldown'',
     ''stop_repeat_gate_medium_canary_cap'', ''stop_repeat_gate_candidate_exhausted'',
     ''stop_repeat_gate_preview_churn_cooldown'', ''stop_repeat_gate_exhaustion_cooldown'',
     ''stop_repeat_gate_no_progress'', ''stop_repeat_gate_dopamine'']"

definition compute_attempt_run_event :: "'a run_event_scheme \<Rightarrow> bool" where
  "compute_attempt_run_event e = (is_run e \<and> opt_trim (re_result e) \<in> set attempt_results)"

definition compute_gate_exhausted_attempt :: "'a run_event_scheme \<Rightarrow> bool" where
  "compute_gate_exhausted_attempt e = (is_run e \<and> opt_trim (re_result e) \<in> set gate_exhausted_results)"

definition compute_no_progress_result :: "'a outcome_event_scheme \<Rightarrow> bool" where
  "compute_no_progress_result e =
     (if \<not> is_run e then False
      else let result = opt_trim (re_result e) in
        if result = ''executed'' then opt_trim (re_outcome e) \<noteq> ''shipped''
        else result \<in> set no_progress_results)"

definition compute_safety_stop_run_event :: "'a run_event_scheme \<Rightarrow> bool" where
  "compute_safety_stop_run_event e =
     (if \<not> is_run e then False
      else let result = opt_trim (re_result e) in
        str_contains result ''human_escalation'' \<or> str_contains result ''tier1_governance'' \<or>
        str_contains result ''medium_risk_guard'' \<or> str_contains result ''capability_cooldown'' \<or>
        str_contains result ''directive_pulse_tier_reservation'')"

text \<open>The loops from the latest event backwards, with their counter.\<close>

fun gate_exhausted_loop :: "u32 \<Rightarrow> 'a run_event_scheme list \<Rightarrow> u32" where
  "gate_exhausted_loop n [] = n"
| "gate_exhausted_loop n (evt # evts) =
     (if \<not> is_run evt then gate_exhausted_loop n evts
      else let result = opt_trim (re_result evt) in
        if \<not> compute_attempt_run_event
             \<lparr> re_event_type = Some (opt_lower (re_event_type evt)), re_result = Some result \<rparr>
        then gate_exhausted_loop n evts
        else if \<not> compute_gate_exhausted_attempt
             \<lparr> re_event_type = Some ''autonomy_run'', re_result = Some result \<rparr>
        then n
        else gate_exhausted_loop (n + 1) evts)"

definition compute_consecutive_gate_exhausted_attempts :: "'a run_event_scheme list \<Rightarrow> u32" where
  "compute_consecutive_gate_exhausted_attempts events = gate_exhausted_loop 0 (rev events)"

fun no_progress_loop :: "u32 \<Rightarrow> 'a outcome_event_scheme list \<Rightarrow> u32" where
  "no_progress_loop n [] = n"
| "no_progress_loop n (evt # evts) =
     (if \<not> is_run evt then no_progress_loop n evts
      else let result = opt_trim (re_result evt); outcome = opt_trim (re_outcome evt) in
        if result = ''executed'' \<and> outcome = ''shipped'' then n
        else if \<not> compute_no_progress_result
             \<lparr> re_event_type = Some ''autonomy_run'', re_result = Some result, re_outcome = Some outcome \<rparr>
        then n
        else no_progress_loop (n + 1) evts)"

definition compute_consecutive_no_progress_runs :: "'a outcome_event_scheme list \<Rightarrow> u32" where
  "compute_consecutive_no_progress_runs events = no_progress_loop 0 (rev events)"

fun reset_loop :: "nat \<Rightarrow> nat \<Rightarrow> string option list \<Rightarrow> nat" where
  "reset_loop start_index idx [] = start_index"
| "reset_loop start_index idx (event_type # evts) =
     reset_loop (if opt_lower event_type = ''autonomy_reset'' then idx + 1 else start_index) (idx + 1) evts"

definition compute_runs_since_reset_index :: "string option list \<Rightarrow> u32" where
  "compute_runs_since_reset_index events = of_nat (reset_loop 0 0 events)"

fun indices_loop :: "('e \<Rightarrow> bool) \<Rightarrow> nat \<Rightarrow> 'e list \<Rightarrow> u32 list" where
  "indices_loop p idx [] = []"
| "indices_loop p idx (evt # evts) =
     (if p evt then of_nat idx # indices_loop p (idx + 1) evts else indices_loop p (idx + 1) evts)"

definition compute_attempt_event_indices :: "'a run_event_scheme list \<Rightarrow> u32 list" where
  "compute_attempt_event_indices events = indices_loop compute_attempt_run_event 0 events"

section \<open>What counts against the capacity\<close>

definition is_score_only_result_for_capacity :: "string \<Rightarrow> bool" where
  "is_score_only_result_for_capacity result = compute_score_only_result (Some result)"

definition compute_capacity_counted_attempt_event :: "'a counted_event_scheme \<Rightarrow> bool" where
  "compute_capacity_counted_attempt_event e =
     (if \<not> is_run e then False
      else let result = opt_trim (re_result e) in
        if result = [] then False
        else if unwrap_or (re_policy_hold e) False then False
        else if is_policy_hold_result result \<or> result = ''lock_busy'' \<or>
                result = ''stop_repeat_gate_interval'' \<or> is_score_only_result_for_capacity result then False
        else if result = ''executed'' then True
        else compute_attempt_run_event
               \<lparr> re_event_type = Some (opt_lower (re_event_type e)), re_result = Some result \<rparr> \<and>
             normalize_spaces (opt_str (re_proposal_id e)) \<noteq> [])"

definition compute_capacity_counted_attempt_indices :: "'a counted_event_scheme list \<Rightarrow> u32 list" where
  "compute_capacity_counted_attempt_indices events = indices_loop compute_capacity_counted_attempt_event 0 events"

section \<open>Counts\<close>

fun count_loop :: "('e \<Rightarrow> bool) \<Rightarrow> u32 \<Rightarrow> 'e list \<Rightarrow> u32" where
  "count_loop p n [] = n"
| "count_loop p n (evt # evts) = count_loop p (if p evt then n + 1 else n) evts"

definition compute_shipped_count :: "'a outcome_event_scheme list \<Rightarrow> u32" where
  "compute_shipped_count events =
     count_loop (\<lambda>e. is_run e \<and> opt_lower (re_result e) = ''executed'' \<and> opt_lower (re_outcome e) = ''shipped'')
       0 events"

definition normalize_risk_level :: "string \<Rightarrow> string" where
  "normalize_risk_level raw =
     (let level = to_ascii_lowercase (trim raw) in
      if level = ''high'' \<or> level = ''medium'' \<or> level = ''low'' then level else ''low'')"

definition compute_normalized_risk :: "string option \<Rightarrow> string" where
  "compute_normalized_risk risk =
     (let risk = opt_lower risk in
      if risk = ''high'' \<or> risk = ''medium'' \<or> risk = ''low'' then risk else ''low'')"

definition run_risk :: "'a risk_event_scheme \<Rightarrow> string" where
  "run_risk e = (case re_risk e of
       Some risk \<Rightarrow> normalize_risk_level risk
     | None \<Rightarrow> normalize_risk_level (opt_str (re_proposal_risk e)))"

definition compute_executed_count_by_risk :: "'a risk_event_scheme list \<Rightarrow> string option \<Rightarrow> u32" where
  "compute_executed_count_by_risk events risk =
     (let target = normalize_risk_level (opt_str risk) in
      count_loop (\<lambda>e. is_run e \<and> opt_lower (re_result e) = ''executed'' \<and> run_risk e = target) 0 events)"

definition tally_key :: "'a run_event_scheme \<Rightarrow> string" where
  "tally_key e = (let v = opt_trim (re_result e) in if v \<noteq> [] then v else ''unknown'')"

definition compute_run_result_tally :: "'a run_event_scheme list \<Rightarrow> (string \<times> u32) list" where
  "compute_run_result_tally events =
     fold (\<lambda>e counts. if \<not> is_run e then counts
        else bt_insert (tally_key e) (saturating_add (unwrap_or (bt_get counts (tally_key e)) 0) 1) counts)
       events []"

record qos_usage =
  qu_critical :: u32
  qu_standard :: u32
  qu_explore :: u32
  qu_quarantine :: u32

definition qos_step :: "'a selection_event_scheme \<Rightarrow> qos_usage \<Rightarrow> qos_usage" where
  "qos_step e out =
     (if \<not> is_run e \<or> opt_lower (re_result e) \<noteq> ''executed'' then out
      else let mode = opt_lower (re_selection_mode e) in
        if str_contains mode ''qos_critical_'' then out\<lparr> qu_critical := qu_critical out + 1 \<rparr>
        else if str_contains mode ''qos_standard_'' then out\<lparr> qu_standard := qu_standard out + 1 \<rparr>
        else if str_contains mode ''qos_explore_'' then out\<lparr> qu_explore := qu_explore out + 1 \<rparr>
        else if str_contains mode ''qos_quarantine_'' then out\<lparr> qu_quarantine := qu_quarantine out + 1 \<rparr>
        else out)"

definition compute_qos_lane_usage :: "'a selection_event_scheme list \<Rightarrow> qos_usage" where
  "compute_qos_lane_usage events =
     fold qos_step events \<lparr> qu_critical = 0, qu_standard = 0, qu_explore = 0, qu_quarantine = 0 \<rparr>"

record lane_candidate =
  lc_queue_underflow_backfill :: bool
  lc_pulse_tier :: int
  lc_proposal_type :: "string option"
  lc_deprioritized_source :: bool
  lc_risk :: "string option"

definition compute_qos_lane_from_candidate :: "lane_candidate \<Rightarrow> string" where
  "compute_qos_lane_from_candidate c =
     (let proposal_type = opt_lower (lc_proposal_type c) in
      if lc_queue_underflow_backfill c then ''quarantine''
      else if lc_pulse_tier c \<le> 1 then ''critical''
      else if proposal_type = ''directive_clarification'' \<or> proposal_type = ''directive_decomposition''
      then ''critical''
      else if lc_deprioritized_source c then ''quarantine''
      else if normalize_risk_level (opt_str (lc_risk c)) = ''medium'' then ''explore''
      else ''standard'')"

definition sorted_count :: "f64 \<Rightarrow> u32" where
  "sorted_count c = (if is_finite c \<and> f64_lt (Fin 0) c then f64_as_u32 (f64_round c) else 0)"

definition compute_sorted_counts :: "(string \<times> f64) list \<Rightarrow> (string \<times> u32) list" where
  "compute_sorted_counts counts =
     sort_key (\<lambda>(result, c). (- uint c, result)) (map (\<lambda>(result, c). (result, sorted_count c)) counts)"

section \<open>Statuses of proposals\<close>

definition compute_normalize_proposal_status :: "string option \<Rightarrow> string option \<Rightarrow> string" where
  "compute_normalize_proposal_status raw_status fallback =
     (let base = (if opt_lower fallback \<noteq> [] then opt_lower fallback else ''pending'');
          status = opt_lower raw_status
      in if status \<in> set [[], ''unknown'', ''new'', ''queued'', ''open'', ''admitted''] then base
         else if status \<in> set [''closed_won'', ''won'', ''paid'', ''verified''] then ''closed''
         else status)"

definition compute_proposal_status :: "string option \<Rightarrow> string" where
  "compute_proposal_status overlay_decision =
     (let d = opt_lower overlay_decision in
      if d = ''accept'' then ''accepted''
      else if d = ''reject'' then ''rejected''
      else if d = ''park'' then ''parked''
      else ''pending'')"

definition compute_proposal_outcome_status :: "string option \<Rightarrow> string option" where
  "compute_proposal_outcome_status overlay_outcome =
     (if opt_lower overlay_outcome \<noteq> [] then Some (opt_lower overlay_outcome) else None)"

definition compute_queue_underflow_backfill :: "f64 \<Rightarrow> string option \<Rightarrow> string option \<Rightarrow> bool" where
  "compute_queue_underflow_backfill underflow_backfill_max status overlay_outcome =
     (if f64_le underflow_backfill_max (Fin 0) then False
      else if opt_lower status \<noteq> ''accepted'' then False
      else compute_proposal_outcome_status overlay_outcome = None)"

definition compute_proposal_status_for_queue_pressure :: "string option \<Rightarrow> string option \<Rightarrow> string" where
  "compute_proposal_status_for_queue_pressure overlay_decision proposal_status =
     (let status = compute_proposal_status overlay_decision;
          explicit = compute_normalize_proposal_status proposal_status (Some ''pending'')
      in if opt_trim overlay_decision \<noteq> [] then status
         else if explicit \<in> set [''accepted'', ''closed'', ''rejected'', ''parked''] then explicit
         else status)"

definition compute_proposal_risk_score :: "f64 option \<Rightarrow> string option \<Rightarrow> u32" where
  "compute_proposal_risk_score explicit_risk_score risk =
     (case finite_only explicit_risk_score of
        Some explicit \<Rightarrow>
          (let rounded = f64_round explicit in
           if f64_le rounded (Fin 0) then 0
           else if f64_le (Fin 100) rounded then 100
           else f64_as_u32 rounded)
      | None \<Rightarrow>
          (let risk = normalize_risk_level (opt_str risk) in
           if risk = ''high'' then 90 else if risk = ''medium'' then 60 else 25))"

definition compute_impact_weight :: "string option \<Rightarrow> u32" where
  "compute_impact_weight expected_impact =
     (let impact = opt_lower expected_impact in
      if impact = ''high'' then 3 else if impact = ''medium'' then 2 else 1)"

definition compute_risk_penalty :: "string option \<Rightarrow> u32" where
  "compute_risk_penalty risk =
     (let risk = opt_lower risk in if risk = ''high'' then 2 else if risk = ''medium'' then 1 else 0)"

definition compute_estimate_tokens :: "string option \<Rightarrow> u32" where
  "compute_estimate_tokens expected_impact =
     (let impact = opt_lower expected_impact in
      if impact = ''high'' then 1400 else if impact = ''medium'' then 800 else 300)"

definition compute_proposal_remediation_depth :: "f64 option \<Rightarrow> string option \<Rightarrow> u32" where
  "compute_proposal_remediation_depth remediation_depth trigger0 =
     (case finite_only remediation_depth of
        Some (Fin raw) \<Rightarrow>
          if 0 \<le> raw then f64_as_u32 (f64_round (Fin raw))
          else if opt_lower trigger0 \<in> {''consecutive_failures'', ''multi_eye_transport_failure''} then 1 else 0
      | _ \<Rightarrow> if opt_lower trigger0 \<in> {''consecutive_failures'', ''multi_eye_transport_failure''} then 1 else 0)"

record dedup_key_input =
  dk_proposal_type :: "string option"
  dk_source_eye_id :: "string option"
  dk_remediation_kind :: "string option"
  dk_proposal_id :: "string option"

definition compute_proposal_dedup_key :: "dedup_key_input \<Rightarrow> string" where
  "compute_proposal_dedup_key i =
     (let t = to_ascii_lowercase (trim (unwrap_or (dk_proposal_type i) ''unknown''));
          proposal_type = (if t = [] then ''unknown'' else t);
          source_eye_id = opt_trim (dk_source_eye_id i);
          remediation_kind = opt_lower (dk_remediation_kind i);
          proposal_id = trim (unwrap_or (dk_proposal_id i) ''unknown'')
      in if str_contains proposal_type ''remediation''
         then proposal_type @ ''|'' @ source_eye_id @ ''|'' @
                (if remediation_kind = [] then ''none'' else remediation_kind)
         else proposal_type @ ''|'' @ source_eye_id @ ''|'' @
                (if proposal_id = [] then ''unknown'' else proposal_id))"

section \<open>Streaks\<close>

text \<open>A loop that walks from the latest event backwards, passes over events that do not matter, and counts
  until the first one that matters and breaks the streak.\<close>

locale streak_counter =
  fixes matters :: "'e \<Rightarrow> bool" and counts :: "'e \<Rightarrow> bool" and loop :: "u32 \<Rightarrow> 'e list \<Rightarrow> u32"
  assumes loop_Nil: "loop n [] = n"
    and loop_skip: "\<not> matters e \<Longrightarrow> loop n (e # es) = loop n es"
    and loop_stop: "matters e \<Longrightarrow> \<not> counts e \<Longrightarrow> loop n (e # es) = n"
    and loop_count: "matters e \<Longrightarrow> counts e \<Longrightarrow> loop n (e # es) = loop (n + 1) es"
begin

lemma loop_eq: "loop n es = n + of_nat (length (takeWhile counts (filter matters es)))"
proof (induction es arbitrary: n)
  case (Cons e es)
  show ?case
    by (cases "matters e"; cases "counts e") (simp_all add: Cons loop_skip loop_stop loop_count)
qed (simp add: loop_Nil)

lemma streak_snoc:
  "loop 0 (rev (es @ [e])) =
     (if \<not> matters e then loop 0 (rev es) else if counts e then loop 0 (rev es) + 1 else 0)"
  by (simp add: loop_eq)

end

lemma opt_trim_Some_trim [simp]: "opt_trim (Some (opt_trim v)) = opt_trim v"
  by (simp add: opt_trim_def unwrap_or_def trim_idem)

lemma opt_lower_run [simp]: "opt_lower (Some ''autonomy_run'') = ''autonomy_run''"
  by code_simp

interpretation gate: streak_counter compute_attempt_run_event compute_gate_exhausted_attempt gate_exhausted_loop
  by unfold_locales
    (simp_all add: compute_attempt_run_event_def compute_gate_exhausted_attempt_def Let_def)

interpretation progress: streak_counter is_run compute_no_progress_result no_progress_loop
  by unfold_locales (simp_all add: compute_no_progress_result_def Let_def split: if_splits)

text \<open>C27: the two streaks. The number of exhausted gates is the length of the longest run of exhausted attempts at
  the end of the attempts of the log, and the number of runs without progress that of the runs without
  progress at the end of its runs, both as 32-bit counters; so a new event leaves a streak, extends it by
  one or ends it.\<close>

theorem streak_counters_exact:
  "compute_consecutive_gate_exhausted_attempts es =
     of_nat (length (takeWhile compute_gate_exhausted_attempt (filter compute_attempt_run_event (rev es)))) \<and>
   compute_consecutive_no_progress_runs os =
     of_nat (length (takeWhile compute_no_progress_result (filter is_run (rev os)))) \<and>
   compute_consecutive_gate_exhausted_attempts (es @ [e]) =
     (if \<not> compute_attempt_run_event e then compute_consecutive_gate_exhausted_attempts es
      else if compute_gate_exhausted_attempt e then compute_consecutive_gate_exhausted_attempts es + 1 else 0) \<and>
   compute_consecutive_no_progress_runs (os @ [r]) =
     (if \<not> is_run r then compute_consecutive_no_progress_runs os
      else if compute_no_progress_result r then compute_consecutive_no_progress_runs os + 1 else 0)"
  unfolding compute_consecutive_gate_exhausted_attempts_def compute_consecutive_no_progress_runs_def
    gate.streak_snoc progress.streak_snoc gate.loop_eq progress.loop_eq
  by simp

text \<open>Three results count as exhausted gates but not as attempts, so the streak passes over them.\<close>

lemma medium_gates_not_attempts:
  "r \<in> {''stop_init_gate_medium_risk_guard'', ''stop_init_gate_medium_requires_canary'',
     ''stop_repeat_gate_medium_canary_cap''} \<Longrightarrow>
   r \<in> set gate_exhausted_results \<and> r \<notin> set attempt_results"
  by (auto simp: gate_exhausted_results_def attempt_results_def)

lemma gate_exhausted_attempts:
  "list_all (\<lambda>r. r \<in> set attempt_results \<or> r \<in> set [''stop_init_gate_medium_risk_guard'',
     ''stop_init_gate_medium_requires_canary'', ''stop_repeat_gate_medium_canary_cap'']) gate_exhausted_results"
  by code_simp

section \<open>Capacity\<close>

lemma attempt_not_hold: "r \<in> set attempt_results \<Longrightarrow> \<not> is_policy_hold_result r"
proof -
  have "list_all (\<lambda>r. \<not> is_policy_hold_result r) attempt_results" by code_simp
  then show "r \<in> set attempt_results \<Longrightarrow> \<not> is_policy_hold_result r" by (simp add: list_all_iff)
qed

lemma attempt_score_only:
  "r \<in> set attempt_results \<Longrightarrow> trim r = r \<Longrightarrow>
     is_score_only_result_for_capacity r \<longleftrightarrow> r = ''stop_repeat_gate_preview_churn_cooldown''"
proof -
  have "list_all (\<lambda>r. is_score_only_result_for_capacity r = (r = ''stop_repeat_gate_preview_churn_cooldown''))
      attempt_results" by code_simp
  then show "r \<in> set attempt_results \<Longrightarrow>
      is_score_only_result_for_capacity r \<longleftrightarrow> r = ''stop_repeat_gate_preview_churn_cooldown''"
    by (simp add: list_all_iff)
qed

lemma attempt_results_facts:
  "''executed'' \<in> set attempt_results" "[] \<notin> set attempt_results" "''lock_busy'' \<notin> set attempt_results"
  "''stop_repeat_gate_interval'' \<notin> set attempt_results"
  by (simp_all add: attempt_results_def)

lemma normalize_spaces_Nil: "normalize_spaces s = [] \<longleftrightarrow> split_whitespace s = []"
proof -
  have "join '' '' ws = [] \<longleftrightarrow> ws = []" if "\<forall>w \<in> set ws. w \<noteq> []" for ws
    using that by (cases ws rule: remdups_adj.cases) auto
  then show ?thesis using split_whitespace_words unfolding normalize_spaces_def by blast
qed

lemma capacity_counted_iff:
  "compute_capacity_counted_attempt_event e \<longleftrightarrow>
     is_run e \<and> re_policy_hold e \<noteq> Some True \<and>
     (opt_trim (re_result e) = ''executed'' \<or>
      opt_trim (re_result e) \<in> set attempt_results \<and>
      opt_trim (re_result e) \<noteq> ''stop_repeat_gate_preview_churn_cooldown'' \<and>
      split_whitespace (opt_str (re_proposal_id e)) \<noteq> [])"
proof -
  let ?r = "opt_trim (re_result e)"
  have hold: "unwrap_or (re_policy_hold e) False \<longleftrightarrow> re_policy_hold e = Some True"
    by (cases "re_policy_hold e") (simp_all add: unwrap_or_def)
  have trim: "trim ?r = ?r" by (simp add: opt_trim_def trim_idem)
  show ?thesis
  proof (cases "?r \<in> set attempt_results")
    case True
    then show ?thesis
      using attempt_not_hold [OF True] attempt_score_only [OF True trim] attempt_results_facts
      by (auto simp: compute_capacity_counted_attempt_event_def compute_attempt_run_event_def Let_def hold
          normalize_spaces_Nil)
  next
    case False
    then show ?thesis
      using attempt_results_facts
      by (auto simp: compute_capacity_counted_attempt_event_def compute_attempt_run_event_def Let_def)
  qed
qed

lemma indices_loop_nat:
  "i + length es < 2 ^ 32 \<Longrightarrow>
     map unat (indices_loop p i es) = map ((+) i) (filter (\<lambda>j. p (es ! j)) [0..<length es])"
proof (induction p i es rule: indices_loop.induct)
  case (2 p i e es)
  have "[0..<length (e # es)] = 0 # map Suc [0..<length es]"
    by (simp add: map_Suc_upt upt_conv_Cons del: upt_Suc)
  moreover have "unat (of_nat i :: u32) = i" using 2(3) by (simp add: unat_of_nat)
  ultimately show ?case using 2 by (simp add: filter_map comp_def)
qed simp

text \<open>What counts against the daily capacity. An event counts exactly when it is a run without a policy hold
  that executed, or an attempt other than a preview that names a proposal; the indices reported for a log
  of fewer than $2^{32}$ events are the positions of these events, in order.\<close>

lemma capacity_counted_exact:
  assumes "length events < 2 ^ 32"
  shows "map unat (compute_capacity_counted_attempt_indices events) =
    filter (\<lambda>i. let e = events ! i; r = opt_trim (re_result e) in
        opt_lower (re_event_type e) = ''autonomy_run'' \<and> re_policy_hold e \<noteq> Some True \<and>
        (r = ''executed'' \<or> r \<in> set attempt_results \<and> r \<noteq> ''stop_repeat_gate_preview_churn_cooldown'' \<and>
         split_whitespace (opt_str (re_proposal_id e)) \<noteq> []))
      [0..<length events]"
  using indices_loop_nat [of 0 events compute_capacity_counted_attempt_event] assms
  by (simp add: compute_capacity_counted_attempt_indices_def capacity_counted_iff Let_def map_idI)

definition sample_run_log :: "counted_event list" where
  "sample_run_log =
     [\<lparr> re_event_type = Some ''autonomy_run'', re_result = Some ''executed'', re_policy_hold = None,
        re_proposal_id = None \<rparr>,
      \<lparr> re_event_type = Some ''autonomy_run'', re_result = Some ''init_gate_stub'', re_policy_hold = None,
        re_proposal_id = None \<rparr>]"

lemma capacity_counted_exact_witness:
  "map unat (compute_capacity_counted_attempt_indices sample_run_log) = [0]"
proof -
  have "length sample_run_log < 2 ^ 32" by (simp add: sample_run_log_def)
  from capacity_counted_exact [OF this] show ?thesis
    by (rule trans) code_simp
qed

section \<open>Counts\<close>

lemma count_loop_eq: "count_loop p n es = n + of_nat (length (filter p es))"
  by (induction p n es rule: count_loop.induct) simp_all

lemma normalize_risk_level_cases:
  "normalize_risk_level s \<in> {''low'', ''medium'', ''high''}"
  by (auto simp: normalize_risk_level_def Let_def)

lemma normalize_risk_level_fix [simp]:
  "normalize_risk_level ''low'' = ''low''" "normalize_risk_level ''medium'' = ''medium''"
  "normalize_risk_level ''high'' = ''high''"
  by code_simp+

lemma run_risk_cases: "run_risk e \<in> {''low'', ''medium'', ''high''}"
  using normalize_risk_level_cases by (auto simp: run_risk_def split: option.splits)

lemma length_filter_partition:
  assumes "\<And>e. f e \<in> {a, b, c}" and "distinct [a, b, c]"
  shows "length (filter (\<lambda>e. p e \<and> f e = a) es) + length (filter (\<lambda>e. p e \<and> f e = b) es) +
    length (filter (\<lambda>e. p e \<and> f e = c) es) = length (filter p es)"
proof (induction es)
  case (Cons e es)
  then show ?case using assms(1) [of e] assms(2) by auto
qed simp

text \<open>The counts of executed runs by risk divide the executed runs: each run has exactly one of the three
  levels, whatever its event says, and the three counts add up to the number of executed runs.\<close>

lemma executed_counts_partition:
  "compute_executed_count_by_risk events (Some ''low'') + compute_executed_count_by_risk events (Some ''medium'') +
     compute_executed_count_by_risk events (Some ''high'') =
   of_nat (length (filter (\<lambda>e. opt_lower (re_event_type e) = ''autonomy_run'' \<and>
     opt_lower (re_result e) = ''executed'') events)) \<and>
   compute_executed_count_by_risk events risk =
     compute_executed_count_by_risk events (Some (normalize_risk_level (opt_str risk)))"
proof -
  let ?p = "\<lambda>e :: 'a risk_event_scheme. is_run e \<and> opt_lower (re_result e) = ''executed''"
  have "compute_executed_count_by_risk events (Some l) =
      of_nat (length (filter (\<lambda>e. ?p e \<and> run_risk e = normalize_risk_level l) events))" for l
    by (simp add: compute_executed_count_by_risk_def count_loop_eq unwrap_or_def)
  moreover have "length (filter (\<lambda>e. ?p e \<and> run_risk e = ''low'') events) +
      length (filter (\<lambda>e. ?p e \<and> run_risk e = ''medium'') events) +
      length (filter (\<lambda>e. ?p e \<and> run_risk e = ''high'') events) = length (filter ?p events)"
    by (rule length_filter_partition [OF run_risk_cases]) simp
  moreover have "normalize_risk_level (normalize_risk_level s) = normalize_risk_level s" for s
    using normalize_risk_level_cases [of s] by auto
  ultimately show ?thesis
    by (simp add: compute_executed_count_by_risk_def count_loop_eq unwrap_or_def flip: of_nat_add)
qed

lemma tally_fold_get:
  fixes m :: "(string \<times> u32) list"
  assumes M: "M = 2 ^ 32 - 1"
  shows "bt_get (fold (\<lambda>e counts. if \<not> is_run e then counts
        else bt_insert (tally_key e) (saturating_add (unwrap_or (bt_get counts (tally_key e)) 0) 1) counts)
       events m) k =
   (let n = length (filter (\<lambda>e. is_run e \<and> tally_key e = k) events) in
    if n = 0 then bt_get m k
    else Some (of_nat (min (unat (unwrap_or (bt_get m k) 0) + n) M)))"
proof (induction events arbitrary: m)
  case (Cons e events)
  have u: "unat (saturating_add c 1) = min (unat c + 1) M" for c :: u32
    by (simp add: unat_saturating_add M)
  have sat: "of_nat (min (unat (saturating_add c 1) + n) M) = (of_nat (min (Suc (unat c + n)) M) :: u32)"
    for c :: u32 and n
    unfolding u by (rule arg_cong [where f = of_nat]) (simp add: min_def)
  have one: "saturating_add c 1 = (of_nat (min (Suc (unat c)) M) :: u32)" for c :: u32
    using u [of c] by (metis Suc_eq_plus1 of_nat_unat ucast_id)
  show ?case
  proof (cases "is_run e \<and> tally_key e = k")
    case True
    then show ?thesis
      using sat [of "unwrap_or (bt_get m k) 0"] one [of "unwrap_or (bt_get m k) 0"]
      by (simp add: Cons bt_get_insert Let_def unwrap_or_def)
  next
    case False
    then show ?thesis by (auto simp: Cons bt_get_insert Let_def)
  qed
qed (simp add: Let_def)

text \<open>The tally of results is exact. The map holds, for each result with which a run ended (and the name
  \<^verbatim>\<open>unknown\<close> for a blank one), the number of runs that ended so, capped at the largest counter value; and
  nothing else.\<close>

lemma run_tally_exact:
  "bt_get (compute_run_result_tally events) k =
     (let n = length (filter (\<lambda>e. opt_lower (re_event_type e) = ''autonomy_run'' \<and>
                tally_key e = k) events)
      in if n = 0 then None else Some (of_nat (min n (2 ^ 32 - 1))))"
  unfolding compute_run_result_tally_def tally_fold_get [OF refl] by (simp add: unwrap_or_def Let_def)

section \<open>Risk scores\<close>

lemma opt_lower_Some_pending [simp]: "opt_lower (Some ''pending'') = ''pending''"
  by code_simp

text \<open>Whatever number comes in, a risk score is at most 100.\<close>

lemma risk_score_bounded: "compute_proposal_risk_score x r \<le> 100"
proof (cases "finite_only x")
  case None
  then show ?thesis by (simp add: compute_proposal_risk_score_def Let_def)
next
  case (Some v)
  then obtain q where v: "v = Fin q" by (cases x) (auto simp: finite_only_def split: if_splits)
  have "of_nat (min (nat (round_rat q)) 4294967295) \<le> (100 :: u32)" if "round_rat q < 100"
  proof -
    have "min (nat (round_rat q)) 4294967295 < 100" using that by linarith
    then show ?thesis by (simp add: word_le_nat_alt unat_of_nat)
  qed
  then show ?thesis
    using Some v by (auto simp: compute_proposal_risk_score_def f64_as_u32_def f64_as_nat_def Let_def not_le)
qed

lemma sorted_counts_order:
  "sorted_wrt (\<lambda>(r, c) (r', c'). c > c' \<or> c = c' \<and> r \<le> r') (compute_sorted_counts counts)"
proof -
  let ?k = "\<lambda>(r :: string, c :: u32). (- uint c, r)"
  have "sorted_wrt (\<lambda>x y. ?k x \<le> ?k y) (compute_sorted_counts counts)"
    using sorted_sort_key [of ?k] by (simp add: compute_sorted_counts_def sorted_map)
  then show ?thesis
    by (rule sorted_wrt_mono_rel [rotated]) (auto simp: less_eq_prod_def word_less_def word_uint_eq_iff)
qed

end
