(* ===== verification/Policy_Holds.thy ===== *)
theory Policy_Holds
  imports Run_Events Json_Value
begin

text \<open>
  The gates and holds of \<^verbatim>\<open>core/layer2/execution/src/autoscale.rs\<close>: whether a route is held, how large a batch
  may be, whether a mutation or an unknown type may run, what a run that yielded nothing is blamed on, and
  which holds repeat. The times of events are only compared here: the cutoff that the source computes from
  the window in floating point is an argument. The struct of the latest hold and the patterns keep the
  order of the source's branches.
\<close>

section \<open>Batch size\<close>

record batch_max_input =
  bm_enabled :: bool
  bm_max_batch :: u32
  bm_daily_remaining :: "u32 option"
  bm_pressure :: string
  bm_current_cells :: u32
  bm_budget_blocked :: bool
  bm_trit_shadow_blocked :: bool

record batch_max_output =
  bo_max :: u32
  bo_reason :: string
  bo_pressure :: string
  bo_current_cells :: u32
  bo_budget_blocked :: bool
  bo_trit_shadow_blocked :: bool

definition compute_batch_max :: "batch_max_input \<Rightarrow> batch_max_output" where
  "compute_batch_max i =
     (let pressure = to_ascii_lowercase (bm_pressure i);
          max_batch = max (bm_max_batch i) 1;
          out = (\<lambda>m reason bb tb. \<lparr> bo_max = m, bo_reason = reason, bo_pressure = pressure,
            bo_current_cells = bm_current_cells i, bo_budget_blocked = bb, bo_trit_shadow_blocked = tb \<rparr>)
      in if \<not> bm_enabled i then out 1 ''disabled'' (bm_budget_blocked i) (bm_trit_shadow_blocked i)
         else if bm_budget_blocked i then out 1 ''budget_blocked'' True (bm_trit_shadow_blocked i)
         else if bm_trit_shadow_blocked i then out 1 ''shadow_hold'' (bm_budget_blocked i) True
         else let suggested0 = (if pressure = ''critical'' then min max_batch (max (bm_current_cells i + 1) 1)
                                else if pressure = ''warning'' then min max_batch 2 else 1);
                  reason0 = (if suggested0 > 1 then ''backlog_autoscale'' else ''no_pressure'');
                  (suggested, reason) = (case bm_daily_remaining i of
                      Some remaining \<Rightarrow> if remaining < suggested0 then (max remaining 1, ''daily_cap_limited'')
                                         else (suggested0, reason0)
                    | None \<Rightarrow> (suggested0, reason0))
           in out (max suggested 1) reason (bm_budget_blocked i) (bm_trit_shadow_blocked i))"

section \<open>Holding a route\<close>

record policy_hold_input =
  ph_target :: string
  ph_gate_decision :: string
  ph_route_decision :: string
  ph_needs_manual_review :: bool
  ph_executable :: bool
  ph_budget_reason :: string
  ph_route_reason :: string
  ph_budget_blocked_flag :: bool
  ph_budget_global_blocked :: bool
  ph_budget_enforcement_blocked :: bool

record policy_hold_output =
  po_hold :: bool
  po_hold_scope :: "string option"
  po_hold_reason :: "string option"
  po_route_block_reason :: "string option"

definition no_hold :: policy_hold_output where
  "no_hold = \<lparr> po_hold = False, po_hold_scope = None, po_hold_reason = None, po_route_block_reason = None \<rparr>"

definition budget_signal :: "string \<Rightarrow> bool" where
  "budget_signal t = (str_contains t ''burn_rate_exceeded'' \<or> str_contains t ''budget_autopause'' \<or>
     str_contains t ''budget guard blocked'' \<or> str_contains t ''budget_deferred'' \<or> str_contains t ''budget_blocked'')"

definition compute_policy_hold :: "policy_hold_input \<Rightarrow> policy_hold_output" where
  "compute_policy_hold i =
     (if to_ascii_lowercase (trim (ph_target i)) \<noteq> ''route'' then no_hold
      else
        let budget_reason = normalize_spaces (ph_budget_reason i);
            route_reason = normalize_spaces (ph_route_reason i);
            budget_signal_text = to_ascii_lowercase (normalize_spaces (budget_reason @ '' '' @ route_reason));
            budget_blocked = (ph_budget_blocked_flag i \<or> ph_budget_global_blocked i \<or>
              ph_budget_enforcement_blocked i \<or> budget_signal budget_signal_text);
            gate_decision = to_ascii_uppercase (trim (ph_gate_decision i));
            route_decision = to_ascii_uppercase (trim (ph_route_decision i));
            manual_blocked = (gate_decision = ''MANUAL'' \<or> route_decision = ''MANUAL'' \<or> ph_needs_manual_review i)
        in if budget_blocked
           then let reason = (if trim budget_reason = [] then ''budget_guard_blocked'' else budget_reason)
             in \<lparr> po_hold = True, po_hold_scope = Some ''budget'', po_hold_reason = Some reason,
                  po_route_block_reason = Some reason \<rparr>
           else if manual_blocked \<and> \<not> ph_executable i
           then \<lparr> po_hold = True, po_hold_scope = Some ''proposal'', po_hold_reason = Some ''gate_manual'',
                  po_route_block_reason = Some ''gate_manual'' \<rparr>
           else no_hold)"

record route_hold_input =
  rh_target :: "string option"
  rh_gate_decision :: "string option"
  rh_route_decision_raw :: "string option"
  rh_decision :: "string option"
  rh_needs_manual_review :: "bool option"
  rh_executable :: "bool option"
  rh_budget_block_reason :: "string option"
  rh_budget_enforcement_reason :: "string option"
  rh_budget_global_reason :: "string option"
  rh_summary_reason :: "string option"
  rh_route_reason :: "string option"
  rh_budget_blocked :: "bool option"
  rh_budget_global_blocked :: "bool option"
  rh_budget_enforcement_blocked :: "bool option"

text \<open>The first of some optional texts that is not blank, with its spaces normalised.\<close>

fun first_text :: "string option list \<Rightarrow> string" where
  "first_text [] = []"
| "first_text [v] = normalize_spaces (opt_str v)"
| "first_text (v # vs) =
     (let s = normalize_spaces (opt_str v) in if s \<noteq> [] then s else first_text vs)"

definition compute_route_execution_policy_hold :: "route_hold_input \<Rightarrow> policy_hold_output" where
  "compute_route_execution_policy_hold i =
     compute_policy_hold \<lparr>
       ph_target = to_ascii_lowercase (normalize_spaces (unwrap_or (rh_target i) ''route'')),
       ph_gate_decision = normalize_spaces (opt_str (rh_gate_decision i)),
       ph_route_decision = first_text [rh_route_decision_raw i, rh_decision i],
       ph_needs_manual_review = unwrap_or (rh_needs_manual_review i) False,
       ph_executable = unwrap_or (rh_executable i) True,
       ph_budget_reason = first_text [rh_budget_block_reason i, rh_budget_enforcement_reason i,
         rh_budget_global_reason i],
       ph_route_reason = first_text [rh_summary_reason i, rh_route_reason i],
       ph_budget_blocked_flag = unwrap_or (rh_budget_blocked i) False,
       ph_budget_global_blocked = unwrap_or (rh_budget_global_blocked i) False,
       ph_budget_enforcement_blocked = unwrap_or (rh_budget_enforcement_blocked i) False \<rparr>"

section \<open>Mutations, unknown types, medium risk\<close>

text \<open>The two patterns of mutation signals, on text in lower case for the flag \<^verbatim>\<open>(?i)\<close>. \<open>rx_sep\<close> is \<^verbatim>\<open>[_-]\<close>.\<close>

definition rx_sep :: rx where
  "rx_sep = RxClass (\<lambda>c. c = CHR ''_'' \<or> c = CHR ''-'')"

definition rx_mutation_common :: rx where
  "rx_mutation_common = rx_alts [
     rx_seqs [rx_text ''topology'', rx_opt rx_sep, rx_text ''mutation''],
     rx_seqs [rx_text ''genome'', rx_opt rx_sep, rx_text ''mutation''],
     rx_seqs [rx_text ''self'', rx_opt rx_sep, rx_words [''mutation'', ''modify'']],
     rx_seqs [rx_text ''branch'', rx_opt rx_sep, rx_words [''rewire'', ''prune'']]]"

definition rx_mutation_type :: rx where
  "rx_mutation_type = rx_alts [
     rx_seqs [rx_text ''adaptive'', rx_opt rx_sep, rx_text ''mutation''],
     rx_seqs [rx_text ''mutation'', rx_opt (RxSeq rx_sep (rx_text ''proposal''))],
     rx_mutation_common]"

definition rx_mutation_signal :: rx where
  "rx_mutation_signal = rx_alts [
     rx_seqs [rx_text ''mutation'', rx_opt (RxSeq (rx_opt rx_sep) (rx_words [''guard'', ''policy'', ''kernel'',
       ''budget'', ''ttl'', ''quarantine'', ''veto'', ''rollback'', ''lineage'', ''attestation'']))],
     rx_mutation_common]"

record mutation_signal_input =
  ms_proposal_type :: "string option"
  ms_adaptive_mutation :: bool
  ms_mutation_proposal :: bool
  ms_topology_mutation :: bool
  ms_self_improvement_change :: bool
  ms_signal_blob :: "string option"

definition compute_has_adaptive_mutation_signal :: "mutation_signal_input \<Rightarrow> bool" where
  "compute_has_adaptive_mutation_signal i =
     (let proposal_type = normalize_spaces (opt_str (ms_proposal_type i));
          blob = normalize_spaces (opt_str (ms_signal_blob i))
      in if proposal_type \<noteq> [] \<and> rx_word_match rx_mutation_type (to_ascii_lowercase proposal_type) then True
         else if ms_adaptive_mutation i \<or> ms_mutation_proposal i \<or> ms_topology_mutation i \<or>
                 ms_self_improvement_change i then True
         else if blob = [] then False
         else rx_word_match rx_mutation_type (to_ascii_lowercase blob) \<or>
              rx_word_match rx_mutation_signal (to_ascii_lowercase blob))"

record mutation_guard_input =
  mg_guard_required :: bool
  mg_applies :: bool
  mg_metadata_applies :: bool
  mg_guard_pass :: bool
  mg_guard_reason :: "string option"
  mg_safety_attestation :: "string option"
  mg_rollback_receipt :: "string option"
  mg_guard_receipt_id :: "string option"
  mg_mutation_kernel_applies :: bool
  mg_mutation_kernel_pass :: bool

record mutation_controls =
  mc_safety_attestation :: "string option"
  mc_rollback_receipt :: "string option"
  mc_guard_receipt_id :: "string option"
  mc_mutation_kernel_applies :: bool
  mc_mutation_kernel_pass :: bool

record mutation_guard_output =
  mo_required :: bool
  mo_applies :: bool
  mo_pass :: bool
  mo_reason :: "string option"
  mo_reasons :: "string list"
  mo_controls :: mutation_controls

definition idle_controls :: mutation_controls where
  "idle_controls = \<lparr> mc_safety_attestation = None, mc_rollback_receipt = None, mc_guard_receipt_id = None,
     mc_mutation_kernel_applies = False, mc_mutation_kernel_pass = True \<rparr>"

abbreviation some_text :: "string \<Rightarrow> string option" where
  "some_text s \<equiv> (if s = [] then None else Some s)"

definition mutation_guard_reasons :: "mutation_guard_input \<Rightarrow> string list" where
  "mutation_guard_reasons i =
     (let guard_reason = normalize_spaces (unwrap_or (mg_guard_reason i) ''adaptive_mutation_guard_failed'') in
      (if \<not> mg_metadata_applies i then [''adaptive_mutation_guard_metadata_missing''] else []) @
      (if \<not> mg_guard_pass i
       then [if guard_reason = [] then ''adaptive_mutation_guard_failed'' else guard_reason] else []) @
      (if normalize_spaces (opt_str (mg_safety_attestation i)) = []
       then [''adaptive_mutation_missing_safety_attestation''] else []) @
      (if normalize_spaces (opt_str (mg_rollback_receipt i)) = []
       then [''adaptive_mutation_missing_rollback_receipt''] else []) @
      (if normalize_spaces (opt_str (mg_guard_receipt_id i)) = []
       then [''adaptive_mutation_missing_execution_guard_receipt''] else []) @
      (if mg_mutation_kernel_applies i \<and> \<not> mg_mutation_kernel_pass i
       then [''adaptive_mutation_kernel_failed''] else []))"

definition compute_adaptive_mutation_execution_guard :: "mutation_guard_input \<Rightarrow> mutation_guard_output" where
  "compute_adaptive_mutation_execution_guard i =
     (if \<not> mg_guard_required i
      then \<lparr> mo_required = False, mo_applies = False, mo_pass = True, mo_reason = None, mo_reasons = [],
             mo_controls = idle_controls \<rparr>
      else if \<not> mg_applies i
      then \<lparr> mo_required = True, mo_applies = False, mo_pass = True, mo_reason = None, mo_reasons = [],
             mo_controls = idle_controls \<rparr>
      else let uniq_reasons = push_new [] (mutation_guard_reasons i)
        in \<lparr> mo_required = True, mo_applies = True, mo_pass = (uniq_reasons = []),
             mo_reason = (case uniq_reasons of [] \<Rightarrow> None | r # _ \<Rightarrow> Some r),
             mo_reasons = uniq_reasons,
             mo_controls = \<lparr>
               mc_safety_attestation = some_text (normalize_spaces (opt_str (mg_safety_attestation i))),
               mc_rollback_receipt = some_text (normalize_spaces (opt_str (mg_rollback_receipt i))),
               mc_guard_receipt_id = some_text (normalize_spaces (opt_str (mg_guard_receipt_id i))),
               mc_mutation_kernel_applies = mg_mutation_kernel_applies i,
               mc_mutation_kernel_pass = mg_mutation_kernel_pass i \<rparr> \<rparr>)"

record quarantine_input =
  qi_enabled :: bool
  qi_proposal_type :: "string option"
  qi_type_in_quarantine_set :: bool
  qi_allow_directive :: bool
  qi_allow_tier1 :: bool
  qi_objective_id :: "string option"
  qi_tier1_objective :: bool

record quarantine_output =
  qo_block :: bool
  qo_proposal_type :: "string option"
  qo_reason :: "string option"
  qo_objective_id :: "string option"

definition compute_unknown_type_quarantine_decision :: "quarantine_input \<Rightarrow> quarantine_output" where
  "compute_unknown_type_quarantine_decision i =
     (let proposal_type = (case qi_proposal_type i of
            None \<Rightarrow> None
          | Some v \<Rightarrow> some_text (to_ascii_lowercase (normalize_spaces v)));
          objective_id = (case qi_objective_id i of None \<Rightarrow> None | Some v \<Rightarrow> some_text (normalize_spaces v));
          is_directive = (proposal_type = Some ''directive_clarification'' \<or>
                          proposal_type = Some ''directive_decomposition'');
          out = (\<lambda>b r oid. \<lparr> qo_block = b, qo_proposal_type = proposal_type, qo_reason = r, qo_objective_id = oid \<rparr>)
      in if \<not> qi_enabled i then out False None None
         else if \<not> qi_type_in_quarantine_set i then out False None None
         else if qi_allow_directive i \<and> is_directive then out False (Some ''directive_exempt'') None
         else if qi_allow_tier1 i \<and> qi_tier1_objective i
         then out False (Some ''tier1_objective_exempt'') objective_id
         else out True (Some ''unknown_type_quarantine'') objective_id)"

record medium_gate_input =
  mgi_risk :: "string option"
  mgi_composite_score :: f64
  mgi_directive_fit_score :: f64
  mgi_actionability_score :: f64
  mgi_composite_min :: f64
  mgi_directive_fit_min :: f64
  mgi_actionability_min :: f64

record medium_gate_output =
  mgo_pass :: bool
  mgo_risk :: string
  mgo_reasons :: "string list"
  mgo_required :: "(f64 \<times> f64 \<times> f64) option"

definition compute_medium_risk_gate_decision :: "medium_gate_input \<Rightarrow> medium_gate_output" where
  "compute_medium_risk_gate_decision i =
     (let r = opt_lower (mgi_risk i);
          risk = (if r = ''low'' \<or> r = ''medium'' \<or> r = ''high'' then r else ''low'')
      in if risk \<noteq> ''medium'' then \<lparr> mgo_pass = True, mgo_risk = risk, mgo_reasons = [], mgo_required = None \<rparr>
         else let reasons =
             (if f64_lt (mgi_composite_score i) (mgi_composite_min i) then [''medium_composite_low''] else []) @
             (if f64_lt (mgi_directive_fit_score i) (mgi_directive_fit_min i) then [''medium_directive_fit_low''] else []) @
             (if f64_lt (mgi_actionability_score i) (mgi_actionability_min i) then [''medium_actionability_low''] else [])
           in \<lparr> mgo_pass = (reasons = []), mgo_risk = risk, mgo_reasons = reasons,
                mgo_required = Some (mgi_composite_min i, mgi_directive_fit_min i, mgi_actionability_min i) \<rparr>)"

section \<open>Routes\<close>

record sample_event = run_event +
  se_execution_target :: "string option"
  se_route_summary_present :: bool

definition compute_route_execution_sample_event :: "'a sample_event_scheme \<Rightarrow> bool" where
  "compute_route_execution_sample_event e =
     (let result = opt_trim (re_result e) in
      if opt_str (re_event_type e) \<noteq> ''autonomy_run'' then False
      else if result = [] then False
      else if result = ''score_only_fallback_route_block'' \<or> result = ''init_gate_blocked_route'' then True
      else if opt_lower (se_execution_target e) = ''route'' then result = ''executed''
      else result = ''executed'' \<and> se_route_summary_present e)"

record route_prefilter_input =
  rp_enabled :: bool
  rp_capability_key :: "string option"
  rp_window_hours :: f64
  rp_min_observations :: f64
  rp_max_block_rate :: f64
  rp_row_present :: bool
  rp_attempts :: f64
  rp_route_blocked :: f64
  rp_route_block_rate :: f64

record route_prefilter_output =
  rpo_enabled :: bool
  rpo_applicable :: bool
  rpo_pass :: bool
  rpo_reason :: string
  rpo_capability_key :: "string option"
  rpo_window_hours :: f64
  rpo_min_observations :: f64
  rpo_max_block_rate :: f64
  rpo_attempts :: f64
  rpo_route_blocked :: f64
  rpo_route_block_rate :: f64

text \<open>\<^verbatim>\<open>f64::clamp\<close> keeps what is not a number.\<close>

definition compute_route_block_prefilter :: "route_prefilter_input \<Rightarrow> route_prefilter_output" where
  "compute_route_block_prefilter i =
     (let key = some_text (opt_lower (rp_capability_key i));
          out = \<lparr> rpo_enabled = rp_enabled i, rpo_applicable = False, rpo_pass = True, rpo_reason = ''disabled'',
                  rpo_capability_key = key, rpo_window_hours = rp_window_hours i,
                  rpo_min_observations = rp_min_observations i, rpo_max_block_rate = rp_max_block_rate i,
                  rpo_attempts = Fin 0, rpo_route_blocked = Fin 0, rpo_route_block_rate = Fin 0 \<rparr>
      in if \<not> rp_enabled i then out
         else if key = None then out\<lparr> rpo_reason := ''missing_capability_key'' \<rparr>
         else if \<not> rp_row_present i
         then out\<lparr> rpo_applicable := True, rpo_reason := ''no_recent_route_samples'' \<rparr>
         else let out1 = out\<lparr> rpo_applicable := True, rpo_attempts := f64_max (rp_attempts i) (Fin 0),
                    rpo_route_blocked := f64_max (rp_route_blocked i) (Fin 0),
                    rpo_route_block_rate := f64_clamp (Fin 0) (Fin 1) (rp_route_block_rate i) \<rparr>
           in if f64_lt (rpo_attempts out1) (rp_min_observations i)
              then out1\<lparr> rpo_reason := ''insufficient_observations'' \<rparr>
              else if f64_le (rp_max_block_rate i) (rpo_route_block_rate out1)
              then out1\<lparr> rpo_pass := False, rpo_reason := ''route_block_rate_exceeded'' \<rparr>
              else out1\<lparr> rpo_reason := ''pass'' \<rparr>)"

definition compute_strategy_execution_mode_effective :: "string option \<Rightarrow> string option \<Rightarrow> string" where
  "compute_strategy_execution_mode_effective strategy_mode fallback =
     (let mode_raw = opt_lower strategy_mode;
          fallback_raw = opt_lower fallback;
          fallback_mode = (if fallback_raw = ''score_only'' then ''score_only''
            else if fallback_raw = ''canary_execute'' then ''canary_execute'' else ''execute'')
      in if mode_raw = ''score_only'' then ''score_only''
         else if mode_raw = ''canary_execute'' then ''canary_execute''
         else if mode_raw = ''execute'' then ''execute''
         else fallback_mode)"

definition compute_effective_allowed_risks :: "string list \<Rightarrow> string list \<Rightarrow> string list" where
  "compute_effective_allowed_risks default_risks strategy_allowed_risks =
     (let normalize = (\<lambda>rows. push_new [] (map (\<lambda>row. to_ascii_lowercase (trim row)) rows));
          defaults = normalize default_risks;
          from_strategy = normalize strategy_allowed_risks
      in if from_strategy = [] then defaults else from_strategy)"

section \<open>Runs that yield nothing\<close>

record yield_event = outcome_event +
  ye_policy_hold :: "bool option"
  ye_hold_reason :: "string option"
  ye_route_block_reason :: "string option"

abbreviation opt_or :: "'a option \<Rightarrow> 'a option \<Rightarrow> 'a option" where
  "opt_or a b \<equiv> (case a of None \<Rightarrow> b | Some _ \<Rightarrow> a)"

definition compute_non_yield_category :: "'a yield_event_scheme \<Rightarrow> string option" where
  "compute_non_yield_category e =
     (if \<not> is_run e then None
      else let result = opt_trim (re_result e) in
        if result = [] \<or> result = ''lock_busy'' \<or> result = ''stop_repeat_gate_interval'' then None
        else if unwrap_or (ye_policy_hold e) False \<or> is_policy_hold_result result
        then let reason_raw = unwrap_or (opt_or (ye_hold_reason e) (ye_route_block_reason e)) result;
                 reason = to_ascii_lowercase (normalize_spaces reason_raw);
                 result_lc = to_ascii_lowercase result
          in if str_contains result_lc ''budget'' \<or> str_contains reason ''budget'' \<or>
                str_contains reason ''autopause''
             then Some ''budget_hold'' else Some ''policy_hold''
        else if compute_safety_stop_run_event e then Some ''safety_stop''
        else if compute_no_progress_result e then Some ''no_progress''
        else None)"

record yield_reason_input =
  yr_category :: "string option"
  yr_hold_reason :: "string option"
  yr_route_block_reason :: "string option"
  yr_reason :: "string option"
  yr_result :: "string option"
  yr_outcome :: "string option"

definition compute_non_yield_reason :: "yield_reason_input \<Rightarrow> string" where
  "compute_non_yield_reason i =
     (let lower = (\<lambda>v. to_ascii_lowercase (normalize_spaces (opt_str v)));
          explicit = lower (opt_or (opt_or (yr_hold_reason i) (yr_route_block_reason i)) (yr_reason i));
          result = lower (yr_result i);
          outcome = lower (yr_outcome i);
          category = lower (yr_category i)
      in if explicit \<noteq> [] then explicit
         else if category = ''no_progress'' \<and> result = ''executed''
         then (if outcome = [] then ''executed_no_progress'' else ''executed_'' @ outcome)
         else if result \<noteq> [] then result
         else (if category = [] then ''non_yield'' else category) @ ''_unknown'')"

definition compute_proposal_type_from_run_event ::
  "string option \<Rightarrow> string option \<Rightarrow> string option \<Rightarrow> string" where
  "compute_proposal_type_from_run_event event_type proposal_type capability_key =
     (let direct = opt_lower proposal_type; capability = opt_lower capability_key in
      if opt_lower event_type \<noteq> ''autonomy_run'' then []
      else if direct \<noteq> [] then direct
      else if starts_with capability ''proposal:'' \<and> length capability > length ''proposal:''
      then drop (length ''proposal:'') capability
      else [])"

text \<open>A source of an id, with the flag that says that it is present.\<close>

type_synonym id_source = "bool option \<times> string option"

fun first_present :: "id_source list \<Rightarrow> string" where
  "first_present [] = []"
| "first_present ((present, v) # srcs) = (if unwrap_or present False then opt_str v else first_present srcs)"

definition compute_run_event_objective_id ::
  "id_source \<Rightarrow> id_source \<Rightarrow> id_source \<Rightarrow> id_source \<Rightarrow> string" where
  "compute_run_event_objective_id directive_pulse objective_id objective_binding top_escalation =
     sanitize_directive_objective_id
       (first_present [directive_pulse, objective_id, objective_binding, top_escalation])"

definition compute_run_event_proposal_id :: "id_source \<Rightarrow> id_source \<Rightarrow> id_source \<Rightarrow> string" where
  "compute_run_event_proposal_id proposal_id selected_proposal_id top_escalation =
     normalize_spaces (first_present [proposal_id, selected_proposal_id, top_escalation])"

record anchor_input =
  an_proposal_id :: "string option"
  an_objective_id :: "string option"
  an_objective_binding_present :: "bool option"
  an_objective_binding_pass :: "bool option"
  an_objective_binding_required :: "bool option"
  an_objective_binding_source :: "string option"
  an_objective_binding_valid :: "bool option"

record anchor_binding =
  ab_pass :: bool
  ab_required :: bool
  ab_objective_id :: string
  ab_source :: string
  ab_valid :: bool

record anchor_output =
  ao_proposal_id :: "string option"
  ao_objective_id :: "string option"
  ao_objective_binding :: "anchor_binding option"

definition compute_repeat_gate_anchor :: "anchor_input \<Rightarrow> anchor_output" where
  "compute_repeat_gate_anchor i =
     (let proposal_id = normalize_spaces (opt_str (an_proposal_id i));
          objective_id = normalize_spaces (opt_str (an_objective_id i));
          source_raw = normalize_spaces (opt_str (an_objective_binding_source i))
      in \<lparr> ao_proposal_id = some_text proposal_id, ao_objective_id = some_text objective_id,
           ao_objective_binding =
             (if unwrap_or (an_objective_binding_present i) False \<and> objective_id \<noteq> []
              then Some \<lparr> ab_pass = unwrap_or (an_objective_binding_pass i) True,
                          ab_required = unwrap_or (an_objective_binding_required i) False,
                          ab_objective_id = objective_id,
                          ab_source = (if source_raw = [] then ''repeat_gate_anchor'' else source_raw),
                          ab_valid = unwrap_or (an_objective_binding_valid i) True \<rparr>
              else None) \<rparr>)"

record history_match_input =
  hm_event_type :: "string option"
  hm_event_capability_key :: "string option"
  hm_event_proposal_type :: "string option"
  hm_proposal_type :: "string option"
  hm_capability_key :: "string option"

definition compute_execute_confidence_history_match :: "history_match_input \<Rightarrow> bool" where
  "compute_execute_confidence_history_match i =
     (let capability_key = opt_lower (hm_capability_key i);
          event_capability_key = opt_lower (hm_event_capability_key i);
          proposal_type = opt_lower (hm_proposal_type i);
          event_proposal_type = opt_lower (hm_event_proposal_type i)
      in if opt_lower (hm_event_type i) \<noteq> ''autonomy_run'' then False
         else if capability_key \<noteq> [] \<and> event_capability_key \<noteq> [] then event_capability_key = capability_key
         else if proposal_type \<noteq> [] \<and> event_proposal_type \<noteq> [] then event_proposal_type = proposal_type
         else False)"

section \<open>Repeated holds\<close>

definition non_negative_number :: "f64 option \<Rightarrow> f64 option" where
  "non_negative_number v =
     (case v of Some n \<Rightarrow> if is_finite n \<and> f64_le (Fin 0) n then Some n else None | None \<Rightarrow> None)"

record pressure_event = hold_event +
  pr_ts_ms :: "f64 option"

definition before_cutoff :: "f64 \<Rightarrow> f64 option \<Rightarrow> bool" where
  "before_cutoff cutoff_ms ts_ms =
     (case non_negative_number ts_ms of Some t \<Rightarrow> f64_lt t cutoff_ms | None \<Rightarrow> False)"

text \<open>The loop of \<^verbatim>\<open>compute_policy_hold_pressure\<close>: samples and holds inside the window.\<close>

definition pressure_step :: "f64 \<Rightarrow> 'a pressure_event_scheme \<Rightarrow> u32 \<times> u32 \<Rightarrow> u32 \<times> u32" where
  "pressure_step cutoff_ms e st =
     (let (attempts, policy_holds) = st; result = opt_trim (re_result e) in
      if \<not> is_run e then st
      else if result = [] \<or> result = ''lock_busy'' \<or> result = ''stop_repeat_gate_interval'' then st
      else if before_cutoff cutoff_ms (pr_ts_ms e) then st
      else (attempts + 1,
            if unwrap_or (re_policy_hold e) False \<or> is_policy_hold_result result
            then policy_holds + 1 else policy_holds))"

definition policy_hold_samples :: "f64 \<Rightarrow> 'a pressure_event_scheme list \<Rightarrow> u32 \<times> u32" where
  "policy_hold_samples cutoff_ms events = fold (pressure_step cutoff_ms) events (0, 0)"

record pattern_event = run_event +
  pt_objective_id :: "string option"
  pt_hold_reason :: "string option"
  pt_route_block_reason :: "string option"
  pt_policy_hold :: "bool option"
  pt_ts_ms :: "f64 option"

definition policy_hold_reason_from_event_input :: "'a pattern_event_scheme \<Rightarrow> string" where
  "policy_hold_reason_from_event_input e =
     (let explicit = to_ascii_lowercase (normalize_spaces
            (opt_str (opt_or (pt_hold_reason e) (pt_route_block_reason e))))
      in if explicit \<noteq> [] then explicit
         else to_ascii_lowercase (normalize_spaces (opt_str (re_result e))))"

definition pattern_relevant :: "f64 \<Rightarrow> string \<Rightarrow> 'a pattern_event_scheme \<Rightarrow> bool" where
  "pattern_relevant cutoff_ms objective_id e =
     (if \<not> is_run e then False
      else if objective_id = [] \<or> normalize_spaces (opt_str (pt_objective_id e)) \<noteq> objective_id then False
      else if \<not> unwrap_or (pt_policy_hold e) False \<and> \<not> is_policy_hold_result (opt_trim (re_result e)) then False
      else \<not> before_cutoff cutoff_ms (pt_ts_ms e))"

definition pattern_key :: "'a pattern_event_scheme \<Rightarrow> string" where
  "pattern_key e = (let reason = policy_hold_reason_from_event_input e in
     if reason = [] then ''policy_hold_unknown'' else reason)"

fun pattern_loop :: "f64 \<Rightarrow> string \<Rightarrow> u32 \<Rightarrow> (string \<times> u32) list \<Rightarrow> 'a pattern_event_scheme list \<Rightarrow>
    u32 \<times> (string \<times> u32) list" where
  "pattern_loop cutoff_ms objective_id holds by_reason [] = (holds, by_reason)"
| "pattern_loop cutoff_ms objective_id holds by_reason (e # es) =
     (if \<not> pattern_relevant cutoff_ms objective_id e then pattern_loop cutoff_ms objective_id holds by_reason es
      else pattern_loop cutoff_ms objective_id (holds + 1)
             (bt_insert (pattern_key e) (unwrap_or (bt_get by_reason (pattern_key e)) 0 + 1) by_reason) es)"

fun top_loop :: "string option \<Rightarrow> u32 \<Rightarrow> (string \<times> u32) list \<Rightarrow> string option \<times> u32" where
  "top_loop top_reason top_count [] = (top_reason, top_count)"
| "top_loop top_reason top_count ((reason, c) # rest) =
     (if c > top_count then top_loop (Some reason) c rest else top_loop top_reason top_count rest)"

record hold_pattern =
  hp_objective_id :: "string option"
  hp_total_holds :: u32
  hp_top_reason :: "string option"
  hp_top_count :: u32
  hp_by_reason :: "(string \<times> u32) list"
  hp_should_dampen :: bool

definition compute_policy_hold_pattern ::
  "f64 \<Rightarrow> string option \<Rightarrow> f64 option \<Rightarrow> 'a pattern_event_scheme list \<Rightarrow> hold_pattern" where
  "compute_policy_hold_pattern cutoff_ms objective_id0 repeat_threshold0 events =
     (let objective_id = normalize_spaces (opt_str objective_id0);
          repeat_threshold = f64_max (unwrap_or repeat_threshold0 (Fin 2)) (Fin 2);
          (total_holds, by_reason) = pattern_loop cutoff_ms objective_id 0 [] events;
          (top_reason, top_count) = top_loop None 0 by_reason
      in \<lparr> hp_objective_id = some_text objective_id, hp_total_holds = total_holds, hp_top_reason = top_reason,
           hp_top_count = top_count, hp_by_reason = by_reason,
           hp_should_dampen = f64_le repeat_threshold (Fin (of_int (uint top_count))) \<rparr>)"

record latest_event = hold_event +
  le_ts_ms :: "f64 option"
  le_ts :: "string option"
  le_hold_reason :: "string option"
  le_route_block_reason :: "string option"

record latest_hold =
  lh_found :: bool
  lh_event_index :: "u32 option"
  lh_result :: "string option"
  lh_ts :: "string option"
  lh_ts_ms :: "f64 option"
  lh_hold_reason :: "string option"
  lh_route_block_reason :: "string option"

definition nonblank :: "string option \<Rightarrow> string option" where
  "nonblank v = (case v of None \<Rightarrow> None | Some s \<Rightarrow> if trim s = [] then None else Some (trim s))"

definition policy_hold_reason_from_latest_entry :: "'a latest_event_scheme \<Rightarrow> string option" where
  "policy_hold_reason_from_latest_entry e =
     (let hold_reason = nonblank (le_hold_reason e) in
      if hold_reason \<noteq> None then hold_reason else nonblank (le_route_block_reason e))"

text \<open>The loop over the reversed enumeration; \<open>n\<close> events are still to come.\<close>

fun latest_hold_loop :: "nat \<Rightarrow> 'a latest_event_scheme list \<Rightarrow> latest_hold" where
  "latest_hold_loop n [] =
     \<lparr> lh_found = False, lh_event_index = None, lh_result = None, lh_ts = None, lh_ts_ms = None,
       lh_hold_reason = None, lh_route_block_reason = None \<rparr>"
| "latest_hold_loop n (e # es) =
     (if \<not> is_run e then latest_hold_loop (n - 1) es
      else if \<not> unwrap_or (re_policy_hold e) False \<and> \<not> is_policy_hold_result (opt_trim (re_result e))
      then latest_hold_loop (n - 1) es
      else \<lparr> lh_found = True, lh_event_index = Some (of_nat (n - 1)), lh_result = re_result e,
             lh_ts = (case le_ts e of None \<Rightarrow> None | Some s \<Rightarrow> if trim s = [] then None else Some s),
             lh_ts_ms = non_negative_number (le_ts_ms e),
             lh_hold_reason = policy_hold_reason_from_latest_entry e,
             lh_route_block_reason = nonblank (le_route_block_reason e) \<rparr>)"

definition compute_policy_hold_latest_event :: "'a latest_event_scheme list \<Rightarrow> latest_hold" where
  "compute_policy_hold_latest_event events = latest_hold_loop (length events) (rev events)"

section \<open>Batch size\<close>

text \<open>The batch is never empty and never above the configured maximum (a maximum of zero counts as one); it is
  one while the gate is disabled or blocked, and otherwise at most what the day has left, if that is not
  zero. The sum \<^verbatim>\<open>current_cells + 1\<close> may wrap, which only makes the batch smaller.\<close>

lemma batch_max_bounded:
  "1 \<le> bo_max (compute_batch_max i) \<and> bo_max (compute_batch_max i) \<le> max (bm_max_batch i) 1 \<and>
   (bm_enabled i \<and> \<not> bm_budget_blocked i \<and> \<not> bm_trit_shadow_blocked i \<or> bo_max (compute_batch_max i) = 1) \<and>
   (case bm_daily_remaining i of
      None \<Rightarrow> True
    | Some remaining \<Rightarrow> bo_max (compute_batch_max i) \<le> max remaining 1)"
proof -
  have le1: "1 \<le> max x (1 :: u32)" for x by simp
  show ?thesis
    by (auto simp: compute_batch_max_def Let_def le1 min.coboundedI1 split: option.splits)
      (auto simp: max_def min_def not_less not_le split: if_splits)
qed

section \<open>Holding a route\<close>

lemma first_text_nonempty:
  "first_text vs \<noteq> [] \<longleftrightarrow> list_ex (\<lambda>v. normalize_spaces (opt_str v) \<noteq> []) vs"
  by (induction vs rule: first_text.induct) (auto simp: Let_def)

text \<open>A route is held exactly when its target is the route and either the budget blocks it, by a flag or by
  what the reasons say, or a manual decision is pending and nothing made it executable; every hold carries
  its reason, the same one for the hold and for the route.\<close>

lemma policy_hold_exact:
  "(po_hold (compute_policy_hold i) \<longleftrightarrow>
      to_ascii_lowercase (trim (ph_target i)) = ''route'' \<and>
      (ph_budget_blocked_flag i \<or> ph_budget_global_blocked i \<or> ph_budget_enforcement_blocked i \<or>
       budget_signal (to_ascii_lowercase (normalize_spaces
         (normalize_spaces (ph_budget_reason i) @ '' '' @ normalize_spaces (ph_route_reason i)))) \<or>
       \<not> ph_executable i \<and> (ph_needs_manual_review i \<or> to_ascii_uppercase (trim (ph_gate_decision i)) = ''MANUAL'' \<or>
         to_ascii_uppercase (trim (ph_route_decision i)) = ''MANUAL''))) \<and>
   (if po_hold (compute_policy_hold i)
    then po_hold_reason (compute_policy_hold i) \<notin> {None, Some []} \<and>
      po_route_block_reason (compute_policy_hold i) = po_hold_reason (compute_policy_hold i) \<and>
      po_hold_scope (compute_policy_hold i) \<in> {Some ''budget'', Some ''proposal''}
    else compute_policy_hold i = no_hold)"
  by (auto simp: compute_policy_hold_def no_hold_def Let_def trim_def trim_start_def)

text \<open>A blocked budget holds the route whatever else the summary says, also when the target is missing.\<close>

lemma route_hold_budget:
  assumes "to_ascii_lowercase (normalize_spaces (unwrap_or (rh_target i) ''route'')) = ''route''"
    and "Some True \<in> {rh_budget_blocked i, rh_budget_global_blocked i, rh_budget_enforcement_blocked i}"
  shows "po_hold (compute_route_execution_policy_hold i) \<and>
    po_hold_scope (compute_route_execution_policy_hold i) = Some ''budget''"
proof -
  have "to_ascii_lowercase (trim ''route'') = ''route''" by code_simp
  moreover from assms(2) have "unwrap_or (rh_budget_blocked i) False \<or> unwrap_or (rh_budget_global_blocked i) False \<or>
      unwrap_or (rh_budget_enforcement_blocked i) False"
    by (auto simp: unwrap_or_def eq_commute [of "Some True"])
  ultimately show ?thesis
    using assms(1) by (auto simp: compute_route_execution_policy_hold_def compute_policy_hold_def Let_def)
qed

section \<open>Mutations\<close>

lemma push_new_Nil: "push_new [] vs = [] \<longleftrightarrow> (\<forall>v \<in> set vs. v = [])"
proof -
  have "push_new [] vs = [] \<longleftrightarrow> set (push_new [] vs) = {}" by simp
  then show ?thesis using push_new_facts [of "[]" vs] by auto
qed

text \<open>A mutation passes its guard exactly when no guard is required, the guard does not apply, or the guard's
  metadata is there, the guard itself passed, attestation, rollback receipt and guard receipt are not
  blank, and the mutation kernel, where it applies, passed. A mutation that does not pass names a reason.\<close>

lemma mutation_guard_exact:
  "(mo_pass (compute_adaptive_mutation_execution_guard i) \<longleftrightarrow>
      (if mg_guard_required i \<and> mg_applies i
       then mg_metadata_applies i \<and> mg_guard_pass i \<and>
         normalize_spaces (opt_str (mg_safety_attestation i)) \<noteq> [] \<and>
         normalize_spaces (opt_str (mg_rollback_receipt i)) \<noteq> [] \<and>
         normalize_spaces (opt_str (mg_guard_receipt_id i)) \<noteq> [] \<and>
         (if mg_mutation_kernel_applies i then mg_mutation_kernel_pass i else True)
       else True)) \<and>
   (mo_pass (compute_adaptive_mutation_execution_guard i) \<longleftrightarrow>
      mo_reason (compute_adaptive_mutation_execution_guard i) = None) \<and>
   distinct (mo_reasons (compute_adaptive_mutation_execution_guard i))"
proof -
  have d: "distinct (push_new [] rs)" for rs using push_new_facts by blast
  have "push_new [] (mutation_guard_reasons i) = [] \<longleftrightarrow> mutation_guard_reasons i = []"
    by (auto simp: push_new_Nil mutation_guard_reasons_def Let_def)
  moreover have "mutation_guard_reasons i = [] \<longleftrightarrow>
      mg_metadata_applies i \<and> mg_guard_pass i \<and>
      normalize_spaces (opt_str (mg_safety_attestation i)) \<noteq> [] \<and>
      normalize_spaces (opt_str (mg_rollback_receipt i)) \<noteq> [] \<and>
      normalize_spaces (opt_str (mg_guard_receipt_id i)) \<noteq> [] \<and>
      (mg_mutation_kernel_pass i \<or> \<not> mg_mutation_kernel_applies i)"
    by (auto simp: mutation_guard_reasons_def Let_def)
  ultimately show ?thesis
    by (auto simp: compute_adaptive_mutation_execution_guard_def Let_def d split: list.splits)
qed

section \<open>Repeated holds\<close>

abbreviation holds_with :: "f64 \<Rightarrow> string \<Rightarrow> string \<Rightarrow> 'a pattern_event_scheme list \<Rightarrow> nat" where
  "holds_with cutoff oid k es \<equiv> length (filter (\<lambda>e. pattern_relevant cutoff oid e \<and> pattern_key e = k) es)"

lemma pattern_loop_facts:
  fixes m :: "(string \<times> u32) list"
  shows "fst (pattern_loop cutoff oid n m es) = n + of_nat (length (filter (pattern_relevant cutoff oid) es)) \<and>
    bt_get (snd (pattern_loop cutoff oid n m es)) k =
      (if holds_with cutoff oid k es = 0 then bt_get m k
       else Some (unwrap_or (bt_get m k) 0 + of_nat (holds_with cutoff oid k es)))"
proof (induction cutoff oid n m es rule: pattern_loop.induct)
  case (2 cutoff oid n m e es)
  show ?case
  proof (cases "pattern_relevant cutoff oid e")
    case True
    then show ?thesis using 2(2) by (auto simp: bt_get_insert unwrap_or_def)
  next
    case False
    then show ?thesis using 2(1) by simp
  qed
qed simp

lemma pattern_loop_wf: "bt_wf m \<Longrightarrow> bt_wf (snd (pattern_loop cutoff oid n m es))"
  by (induction cutoff oid n m es rule: pattern_loop.induct) (simp_all add: bt_wf_insert)

lemma top_loop_facts:
  "n \<le> snd (top_loop r n rows) \<and> (\<forall>(k, c) \<in> set rows. c \<le> snd (top_loop r n rows)) \<and>
   (top_loop r n rows = (r, n) \<or>
    (\<exists>k. fst (top_loop r n rows) = Some k \<and> (k, snd (top_loop r n rows)) \<in> set rows))"
proof (induction r n rows rule: top_loop.induct)
  case (2 r n k c rows)
  then show ?case by (cases "n < c") (auto simp: not_less)
qed simp

lemma bt_get_in: "bt_get m k = Some v \<Longrightarrow> (k, v) \<in> set m"
  by (metis bt_get_map_of map_of_SomeD)

text \<open>Repeated holds of an objective. In a log of fewer than $2^{32}$ events, the pattern counts the holds of
  the objective inside the window, the top reason is one with the most holds and its count is that number,
  and damping is advised exactly when some reason was given at least as often as the threshold says, which
  is never below two.\<close>

lemma hold_pattern_exact:
  fixes events :: "'a pattern_event_scheme list"
  assumes "length events < 2 ^ 32"
  shows "let p = compute_policy_hold_pattern cutoff oid thr events;
      n = (\<lambda>k. holds_with cutoff (normalize_spaces (opt_str oid)) k events)
    in unat (hp_total_holds p) =
        length (filter (pattern_relevant cutoff (normalize_spaces (opt_str oid))) events) \<and>
      (\<forall>k. n k \<le> unat (hp_top_count p)) \<and>
      (case hp_top_reason p of None \<Rightarrow> hp_top_count p = 0 | Some k \<Rightarrow> n k = unat (hp_top_count p)) \<and>
      (hp_should_dampen p \<longleftrightarrow>
         (\<exists>k. f64_le (f64_max (unwrap_or thr (Fin 2)) (Fin 2)) (Fin (of_nat (n k)))))"
proof -
  let ?o = "normalize_spaces (opt_str oid)" and ?t = "f64_max (unwrap_or thr (Fin 2)) (Fin 2)"
  define p where "p = compute_policy_hold_pattern cutoff oid thr events"
  define n where "n = (\<lambda>k. holds_with cutoff ?o k events)"
  define m where "m = snd (pattern_loop cutoff ?o 0 ([] :: (string \<times> u32) list) events)"
  define top where "top = top_loop None 0 m"
  have small: "n k < 2 ^ 32" for k
    using assms(1) length_filter_le le_less_trans unfolding n_def by blast
  have get: "bt_get m k = (if n k = 0 then None else Some (of_nat (n k)))" for k
    using pattern_loop_facts [of cutoff ?o 0 "[]" events k] by (simp add: m_def n_def unwrap_or_def)
  have rows: "(k, c) \<in> set m \<Longrightarrow> c = of_nat (n k) \<and> 0 < n k" for k c
  proof -
    assume "(k, c) \<in> set m"
    moreover have "bt_wf m" unfolding m_def by (rule pattern_loop_wf) simp
    ultimately have "bt_get m k = Some c"
      by (metis bt_get_map_of distinct_bt_keys bt_keys_def map_of_eq_Some_iff)
    then show ?thesis using get [of k] by (simp split: if_splits)
  qed
  have le: "n k \<le> unat (snd top)" for k
  proof (cases "n k = 0")
    case False
    then have "(k, of_nat (n k)) \<in> set m" using get [of k] by (simp add: bt_get_in)
    then have "of_nat (n k) \<le> snd top" using top_loop_facts [of 0 None m] by (auto simp: top_def)
    then show ?thesis using small [of k] by (simp add: word_le_nat_alt unat_of_nat)
  qed simp
  have hit: "case fst top of None \<Rightarrow> snd top = 0 | Some k \<Rightarrow> n k = unat (snd top)"
  proof (cases "top = (None, 0)")
    case False
    then obtain k where k: "fst top = Some k" "(k, snd top) \<in> set m"
      using top_loop_facts [of 0 None m] by (auto simp: top_def)
    then show ?thesis using rows [OF k(2)] small [of k] by (simp add: unat_of_nat)
  qed simp
  have p: "hp_total_holds p = of_nat (length (filter (pattern_relevant cutoff ?o) events))"
    "hp_top_reason p = fst top" "hp_top_count p = snd top"
    "hp_should_dampen p = f64_le ?t (Fin (of_nat (unat (snd top))))"
    using pattern_loop_facts [of cutoff ?o 0 "[]" events]
    by (simp_all add: p_def compute_policy_hold_pattern_def top_def m_def Let_def split_beta)
  have mono: "f64_le t (Fin a) \<Longrightarrow> a \<le> b \<Longrightarrow> f64_le t (Fin b)" for t a b
    by (cases t) (auto simp: f64_le_def f64_eq_def)
  have "hp_should_dampen p \<longleftrightarrow> (\<exists>k. f64_le ?t (Fin (of_nat (n k))))"
  proof
    assume d: "hp_should_dampen p"
    show "\<exists>k. f64_le ?t (Fin (of_nat (n k)))"
    proof (cases "fst top")
      case None
      then have "f64_le ?t (Fin 0)" using d hit by (simp add: p)
      then show ?thesis using mono [of ?t 0 "of_nat (n [])"] by auto
    next
      case (Some k)
      then show ?thesis using d hit by (auto simp: p intro!: exI [of _ k])
    qed
  next
    assume "\<exists>k. f64_le ?t (Fin (of_nat (n k)))"
    then show "hp_should_dampen p" unfolding p using le mono by (metis of_nat_mono)
  qed
  moreover have "unat (hp_total_holds p) = length (filter (pattern_relevant cutoff ?o) events)"
  proof -
    have "length (filter (pattern_relevant cutoff ?o) events) < 2 ^ 32"
      using assms(1) le_less_trans [OF length_filter_le] by blast
    then show ?thesis unfolding p by (simp add: unat_of_nat)
  qed
  ultimately show ?thesis
    using le hit unfolding Let_def p_def [symmetric] n_def [symmetric] p by (intro conjI allI) simp_all
qed

definition sample_hold_log :: "pattern_event list" where
  "sample_hold_log = replicate 3
     \<lparr> re_event_type = Some ''autonomy_run'', re_result = Some ''stop_init_gate_readiness'',
       pt_objective_id = Some ''T1_ship'', pt_hold_reason = Some ''Budget  low'', pt_route_block_reason = None,
       pt_policy_hold = Some True, pt_ts_ms = Some (Fin 5) \<rparr>"

lemma hold_pattern_exact_witness:
  "hp_should_dampen (compute_policy_hold_pattern (Fin 0) (Some ''T1_ship'') (Some (Fin 3)) sample_hold_log)"
proof -
  have len: "length sample_hold_log < 2 ^ 32" by (simp add: sample_hold_log_def)
  have "holds_with (Fin 0) (normalize_spaces (opt_str (Some ''T1_ship''))) ''budget low'' sample_hold_log = 3"
    by code_simp
  then have "\<exists>k. f64_le (f64_max (unwrap_or (Some (Fin 3)) (Fin 2)) (Fin 2))
      (Fin (of_nat (holds_with (Fin 0) (normalize_spaces (opt_str (Some ''T1_ship''))) k sample_hold_log)))"
    by (intro exI [of _ "''budget low''"]) (simp add: unwrap_or_def)
  then show ?thesis
    using hold_pattern_exact [OF len, of "Fin 0" "Some ''T1_ship''" "Some (Fin 3)"] by (simp add: Let_def)
qed

text \<open>The latest hold is at the last position of a run event on hold.\<close>

lemma latest_hold_loop_found:
  "length es \<le> n \<Longrightarrow>
   (case find (\<lambda>i. compute_policy_hold_run_event (es ! i)) [0..<length es] of
      None \<Rightarrow> \<not> lh_found (latest_hold_loop n es)
    | Some i \<Rightarrow> lh_found (latest_hold_loop n es) \<and>
        lh_event_index (latest_hold_loop n es) = Some (of_nat (n - 1 - i)) \<and>
        lh_result (latest_hold_loop n es) = re_result (es ! i))"
proof (induction es arbitrary: n)
  case (Cons e es)
  have up: "[0..<length (e # es)] = 0 # map Suc [0..<length es]"
    by (simp add: map_Suc_upt upt_conv_Cons del: upt_Suc)
  have shift: "find p (map Suc xs) = map_option Suc (find (\<lambda>i. p (Suc i)) xs)" for p xs
    by (induction xs) auto
  show ?case
  proof (cases "compute_policy_hold_run_event e")
    case True
    then show ?thesis unfolding up by (auto simp: compute_policy_hold_run_event_def)
  next
    case False
    then have "latest_hold_loop n (e # es) = latest_hold_loop (n - 1) es"
      by (auto simp: compute_policy_hold_run_event_def)
    moreover have "n - 1 - Suc i = n - 1 - 1 - i" for i by simp
    moreover have "length es \<le> n - 1" using Cons.prems by simp
    note Cons.IH [OF this]
    ultimately show ?thesis using False unfolding up by (simp add: shift split: option.splits)
  qed
qed simp

section \<open>Divergences\<close>

text \<open>A blank hold reason hides the reason of the route in one of the two functions that name a hold.\<close>

lemma hold_reasons_disagree:
  "compute_policy_hold_reason_from_event (Some '' '') (Some ''Route down'') (Some ''r'') = ''route down'' \<and>
   policy_hold_reason_from_event_input
     \<lparr> re_event_type = None, re_result = Some ''r'', pt_objective_id = None, pt_hold_reason = Some '' '',
       pt_route_block_reason = Some ''Route down'', pt_policy_hold = None, pt_ts_ms = None \<rparr> = ''r''"
  by code_simp

text \<open>A mode that is not known, with a fallback that is not known either, executes.\<close>

lemma unknown_mode_executes:
  "compute_strategy_execution_mode_effective (Some ''dry_run'') (Some ''off'') = ''execute''"
  by code_simp

text \<open>Scores that are not numbers pass the gate for medium risk.\<close>

lemma nan_scores_pass_medium_gate:
  "mgo_pass (compute_medium_risk_gate_decision \<lparr> mgi_risk = Some ''medium'', mgi_composite_score = NaN,
     mgi_directive_fit_score = NaN, mgi_actionability_score = NaN, mgi_composite_min = c,
     mgi_directive_fit_min = d, mgi_actionability_min = a \<rparr>)"
proof -
  have "opt_lower (Some ''medium'') = ''medium''" by code_simp
  then show ?thesis by (simp add: compute_medium_risk_gate_decision_def)
qed

end
