(* ===== verification/Proposal_Overlay.thy ===== *)
theory Proposal_Overlay
  imports Policy_Holds
begin

text \<open>
  The ledger of proposals in \<^verbatim>\<open>core/layer2/execution/src/autoscale.rs\<close>: the overlay of decisions and outcomes
  built from an event log, the summary of admissions, the index of proposal metadata, the verdict on a
  receipt, and the slices of the logs. The overlay keeps a vector of ids and a hash map; the state of the
  loop is the pair of both.
\<close>

section \<open>Overlay\<close>

record overlay_event =
  oe_proposal_id :: "string option"
  oe_event_type :: "string option"
  oe_decision :: "string option"
  oe_ts :: "string option"
  oe_reason :: "string option"
  oe_outcome :: "string option"
  oe_evidence_ref :: "string option"

record outcome_counts =
  oc_shipped :: u32
  oc_reverted :: u32
  oc_no_change :: u32

record overlay_entry =
  ov_proposal_id :: string
  ov_decision :: "string option"
  ov_decision_ts :: "string option"
  ov_decision_reason :: "string option"
  ov_last_outcome :: "string option"
  ov_last_outcome_ts :: "string option"
  ov_last_evidence_ref :: "string option"
  ov_outcomes :: outcome_counts

definition overlay_new :: "string \<Rightarrow> overlay_entry" where
  "overlay_new proposal_id =
     \<lparr> ov_proposal_id = proposal_id, ov_decision = None, ov_decision_ts = None, ov_decision_reason = None,
       ov_last_outcome = None, ov_last_outcome_ts = None, ov_last_evidence_ref = None,
       ov_outcomes = \<lparr> oc_shipped = 0, oc_reverted = 0, oc_no_change = 0 \<rparr> \<rparr>"

definition event_text :: "string option \<Rightarrow> string" where
  "event_text v = normalize_spaces (opt_str v)"

definition is_newer :: "string \<Rightarrow> string option \<Rightarrow> bool" where
  "is_newer ts row = (case row of Some r \<Rightarrow> r \<le> ts | None \<Rightarrow> True)"

definition apply_decision :: "overlay_event \<Rightarrow> overlay_entry \<Rightarrow> overlay_entry" where
  "apply_decision e cur =
     (let ts = event_text (oe_ts e); decision = event_text (oe_decision e) in
      if decision \<noteq> [] \<and> is_newer ts (ov_decision_ts cur)
      then cur\<lparr> ov_decision := Some decision, ov_decision_ts := some_text ts,
                ov_decision_reason := some_text (event_text (oe_reason e)) \<rparr>
      else cur)"

definition count_outcome :: "string \<Rightarrow> outcome_counts \<Rightarrow> outcome_counts" where
  "count_outcome outcome c =
     (if outcome = ''shipped'' then c\<lparr> oc_shipped := oc_shipped c + 1 \<rparr>
      else if outcome = ''reverted'' then c\<lparr> oc_reverted := oc_reverted c + 1 \<rparr>
      else if outcome = ''no_change'' then c\<lparr> oc_no_change := oc_no_change c + 1 \<rparr>
      else c)"

definition apply_outcome :: "overlay_event \<Rightarrow> overlay_entry \<Rightarrow> overlay_entry" where
  "apply_outcome e cur0 =
     (let ts = event_text (oe_ts e);
          outcome = event_text (oe_outcome e);
          cur = cur0\<lparr> ov_outcomes := count_outcome outcome (ov_outcomes cur0) \<rparr>
      in if outcome \<noteq> [] \<and> is_newer ts (ov_last_outcome_ts cur)
         then cur\<lparr> ov_last_outcome := Some outcome, ov_last_outcome_ts := some_text ts,
                   ov_last_evidence_ref := some_text (event_text (oe_evidence_ref e)) \<rparr>
         else cur)"

definition apply_event :: "overlay_event \<Rightarrow> overlay_entry \<Rightarrow> overlay_entry" where
  "apply_event e cur =
     (let event_type = event_text (oe_event_type e) in
      if event_type = ''decision'' then apply_decision e cur
      else if event_type = ''outcome'' then apply_outcome e cur
      else cur)"

definition overlay_step ::
  "overlay_event \<Rightarrow> string list \<times> (string \<times> overlay_entry) list \<Rightarrow> string list \<times> (string \<times> overlay_entry) list" where
  "overlay_step e st =
     (let (order0, map0) = st; proposal_id = event_text (oe_proposal_id e) in
      if proposal_id = [] then st
      else let (order, m) = (if \<not> bt_contains_key map0 proposal_id
                 then (order0 @ [proposal_id], bt_insert proposal_id (overlay_new proposal_id) map0)
                 else (order0, map0))
        in (case bt_get m proposal_id of
              None \<Rightarrow> (order, m)
            | Some cur \<Rightarrow> (order, bt_insert proposal_id (apply_event e cur) m)))"

fun take_entries :: "string list \<Rightarrow> (string \<times> overlay_entry) list \<Rightarrow> overlay_entry list" where
  "take_entries [] m = []"
| "take_entries (i # is) m =
     (case bt_get m i of
        Some x \<Rightarrow> x # take_entries is (bt_remove i m)
      | None \<Rightarrow> take_entries is m)"

definition compute_build_overlay :: "overlay_event list \<Rightarrow> overlay_entry list" where
  "compute_build_overlay events =
     (let (order, m) = fold overlay_step events ([], []) in take_entries order m)"

section \<open>Admissions, metadata, receipts\<close>

record admission_row =
  ar_preview_eligible :: "bool option"
  ar_blocked_by :: "string list"

record admission_summary =
  as_total :: u32
  as_eligible :: u32
  as_blocked :: u32
  as_blocked_by_reason :: "(string \<times> u32) list"

definition bump_reason :: "string \<Rightarrow> (string \<times> u32) list \<Rightarrow> (string \<times> u32) list" where
  "bump_reason k m = bt_insert k (unwrap_or (bt_get m k) 0 + 1) m"

definition admission_step :: "admission_row \<Rightarrow> u32 \<times> u32 \<times> (string \<times> u32) list \<Rightarrow> u32 \<times> u32 \<times> (string \<times> u32) list" where
  "admission_step row st =
     (let (eligible, blocked, by_reason) = st in
      if unwrap_or (ar_preview_eligible row) True then (saturating_add eligible 1, blocked, by_reason)
      else if ar_blocked_by row = [] then (eligible, saturating_add blocked 1, bump_reason ''unknown'' by_reason)
      else (eligible, saturating_add blocked 1,
            fold (\<lambda>reason. bump_reason (let key = normalize_spaces reason in if key = [] then ''unknown'' else key))
              (ar_blocked_by row) by_reason))"

definition compute_admission_summary :: "admission_row list \<Rightarrow> admission_summary" where
  "compute_admission_summary proposals =
     (let (eligible, blocked, by_reason) = fold admission_step proposals (0, 0, [])
      in \<lparr> as_total = of_nat (length proposals), as_eligible = eligible, as_blocked = blocked,
           as_blocked_by_reason = by_reason \<rparr>)"

record meta_row =
  mr_proposal_id :: "string option"
  mr_eye_id :: "string option"
  mr_topics :: "string list"

record meta_entry =
  me_proposal_id :: string
  me_eye_id :: string
  me_topics :: "string list"

fun meta_loop :: "string list \<Rightarrow> meta_row list \<Rightarrow> meta_entry list" where
  "meta_loop seen [] = []"
| "meta_loop seen (row # rows) =
     (let proposal_id = opt_trim (mr_proposal_id row) in
      if proposal_id = [] \<or> proposal_id \<in> set seen then meta_loop seen rows
      else \<lparr> me_proposal_id = proposal_id, me_eye_id = opt_trim (mr_eye_id row),
             me_topics = lowered_rows (mr_topics row) \<rparr> # meta_loop (proposal_id # seen) rows)"

definition compute_proposal_meta_index :: "meta_row list \<Rightarrow> meta_entry list" where
  "compute_proposal_meta_index entries = meta_loop [] entries"

record verdict_input =
  vi_decision :: string
  vi_exec_ok :: bool
  vi_postconditions_ok :: bool
  vi_dod_passed :: bool
  vi_success_criteria_required :: bool
  vi_success_criteria_passed :: bool
  vi_queue_outcome_logged :: bool
  vi_route_attestation_status :: string
  vi_route_attestation_expected_model :: string
  vi_success_criteria_primary_failure :: "string option"

record verdict_output =
  vo_exec_check_name :: string
  vo_checks :: "(string \<times> bool) list"
  vo_failed :: "string list"
  vo_passed :: bool
  vo_outcome :: string
  vo_primary_failure :: "string option"
  vo_route_attestation_mismatch :: bool

definition exec_check_name :: "string \<Rightarrow> string" where
  "exec_check_name decision0 =
     (let decision = to_ascii_uppercase (trim decision0) in
      if decision = ''ACTUATE'' then ''actuation_execute_ok''
      else if decision = ''DIRECTIVE_VALIDATE'' then ''directive_validate_ok''
      else if decision = ''DIRECTIVE_DECOMPOSE'' then ''directive_decompose_ok''
      else ''route_execute_ok'')"

definition check_passes :: "(string \<times> bool) list \<Rightarrow> string \<Rightarrow> bool" where
  "check_passes checks name = (case find (\<lambda>row. fst row = name) checks of Some row \<Rightarrow> snd row | None \<Rightarrow> False)"

definition receipt_mismatch :: "verdict_input \<Rightarrow> bool" where
  "receipt_mismatch i =
     (trim (vi_route_attestation_expected_model i) \<noteq> [] \<and>
      to_ascii_lowercase (trim (vi_route_attestation_status i)) = ''mismatch'')"

definition receipt_checks :: "verdict_input \<Rightarrow> (string \<times> bool) list" where
  "receipt_checks i =
     [(exec_check_name (vi_decision i), vi_exec_ok i),
      (''postconditions_ok'', vi_postconditions_ok i),
      (''dod_passed'', vi_dod_passed i),
      (''success_criteria_met'', if vi_success_criteria_required i then vi_success_criteria_passed i else True),
      (''queue_outcome_logged'', vi_queue_outcome_logged i),
      (''route_model_attested'', \<not> receipt_mismatch i)]"

definition compute_receipt_verdict :: "verdict_input \<Rightarrow> verdict_output" where
  "compute_receipt_verdict i =
     (let name = exec_check_name (vi_decision i);
          checks = receipt_checks i;
          failed = map fst (filter (\<lambda>row. \<not> snd row) checks);
          outcome = (if \<not> check_passes checks name \<or> \<not> check_passes checks ''postconditions_ok'' \<or>
                        \<not> check_passes checks ''queue_outcome_logged'' \<or> \<not> check_passes checks ''route_model_attested''
                     then ''reverted''
                     else if \<not> check_passes checks ''dod_passed'' \<or> \<not> check_passes checks ''success_criteria_met''
                     then ''no_change''
                     else ''shipped'');
          primary_failure = (case failed of
              [] \<Rightarrow> None
            | f # _ \<Rightarrow> if f = ''success_criteria_met'' \<and> opt_trim (vi_success_criteria_primary_failure i) \<noteq> []
                       then vi_success_criteria_primary_failure i else Some f)
      in \<lparr> vo_exec_check_name = name, vo_checks = checks, vo_failed = failed, vo_passed = (failed = []),
           vo_outcome = outcome, vo_primary_failure = primary_failure,
           vo_route_attestation_mismatch = receipt_mismatch i \<rparr>)"

section \<open>Logs\<close>

definition f64_trunc_i64 :: "rat \<Rightarrow> int" where
  "f64_trunc_i64 q = clamp (- (2 ^ 63)) (2 ^ 63 - 1) (if q < 0 then \<lceil>q\<rceil> else \<lfloor>q\<rfloor>)"

definition js_slice_start :: "nat \<Rightarrow> f64 option \<Rightarrow> nat" where
  "js_slice_start len raw =
     (case raw of
        Some (Fin q) \<Rightarrow>
          (let trunc = f64_trunc_i64 q in
           if trunc \<ge> 0 then min (nat trunc) len
           else let idx = int len + trunc in if idx \<le> 0 then 0 else nat idx)
      | _ \<Rightarrow> 0)"

definition compute_new_log_events ::
  "f64 option \<Rightarrow> f64 option \<Rightarrow> json list \<Rightarrow> json list \<Rightarrow> json list \<times> json list" where
  "compute_new_log_events before_run_len before_error_len after_runs after_errors =
     (drop (js_slice_start (length after_runs) before_run_len) after_runs,
      drop (js_slice_start (length after_errors) before_error_len) after_errors)"

definition json_text :: "json \<Rightarrow> string \<Rightarrow> string" where
  "json_text evt k = trim (opt_str (Option.bind (json_get evt k) as_str))"

text \<open>Reading a time stamp (crate \<^verbatim>\<open>chrono\<close>) is a parameter.\<close>

fun recent_loop :: "(string \<Rightarrow> int option) \<Rightarrow> f64 \<Rightarrow> f64 \<Rightarrow> json list \<Rightarrow> json list \<Rightarrow> json list" where
  "recent_loop parse_ts cutoff_ms cap out [] = out"
| "recent_loop parse_ts cutoff_ms cap out (evt # evts) =
     (if f64_le cap (Fin (of_nat (length out))) then out
      else if json_text evt ''type'' \<noteq> ''autonomy_run'' then recent_loop parse_ts cutoff_ms cap out evts
      else if json_text evt ''ts'' = [] then recent_loop parse_ts cutoff_ms cap out evts
      else case parse_ts (json_text evt ''ts'') of
          None \<Rightarrow> recent_loop parse_ts cutoff_ms cap out evts
        | Some ts_ms \<Rightarrow>
            if f64_lt (Fin (of_int ts_ms)) cutoff_ms then recent_loop parse_ts cutoff_ms cap out evts
            else recent_loop parse_ts cutoff_ms cap (out @ [evt]) evts)"

definition compute_recent_autonomy_run_events ::
  "(string \<Rightarrow> int option) \<Rightarrow> json list \<Rightarrow> f64 \<Rightarrow> f64 \<Rightarrow> json list" where
  "compute_recent_autonomy_run_events parse_ts events cutoff_ms0 cap0 =
     (let cutoff_ms = (if is_finite cutoff_ms0 then cutoff_ms0 else Fin 0);
          cap = f64_max (if is_finite cap0 then cap0 else Fin 800) (Fin 50)
      in recent_loop parse_ts cutoff_ms cap [] events)"

section \<open>The overlay is a fold for each proposal\<close>

abbreviation event_id :: "overlay_event \<Rightarrow> string" where
  "event_id e \<equiv> event_text (oe_proposal_id e)"

definition overlay_of :: "string \<Rightarrow> overlay_event list \<Rightarrow> overlay_entry" where
  "overlay_of i es = fold apply_event (filter (\<lambda>e. event_id e = i) es) (overlay_new i)"

lemma push_new_snoc:
  "push_new seen (vs @ [v]) =
     push_new seen vs @ (if v = [] \<or> v \<in> set seen \<or> v \<in> set vs then [] else [v])"
  by (induction seen vs rule: push_new.induct) auto

lemma overlay_fold:
  "fst (fold overlay_step es ([], [])) = push_new [] (map event_id es) \<and>
   bt_get (snd (fold overlay_step es ([], []))) i =
     (if i \<noteq> [] \<and> i \<in> event_id ` set es then Some (overlay_of i es) else None)"
proof (induction es arbitrary: i rule: rev_induct)
  case (snoc e es)
  obtain order0 m where st: "fold overlay_step es ([], []) = (order0, m)" by fastforce
  have order0: "order0 = push_new [] (map event_id es)" using snoc st by simp
  have get: "bt_get m j = (if j \<noteq> [] \<and> j \<in> event_id ` set es then Some (overlay_of j es) else None)" for j
    using snoc [of j] st by simp
  have same: "event_id e = i \<Longrightarrow> overlay_of i (es @ [e]) = apply_event e (overlay_of i es)"
    and other: "event_id e \<noteq> i \<Longrightarrow> overlay_of i (es @ [e]) = overlay_of i es"
    for i
    by (simp_all add: overlay_of_def)
  have fresh: "overlay_of i es = overlay_new i" if "i \<notin> event_id ` set es" for i
  proof -
    have "filter (\<lambda>e. event_id e = i) es = []" using that by (auto simp: filter_empty_conv)
    then show ?thesis by (simp add: overlay_of_def)
  qed
  have last: "fold overlay_step (es @ [e]) ([], []) = overlay_step e (order0, m)" by (simp add: st)
  show ?case
  proof (cases "event_id e = []")
    case True
    then have "overlay_step e (order0, m) = (order0, m)" by (simp add: overlay_step_def)
    then show ?thesis unfolding last using True order0 get [of i] other by (auto simp: push_new_snoc)
  next
    case False
    have "overlay_step e (order0, m) =
        (order0 @ (if event_id e \<in> event_id ` set es then [] else [event_id e]),
         bt_insert (event_id e) (apply_event e (overlay_of (event_id e) es))
           (if event_id e \<in> event_id ` set es then m else bt_insert (event_id e) (overlay_new (event_id e)) m))"
      using False get [of "event_id e"] fresh [of "event_id e"]
      by (simp add: overlay_step_def bt_contains_key_def bt_get_insert Let_def)
    then show ?thesis unfolding last using False order0 get [of i] same other
      by (auto simp: push_new_snoc bt_get_insert)
  qed
qed simp

lemma take_entries_map:
  assumes "distinct is" and "\<forall>i \<in> set is. bt_get m i = Some (f i)" and "bt_wf m"
  shows "take_entries is m = map f is"
  using assms
proof (induction "is" arbitrary: m)
  case (Cons i "is")
  have "\<forall>j \<in> set is. bt_get (bt_remove i m) j = Some (f j)"
    using Cons.prems by (auto simp: bt_get_remove)
  then show ?case using Cons by (simp add: bt_wf_remove)
qed simp

lemma overlay_step_wf: "bt_wf (snd st) \<Longrightarrow> bt_wf (snd (overlay_step e st))"
  by (auto simp: overlay_step_def Let_def bt_wf_insert split: prod.splits option.splits if_splits)

text \<open>C26: the overlay of an event log has one entry for each proposal that the log names, in the order of their
  first events, and the entry of a proposal is what its own events make of an empty entry, one after the
  other: the events of other proposals have no influence on it.\<close>

theorem overlay_is_fold_per_proposal:
  "compute_build_overlay events =
     map (\<lambda>i. fold apply_event (filter (\<lambda>e. event_text (oe_proposal_id e) = i) events) (overlay_new i))
       (push_new [] (map (\<lambda>e. event_text (oe_proposal_id e)) events))"
proof -
  let ?st = "fold overlay_step events ([], [])" and ?ids = "push_new [] (map event_id events)"
  have "bt_wf (snd (fold overlay_step es st))" if "bt_wf (snd st)" for es st
    using that by (induction es arbitrary: st) (simp_all add: overlay_step_wf)
  then have "bt_wf (snd ?st)" by simp
  moreover have "bt_get (snd ?st) i = Some (overlay_of i events)" if "i \<in> set ?ids" for i
    using that push_new_facts [of "[]" "map event_id events"] overlay_fold [of events i] by auto
  moreover have "distinct ?ids" using push_new_facts by blast
  ultimately have "take_entries ?ids (snd ?st) = map (\<lambda>i. overlay_of i events) ?ids"
    by (intro take_entries_map) auto
  moreover have "fst ?st = ?ids" using overlay_fold by blast
  ultimately show ?thesis
    by (simp add: compute_build_overlay_def split_beta overlay_of_def)
qed

section \<open>The latest value wins\<close>

text \<open>A state that keeps a text with its time stamp and takes a new text when its stamp is not older. A missing
  stamp is the empty text, which is older than any other. Decisions and outcomes of an entry follow this
  contract.\<close>

locale latest_wins =
  fixes step :: "'e \<Rightarrow> 's \<Rightarrow> 's" and content :: "'e \<Rightarrow> string" and ts :: "'e \<Rightarrow> string"
    and kept :: "'s \<Rightarrow> string option" and stamp :: "'s \<Rightarrow> string option"
  assumes step_take: "content e \<noteq> [] \<Longrightarrow> is_newer (ts e) (stamp s) \<Longrightarrow>
      kept (step e s) = Some (content e) \<and> stamp (step e s) = some_text (ts e)"
    and step_keep: "content e = [] \<or> \<not> is_newer (ts e) (stamp s) \<Longrightarrow>
      kept (step e s) = kept s \<and> stamp (step e s) = stamp s"
begin

lemma is_newer_some_text: "is_newer t (some_text r) \<longleftrightarrow> r \<le> t"
  by (simp add: is_newer_def)

lemma fold_latest:
  assumes "kept s = None" and "stamp s = None"
  shows "case kept (fold step es s) of
      None \<Rightarrow> filter (\<lambda>e. content e \<noteq> []) es = [] \<and> stamp (fold step es s) = None
    | Some v \<Rightarrow> (\<exists>pre d post. filter (\<lambda>e. content e \<noteq> []) es = pre @ d # post \<and> v = content d \<and>
        stamp (fold step es s) = some_text (ts d) \<and>
        list_all (\<lambda>y. ts y \<le> ts d) pre \<and> list_all (\<lambda>y. ts y < ts d) post)"
proof (induction es rule: rev_induct)
  case (snoc e es)
  let ?s = "fold step es s"
  have last: "fold step (es @ [e]) s = step e ?s" by simp
  show ?case
  proof (cases "content e \<noteq> [] \<and> is_newer (ts e) (stamp ?s)")
    case False
    then have keep: "kept (step e ?s) = kept ?s" "stamp (step e ?s) = stamp ?s" using step_keep by blast+
    show ?thesis
    proof (cases "kept ?s")
      case None
      then show ?thesis using snoc keep False by (auto simp: is_newer_def)
    next
      case (Some v)
      then obtain pre d post where d: "filter (\<lambda>e. content e \<noteq> []) es = pre @ d # post" "v = content d"
        "stamp ?s = some_text (ts d)" "list_all (\<lambda>y. ts y \<le> ts d) pre" "list_all (\<lambda>y. ts y < ts d) post"
        using snoc by auto
      let ?post = "post @ (if content e \<noteq> [] then [e] else [])"
      have "list_all (\<lambda>y. ts y < ts d) ?post" using False d(3,5) is_newer_some_text by (auto simp: not_le)
      moreover have "filter (\<lambda>e. content e \<noteq> []) (es @ [e]) = pre @ d # ?post" using d(1) by simp
      ultimately show ?thesis
        unfolding last keep Some option.case using d(2,3,4)
        by (intro exI [of _ pre] exI [of _ d] exI [of _ ?post] conjI)
    qed
  next
    case True
    then have take: "kept (step e ?s) = Some (content e)" "stamp (step e ?s) = some_text (ts e)"
      using step_take by blast+
    have "list_all (\<lambda>y. ts y \<le> ts e) (filter (\<lambda>e. content e \<noteq> []) es)"
    proof (cases "kept ?s")
      case None
      then show ?thesis using snoc by simp
    next
      case (Some v)
      then obtain pre d post where d: "filter (\<lambda>e. content e \<noteq> []) es = pre @ d # post"
        "stamp ?s = some_text (ts d)" "list_all (\<lambda>y. ts y \<le> ts d) pre" "list_all (\<lambda>y. ts y < ts d) post"
        using snoc by auto
      then have "ts d \<le> ts e" using True is_newer_some_text by auto
      then show ?thesis using d by (auto simp: list_all_iff intro: order_trans less_imp_le)
    qed
    moreover have "filter (\<lambda>e. content e \<noteq> []) (es @ [e]) = filter (\<lambda>e. content e \<noteq> []) es @ e # []"
      using True by simp
    ultimately show ?thesis
      unfolding last take option.case
      by (intro exI [of _ "filter (\<lambda>e. content e \<noteq> []) es"] exI [of _ e] exI [of _ "[]"] conjI) simp_all
  qed
qed (use assms in simp)

end

definition decision_text :: "overlay_event \<Rightarrow> string" where
  "decision_text e = (if event_text (oe_event_type e) = ''decision'' then event_text (oe_decision e) else [])"

definition outcome_text :: "overlay_event \<Rightarrow> string" where
  "outcome_text e = (if event_text (oe_event_type e) = ''outcome'' then event_text (oe_outcome e) else [])"

abbreviation event_ts :: "overlay_event \<Rightarrow> string" where
  "event_ts e \<equiv> event_text (oe_ts e)"

interpretation decisions: latest_wins apply_event decision_text event_ts ov_decision ov_decision_ts
  by unfold_locales
    (auto simp: apply_event_def decision_text_def apply_decision_def apply_outcome_def Let_def)

interpretation outcomes: latest_wins apply_event outcome_text event_ts ov_last_outcome ov_last_outcome_ts
  by unfold_locales
    (auto simp: apply_event_def outcome_text_def apply_decision_def apply_outcome_def Let_def)

lemma overlay_counts:
  "ov_outcomes (fold apply_event es x) =
     \<lparr> oc_shipped = oc_shipped (ov_outcomes x) + of_nat (length (filter (\<lambda>e. outcome_text e = ''shipped'') es)),
       oc_reverted = oc_reverted (ov_outcomes x) + of_nat (length (filter (\<lambda>e. outcome_text e = ''reverted'') es)),
       oc_no_change = oc_no_change (ov_outcomes x) + of_nat (length (filter (\<lambda>e. outcome_text e = ''no_change'') es)) \<rparr>"
proof (induction es arbitrary: x)
  case (Cons e es)
  have "ov_outcomes (apply_event e x) = count_outcome (outcome_text e) (ov_outcomes x)"
    by (auto simp: apply_event_def apply_decision_def apply_outcome_def outcome_text_def count_outcome_def Let_def)
  then show ?case by (simp add: Cons count_outcome_def)
qed simp

text \<open>C32: what an entry says. Its decision is that of the latest decision event: of those with the greatest time
  stamp, compared as text, the last one, where events without a stamp are the oldest; the same holds for its last
  outcome, and the three counters are the numbers of outcome events of each kind, modulo \<open>2 ^ 32\<close>.\<close>

theorem overlay_entry_latest:
  "let x = fold apply_event es (overlay_new i) in
   (case ov_decision x of
      None \<Rightarrow> filter (\<lambda>e. decision_text e \<noteq> []) es = []
    | Some v \<Rightarrow> (\<exists>pre d post. filter (\<lambda>e. decision_text e \<noteq> []) es = pre @ d # post \<and> v = decision_text d \<and>
        list_all (\<lambda>y. event_ts y \<le> event_ts d) pre \<and> list_all (\<lambda>y. event_ts y < event_ts d) post)) \<and>
   (case ov_last_outcome x of
      None \<Rightarrow> filter (\<lambda>e. outcome_text e \<noteq> []) es = []
    | Some v \<Rightarrow> (\<exists>pre d post. filter (\<lambda>e. outcome_text e \<noteq> []) es = pre @ d # post \<and> v = outcome_text d \<and>
        list_all (\<lambda>y. event_ts y \<le> event_ts d) pre \<and> list_all (\<lambda>y. event_ts y < event_ts d) post)) \<and>
   oc_shipped (ov_outcomes x) = of_nat (length (filter (\<lambda>e. outcome_text e = ''shipped'') es)) \<and>
   oc_reverted (ov_outcomes x) = of_nat (length (filter (\<lambda>e. outcome_text e = ''reverted'') es)) \<and>
   oc_no_change (ov_outcomes x) = of_nat (length (filter (\<lambda>e. outcome_text e = ''no_change'') es))"
proof -
  have d: "ov_decision (overlay_new i) = None" "ov_decision_ts (overlay_new i) = None"
    and o: "ov_last_outcome (overlay_new i) = None" "ov_last_outcome_ts (overlay_new i) = None"
    by (simp_all add: overlay_new_def)
  show ?thesis
    using decisions.fold_latest [OF d, of es] outcomes.fold_latest [OF o, of es]
      overlay_counts [of es "overlay_new i"]
    by (auto simp: Let_def overlay_new_def split: option.splits)
qed

section \<open>Receipts\<close>

lemma exec_check_name_fresh:
  "exec_check_name d \<notin> {''postconditions_ok'', ''dod_passed'', ''success_criteria_met'', ''queue_outcome_logged'',
     ''route_model_attested''}"
  by (simp add: exec_check_name_def Let_def)

lemma receipt_check_passes:
  "check_passes (receipt_checks i) (exec_check_name (vi_decision i)) = vi_exec_ok i"
  "check_passes (receipt_checks i) ''postconditions_ok'' = vi_postconditions_ok i"
  "check_passes (receipt_checks i) ''dod_passed'' = vi_dod_passed i"
  "check_passes (receipt_checks i) ''success_criteria_met'' =
     (if vi_success_criteria_required i then vi_success_criteria_passed i else True)"
  "check_passes (receipt_checks i) ''queue_outcome_logged'' = vi_queue_outcome_logged i"
  "check_passes (receipt_checks i) ''route_model_attested'' = (\<not> receipt_mismatch i)"
  using exec_check_name_fresh [of "vi_decision i"] by (auto simp: check_passes_def receipt_checks_def)

text \<open>The verdict on a receipt. It passes exactly when it is shipped; it is reverted exactly when the execution,
  its postconditions, the queue log or the attestation of the model failed, also where a softer check
  failed as well, and unchanged when only the definition of done or a required criterion failed. A primary
  failure is named exactly when a check failed.\<close>

lemma receipt_verdict_exact:
  "let v = compute_receipt_verdict i;
       hard = vi_exec_ok i \<and> vi_postconditions_ok i \<and> vi_queue_outcome_logged i \<and>
         (if trim (vi_route_attestation_expected_model i) = [] then True
          else to_ascii_lowercase (trim (vi_route_attestation_status i)) \<noteq> ''mismatch'');
       soft = vi_dod_passed i \<and> (if vi_success_criteria_required i then vi_success_criteria_passed i else True)
   in vo_outcome v = (if \<not> hard then ''reverted'' else if \<not> soft then ''no_change'' else ''shipped'') \<and>
      vo_passed v = (hard \<and> soft) \<and>
      (vo_primary_failure v = None \<longleftrightarrow> hard \<and> soft)"
proof -
  have mismatch: "receipt_mismatch i \<longleftrightarrow> trim (vi_route_attestation_expected_model i) \<noteq> [] \<and>
      to_ascii_lowercase (trim (vi_route_attestation_status i)) = ''mismatch''"
    by (simp add: receipt_mismatch_def)
  let ?failed = "map fst (filter (\<lambda>row. \<not> snd row) (receipt_checks i))"
  have failed: "?failed = [] \<longleftrightarrow> vi_exec_ok i \<and> vi_postconditions_ok i \<and> vi_dod_passed i \<and>
      (if vi_success_criteria_required i then vi_success_criteria_passed i else True) \<and>
      vi_queue_outcome_logged i \<and> \<not> receipt_mismatch i"
    by (auto simp: receipt_checks_def)
  have primary: "vo_primary_failure (compute_receipt_verdict i) = None \<longleftrightarrow> ?failed = []"
    by (auto simp: compute_receipt_verdict_def Let_def opt_trim_def unwrap_or_def trim_def trim_start_def
        split: list.splits if_splits option.splits)
  have "vo_passed (compute_receipt_verdict i) = (?failed = [])"
    and "vo_outcome (compute_receipt_verdict i) =
      (if \<not> (vi_exec_ok i \<and> vi_postconditions_ok i \<and> vi_queue_outcome_logged i \<and> \<not> receipt_mismatch i) then ''reverted''
       else if \<not> (vi_dod_passed i \<and> (if vi_success_criteria_required i then vi_success_criteria_passed i else True))
       then ''no_change'' else ''shipped'')"
    by (simp_all add: compute_receipt_verdict_def Let_def receipt_check_passes)
  then show ?thesis unfolding primary Let_def failed mismatch by auto
qed

section \<open>Admissions\<close>

lemma admission_fold:
  assumes "unat (e :: u32) + unat (b :: u32) + length rows < 2 ^ 32"
  shows "unat (fst (fold admission_step rows (e, b, m))) =
      unat e + length (filter (\<lambda>r. unwrap_or (ar_preview_eligible r) True) rows) \<and>
    unat (fst (snd (fold admission_step rows (e, b, m)))) =
      unat b + length (filter (\<lambda>r. \<not> unwrap_or (ar_preview_eligible r) True) rows)"
  using assms
proof (induction rows arbitrary: e b m)
  case (Cons r rows)
  have e1: "unat (saturating_add e 1) = unat e + 1" and b1: "unat (saturating_add b 1) = unat b + 1"
    using Cons.prems by (simp_all add: unat_saturating_add)
  show ?case
  proof (cases "unwrap_or (ar_preview_eligible r) True")
    case True
    then obtain m' where "admission_step r (e, b, m) = (saturating_add e 1, b, m')"
      by (simp add: admission_step_def)
    then show ?thesis using Cons.IH [of "saturating_add e 1" b m'] Cons.prems e1 True by simp
  next
    case False
    then obtain m' where "admission_step r (e, b, m) = (e, saturating_add b 1, m')"
      by (cases "ar_blocked_by r = []") (simp_all add: admission_step_def)
    then show ?thesis using Cons.IH [of e "saturating_add b 1" m'] Cons.prems b1 False by simp
  qed
qed simp

text \<open>Eligible and blocked proposals are counted exactly and add up to all of them.\<close>

lemma admission_summary_exact:
  assumes "length proposals < 2 ^ 32"
  shows "unat (as_eligible (compute_admission_summary proposals)) =
      length (filter (\<lambda>r. ar_preview_eligible r \<noteq> Some False) proposals) \<and>
    unat (as_eligible (compute_admission_summary proposals)) + unat (as_blocked (compute_admission_summary proposals)) =
      unat (as_total (compute_admission_summary proposals))"
proof -
  have eq: "unwrap_or (ar_preview_eligible r) True \<longleftrightarrow> ar_preview_eligible r \<noteq> Some False" for r
    by (cases "ar_preview_eligible r") (auto simp: unwrap_or_def)
  show ?thesis
    using admission_fold [of 0 0 proposals "[]"] assms
      sum_length_filter_compl [of "\<lambda>r. unwrap_or (ar_preview_eligible r) True" proposals]
    by (simp add: compute_admission_summary_def split_beta Let_def eq unat_of_nat)
qed

lemma meta_loop_ids:
  "map me_proposal_id (meta_loop seen rows) = push_new seen (map (\<lambda>r. opt_trim (mr_proposal_id r)) rows)"
  by (induction seen rows rule: meta_loop.induct) (simp_all add: Let_def)

section \<open>Logs\<close>

lemma js_slice_start_le: "js_slice_start len raw \<le> len"
  by (auto simp: js_slice_start_def Let_def split: option.splits f64.splits)

lemma recent_loop_bounded:
  "out = [] \<or> \<not> f64_le cap (Fin (of_nat (length out - 1))) \<Longrightarrow>
   recent_loop parse_ts cutoff cap out evts = [] \<or>
   \<not> f64_le cap (Fin (of_nat (length (recent_loop parse_ts cutoff cap out evts) - 1)))"
  by (induction parse_ts cutoff cap out evts rule: recent_loop.induct) (auto split: option.splits)

end
