(* ===== verification/Regex_Search.thy ===== *)
theory Regex_Search
  imports Regex_Match
begin

text \<open>
  Searching with regular expressions: patterns with word boundaries inside, found anywhere in a text. A
  pattern at a position has the list of positions where a match can end, in the order in which the crate
  \<^verbatim>\<open>regex\<close> prefers them: alternatives from left to right, repetitions greedily. The first position that
  has an end, with the first of its ends, is the match the crate reports; from it \<^verbatim>\<open>find_iter\<close>, \<^verbatim>\<open>split\<close> and
  \<^verbatim>\<open>replace_all\<close> are defined. No pattern of the sources matches the empty text.
\<close>

datatype rs =
    RsEps
  | RsClass "char \<Rightarrow> bool"
  | RsBound
  | RsSeq rs rs
  | RsAlt rs rs
  | RsStar rs

fun star_ends :: "(nat \<Rightarrow> nat list) \<Rightarrow> nat \<Rightarrow> nat \<Rightarrow> nat list" where
  "star_ends f 0 i = [i]"
| "star_ends f (Suc n) i = concat (map (star_ends f n) (filter (\<lambda>j. i < j) (f i))) @ [i]"

primrec rs_ends :: "string \<Rightarrow> rs \<Rightarrow> nat \<Rightarrow> nat list" where
  "rs_ends s RsEps i = [i]"
| "rs_ends s (RsClass p) i = (if i < length s \<and> p (s ! i) then [i + 1] else [])"
| "rs_ends s RsBound i = (if at_boundary s i then [i] else [])"
| "rs_ends s (RsSeq r q) i = concat (map (rs_ends s q) (rs_ends s r i))"
| "rs_ends s (RsAlt r q) i = rs_ends s r i @ rs_ends s q i"
| "rs_ends s (RsStar r) i = star_ends (rs_ends s r) (length s - i) i"

definition rs_find :: "string \<Rightarrow> rs \<Rightarrow> nat \<Rightarrow> (nat \<times> nat) option" where
  "rs_find s r from =
     (case find (\<lambda>i. rs_ends s r i \<noteq> []) [from..<Suc (length s)] of
        None \<Rightarrow> None
      | Some i \<Rightarrow> Some (i, hd (rs_ends s r i)))"

definition rs_is_match :: "rs \<Rightarrow> string \<Rightarrow> bool" where
  "rs_is_match r s = list_ex (\<lambda>i. rs_ends s r i \<noteq> []) [0..<Suc (length s)]"

text \<open>The successive matches; the fuel is the number of positions left, and each match moves on by one at least.\<close>

fun rs_find_iter :: "string \<Rightarrow> rs \<Rightarrow> nat \<Rightarrow> nat \<Rightarrow> (nat \<times> nat) list" where
  "rs_find_iter s r 0 from = []"
| "rs_find_iter s r (Suc n) from =
     (case rs_find s r from of
        None \<Rightarrow> []
      | Some (i, j) \<Rightarrow> (i, j) # rs_find_iter s r n (max j (i + 1)))"

abbreviation slice :: "string \<Rightarrow> nat \<Rightarrow> nat \<Rightarrow> string" where
  "slice s i j \<equiv> take (j - i) (drop i s)"

fun split_at_matches :: "string \<Rightarrow> nat \<Rightarrow> (nat \<times> nat) list \<Rightarrow> string list" where
  "split_at_matches s from [] = [drop from s]"
| "split_at_matches s from ((i, j) # ms) = slice s from i # split_at_matches s j ms"

definition rs_find_all :: "rs \<Rightarrow> string \<Rightarrow> (nat \<times> nat) list" where
  "rs_find_all r s = rs_find_iter s r (Suc (length s)) 0"

definition rs_split :: "rs \<Rightarrow> string \<Rightarrow> string list" where
  "rs_split r s = split_at_matches s 0 (rs_find_all r s)"

definition rs_replace_all :: "rs \<Rightarrow> string \<Rightarrow> string \<Rightarrow> string" where
  "rs_replace_all r t s = join t (rs_split r s)"

section \<open>Building patterns\<close>

abbreviation rs_chr :: "char \<Rightarrow> rs" where
  "rs_chr c \<equiv> RsClass (\<lambda>x. x = c)"

primrec rs_text :: "string \<Rightarrow> rs" where
  "rs_text [] = RsEps"
| "rs_text (c # cs) = RsSeq (rs_chr c) (rs_text cs)"

definition rs_plus :: "rs \<Rightarrow> rs" where
  "rs_plus r = RsSeq r (RsStar r)"

definition rs_opt :: "rs \<Rightarrow> rs" where
  "rs_opt r = RsAlt r RsEps"

fun rs_alts :: "rs list \<Rightarrow> rs" where
  "rs_alts [] = RsClass (\<lambda>_. False)"
| "rs_alts [r] = r"
| "rs_alts (r # rs) = RsAlt r (rs_alts rs)"

definition rs_seqs :: "rs list \<Rightarrow> rs" where
  "rs_seqs rs = foldr RsSeq rs RsEps"

primrec rs_pow :: "rs \<Rightarrow> nat \<Rightarrow> rs" where
  "rs_pow r 0 = RsEps"
| "rs_pow r (Suc n) = RsSeq r (rs_pow r n)"

definition rs_words :: "string list \<Rightarrow> rs" where
  "rs_words ws = rs_alts (map rs_text ws)"

text \<open>\<^verbatim>\<open>.\<close> is every character but the line feed.\<close>

definition rs_any :: rs where
  "rs_any = RsClass (\<lambda>c. c \<noteq> CHR 0x0A)"

definition rs_bounded :: "rs \<Rightarrow> rs" where
  "rs_bounded r = RsSeq RsBound (RsSeq r RsBound)"

section \<open>What matches\<close>

inductive rs_match :: "string \<Rightarrow> rs \<Rightarrow> nat \<Rightarrow> nat \<Rightarrow> bool" for s where
  m_eps: "rs_match s RsEps i i"
| m_class: "i < length s \<Longrightarrow> p (s ! i) \<Longrightarrow> rs_match s (RsClass p) i (i + 1)"
| m_bound: "at_boundary s i \<Longrightarrow> rs_match s RsBound i i"
| m_seq: "rs_match s r i j \<Longrightarrow> rs_match s q j k \<Longrightarrow> rs_match s (RsSeq r q) i k"
| m_left: "rs_match s r i j \<Longrightarrow> rs_match s (RsAlt r q) i j"
| m_right: "rs_match s q i j \<Longrightarrow> rs_match s (RsAlt r q) i j"
| m_star: "rs_match s (RsStar r) i i"
| m_step: "rs_match s r i j \<Longrightarrow> rs_match s (RsStar r) j k \<Longrightarrow> rs_match s (RsStar r) i k"

inductive_simps rs_match_simps:
  "rs_match s RsEps i j" "rs_match s (RsClass p) i j" "rs_match s RsBound i j"
  "rs_match s (RsSeq r q) i j" "rs_match s (RsAlt r q) i j"

lemma rs_match_mono: "rs_match s r i j \<Longrightarrow> i \<le> j"
  by (induction rule: rs_match.induct) auto

lemma rs_match_le: "rs_match s r i j \<Longrightarrow> i \<le> length s \<Longrightarrow> j \<le> length s"
  by (induction rule: rs_match.induct) auto

lemma star_ends_sound:
  assumes "\<And>i j. j \<in> set (f i) \<Longrightarrow> rs_match s r i j"
  shows "j \<in> set (star_ends f n i) \<Longrightarrow> rs_match s (RsStar r) i j"
proof (induction n arbitrary: i j)
  case (Suc n)
  from Suc.prems consider "j = i" | k where "k \<in> set (f i)" "i < k" "j \<in> set (star_ends f n k)" by auto
  then show ?case
  proof cases
    case (2 k)
    then have "rs_match s r i k" "rs_match s (RsStar r) k j" using Suc.IH assms by auto
    then show ?thesis by (rule m_step)
  qed (simp add: m_star)
qed (simp add: m_star)

lemma star_ends_complete:
  assumes "\<And>i j. rs_match s r i j \<Longrightarrow> i \<le> length s \<Longrightarrow> j \<in> set (f i)"
  shows "rs_match s q i j \<Longrightarrow> q = RsStar r \<Longrightarrow> i \<le> length s \<Longrightarrow> length s - i \<le> n \<Longrightarrow> j \<in> set (star_ends f n i)"
proof (induction arbitrary: n rule: rs_match.induct)
  case (m_star r i)
  show ?case by (cases n) auto
next
  case (m_step r' i j k)
  then have r: "r' = r" by simp
  show ?case
  proof (cases "i < j")
    case True
    have "j \<le> length s" using rs_match_le m_step by blast
    moreover have "n = Suc (n - 1)" "length s - j \<le> n - 1" using True calculation m_step.prems by simp_all
    ultimately have "k \<in> set (star_ends f (n - 1) j)" using m_step.IH(2) m_step.prems by blast
    moreover have "j \<in> set (f i)" using assms m_step r by blast
    ultimately have "k \<in> set (star_ends f (Suc (n - 1)) i)" using True by auto
    then show ?thesis using \<open>n = Suc (n - 1)\<close> by simp
  next
    case False
    then have "j = i" using rs_match_mono [OF m_step.hyps(1)] by simp
    then show ?thesis using m_step by simp
  qed
qed simp_all

lemma rs_ends_iff: "i \<le> length s \<Longrightarrow> j \<in> set (rs_ends s r i) \<longleftrightarrow> rs_match s r i j"
proof -
  have sound: "j \<in> set (rs_ends s r i) \<Longrightarrow> rs_match s r i j" for i j
  proof (induction r arbitrary: i j)
    case (RsSeq r q)
    then show ?case by (auto simp: rs_match_simps) blast
  next
    case (RsStar r)
    then show ?case using star_ends_sound [of "rs_ends s r" s r] by simp
  qed (auto simp: rs_match_simps split: if_splits)
  have complete: "rs_match s r i j \<Longrightarrow> i \<le> length s \<Longrightarrow> j \<in> set (rs_ends s r i)" for i j
  proof (induction r arbitrary: i j)
    case (RsSeq r q)
    then show ?case using rs_match_le by (auto simp: rs_match_simps) blast
  next
    case (RsStar r)
    then show ?case using star_ends_complete [of s r "rs_ends s r"] by simp
  qed (auto simp: rs_match_simps)
  assume "i \<le> length s"
  then show ?thesis using sound complete by blast
qed

lemma rs_is_match_iff: "rs_is_match r s \<longleftrightarrow> (\<exists>i \<le> length s. \<exists>j. rs_match s r i j)"
proof -
  have "rs_ends s r i \<noteq> [] \<longleftrightarrow> (\<exists>j. rs_match s r i j)" if "i \<le> length s" for i
    using rs_ends_iff [OF that] by (metis all_not_in_conv set_empty)
  then show ?thesis by (auto simp: rs_is_match_def list_ex_iff less_Suc_eq_le simp del: upt_Suc)
qed

end
