(* ===== verification/Directive_Gate.thy ===== *)
theory Directive_Gate
  imports Autoscale_Text Regex_Search Json_Value
begin

text \<open>
  The gates of \<^verbatim>\<open>core/layer2/execution/src/decompose.rs\<close>: the directive gate on the text of a task and the
  heroic gate, with the cleaning of texts that the whole file shares. Requests and responses are records with
  the fields of the structs; the flag \<^verbatim>\<open>ok\<close>, which is always true, is left out. A pattern with the flag
  \<^verbatim>\<open>(?i)\<close> is asked on the text in lower case.
\<close>

section \<open>Text\<close>

definition dc_clean_text :: "string \<Rightarrow> nat \<Rightarrow> string" where
  "dc_clean_text raw max_len = take max_len (trim (replace_runs is_ws CHR '' '' False raw))"

fun dc_token_loop :: "bool \<Rightarrow> string \<Rightarrow> string" where
  "dc_token_loop last_underscore [] = []"
| "dc_token_loop last_underscore (ch # cs) =
     (if is_ascii_lower ch \<or> is_ascii_digit ch \<or> ch \<in> set ''_.:/-''
      then (if ch = CHR ''_''
            then (if last_underscore then dc_token_loop True cs else ch # dc_token_loop True cs)
            else ch # dc_token_loop False cs)
      else (if last_underscore then dc_token_loop True cs else CHR ''_'' # dc_token_loop True cs))"

definition dc_token :: "string \<Rightarrow> nat \<Rightarrow> string" where
  "dc_token raw max_len =
     trim_matches CHR ''_'' (dc_token_loop False (to_ascii_lowercase (dc_clean_text raw max_len)))"

definition contains_any :: "string \<Rightarrow> string list \<Rightarrow> bool" where
  "contains_any source needles = list_ex (\<lambda>needle. str_contains source needle) needles"

section \<open>The directive gate\<close>

definition rs_ws :: rs where
  "rs_ws = RsClass is_ws"

definition rs_dots :: rs where
  "rs_dots = RsStar rs_any"

definition rs_pair :: "string \<Rightarrow> string \<Rightarrow> rs" where
  "rs_pair a b = rs_seqs [rs_text a, rs_dots, rs_text b]"

definition deny_patterns :: "(string \<times> rs) list" where
  "deny_patterns =
     [(''bypass gate'', rs_bounded (rs_alts [rs_pair ''bypass'' ''gate'', rs_pair ''disable'' ''gate'', rs_pair ''skip'' ''gate''])),
      (''disable log'', rs_bounded (rs_alts [rs_pair ''disable'' ''log'', rs_pair ''stop'' ''log'', rs_pair ''suppress'' ''event'',
         rs_pair ''remove'' ''audit''])),
      (''tamper trust'', rs_seqs [rs_bounded (rs_words [''tamper'', ''modify'', ''edit'', ''delete'']), rs_dots,
         rs_bounded (rs_words [''trust'', ''hash'', ''registry''])]),
      (''modify gate'', rs_seqs [rs_bounded (rs_words [''modify'', ''edit'', ''delete'']), rs_dots,
         rs_bounded (rs_text ''directive_gate'')])]"

definition trust_targets :: "string list" where
  "trust_targets = [''trust_registry'', ''trust registry'', ''trust_add'', ''trust_remove'',
     ''tests/tooling/scripts/memory/trust_add.ts'', ''client/memory/trust/registry.json'', ''registry.json'',
     ''registry hashes'', ''trust registry hashes'']"

definition mutation_verbs :: "string list" where
  "mutation_verbs = [''edit'', ''modify'', ''update'', ''patch'', ''delete'', ''remove'', ''tamper'', ''change'']"

definition is_trust_registry_modification :: "string \<Rightarrow> bool" where
  "is_trust_registry_modification task_lower =
     (contains_any task_lower trust_targets \<and> contains_any task_lower mutation_verbs)"

definition rs_slash :: rs where
  "rs_slash = RsClass (\<lambda>c. c = CHR ''/'' \<or> c = CHR 0x5C)"

definition rs_dash_or_underscore :: rs where
  "rs_dash_or_underscore = RsClass (\<lambda>c. c = CHR ''_'' \<or> c = CHR ''-'')"

definition high_risk_patterns :: "(string \<times> string \<times> rs) list" where
  "high_risk_patterns =
     [(''High-risk: process execution detected'', ''high'',
       rs_bounded (RsAlt (rs_seqs [rs_text ''child'', rs_opt (RsClass (\<lambda>c. c = CHR ''_'' \<or> is_ws c)), rs_text ''process''])
         (rs_words [''exec'', ''execsync'', ''spawn'', ''fork'', ''execfile'']))),
      (''High-risk: shell execution detected'', ''high'',
       rs_bounded (rs_alts [rs_text ''shell'', rs_text ''bash'', RsSeq (rs_text ''sh'') rs_ws, rs_text ''cmd.exe'',
         rs_text ''powershell''])),
      (''High-risk: credentials/token access detected'', ''high'',
       rs_alts [rs_seqs [rs_text ''.openclaw'', rs_slash, rs_text ''credentials''],
         rs_seqs [rs_text ''/credentials'', rs_slash], rs_text ''token'',
         rs_seqs [rs_text ''api'', rs_opt rs_dash_or_underscore, rs_text ''key''], rs_text ''secret'', rs_text ''password'']),
      (''High-risk: network/API call detected'', ''medium'',
       rs_bounded (rs_words [''http'', ''https'', ''fetch'', ''axios'', ''request'', ''curl'', ''wget'', ''net.'', ''tls.'', ''socket''])),
      (''High-risk: git remote operation detected'', ''high'',
       rs_bounded (rs_alts [rs_seqs [rs_text ''git'', rs_plus rs_ws, rs_words [''push'', ''force'', ''reset'', ''rebase'', ''merge'']],
         rs_seqs [rs_text ''push'', rs_plus rs_ws, rs_text ''to''], rs_seqs [rs_text ''push'', rs_plus rs_ws, rs_text ''--''],
         rs_text ''origin'', rs_text ''publish'', rs_text ''deploy''])),
      (''High-risk: cron/system config modification detected'', ''high'',
       rs_bounded (rs_words [''cron'', ''crontab'', ''systemd'', ''service'', ''daemon''])),
      (''High-risk: revenue/financial action detected'', ''high'',
       rs_bounded (rs_alts [rs_words [''payment'', ''billing'', ''subscription'', ''charge'', ''refund''],
         rs_pair ''account'' ''money'', rs_text ''revenue''])),
      (''High-risk: governance/security tooling modification detected'', ''high'',
       rs_bounded (rs_alts [RsSeq (rs_text ''trust'') (rs_opt rs_dash_or_underscore),
         rs_seqs [rs_text ''verify'', rs_opt rs_dash_or_underscore, rs_text ''hash''], rs_text ''tamper'', rs_text ''bypass'',
         rs_pair ''disable'' ''log'', rs_pair ''registry'' ''hash''])),
      (''High-risk: governance/security tooling modification detected'', ''high'',
       rs_bounded (rs_words [''trust_add'', ''trust_remove'', ''trust_registry'', ''registry.json'']))]"

definition rs_path :: rs where
  "rs_path = RsSeq (RsClass (\<lambda>c. c = CHR ''/'' \<or> c = CHR ''~''))
     (rs_plus (RsClass (\<lambda>c. is_ascii_alphanumeric c \<or> c \<in> set ''_/.-'')))"

record gate_state =
  gs_reasons :: "string list"
  gs_decision :: string
  gs_risk :: string

definition set_manual :: "string \<Rightarrow> string" where
  "set_manual decision = (if decision \<noteq> ''DENY'' then ''MANUAL'' else decision)"

definition deny_step :: "string \<Rightarrow> string \<times> rs \<Rightarrow> gate_state \<Rightarrow> gate_state" where
  "deny_step task_lower row st =
     (let (label, r) = row in
      if rs_is_match r task_lower
      then \<lparr> gs_reasons = gs_reasons st @ [''T0 violation: '' @ label @ '' detected''],
             gs_decision = ''DENY'', gs_risk = ''high'' \<rparr>
      else st)"

definition risk_step :: "string \<Rightarrow> string \<times> string \<times> rs \<Rightarrow> gate_state \<Rightarrow> gate_state" where
  "risk_step task_lower row st =
     (let (message, severity, r) = row in
      if rs_is_match r task_lower
      then \<lparr> gs_reasons = gs_reasons st @ [message], gs_decision = set_manual (gs_decision st), gs_risk = severity \<rparr>
      else st)"

definition sensitive_path :: "string \<Rightarrow> bool" where
  "sensitive_path found = contains_any found [''credentials'', ''secret'', ''token'']"

definition path_step :: "string \<Rightarrow> gate_state \<Rightarrow> gate_state" where
  "path_step found st =
     (if sensitive_path found
      then \<lparr> gs_reasons = gs_reasons st @ [''Path validation: sensitive path '' @ [CHR 0x22] @ found @ [CHR 0x22]],
             gs_decision = set_manual (gs_decision st), gs_risk = ''high'' \<rparr>
      else st)"

definition found_paths :: "string \<Rightarrow> string list" where
  "found_paths task = map (\<lambda>(i, j). to_ascii_lowercase (slice task i j)) (rs_find_all rs_path task)"

definition evaluate_directive_gate :: "string \<Rightarrow> gate_state" where
  "evaluate_directive_gate task_text =
     (let task = trim task_text; task_lower = to_ascii_lowercase task in
      if task = []
      then \<lparr> gs_reasons = [''Task must be a non-empty string''], gs_decision = ''DENY'', gs_risk = ''high'' \<rparr>
      else
        let st0 = \<lparr> gs_reasons = [], gs_decision = ''ALLOW'', gs_risk = ''low'' \<rparr>;
            st1 = fold (deny_step task_lower) deny_patterns st0;
            st2 = (if is_trust_registry_modification task_lower
                   then \<lparr> gs_reasons = gs_reasons st1 @ [''T0 violation: trust registry modification detected''],
                          gs_decision = ''DENY'', gs_risk = ''high'' \<rparr>
                   else st1);
            st3 = fold (risk_step task_lower) high_risk_patterns st2;
            st4 = fold path_step (found_paths task) st3
        in if gs_reasons st4 = []
           then st4\<lparr> gs_reasons := [''No high-risk patterns detected; standard routing applies''] \<rparr>
           else st4)"

section \<open>The heroic gate\<close>

definition rs_destructive :: rs where
  "rs_destructive = rs_alts [
     rs_bounded (rs_seqs [rs_text ''disable'', rs_plus rs_ws, rs_opt (RsSeq (rs_text ''all'') (rs_plus rs_ws)),
       rs_text ''guard'', rs_opt (rs_text ''s'')]),
     rs_seqs [rs_bounded (rs_text ''bypass''), rs_dots, rs_bounded (rs_words [''guard'', ''policy'', ''safety''])],
     rs_bounded (rs_seqs [rs_text ''self'', RsStar (RsClass (\<lambda>c. is_ws c \<or> c = CHR ''_'' \<or> c = CHR ''-'')),
       rs_text ''terminate'']),
     rs_bounded (rs_text ''exfiltrate''),
     rs_bounded (rs_seqs [rs_text ''wipe'', rs_plus rs_ws, rs_text ''data''])]"

definition collect_strings :: "json option \<Rightarrow> nat \<Rightarrow> nat \<Rightarrow> string list" where
  "collect_strings value max_items max_len =
     (case value of
        Some (JArr rows) \<Rightarrow> take max_items (filter (\<lambda>row. row \<noteq> [])
          (map (\<lambda>row. dc_clean_text row max_len) (List.map_filter as_str rows)))
      | _ \<Rightarrow> [])"

record heroic_request =
  hg_task_text :: string
  hg_block_on_destructive :: bool
  hg_purified_row :: "json option"

record heroic_response =
  hr_classification :: string
  hr_decision :: string
  hr_blocked :: bool
  hr_reason_codes :: "string list"

definition purified_text :: "json \<Rightarrow> string \<Rightarrow> nat \<Rightarrow> string" where
  "purified_text row k n = dc_clean_text (unwrap_or (Option.bind (json_get row k) as_str) ''unknown'') n"

definition evaluate_heroic_gate :: "heroic_request \<Rightarrow> heroic_response" where
  "evaluate_heroic_gate req =
     (let local_destructive = rs_is_match rs_destructive (hg_task_text req) in
      case hg_purified_row req of
        Some (JObj m) \<Rightarrow>
          (let purified = JObj m;
               row_classification = purified_text purified ''classification'' 80;
               row_decision = purified_text purified ''decision'' 120;
               row_blocked = unwrap_or (Option.bind (json_get purified ''blocked'') as_bool) False;
               row_is_destructive =
                 (Option.bind (json_get purified ''classification'') as_str = Some ''destructive_instruction'')
           in \<lparr> hr_classification = (if local_destructive then ''destructive_instruction''
                  else if row_classification = [] then ''unknown'' else row_classification),
                hr_decision = (if local_destructive then ''blocked_destructive_local_pattern''
                  else if row_decision = [] then ''unknown'' else row_decision),
                hr_blocked = (hg_block_on_destructive req \<and> (row_is_destructive \<or> local_destructive) \<or> row_blocked),
                hr_reason_codes = collect_strings (json_get purified ''reason_codes'') 8 120 @
                  (if local_destructive then [''local_destructive_pattern''] else []) \<rparr>)
      | _ \<Rightarrow>
          \<lparr> hr_classification = (if local_destructive then ''destructive_instruction'' else ''unknown''),
            hr_decision = (if local_destructive then ''blocked_destructive_local_pattern'' else ''purification_missing''),
            hr_blocked = local_destructive,
            hr_reason_codes = ''heroic_echo_row_missing'' #
              (if local_destructive then [''local_destructive_pattern''] else []) \<rparr>)"

section \<open>What the directive gate decides\<close>

lemma deny_fold:
  "gs_decision (fold (deny_step t) ps st) =
     (if list_ex (\<lambda>(l, r). rs_is_match r t) ps then ''DENY'' else gs_decision st)"
  "gs_reasons (fold (deny_step t) ps st) = gs_reasons st @
     map (\<lambda>(l, r). ''T0 violation: '' @ l @ '' detected'') (filter (\<lambda>(l, r). rs_is_match r t) ps)"
  by (induction ps arbitrary: st) (auto simp: deny_step_def split: prod.splits)

lemma risk_fold:
  "gs_decision (fold (risk_step t) ps st) =
     (if list_ex (\<lambda>(m, s, r). rs_is_match r t) ps then set_manual (gs_decision st) else gs_decision st)"
  "gs_reasons (fold (risk_step t) ps st) = gs_reasons st @ map fst (filter (\<lambda>(m, s, r). rs_is_match r t) ps)"
  by (induction ps arbitrary: st) (auto simp: risk_step_def set_manual_def split: prod.splits)

lemma path_fold:
  "gs_decision (fold path_step fs st) =
     (if list_ex sensitive_path fs then set_manual (gs_decision st) else gs_decision st)"
  "gs_reasons (fold path_step fs st) = gs_reasons st @
     map (\<lambda>f. ''Path validation: sensitive path '' @ [CHR 0x22] @ f @ [CHR 0x22]) (filter sensitive_path fs)"
  by (induction fs arbitrary: st) (auto simp: path_step_def set_manual_def)

definition denied_text :: "string \<Rightarrow> bool" where
  "denied_text task =
     (list_ex (\<lambda>(l, r). rs_is_match r (to_ascii_lowercase task)) deny_patterns \<or>
      is_trust_registry_modification (to_ascii_lowercase task))"

definition risky_text :: "string \<Rightarrow> bool" where
  "risky_text task =
     (list_ex (\<lambda>(m, s, r). rs_is_match r (to_ascii_lowercase task)) high_risk_patterns \<or>
      list_ex sensitive_path (found_paths task))"

lemma directive_decision:
  "gs_decision (evaluate_directive_gate task_text) =
     (if trim task_text = [] \<or> denied_text (trim task_text) then ''DENY''
      else if risky_text (trim task_text) then ''MANUAL''
      else ''ALLOW'')"
proof -
  have "set_manual ''DENY'' = ''DENY''" "set_manual ''ALLOW'' = ''MANUAL''" "set_manual ''MANUAL'' = ''MANUAL''"
    by (simp_all add: set_manual_def)
  then show ?thesis
    by (simp add: evaluate_directive_gate_def Let_def denied_text_def risky_text_def deny_fold(1) risk_fold(1)
        path_fold(1))
qed

lemma directive_denies_iff:
  "gs_decision (evaluate_directive_gate s) = ''DENY'' \<longleftrightarrow> trim s = [] \<or> denied_text (trim s)"
  by (simp add: directive_decision)

lemma directive_decision_cases:
  "gs_decision (evaluate_directive_gate s) \<in> {''DENY'', ''MANUAL'', ''ALLOW''}"
  by (simp add: directive_decision)

text \<open>C23: the directive gate denies a task exactly when its text is blank, matches a denied pattern or asks to
  modify the trust registry; no later finding weakens a denial. A task that is not denied needs a manual
  decision exactly when a risky pattern or a sensitive path is found, and is allowed otherwise, and every
  decision comes with a reason.\<close>

theorem directive_gate_exact:
  "gs_decision (evaluate_directive_gate task_text) =
     (if trim task_text = [] \<or> denied_text (trim task_text) then ''DENY''
      else if risky_text (trim task_text) then ''MANUAL''
      else ''ALLOW'') \<and>
   gs_reasons (evaluate_directive_gate task_text) \<noteq> []"
  using directive_decision by (simp add: evaluate_directive_gate_def Let_def)

text \<open>The risk of a denied task is what the last pattern says: a denied task that also names a network call is
  reported with medium risk.\<close>

lemma denied_risk_lowered:
  "gs_decision (evaluate_directive_gate ''skip gate http'') = ''DENY'' \<and>
   gs_risk (evaluate_directive_gate ''skip gate http'') = ''medium''"
  by code_simp

text \<open>A line break hides a denied pattern, since a dot of a pattern does not match it.\<close>

lemma line_break_hides_denial:
  "gs_decision (evaluate_directive_gate ''skip a gate'') = ''DENY'' \<and>
   gs_decision (evaluate_directive_gate (''skip a'' @ [CHR 0x0A] @ ''gate'')) = ''ALLOW''"
  by code_simp

section \<open>What the heroic gate decides\<close>

text \<open>The heroic gate with blocking switched on. A text with a destructive pattern is blocked whether or not
  a purified row is there; a row that says blocked or destructive blocks; and nothing else does.\<close>

lemma heroic_gate_blocks_iff:
  assumes "hg_block_on_destructive req"
  shows "hr_blocked (evaluate_heroic_gate req) \<longleftrightarrow>
    rs_is_match rs_destructive (hg_task_text req) \<or>
    (case hg_purified_row req of
       Some (JObj m) \<Rightarrow> json_get (JObj m) ''blocked'' = Some (JBool True) \<or>
         json_get (JObj m) ''classification'' = Some (JStr ''destructive_instruction'')
     | _ \<Rightarrow> False)"
proof -
  have b: "unwrap_or (Option.bind v as_bool) False \<longleftrightarrow> v = Some (JBool True)" for v
    by (cases v; cases "the v") (auto simp: unwrap_or_def)
  have c: "Option.bind v as_str = Some t \<longleftrightarrow> v = Some (JStr t)" for v t
    by (cases v; cases "the v") auto
  show ?thesis
    using assms by (auto simp: evaluate_heroic_gate_def Let_def b c split: option.splits json.splits)
qed

definition sample_heroic :: heroic_request where
  "sample_heroic = \<lparr> hg_task_text = ''wipe data'', hg_block_on_destructive = True,
     hg_purified_row = Some (JObj []) \<rparr>"

lemma heroic_gate_blocks_iff_witness: "hr_blocked (evaluate_heroic_gate sample_heroic)"
proof -
  have "hg_block_on_destructive sample_heroic" by (simp add: sample_heroic_def)
  moreover have "rs_is_match rs_destructive (hg_task_text sample_heroic)" by code_simp
  ultimately show ?thesis using heroic_gate_blocks_iff by blast
qed

text \<open>Without blocking the decision still says blocked, and the patterns are case sensitive.\<close>

lemma heroic_decision_not_blocked:
  "hr_decision (evaluate_heroic_gate (sample_heroic\<lparr> hg_block_on_destructive := False \<rparr>)) =
     ''blocked_destructive_local_pattern'' \<and>
   \<not> hr_blocked (evaluate_heroic_gate (sample_heroic\<lparr> hg_block_on_destructive := False \<rparr>))"
  by code_simp

lemma heroic_pattern_case_sensitive:
  "\<not> hr_blocked (evaluate_heroic_gate (sample_heroic\<lparr> hg_task_text := ''Wipe data'' \<rparr>))"
  by code_simp

end
