(* ===== verification/Task_Router.thy ===== *)
theory Task_Router
  imports Directive_Gate
begin

text \<open>
  The router of \<^verbatim>\<open>core/layer2/execution/src/decompose.rs\<close>: the intent of a task, the triggers that make it a
  habit, the match of known habits and reflexes, the complexity, the decision how the task runs, and the
  readiness of a habit. Counts are \<^verbatim>\<open>i64\<close>, which the code only compares.
\<close>

section \<open>Intents\<close>

definition rs_digit :: rs where
  "rs_digit = RsClass is_ascii_digit"

definition rs_date :: rs where
  "rs_date = rs_seqs [rs_pow rs_digit 4, rs_chr CHR ''-'', rs_pow rs_digit 2, rs_chr CHR ''-'', rs_pow rs_digit 2]"

definition rs_hex :: rs where
  "rs_hex = RsClass (\<lambda>c. c \<in> set ''abcdef'' \<or> is_ascii_digit c)"

definition rs_uuid :: rs where
  "rs_uuid = rs_seqs [rs_pow rs_hex 8, rs_chr CHR ''-'', rs_pow rs_hex 4, rs_chr CHR ''-'', rs_pow rs_hex 4,
     rs_chr CHR ''-'', rs_pow rs_hex 4, rs_chr CHR ''-'', rs_pow rs_hex 12]"

definition rs_hour_minute :: rs where
  "rs_hour_minute = rs_seqs [rs_pow rs_digit 2, rs_chr CHR '':'', rs_pow rs_digit 2]"

definition rs_timestamp :: rs where
  "rs_timestamp = rs_seqs [rs_date, rs_chr CHR ''t'', rs_hour_minute, rs_chr CHR '':'', rs_pow rs_digit 2,
     rs_opt (RsSeq rs_any (rs_plus rs_digit)),
     rs_opt (RsAlt (rs_chr CHR ''z'') (RsSeq (RsClass (\<lambda>c. c \<in> set ''+-'')) rs_hour_minute))]"

definition is_quote :: "char \<Rightarrow> bool" where
  "is_quote c = (c = CHR 0x22 \<or> c = CHR 0x27)"

definition rs_quoted :: rs where
  "rs_quoted = rs_seqs [RsClass is_quote, RsStar (RsClass (\<lambda>c. \<not> is_quote c)), RsClass is_quote]"

definition strip_patterns :: "rs list" where
  "strip_patterns = [rs_bounded rs_date, rs_bounded rs_uuid, rs_timestamp, rs_quoted]"

definition normalize_route_intent :: "string \<Rightarrow> string" where
  "normalize_route_intent task_text =
     (if trim task_text = [] then []
      else
        let stripped = fold (\<lambda>r t. rs_replace_all r [] t) strip_patterns (to_ascii_lowercase task_text);
            out = trim (replace_runs is_ws CHR '' '' False stripped)
        in if out = [] then [] else join ''_'' (take 12 (split_whitespace out)))"

definition is_habit_char :: "char \<Rightarrow> bool" where
  "is_habit_char c = (is_ascii_lower c \<or> is_ascii_digit c \<or> c = CHR ''_'')"

definition predict_route_habit_id :: "string \<Rightarrow> string \<Rightarrow> string" where
  "predict_route_habit_id intent_key task_text =
     (let candidate = (if trim intent_key = [] then normalize_route_intent task_text
                       else to_ascii_lowercase intent_key);
          base = take 48 (trim_matches CHR ''_'' (replace_runs (\<lambda>c. \<not> is_habit_char c) CHR ''_'' False candidate))
      in if base = [] then ''habit'' else base)"

definition summarize_route_intent :: "string \<Rightarrow> string" where
  "summarize_route_intent task_text =
     (let parts = map to_ascii_lowercase (take 6 (split_whitespace task_text))
      in if parts = [] then ''task'' else join ''_'' parts)"

section \<open>Triggers\<close>

record route_thresholds =
  rt_a_repeats_14d_min :: int
  rt_a_tokens_min :: int
  rt_a_met :: bool
  rt_b_tokens_min :: int
  rt_b_met :: bool
  rt_c_errors_30d_min :: int
  rt_c_met :: bool

record route_primitives =
  rp_intent_key :: string
  rp_intent :: string
  rp_predicted_habit_id :: string
  rp_trigger_a :: bool
  rp_trigger_b :: bool
  rp_trigger_c :: bool
  rp_any_trigger :: bool
  rp_which_met :: "string list"
  rp_thresholds :: route_thresholds

definition evaluate_route_primitives :: "string \<Rightarrow> int \<Rightarrow> int \<Rightarrow> int \<Rightarrow> route_primitives" where
  "evaluate_route_primitives task_text tokens_est repeats_14d errors_30d =
     (let intent_key = normalize_route_intent task_text;
          trigger_a = (repeats_14d \<ge> 3 \<and> tokens_est \<ge> 500);
          trigger_b = (tokens_est \<ge> 2000);
          trigger_c = (errors_30d \<ge> 2)
      in \<lparr> rp_intent_key = intent_key,
           rp_intent = summarize_route_intent task_text,
           rp_predicted_habit_id = predict_route_habit_id intent_key task_text,
           rp_trigger_a = trigger_a, rp_trigger_b = trigger_b, rp_trigger_c = trigger_c,
           rp_any_trigger = (trigger_a \<or> trigger_b \<or> trigger_c),
           rp_which_met = (if trigger_a then [''A''] else []) @ (if trigger_b then [''B''] else []) @
             (if trigger_c then [''C''] else []),
           rp_thresholds = \<lparr> rt_a_repeats_14d_min = 3, rt_a_tokens_min = 500, rt_a_met = trigger_a,
             rt_b_tokens_min = 2000, rt_b_met = trigger_b, rt_c_errors_30d_min = 2, rt_c_met = trigger_c \<rparr> \<rparr>)"

section \<open>Habits and reflexes\<close>

record route_match =
  rm_matched_id :: "string option"
  rm_match_strategy :: string

definition habit_exact :: "string \<Rightarrow> string \<Rightarrow> string \<Rightarrow> bool" where
  "habit_exact intent_key skip habit =
     (let i = dc_token habit 120 in i \<noteq> [] \<and> i = intent_key \<and> i \<noteq> skip)"

definition habit_inside :: "string \<Rightarrow> string \<Rightarrow> string \<Rightarrow> bool" where
  "habit_inside intent_key skip habit =
     (let i = dc_token habit 120 in i \<noteq> [] \<and> i \<noteq> skip \<and> str_contains intent_key i)"

definition evaluate_route_match :: "string \<Rightarrow> string \<Rightarrow> string list \<Rightarrow> route_match" where
  "evaluate_route_match intent_key0 skip_habit_id0 habits =
     (let intent_key = dc_token intent_key0 120; skip = dc_token skip_habit_id0 120 in
      if intent_key = [] then \<lparr> rm_matched_id = None, rm_match_strategy = ''none'' \<rparr>
      else case find (habit_exact intent_key skip) habits of
        Some habit \<Rightarrow> \<lparr> rm_matched_id = Some (dc_clean_text habit 160), rm_match_strategy = ''exact'' \<rparr>
      | None \<Rightarrow>
          (case find (habit_inside intent_key skip) habits of
             Some habit \<Rightarrow> \<lparr> rm_matched_id = Some (dc_clean_text habit 160), rm_match_strategy = ''token'' \<rparr>
           | None \<Rightarrow> \<lparr> rm_matched_id = None, rm_match_strategy = ''none'' \<rparr>))"

record reflex_routine =
  rr_id :: string
  rr_status :: string
  rr_tags :: "string list"

definition routine_enabled :: "reflex_routine \<Rightarrow> bool" where
  "routine_enabled routine = (dc_token (rr_status routine) 32 = ''enabled'')"

definition reflex_direct :: "string \<Rightarrow> reflex_routine \<Rightarrow> bool" where
  "reflex_direct intent_key_lower routine =
     (routine_enabled routine \<and>
      (let i = dc_token (rr_id routine) 120 in
       i \<noteq> [] \<and> (i = intent_key_lower \<or> str_contains intent_key_lower i)))"

definition reflex_tagged :: "string \<Rightarrow> reflex_routine \<Rightarrow> bool" where
  "reflex_tagged task_text routine =
     (routine_enabled routine \<and>
      (let tags = filter (\<lambda>t. t \<noteq> []) (map (\<lambda>t. dc_token t 120) (rr_tags routine)) in
       tags \<noteq> [] \<and> list_ex (\<lambda>t. str_contains task_text t) tags))"

definition evaluate_route_reflex_match :: "string \<Rightarrow> string \<Rightarrow> reflex_routine list \<Rightarrow> route_match" where
  "evaluate_route_reflex_match intent_key0 task_text0 routines =
     (let intent_key_lower = to_ascii_lowercase (dc_token intent_key0 200);
          task_text = to_ascii_lowercase (dc_clean_text task_text0 2000)
      in case find (reflex_direct intent_key_lower) routines of
           Some routine \<Rightarrow> \<lparr> rm_matched_id = Some (dc_clean_text (rr_id routine) 160), rm_match_strategy = ''direct_id'' \<rparr>
         | None \<Rightarrow>
             (case find (reflex_tagged task_text) routines of
                Some routine \<Rightarrow> \<lparr> rm_matched_id = Some (dc_clean_text (rr_id routine) 160), rm_match_strategy = ''tag'' \<rparr>
              | None \<Rightarrow> \<lparr> rm_matched_id = None, rm_match_strategy = ''none'' \<rparr>))"

section \<open>Complexity and the whole evaluation\<close>

definition evaluate_route_complexity :: "string \<Rightarrow> int \<Rightarrow> bool \<Rightarrow> bool \<Rightarrow> string \<times> string" where
  "evaluate_route_complexity task_text tokens_est has_match any_trigger =
     (if tokens_est \<ge> 2500 then (''high'', ''tokens_est_high'')
      else if tokens_est \<ge> 800 then (''medium'', ''tokens_est_medium'')
      else if length (dc_clean_text task_text 5000) \<ge> 240 then (''medium'', ''task_text_length'')
      else if has_match \<or> any_trigger then (''medium'', if has_match then ''has_match'' else ''any_trigger'')
      else (''low'', ''default_low''))"

record route_request =
  rq_task_text :: string
  rq_tokens_est :: int
  rq_repeats_14d :: int
  rq_errors_30d :: int
  rq_skip_habit_id :: string
  rq_habits :: "string list"
  rq_reflex_routines :: "reflex_routine list"

record route_evaluation =
  re_primitives :: route_primitives
  re_habit :: route_match
  re_reflex :: route_match
  re_complexity :: string
  re_complexity_reason :: string

definition evaluate_route :: "route_request \<Rightarrow> route_evaluation" where
  "evaluate_route req =
     (let primitives = evaluate_route_primitives (rq_task_text req) (rq_tokens_est req) (rq_repeats_14d req)
            (rq_errors_30d req);
          habit_match = evaluate_route_match (rp_intent_key primitives) (rq_skip_habit_id req) (rq_habits req);
          reflex_match = evaluate_route_reflex_match (rp_intent_key primitives) (rq_task_text req)
            (rq_reflex_routines req);
          complexity = evaluate_route_complexity (rq_task_text req) (rq_tokens_est req)
            (rm_matched_id habit_match \<noteq> None) (rp_any_trigger primitives)
      in \<lparr> re_primitives = primitives, re_habit = habit_match, re_reflex = reflex_match,
           re_complexity = fst complexity, re_complexity_reason = snd complexity \<rparr>)"

section \<open>The decision\<close>

definition normalize_route_state :: "string \<Rightarrow> string" where
  "normalize_route_state raw =
     (let s = to_ascii_lowercase (trim raw) in
      if s = ''active'' then ''active'' else if s = ''candidate'' then ''candidate'' else ''other'')"

record decision_request =
  dr_matched_habit_id :: string
  dr_matched_habit_state :: string
  dr_matched_reflex_id :: string
  dr_reflex_eligible :: bool
  dr_has_required_inputs :: bool
  dr_required_input_count :: int
  dr_trusted_entrypoint :: bool
  dr_any_trigger :: bool
  dr_predicted_habit_id :: string

record decision_response =
  ds_decision :: string
  ds_reason_code :: string
  ds_suggested_habit_id :: "string option"
  ds_auto_habit_flow :: bool

definition habit_decision :: "decision_request \<Rightarrow> decision_response" where
  "habit_decision req =
     (let habit = trim (dr_matched_habit_id req);
          state = normalize_route_state (dr_matched_habit_state req);
          respond = (\<lambda>d r. \<lparr> ds_decision = d, ds_reason_code = r, ds_suggested_habit_id = Some habit,
            ds_auto_habit_flow = False \<rparr>)
      in if state = ''active'' \<or> state = ''candidate''
         then (if dr_has_required_inputs req \<or> dr_required_input_count req > 0
               then respond ''MANUAL'' ''required_inputs''
               else if \<not> dr_trusted_entrypoint req then respond ''MANUAL'' ''untrusted_entrypoint''
               else respond (if state = ''active'' then ''RUN_HABIT'' else ''RUN_CANDIDATE_FOR_VERIFICATION'')
                      (if state = ''active'' then ''active_match'' else ''candidate_match''))
         else respond ''MANUAL'' ''matched_state_not_runnable'')"

definition evaluate_route_decision :: "decision_request \<Rightarrow> decision_response" where
  "evaluate_route_decision req =
     (let predicted = trim (dr_predicted_habit_id req) in
      if dr_reflex_eligible req \<and> trim (dr_matched_reflex_id req) \<noteq> []
      then \<lparr> ds_decision = ''RUN_REFLEX'', ds_reason_code = ''reflex_match'', ds_suggested_habit_id = None,
             ds_auto_habit_flow = False \<rparr>
      else if trim (dr_matched_habit_id req) \<noteq> [] then habit_decision req
      else if dr_any_trigger req
      then \<lparr> ds_decision = ''RUN_CANDIDATE_FOR_VERIFICATION'', ds_reason_code = ''trigger_autocrystallize'',
             ds_suggested_habit_id = (if predicted = [] then None else Some predicted), ds_auto_habit_flow = True \<rparr>
      else \<lparr> ds_decision = ''MANUAL'', ds_reason_code = ''no_match_no_trigger'', ds_suggested_habit_id = None,
             ds_auto_habit_flow = False \<rparr>)"

record readiness_request =
  hq_habit_state :: string
  hq_entrypoint_resolved :: string
  hq_trusted_entrypoints :: "string list"
  hq_required_inputs :: "string list"

record readiness_response =
  hp_state :: string
  hp_required_inputs :: "string list"
  hp_trusted_entrypoint :: bool
  hp_runnable :: bool
  hp_reason_code :: string

definition evaluate_route_habit_readiness :: "readiness_request \<Rightarrow> readiness_response" where
  "evaluate_route_habit_readiness req =
     (let state = normalize_route_state (hq_habit_state req);
          required_inputs = trimmed_rows (hq_required_inputs req);
          entrypoint = trim (hq_entrypoint_resolved req);
          trusted = (if entrypoint = [] then False
                     else list_ex (\<lambda>candidate. trim candidate = entrypoint) (hq_trusted_entrypoints req));
          runnable_state = (state = ''active'' \<or> state = ''candidate'')
      in \<lparr> hp_state = state, hp_required_inputs = required_inputs, hp_trusted_entrypoint = trusted,
           hp_runnable = (runnable_state \<and> required_inputs = [] \<and> trusted),
           hp_reason_code =
             (if \<not> runnable_state then ''matched_state_not_runnable''
              else if required_inputs \<noteq> [] then ''required_inputs''
              else if \<not> trusted then ''untrusted_entrypoint''
              else if state = ''active'' then ''runnable_active'' else ''runnable_candidate'') \<rparr>)"

section \<open>Cleaning is stable\<close>

text \<open>A text whose white space is single blanks; the flag says that a blank came before.\<close>

fun squeezed :: "bool \<Rightarrow> string \<Rightarrow> bool" where
  "squeezed b [] = True"
| "squeezed b (c # cs) = (if is_ws c then \<not> b \<and> c = CHR '' '' \<and> squeezed True cs else squeezed False cs)"

lemma is_ws_blank [simp]: "is_ws CHR '' ''"
  by (simp add: is_ws_def char_nat_def Let_def)

lemma squeezed_replace_runs: "squeezed b (replace_runs is_ws CHR '' '' b s)"
  by (induction s arbitrary: b) auto

lemma replace_runs_squeezed: "squeezed b s \<Longrightarrow> replace_runs is_ws CHR '' '' b s = s"
  by (induction s arbitrary: b) (auto split: if_splits)

lemma squeezed_False: "squeezed b s \<Longrightarrow> squeezed False s"
  by (cases s) (auto split: if_splits)

lemma squeezed_take: "squeezed b s \<Longrightarrow> squeezed b (take n s)"
  by (induction s arbitrary: b n) (auto simp: take_Cons split: nat.splits if_splits)

lemma squeezed_dropWhile: "squeezed b s \<Longrightarrow> squeezed False (dropWhile is_ws s)"
  by (induction s arbitrary: b) (auto split: if_splits)

lemma squeezed_last_two: "squeezed b (xs @ [a, c]) \<Longrightarrow> is_ws c \<Longrightarrow> \<not> is_ws a"
  by (induction xs arbitrary: b) (auto split: if_splits)

lemma trim_prefix: "trim s = take (length (trim s)) (dropWhile is_ws s)"
proof -
  have "rev (dropWhile is_ws (rev t)) = take (length t - length (takeWhile is_ws (rev t))) t" for t
    by (simp add: dropWhile_eq_drop rev_drop)
  then obtain k where "trim s = take k (dropWhile is_ws s)" unfolding trim_def by blast
  then show ?thesis by (simp add: min_def)
qed

lemma squeezed_trim: "squeezed b s \<Longrightarrow> squeezed False (trim s)"
  by (metis squeezed_dropWhile squeezed_take trim_prefix)

lemma trim_squeezed:
  assumes "squeezed False s" and "s \<noteq> []" and "\<not> is_ws (hd s)"
  shows "trim s = (if is_ws (last s) then butlast s else s)"
proof (cases "is_ws (last s)")
  case True
  then have "butlast s \<noteq> []" using assms by (cases s) auto
  then obtain xs a where b: "butlast s = xs @ [a]" by (metis append_butlast_last_id)
  then have s: "s = xs @ [a, last s]" using assms(2) by (metis append.assoc append_Cons append_Nil append_butlast_last_id)
  then have "\<not> is_ws a" using True assms(1) squeezed_last_two by metis
  have "dropWhile is_ws s = s" using assms by (cases s) simp_all
  moreover have "rev s = last s # a # rev xs" using arg_cong [OF s, of rev] by simp
  then have "dropWhile is_ws (rev s) = a # rev xs" using True \<open>\<not> is_ws a\<close> by (simp only: dropWhile.simps if_True if_False)
  ultimately show ?thesis using True b by (simp add: trim_def)
next
  case False
  then show ?thesis using assms trim_id by simp
qed

text \<open>Cleaning a text that was cleaned to a greater length gives what cleaning the original gives.\<close>

lemma dc_clean_text_twice:
  assumes "n < m"
  shows "dc_clean_text (dc_clean_text s m) n = dc_clean_text s n"
proof -
  let ?t = "trim (replace_runs is_ws CHR '' '' False s)"
  have sq: "squeezed False ?t" by (rule squeezed_trim [OF squeezed_replace_runs])
  have again: "replace_runs is_ws CHR '' '' False (take m ?t) = take m ?t"
    by (rule replace_runs_squeezed [OF squeezed_take [OF sq]])
  have "take n (trim (take m ?t)) = take n ?t"
  proof (cases "take m ?t = []")
    case False
    then have "?t \<noteq> []" by auto
    then have "\<not> is_ws (hd (take m ?t))" using False hd_trim by simp
    then have "trim (take m ?t) = (if is_ws (last (take m ?t)) then butlast (take m ?t) else take m ?t)"
      using trim_squeezed [OF squeezed_take [OF sq]] False by blast
    moreover have "is_ws (last (take m ?t)) \<Longrightarrow> m < length ?t"
      using last_trim \<open>?t \<noteq> []\<close> by (metis not_less take_all_iff)
    ultimately show ?thesis using assms by (auto simp: butlast_take min_def)
  qed (use assms in simp)
  then show ?thesis by (simp add: dc_clean_text_def again)
qed

lemma dc_token_clean: "n < m \<Longrightarrow> dc_token (dc_clean_text s m) n = dc_token s n"
  by (simp add: dc_token_def dc_clean_text_twice)

section \<open>What the router matches\<close>

lemma dc_token_Nil [simp]: "dc_token [] n = []"
  by (simp add: dc_token_def dc_clean_text_def to_ascii_lowercase_def trim_matches_def)

text \<open>A habit is matched exactly when the normalised intent contains the normalised id of a habit that is
  not skipped; the id that is returned normalises to that of the habit, so it finds the habit again.\<close>

lemma habit_match_exact:
  assumes "dc_token intent 120 \<noteq> []"
  shows "case rm_matched_id (evaluate_route_match intent skip habits) of
      None \<Rightarrow> list_all (\<lambda>h. \<not> habit_inside (dc_token intent 120) (dc_token skip 120) h) habits
    | Some i \<Rightarrow> habit_inside (dc_token intent 120) (dc_token skip 120) i \<and>
        list_ex (\<lambda>h. dc_token h 120 = dc_token i 120) habits"
proof -
  let ?I = "dc_token intent 120" and ?S = "dc_token skip 120"
  have sub: "habit_exact ?I ?S h \<Longrightarrow> habit_inside ?I ?S h" for h
    by (auto simp: habit_exact_def habit_inside_def Let_def str_contains_iff_sublist)
  have found: "habit_inside ?I ?S (dc_clean_text h 160) \<and> list_ex (\<lambda>h'. dc_token h' 120 = dc_token (dc_clean_text h 160) 120) habits"
    if "habit_inside ?I ?S h" "h \<in> set habits" for h
    using that by (auto simp: habit_inside_def Let_def dc_token_clean list_ex_iff)
  show ?thesis
  proof (cases "find (habit_exact ?I ?S) habits")
    case (Some h)
    then have "habit_exact ?I ?S h" "h \<in> set habits" by (auto simp: find_Some_iff)
    then have "habit_inside ?I ?S h" "h \<in> set habits" using sub by simp_all
    then show ?thesis using assms Some found by (simp add: evaluate_route_match_def Let_def)
  next
    case N: None
    show ?thesis
    proof (cases "find (habit_inside ?I ?S) habits")
      case None
      then have "list_all (\<lambda>h. \<not> habit_inside ?I ?S h) habits" by (simp add: find_None_iff list_all_iff)
      then show ?thesis using assms N None by (simp add: evaluate_route_match_def Let_def)
    next
      case (Some h)
      then have "habit_inside ?I ?S h" "h \<in> set habits" by (auto simp: find_Some_iff)
      then show ?thesis using assms N Some found by (simp add: evaluate_route_match_def Let_def)
    qed
  qed
qed

lemma reflex_match_enabled:
  "rm_matched_id (evaluate_route_reflex_match intent_key task_text routines) = Some i \<Longrightarrow>
   \<exists>r \<in> set routines. routine_enabled r \<and> i = dc_clean_text (rr_id r) 160"
  by (auto simp: evaluate_route_reflex_match_def Let_def reflex_direct_def reflex_tagged_def find_Some_iff
      split: option.splits)

text \<open>The match is on text and not on words: a short id is found inside other words. A reflex found by a tag may
  have no id.\<close>

lemma habit_matches_inside_word:
  "rm_matched_id (evaluate_route_match ''recategorise_files'' [] [''cat'']) = Some ''cat''"
  by code_simp

lemma reflex_tag_without_id:
  "rm_matched_id (evaluate_route_reflex_match [] ''run tests''
     [\<lparr> rr_id = '' '', rr_status = ''enabled'', rr_tags = [''tests''] \<rparr>]) = Some []"
  by code_simp

section \<open>What the router decides\<close>

lemmas route_decision_defs = evaluate_route_decision_def habit_decision_def evaluate_route_habit_readiness_def

lemma normalize_route_state_words [simp]:
  "normalize_route_state ''active'' = ''active''" "normalize_route_state ''candidate'' = ''candidate''"
  "normalize_route_state ''other'' = ''other''"
  by code_simp+

lemma normalize_route_state_cases:
  "normalize_route_state s = ''active'' \<or> normalize_route_state s = ''candidate'' \<or> normalize_route_state s = ''other''"
  by (simp add: normalize_route_state_def Let_def)

text \<open>The request the router makes from the readiness of the matched habit.\<close>

definition with_readiness :: "readiness_response \<Rightarrow> decision_request \<Rightarrow> decision_request" where
  "with_readiness r req = req\<lparr> dr_matched_habit_state := hp_state r,
     dr_has_required_inputs := (hp_required_inputs r \<noteq> []),
     dr_required_input_count := int (length (hp_required_inputs r)),
     dr_trusted_entrypoint := hp_trusted_entrypoint r \<rparr>"

text \<open>The router runs something exactly in three cases: an eligible reflex matched; else a habit matched whose
  readiness is runnable, that is, its state is active or candidate, no input is required and its entry
  point is trusted; else no habit matched and a trigger asks for a new one. Everything else is left to a
  person, with the reason the readiness gives.\<close>

lemma route_runs_iff:
  assumes "r = evaluate_route_habit_readiness hq"
    and "d = evaluate_route_decision (with_readiness r req)"
    and "reflex \<longleftrightarrow> dr_reflex_eligible req \<and> trim (dr_matched_reflex_id req) \<noteq> []"
    and "habit \<longleftrightarrow> trim (dr_matched_habit_id req) \<noteq> []"
  shows "(ds_decision d \<noteq> ''MANUAL'' \<longleftrightarrow>
      reflex \<or> \<not> reflex \<and> habit \<and> hp_runnable r \<or> \<not> reflex \<and> \<not> habit \<and> dr_any_trigger req) \<and>
    (ds_decision d = ''RUN_HABIT'' \<longleftrightarrow> \<not> reflex \<and> habit \<and> hp_runnable r \<and> hp_state r = ''active'') \<and>
    (\<not> reflex \<and> habit \<and> \<not> hp_runnable r \<longrightarrow> ds_reason_code d = hp_reason_code r)"
proof -
  have "hp_state r = normalize_route_state (hq_habit_state hq)"
    by (simp add: assms(1) evaluate_route_habit_readiness_def Let_def)
  then consider "hp_state r = ''active''" | "hp_state r = ''candidate''" | "hp_state r = ''other''"
    using normalize_route_state_cases by metis
  note states = this
  have run: "hp_runnable r \<longleftrightarrow> (hp_state r = ''active'' \<or> hp_state r = ''candidate'') \<and> hp_required_inputs r = [] \<and>
      hp_trusted_entrypoint r"
    and why: "hp_reason_code r =
      (if \<not> (hp_state r = ''active'' \<or> hp_state r = ''candidate'') then ''matched_state_not_runnable''
       else if hp_required_inputs r \<noteq> [] then ''required_inputs''
       else if \<not> hp_trusted_entrypoint r then ''untrusted_entrypoint''
       else if hp_state r = ''active'' then ''runnable_active'' else ''runnable_candidate'')"
    by (simp_all only: assms(1) evaluate_route_habit_readiness_def Let_def readiness_response.simps)
  note defs = evaluate_route_decision_def habit_decision_def Let_def with_readiness_def run why
  show ?thesis
    by (rule states; cases reflex; cases habit) (simp_all add: assms(2) defs flip: assms(3,4))
qed

definition sample_readiness :: readiness_request where
  "sample_readiness = \<lparr> hq_habit_state = ''Active '', hq_entrypoint_resolved = ''/opt/h.ts'',
     hq_trusted_entrypoints = [''/opt/h.ts''], hq_required_inputs = [] \<rparr>"

definition sample_route_decision :: decision_request where
  "sample_route_decision = \<lparr> dr_matched_habit_id = ''h'', dr_matched_habit_state = [], dr_matched_reflex_id = [],
     dr_reflex_eligible = True, dr_has_required_inputs = False, dr_required_input_count = 0,
     dr_trusted_entrypoint = False, dr_any_trigger = False, dr_predicted_habit_id = [] \<rparr>"

lemma route_runs_iff_witness:
  "ds_decision (evaluate_route_decision
     (with_readiness (evaluate_route_habit_readiness sample_readiness) sample_route_decision)) = ''RUN_HABIT''"
proof -
  have "hp_runnable (evaluate_route_habit_readiness sample_readiness)"
    "hp_state (evaluate_route_habit_readiness sample_readiness) = ''active''"
    "trim (dr_matched_habit_id sample_route_decision) \<noteq> []" "trim (dr_matched_reflex_id sample_route_decision) = []"
    by code_simp+
  then show ?thesis using route_runs_iff [OF refl refl refl refl] by blast
qed

text \<open>A trigger is met exactly when it is listed, and the predicted id is a word of the habit alphabet that is
  never empty.\<close>

lemma triggers_listed:
  "rp_any_trigger (evaluate_route_primitives t tok rep err) \<longleftrightarrow>
   rp_which_met (evaluate_route_primitives t tok rep err) \<noteq> []"
  by (simp add: evaluate_route_primitives_def Let_def)

lemma set_trim_matches: "set (trim_matches c s) \<subseteq> set s"
  by (auto simp: trim_matches_def dest!: set_dropWhileD)

lemma replace_runs_chars: "x \<in> set (replace_runs p d b s) \<Longrightarrow> x = d \<or> \<not> p x"
  by (induction s arbitrary: b) (auto split: if_splits)

lemma replace_runs_habit_chars: "list_all is_habit_char (replace_runs (\<lambda>c. \<not> is_habit_char c) CHR ''_'' b s)"
proof -
  have "is_habit_char CHR ''_''" by code_simp
  then show ?thesis using replace_runs_chars by (fastforce simp: list_all_iff)
qed

lemma predicted_habit_wf:
  "predict_route_habit_id intent_key task_text \<noteq> [] \<and> length (predict_route_habit_id intent_key task_text) \<le> 48 \<and>
   list_all is_habit_char (predict_route_habit_id intent_key task_text)"
proof -
  have "list_all is_habit_char ''habit''" by code_simp
  moreover have "list_all is_habit_char (take 48 (trim_matches CHR ''_'' t))" if "list_all is_habit_char t" for t
    using that set_trim_matches [of _ t] in_set_takeD by (fastforce simp: list_all_iff)
  ultimately show ?thesis
    using replace_runs_habit_chars by (auto simp: predict_route_habit_id_def Let_def)
qed

end
