(* ===== verification/Float_Arith.thy ===== *)
theory Float_Arith
  imports Float_View
begin

text \<open>
  Arithmetic of \<^verbatim>\<open>f64\<close>: the four operations are the exact rational operation followed by rounding to the
  nearest value of the binary64 format, ties to even, as IEEE 754 and Rust prescribe. A finite value is the
  rational it denotes; the two zeros are one value, so a division by zero takes the zero as positive. The
  conversions from integers and to and from the 64 bits of a float are here as well.
\<close>

section \<open>Rounding\<close>

text \<open>The number of binary digits, and the binary logarithm of a positive rational, rounded down.\<close>

function bit_count :: "int \<Rightarrow> nat" where
  "bit_count n = (if n \<le> 0 then 0 else Suc (bit_count (n div 2)))"
  by pat_completeness auto
termination
  by (relation "measure nat") auto

declare bit_count.simps [simp del]

definition pow2 :: "int \<Rightarrow> rat" where
  "pow2 k = (if 0 \<le> k then of_int (2 ^ nat k) else Fract 1 (2 ^ nat (- k)))"

definition log2_floor :: "rat \<Rightarrow> int" where
  "log2_floor q =
     (let (a, b) = quotient_of q; k = int (bit_count a) - int (bit_count b)
      in if pow2 k \<le> q then k else k - 1)"

definition half_even :: "rat \<Rightarrow> int" where
  "half_even q =
     (let f = \<lfloor>q\<rfloor>; d = q - of_int f
      in if d < 1 / 2 then f else if d > 1 / 2 then f + 1 else if even f then f else f + 1)"

definition f64_exponent :: "rat \<Rightarrow> int" where
  "f64_exponent q = max (log2_floor \<bar>q\<bar>) (- 1022)"

definition f64_ulp :: "rat \<Rightarrow> rat" where
  "f64_ulp q = pow2 (f64_exponent q - 52)"

definition rnd_rat :: "rat \<Rightarrow> rat" where
  "rnd_rat q = (if q = 0 then 0 else of_int (half_even (q / f64_ulp q)) * f64_ulp q)"

text \<open>The infinity of a given sign; a rounded value that needs a greater exponent than 1023 is infinite.\<close>

definition f64_inf :: "rat \<Rightarrow> f64" where
  "f64_inf s = (if s = 0 then NaN else if s > 0 then PosInf else NegInf)"

definition f64_rnd :: "rat \<Rightarrow> f64" where
  "f64_rnd q = (let v = rnd_rat q in if f64_exponent v \<ge> 1024 then f64_inf (sgn v) else Fin v)"

section \<open>Operations\<close>

fun f64_neg :: "f64 \<Rightarrow> f64" where
  "f64_neg NaN = NaN"
| "f64_neg PosInf = NegInf"
| "f64_neg NegInf = PosInf"
| "f64_neg (Fin q) = Fin (- q)"

fun f64_add :: "f64 \<Rightarrow> f64 \<Rightarrow> f64" where
  "f64_add (Fin a) (Fin b) = f64_rnd (a + b)"
| "f64_add NaN _ = NaN"
| "f64_add _ NaN = NaN"
| "f64_add PosInf NegInf = NaN"
| "f64_add NegInf PosInf = NaN"
| "f64_add PosInf _ = PosInf"
| "f64_add _ PosInf = PosInf"
| "f64_add NegInf _ = NegInf"
| "f64_add _ NegInf = NegInf"

definition f64_sub :: "f64 \<Rightarrow> f64 \<Rightarrow> f64" where
  "f64_sub x y = f64_add x (f64_neg y)"

text \<open>The sign of a value.\<close>

fun f64_sgn :: "f64 \<Rightarrow> rat" where
  "f64_sgn (Fin q) = sgn q"
| "f64_sgn PosInf = 1"
| "f64_sgn NegInf = - 1"
| "f64_sgn NaN = 0"

definition f64_mul :: "f64 \<Rightarrow> f64 \<Rightarrow> f64" where
  "f64_mul x y =
     (case (x, y) of
        (NaN, _) \<Rightarrow> NaN
      | (_, NaN) \<Rightarrow> NaN
      | (Fin a, Fin b) \<Rightarrow> f64_rnd (a * b)
      | _ \<Rightarrow> f64_inf (f64_sgn x * f64_sgn y))"

definition f64_div :: "f64 \<Rightarrow> f64 \<Rightarrow> f64" where
  "f64_div x y =
     (case (x, y) of
        (NaN, _) \<Rightarrow> NaN
      | (_, NaN) \<Rightarrow> NaN
      | (Fin a, Fin b) \<Rightarrow> if b = 0 then f64_inf (sgn a) else f64_rnd (a / b)
      | (Fin a, _) \<Rightarrow> Fin 0
      | (_, Fin b) \<Rightarrow> f64_inf (f64_sgn x * (if b < 0 then - 1 else 1))
      | _ \<Rightarrow> NaN)"

text \<open>\<^verbatim>\<open>as f64\<close> from the integer types.\<close>

definition f64_of_int :: "int \<Rightarrow> f64" where
  "f64_of_int n = f64_rnd (of_int n)"

abbreviation f64_of_nat :: "nat \<Rightarrow> f64" where
  "f64_of_nat n \<equiv> f64_of_int (int n)"

section \<open>Bits\<close>

definition f64_of_bits :: "u64 \<Rightarrow> f64" where
  "f64_of_bits w =
     (let n = uint w; e = (n div 2 ^ 52) mod 2 ^ 11; m = n mod 2 ^ 52; s = (if n \<ge> 2 ^ 63 then - 1 else 1)
      in if e = 2047 then (if m = 0 then f64_inf s else NaN)
         else if e = 0 then Fin (s * of_int m * pow2 (- 1074))
         else Fin (s * of_int (2 ^ 52 + m) * pow2 (e - 1075)))"

fun f64_to_bits :: "f64 \<Rightarrow> u64" where
  "f64_to_bits NaN = 0x7FF8000000000000"
| "f64_to_bits PosInf = 0x7FF0000000000000"
| "f64_to_bits NegInf = 0xFFF0000000000000"
| "f64_to_bits (Fin q) =
     (if q = 0 then 0
      else word_of_int ((if q < 0 then 2 ^ 63 else 0) + (f64_exponent q + 1022) * 2 ^ 52 + \<lfloor>\<bar>q\<bar> / f64_ulp q\<rfloor>))"

section \<open>Laws of rounding\<close>

lemma pow2_eq [simp]: "pow2 k = 2 powi k"
  by (simp add: pow2_def power_int_def Fract_of_int_quotient field_simps)

lemma bit_count_pos: "0 < n \<Longrightarrow> 1 \<le> bit_count n"
  by (subst bit_count.simps) simp

lemma bit_count_bounds: "0 < n \<Longrightarrow> 2 ^ (bit_count n - 1) \<le> n \<and> n < 2 ^ bit_count n"
proof (induction n rule: bit_count.induct)
  case (1 n)
  have b: "bit_count n = Suc (bit_count (n div 2))" using 1(2) by (subst bit_count.simps) simp
  show ?case
  proof (cases "n = 1")
    case True
    have "bit_count 0 = 0" by (subst bit_count.simps) simp
    then have "bit_count 1 = 1" using b unfolding True by simp
    then show ?thesis unfolding True by simp
  next
    case False
    then have pos: "0 < n div 2" using 1(2) by linarith
    then obtain k where k: "bit_count (n div 2) = Suc k" using bit_count_pos [OF pos] by (auto simp: Suc_le_eq gr0_conv_Suc)
    have "2 ^ k \<le> n div 2" "n div 2 < 2 ^ Suc k" using 1(1) 1(2) pos k by simp_all
    then have "2 * 2 ^ k \<le> n" "n < 4 * 2 ^ k" by simp_all
    then show ?thesis by (simp add: b k)
  qed
qed

lemma bit_count_rat:
  assumes "0 < n"
  shows "(2::rat) ^ (bit_count n - 1) \<le> of_int n" and "of_int n < (2::rat) ^ bit_count n"
proof -
  have "(of_int (2 ^ (bit_count n - 1)) :: rat) \<le> of_int n" "(of_int n :: rat) < of_int (2 ^ bit_count n)"
    using bit_count_bounds [OF assms] by (simp_all only: of_int_le_iff of_int_less_iff)
  then show "(2::rat) ^ (bit_count n - 1) \<le> of_int n" "of_int n < (2::rat) ^ bit_count n"
    by (simp_all only: of_int_power of_int_numeral)
qed

lemma log2_floor_bounds:
  assumes "0 < q"
  shows "2 powi log2_floor q \<le> q \<and> q < 2 powi (log2_floor q + 1)"
proof -
  obtain a b where ab: "quotient_of q = (a, b)" by force
  have b: "0 < b" using quotient_of_denom_pos [OF ab] .
  have q: "q = of_int a / of_int b" by (rule quotient_of_div [OF ab])
  then have a: "0 < a" using assms b by (simp add: zero_less_divide_iff)
  let ?x = "bit_count a" and ?y = "bit_count b"
  have fx: "1 \<le> ?x" "1 \<le> ?y" using a b bit_count_pos by blast+
  note A = bit_count_rat [OF a] and B = bit_count_rat [OF b]
  let ?k = "int ?x - int ?y"
  have lo: "2 powi (?k - 1) \<le> q"
  proof -
    have "(2::rat) powi (?k - 1) = 2 ^ (?x - 1) / 2 ^ ?y"
      using fx by (simp add: power_int_diff power_diff)
    also have "\<dots> \<le> of_int a / of_int b" using A B a b by (intro frac_le) auto
    finally show ?thesis by (simp add: q)
  qed
  have hi: "q < 2 powi (?k + 1)"
  proof -
    have "of_int a / of_int b < (2::rat) ^ ?x / 2 ^ (?y - 1)" using A B a by (intro frac_less) auto
    also have "\<dots> = 2 powi (?k + 1)"
      using fx by (simp add: power_int_diff power_int_add power_diff field_simps)
    finally show ?thesis by (simp add: q)
  qed
  show ?thesis using lo hi by (auto simp: log2_floor_def ab Let_def)
qed

lemma powi_less_imp_less: "(2::rat) powi a < 2 powi b \<Longrightarrow> a < b"
  by (metis not_less one_le_numeral power_int_increasing)

lemma log2_floor_unique:
  assumes "0 < q" and "2 powi k \<le> q" and "q < 2 powi (k + 1)"
  shows "log2_floor q = k"
proof -
  note b = log2_floor_bounds [OF assms(1)]
  have "(2::rat) powi k < 2 powi (log2_floor q + 1)" "(2::rat) powi log2_floor q < 2 powi (k + 1)"
    using b assms by linarith+
  then have "k < log2_floor q + 1" "log2_floor q < k + 1"
    using powi_less_imp_less by blast+
  then show ?thesis by linarith
qed

lemma log2_floor_mono:
  assumes "0 < p" and "p \<le> q"
  shows "log2_floor p \<le> log2_floor q"
proof -
  have "(2::rat) powi log2_floor p < 2 powi (log2_floor q + 1)"
    using log2_floor_bounds [of p] log2_floor_bounds [of q] assms by linarith
  then have "log2_floor p < log2_floor q + 1" by (rule powi_less_imp_less)
  then show ?thesis by linarith
qed

lemma half_even_int [simp]: "half_even (of_int n) = n"
  by (simp add: half_even_def)

lemma half_even_bounds: "\<lfloor>q\<rfloor> \<le> half_even q" "half_even q \<le> \<lfloor>q\<rfloor> + 1"
  by (simp_all add: half_even_def Let_def)

lemma half_even_mono:
  assumes "p \<le> q"
  shows "half_even p \<le> half_even q"
proof (cases "\<lfloor>p\<rfloor> = \<lfloor>q\<rfloor>")
  case True
  then show ?thesis using assms by (auto simp: half_even_def Let_def)
next
  case False
  then have "\<lfloor>p\<rfloor> + 1 \<le> \<lfloor>q\<rfloor>" using floor_mono [OF assms] by linarith
  then show ?thesis using half_even_bounds [of p] half_even_bounds [of q] by linarith
qed

lemma half_even_neg: "half_even (- q) = - half_even q"
proof (cases "q = of_int \<lfloor>q\<rfloor>")
  case True
  then show ?thesis by (metis half_even_int of_int_minus)
next
  case False
  then have "of_int \<lfloor>q\<rfloor> < q" "q < of_int (\<lfloor>q\<rfloor> + 1)" by linarith+
  then have f: "\<lfloor>- q\<rfloor> = - \<lfloor>q\<rfloor> - 1" by linarith
  have "\<lfloor>q\<rfloor> \<noteq> 0 \<or> \<lfloor>q\<rfloor> = 0" by simp
  show ?thesis unfolding half_even_def Let_def f by (auto simp: field_simps)
qed

lemma f64_ulp_pos [simp]: "0 < f64_ulp q"
  by (simp add: f64_ulp_def)

lemma f64_ulp_neg [simp]: "f64_ulp (- q) = f64_ulp q"
  by (simp add: f64_ulp_def f64_exponent_def)

lemma rnd_rat_0 [simp]: "rnd_rat 0 = 0"
  by (simp add: rnd_rat_def)

lemma rnd_rat_neg: "rnd_rat (- q) = - rnd_rat q"
  by (simp add: rnd_rat_def half_even_neg)

lemma rnd_rat_nonneg: "0 \<le> q \<Longrightarrow> 0 \<le> rnd_rat q"
proof -
  assume "0 \<le> q"
  then have "0 \<le> q / f64_ulp q" by (simp add: less_imp_le)
  then have "half_even 0 \<le> half_even (q / f64_ulp q)" by (rule half_even_mono)
  moreover have "half_even 0 = 0" using half_even_int [of 0] by simp
  ultimately show ?thesis by (simp add: rnd_rat_def less_imp_le)
qed

text \<open>In one binade the quotient by the unit is between two powers of two, and so is its rounding.\<close>

lemma rnd_rat_binade:
  assumes "0 < q"
  shows "rnd_rat q \<le> 2 powi (f64_exponent q + 1)"
    and "- 1022 \<le> log2_floor q \<Longrightarrow> 2 powi f64_exponent q \<le> rnd_rat q"
proof -
  let ?e = "f64_exponent q"
  have e: "2 powi (?e + 1) = of_int (2 ^ 53) * f64_ulp q" "2 powi ?e = of_int (2 ^ 52) * f64_ulp q"
    by (simp_all add: f64_ulp_def power_int_diff power_int_add)
  have "q < 2 powi (log2_floor q + 1)" using log2_floor_bounds [OF assms] by blast
  also have "\<dots> \<le> 2 powi (?e + 1)" using assms by (intro power_int_increasing) (auto simp: f64_exponent_def)
  finally have "q / f64_ulp q \<le> of_int (2 ^ 53)" unfolding e by (simp add: pos_divide_le_eq less_imp_le)
  then have "half_even (q / f64_ulp q) \<le> 2 ^ 53" using half_even_mono half_even_int by metis
  then have "(of_int (half_even (q / f64_ulp q)) :: rat) \<le> of_int (2 ^ 53)" by (simp only: of_int_le_iff)
  then show "rnd_rat q \<le> 2 powi (?e + 1)"
    using assms unfolding e rnd_rat_def by (simp add: mult_right_mono less_imp_le del: of_int_power)
  assume "- 1022 \<le> log2_floor q"
  then have "?e = log2_floor q" using assms by (simp add: f64_exponent_def)
  then have "2 powi ?e \<le> q" using log2_floor_bounds [OF assms] by simp
  then have "of_int (2 ^ 52) \<le> q / f64_ulp q" unfolding e by (simp add: pos_le_divide_eq)
  then have "2 ^ 52 \<le> half_even (q / f64_ulp q)" using half_even_mono half_even_int by metis
  then have "of_int (2 ^ 52) \<le> (of_int (half_even (q / f64_ulp q)) :: rat)" by (simp only: of_int_le_iff)
  then show "2 powi ?e \<le> rnd_rat q"
    using assms unfolding e rnd_rat_def by (simp add: mult_right_mono less_imp_le del: of_int_power)
qed

lemma rnd_rat_mono_pos:
  assumes "0 < p" and "p \<le> q"
  shows "rnd_rat p \<le> rnd_rat q"
proof (cases "f64_exponent p = f64_exponent q")
  case True
  then have u: "f64_ulp p = f64_ulp q" by (simp add: f64_ulp_def)
  have "half_even (p / f64_ulp q) \<le> half_even (q / f64_ulp q)"
    using assms by (intro half_even_mono divide_right_mono) (simp_all add: less_imp_le)
  then show ?thesis using assms by (simp add: rnd_rat_def u mult_right_mono less_imp_le)
next
  case False
  have "log2_floor p \<le> log2_floor q" using log2_floor_mono assms by blast
  then have lt: "f64_exponent p + 1 \<le> f64_exponent q" and big: "- 1022 \<le> log2_floor q"
    using False assms by (auto simp: f64_exponent_def max_def split: if_splits)
  have "rnd_rat p \<le> 2 powi (f64_exponent p + 1)" using rnd_rat_binade(1) assms by blast
  also have "\<dots> \<le> 2 powi f64_exponent q" using lt by (intro power_int_increasing) auto
  also have "\<dots> \<le> rnd_rat q" using rnd_rat_binade(2) [OF _ big] assms by simp
  finally show ?thesis .
qed

lemma rnd_rat_mono: "p \<le> q \<Longrightarrow> rnd_rat p \<le> rnd_rat q"
proof -
  assume pq: "p \<le> q"
  consider "0 < p" | "p \<le> 0" "0 \<le> q" | "q < 0" by linarith
  then show ?thesis
  proof cases
    case 1
    then show ?thesis using pq rnd_rat_mono_pos by blast
  next
    case 2
    then show ?thesis using rnd_rat_nonneg [of q] rnd_rat_nonneg [of "- p"] by (simp add: rnd_rat_neg)
  next
    case 3
    then show ?thesis using rnd_rat_mono_pos [of "- q" "- p"] pq by (simp add: rnd_rat_neg)
  qed
qed

text \<open>Integers of up to 53 bits are exact, so sums of counts are, and rounding keeps to bounds that are exact.\<close>

lemma rnd_rat_of_int:
  assumes "\<bar>n\<bar> < 2 ^ 53"
  shows "rnd_rat (of_int n) = of_int n"
proof (cases "n = 0")
  case False
  let ?q = "\<bar>of_int n\<bar> :: rat" and ?e = "f64_exponent (of_int n)"
  have p: "0 < ?q" using False by simp
  have "1 \<le> ?q" using False by simp
  then have "(2::rat) powi 0 < 2 powi (log2_floor ?q + 1)" using log2_floor_bounds [OF p] by simp
  then have ge: "0 \<le> log2_floor ?q" using powi_less_imp_less [of 0 "log2_floor ?q + 1"] by simp
  have "?q < 2 powi 53" using assms by (simp flip: of_int_abs)
  then have "(2::rat) powi log2_floor ?q < 2 powi 53" using log2_floor_bounds [OF p] by linarith
  then have "log2_floor ?q < 53" by (rule powi_less_imp_less)
  then have e: "?e - 52 = - int (nat (52 - ?e))" "0 \<le> ?e" using ge by (auto simp: f64_exponent_def)
  have u: "f64_ulp (of_int n) = 1 / 2 ^ nat (52 - ?e)" unfolding f64_ulp_def using e by (simp only: pow2_eq power_int_minus power_int_of_nat inverse_eq_divide)
  then have "of_int n / f64_ulp (of_int n) = (of_int (n * 2 ^ nat (52 - ?e)) :: rat)" by simp
  then have "half_even (of_int n / f64_ulp (of_int n)) = n * 2 ^ nat (52 - ?e)" by (simp only: half_even_int)
  then show ?thesis using False by (simp add: rnd_rat_def u)
qed simp

lemma f64_of_int_exact:
  assumes "\<bar>n\<bar> < 2 ^ 53"
  shows "f64_of_int n = Fin (of_int n)"
proof -
  have "log2_floor \<bar>of_int n\<bar> < 53" if "n \<noteq> 0"
  proof -
    have "\<bar>of_int n\<bar> < (2::rat) powi 53" using assms by (simp flip: of_int_abs)
    moreover have "0 < \<bar>of_int n :: rat\<bar>" using that by simp
    ultimately show ?thesis using log2_floor_bounds [of "\<bar>of_int n\<bar>"] powi_less_imp_less by (meson le_less_trans)
  qed
  moreover have "f64_exponent 0 < 1024" by code_simp
  ultimately have "f64_exponent (of_int n) < 1024" by (cases "n = 0") (auto simp: f64_exponent_def)
  then show ?thesis using rnd_rat_of_int [OF assms] by (simp add: f64_of_int_def f64_rnd_def Let_def)
qed

lemma f64_exponent_mono: "p \<noteq> 0 \<Longrightarrow> \<bar>p\<bar> \<le> \<bar>q\<bar> \<Longrightarrow> f64_exponent p \<le> f64_exponent q"
  unfolding f64_exponent_def using log2_floor_mono [of "\<bar>p\<bar>" "\<bar>q\<bar>"] by (auto simp: max_def)

lemma f64_exponent_0 [simp]: "f64_exponent 0 < 1024"
  by code_simp

lemma f64_rnd_mono: "p \<le> q \<Longrightarrow> f64_le (f64_rnd p) (f64_rnd q)"
proof -
  assume "p \<le> q"
  then have le: "rnd_rat p \<le> rnd_rat q" by (rule rnd_rat_mono)
  let ?v = "rnd_rat p" and ?w = "rnd_rat q"
  have up: "1024 \<le> f64_exponent ?w" if "1024 \<le> f64_exponent ?v" "0 < ?v"
    using f64_exponent_mono [of ?v ?w] le that by auto
  have dn: "1024 \<le> f64_exponent ?v" if "1024 \<le> f64_exponent ?w" "?w < 0"
    using f64_exponent_mono [of ?w ?v] le that by auto
  have nz: "?v \<noteq> 0 \<or> \<not> 1024 \<le> f64_exponent ?v" "?w \<noteq> 0 \<or> \<not> 1024 \<le> f64_exponent ?w"
    using f64_exponent_0 by (metis not_le)+
  show ?thesis
    using le up dn nz by (auto simp: f64_rnd_def Let_def f64_le_def f64_eq_def f64_inf_def sgn_if split: if_splits)
qed

lemma f64_clamp_bounds:
  assumes "f64_le lo hi" and "x \<noteq> NaN"
  shows "f64_le lo (f64_clamp lo hi x) \<and> f64_le (f64_clamp lo hi x) hi"
  using assms by (cases lo; cases hi; cases x) (auto simp: f64_clamp_def f64_le_def f64_eq_def)

end
