(* ===== verification/Goal_Decompose.thy ===== *)
theory Goal_Decompose
  imports Task_Router Float_Arith Sample_Libs
begin

text \<open>
  The decomposition of a goal into micro tasks (\<^verbatim>\<open>core/layer2/execution/src/decompose.rs\<close>): the recursive split of
  the text, the removal of duplicates, the estimate of minutes, the capability, the lane and the share of
  tasks for people. SHA-256 is the argument \<open>L\<close>. \<^verbatim>\<open>clamp\<close> panics when its bounds are not ordered, so the
  estimate and everything built on it is optional.
\<close>

section \<open>Policies and tasks\<close>

record decompose_policy =
  dp_max_depth :: nat
  dp_max_micro_tasks :: nat
  dp_max_words_per_leaf :: nat
  dp_min_minutes :: nat
  dp_max_minutes :: nat
  dp_max_groups :: nat
  dp_default_lane :: string
  dp_storm_lane :: string
  dp_human_lane_keywords :: "string list"
  dp_autonomous_lane_keywords :: "string list"
  dp_min_storm_share :: f64

definition default_lane :: string where
  "default_lane = ''autonomous_micro_agent''"

definition default_storm_lane :: string where
  "default_storm_lane = ''storm_human_lane''"

definition default_min_storm_share :: f64 where
  "default_min_storm_share = f64_div (f64_of_int 15) (f64_of_int 100)"

definition decompose_policy_default :: decompose_policy where
  "decompose_policy_default = \<lparr> dp_max_depth = 4, dp_max_micro_tasks = 96, dp_max_words_per_leaf = 18,
     dp_min_minutes = 1, dp_max_minutes = 5, dp_max_groups = 8, dp_default_lane = default_lane,
     dp_storm_lane = default_storm_lane, dp_human_lane_keywords = [], dp_autonomous_lane_keywords = [],
     dp_min_storm_share = default_min_storm_share \<rparr>"

record decompose_request =
  dq_run_id :: string
  dq_goal_id :: string
  dq_goal_text :: string
  dq_objective_id :: "string option"
  dq_creator_id :: "string option"
  dq_policy :: decompose_policy

record capability =
  cap_capability_id :: string
  cap_adapter_kind :: string
  cap_source_type :: string

record base_task =
  mt_micro_task_id :: string
  mt_goal_id :: string
  mt_objective_id :: "string option"
  mt_parent_id :: "string option"
  mt_depth :: nat
  mt_index :: nat
  mt_title :: string
  mt_task_text :: string
  mt_estimated_minutes :: nat
  mt_success_criteria :: "string list"
  mt_required_capability :: string
  mt_profile_id :: string
  mt_capability :: capability
  mt_suggested_lane :: string
  mt_parallel_group :: nat
  mt_parallel_priority :: f64

record segment =
  sg_text :: string
  sg_depth :: nat
  sg_parent_id :: "string option"

section \<open>Splitting\<close>

definition sha16 :: "libs \<Rightarrow> string \<Rightarrow> string" where
  "sha16 L seed = take 16 (sha256_hex L seed)"

definition word_count :: "string \<Rightarrow> nat" where
  "word_count s = length (split_whitespace s)"

definition rs_punct :: rs where
  "rs_punct = rs_plus (RsClass (\<lambda>c. c = CHR 0x0A \<or> c = CHR '';''))"

text \<open>\<^verbatim>\<open>(?i)\<close>: a character of the pattern matches in both cases.\<close>

primrec rs_text_ci :: "string \<Rightarrow> rs" where
  "rs_text_ci [] = RsEps"
| "rs_text_ci (c # cs) = RsSeq (RsClass (\<lambda>x. char_to_ascii_lowercase x = c)) (rs_text_ci cs)"

definition rs_connector :: rs where
  "rs_connector = rs_bounded (rs_alts (map rs_text_ci [''and then'', ''then'', ''and'', ''after'', ''before'', ''while'',
     ''plus'', ''also'', ''with'']))"

definition cleaned_parts :: "nat \<Rightarrow> string list \<Rightarrow> string list" where
  "cleaned_parts n parts = filter (\<lambda>row. row \<noteq> []) (map (\<lambda>row. dc_clean_text row n) parts)"

definition split_row :: "string \<Rightarrow> string list" where
  "split_row row =
     (let split = cleaned_parts 600 (rs_split rs_connector row)
      in if length split > 1 then split else if row \<noteq> [] then [row] else [])"

definition split_candidates :: "string \<Rightarrow> string list" where
  "split_candidates s =
     (let punct = cleaned_parts 800 (rs_split rs_punct s); rows = (if punct = [] then [s] else punct)
      in concat (map split_row rows))"

definition segment_candidates :: "string \<Rightarrow> string list" where
  "segment_candidates trimmed = filter (\<lambda>row. row \<noteq> trimmed) (cleaned_parts 1000 (split_candidates trimmed))"

definition segment_id :: "libs \<Rightarrow> nat \<Rightarrow> string \<Rightarrow> string" where
  "segment_id L depth trimmed = ''seg_'' @ sha16 L (show_nat depth @ ''|'' @ take 120 trimmed)"

function recursive_decompose ::
  "libs \<Rightarrow> string \<Rightarrow> nat \<Rightarrow> decompose_policy \<Rightarrow> string option \<Rightarrow> segment list" where
  "recursive_decompose L src depth policy parent =
     (let trimmed = dc_clean_text src 1200;
          leaf = \<lparr> sg_text = trimmed, sg_depth = depth, sg_parent_id = parent \<rparr>
      in if trimmed = [] then []
         else if depth \<ge> dp_max_depth policy \<or> word_count trimmed \<le> dp_max_words_per_leaf policy then [leaf]
         else if segment_candidates trimmed = [] then [leaf]
         else
           let current_id = segment_id L depth trimmed;
               out = concat (map (\<lambda>candidate. recursive_decompose L candidate (depth + 1) policy (Some current_id))
                 (segment_candidates trimmed))
           in if out = [] then [leaf] else out)"
  by pat_completeness auto
termination
  by (relation "measure (\<lambda>(L, src, depth, policy, parent). dp_max_depth policy - depth)") auto

declare recursive_decompose.simps [simp del]

fun dedupe_loop :: "nat \<Rightarrow> string list \<Rightarrow> nat \<Rightarrow> segment list \<Rightarrow> segment list" where
  "dedupe_loop max_items seen n [] = []"
| "dedupe_loop max_items seen n (row # rows) =
     (let key = dc_token (sg_text row) 220 in
      if key = [] \<or> key \<in> set seen then dedupe_loop max_items seen n rows
      else if n + 1 \<ge> max_items then [row]
      else row # dedupe_loop max_items (key # seen) (n + 1) rows)"

definition dedupe_segments :: "segment list \<Rightarrow> nat \<Rightarrow> segment list" where
  "dedupe_segments rows max_items = dedupe_loop max_items [] 0 rows"

section \<open>The fields of a task\<close>

definition usize_clamp :: "nat \<Rightarrow> nat \<Rightarrow> nat \<Rightarrow> nat option" where
  "usize_clamp lo hi x = (if lo \<le> hi then Some (clamp lo hi x) else None)"

definition base_minutes :: "nat \<Rightarrow> nat" where
  "base_minutes words =
     (if words > 34 then 5 else if words > 24 then 4 else if words > 14 then 3 else if words > 8 then 2 else 1)"

definition estimate_minutes :: "string \<Rightarrow> decompose_policy \<Rightarrow> nat option" where
  "estimate_minutes s policy = usize_clamp (dp_min_minutes policy) (dp_max_minutes policy) (base_minutes (word_count s))"

definition capability_rules :: "(string list \<times> capability) list" where
  "capability_rules =
     [([''email'', ''slack'', ''discord'', ''message'', ''notify'', ''outreach''],
       \<lparr> cap_capability_id = ''comms_message'', cap_adapter_kind = ''email_message'', cap_source_type = ''comms'' \<rparr>),
      ([''browser'', ''web'', ''site'', ''ui'', ''form'', ''click'', ''navigate''],
       \<lparr> cap_capability_id = ''browser_task'', cap_adapter_kind = ''browser_task'', cap_source_type = ''web_ui'' \<rparr>),
      ([''api'', ''http'', ''endpoint'', ''request'', ''json'', ''graphql'', ''webhook''],
       \<lparr> cap_capability_id = ''api_request'', cap_adapter_kind = ''http_request'', cap_source_type = ''api'' \<rparr>),
      ([''file'', ''document'', ''write'', ''save'', ''edit'', ''patch'', ''code''],
       \<lparr> cap_capability_id = ''filesystem_task'', cap_adapter_kind = ''filesystem_task'', cap_source_type = ''filesystem'' \<rparr>),
      ([''test'', ''verify'', ''assert'', ''validate'', ''check''],
       \<lparr> cap_capability_id = ''quality_check'', cap_adapter_kind = ''shell_task'', cap_source_type = ''analysis'' \<rparr>),
      ([''research'', ''analyze'', ''summarize'', ''read'', ''investigate''],
       \<lparr> cap_capability_id = ''analysis_task'', cap_adapter_kind = ''shell_task'', cap_source_type = ''analysis'' \<rparr>)]"

definition general_capability :: capability where
  "general_capability =
     \<lparr> cap_capability_id = ''general_task'', cap_adapter_kind = ''shell_task'', cap_source_type = ''analysis'' \<rparr>"

definition infer_capability :: "string \<Rightarrow> capability" where
  "infer_capability s =
     (case find (\<lambda>(ws, c). rs_is_match (rs_bounded (rs_words ws)) (to_ascii_lowercase s)) capability_rules of
        Some (ws, c) \<Rightarrow> c
      | None \<Rightarrow> general_capability)"

definition title_for_task :: "string \<Rightarrow> string" where
  "title_for_task s =
     (case join '' '' (take 9 (split_whitespace s)) of
        [] \<Rightarrow> ''Micro Task''
      | c # cs \<Rightarrow> char_to_ascii_uppercase c # cs)"

definition success_criteria :: "string \<Rightarrow> string list" where
  "success_criteria s =
     [''Execute: '' @ dc_clean_text s 180, ''Capture a receipt and link outcome to objective context.'']"

definition normalize_keyword_rows :: "string list \<Rightarrow> string list" where
  "normalize_keyword_rows rows = filter (\<lambda>row. row \<noteq> []) (map (\<lambda>row. dc_token row 80) rows)"

definition keyword_hits :: "string \<Rightarrow> string list \<Rightarrow> nat" where
  "keyword_hits lower kws = length (filter (\<lambda>kw. str_contains lower kw) (normalize_keyword_rows kws))"

definition lane_for_task :: "string \<Rightarrow> decompose_policy \<Rightarrow> string" where
  "lane_for_task task_text policy =
     (let lower = dc_token task_text 500 in
      if keyword_hits lower (dp_human_lane_keywords policy) > keyword_hits lower (dp_autonomous_lane_keywords policy)
      then dp_storm_lane policy else dp_default_lane policy)"

section \<open>The decomposition\<close>

definition goal_run_id :: "libs \<Rightarrow> string \<Rightarrow> string \<Rightarrow> string \<Rightarrow> string \<Rightarrow> string" where
  "goal_run_id L pre run_id goal_id goal_text =
     (if trim run_id = [] then pre @ sha16 L (goal_id @ ''|'' @ goal_text) else trim run_id)"

definition make_task :: "libs \<Rightarrow> decompose_request \<Rightarrow> string \<Rightarrow> nat \<times> segment \<Rightarrow> base_task option" where
  "make_task L req run_id iseg =
     (let (i, seg) = iseg;
          policy = dq_policy req;
          task_text = dc_clean_text (sg_text seg) 1000;
          micro_task_id = ''mt_'' @ sha16 L (run_id @ ''|'' @ show_nat i @ ''|'' @ task_text);
          cap = infer_capability task_text
      in case estimate_minutes task_text policy of
           None \<Rightarrow> None
         | Some minutes \<Rightarrow> Some
             \<lparr> mt_micro_task_id = micro_task_id,
               mt_goal_id = dq_goal_id req,
               mt_objective_id = dq_objective_id req,
               mt_parent_id = sg_parent_id seg,
               mt_depth = sg_depth seg,
               mt_index = i,
               mt_title = title_for_task task_text,
               mt_task_text = task_text,
               mt_estimated_minutes = minutes,
               mt_success_criteria = success_criteria task_text,
               mt_required_capability = cap_capability_id cap,
               mt_profile_id = ''task_micro_'' @ sha16 L (dq_goal_id req @ ''|'' @ micro_task_id),
               mt_capability = cap,
               mt_suggested_lane = lane_for_task task_text policy,
               mt_parallel_group = i mod max (dp_max_groups policy) 1,
               mt_parallel_priority = f64_div (f64_of_int 1) (f64_of_nat (max minutes 1)) \<rparr>)"

definition has_task_text :: "nat \<times> segment \<Rightarrow> bool" where
  "has_task_text iseg = (dc_clean_text (sg_text (snd iseg)) 1000 \<noteq> [])"

text \<open>The share of tasks for people, and the first task moved to their lane when there are too few.\<close>

definition human_share :: "string \<Rightarrow> base_task list \<Rightarrow> f64" where
  "human_share lane tasks =
     (if tasks = [] then f64_of_int 0
      else f64_div (f64_of_nat (length (filter (\<lambda>t. mt_suggested_lane t = lane) tasks))) (f64_of_nat (length tasks)))"

definition raise_share :: "decompose_policy \<Rightarrow> base_task list \<Rightarrow> base_task list" where
  "raise_share policy tasks =
     (if length tasks > 2 \<and> f64_lt (human_share (dp_storm_lane policy) tasks) (dp_min_storm_share policy)
      then (case tasks of [] \<Rightarrow> [] | t # ts \<Rightarrow> t\<lparr> mt_suggested_lane := dp_storm_lane policy \<rparr> # ts)
      else tasks)"

definition decompose_goal :: "libs \<Rightarrow> decompose_request \<Rightarrow> base_task list option" where
  "decompose_goal L req =
     (let policy = dq_policy req;
          run_id = goal_run_id L ''tdp_'' (dq_run_id req) (dq_goal_id req) (dq_goal_text req);
          max_items = max (dp_max_micro_tasks policy) 1;
          segments = dedupe_segments (recursive_decompose L (dq_goal_text req) 0 policy None) max_items
      in map_option (raise_share policy)
           (those (map (make_task L req run_id) (filter has_task_text (List.enumerate 0 segments)))))"

section \<open>What the split gives\<close>

lemma dc_clean_text_nonempty: "dc_clean_text s m \<noteq> [] \<Longrightarrow> 0 < n \<Longrightarrow> dc_clean_text (dc_clean_text s m) n \<noteq> []"
proof -
  assume ne: "dc_clean_text s m \<noteq> []" and n: "0 < n"
  let ?t = "trim (replace_runs is_ws CHR '' '' False s)"
  from ne have t: "?t \<noteq> []" "0 < m" by (auto simp: dc_clean_text_def)
  have sq: "squeezed False (take m ?t)" by (rule squeezed_take [OF squeezed_trim [OF squeezed_replace_runs]])
  have nw: "\<not> is_ws (hd (take m ?t))" using t hd_trim by simp
  have c: "dc_clean_text s m = take m ?t" by (simp add: dc_clean_text_def)
  then have "take m ?t \<noteq> []" using ne by simp
  then have "trim (take m ?t) \<noteq> []"
    using trim_squeezed [OF sq _ nw] nw by (cases "take m ?t") auto
  then show ?thesis using n by (simp add: c dc_clean_text_def [of "take m ?t"] replace_runs_squeezed [OF sq])
qed

lemma segment_candidates_clean:
  "c \<in> set (segment_candidates s) \<Longrightarrow> c \<noteq> [] \<and> dc_clean_text c 1200 \<noteq> []"
  using dc_clean_text_nonempty by (fastforce simp: segment_candidates_def cleaned_parts_def)

lemma recursive_decompose_nonempty:
  "dc_clean_text src 1200 \<noteq> [] \<Longrightarrow> recursive_decompose L src depth policy parent \<noteq> []"
  by (subst recursive_decompose.simps) (simp add: Let_def)

text \<open>A segment that is kept is not deeper than allowed, and either lies at the greatest depth, has few enough
  words, or has no connector to split at.\<close>

definition segment_ok :: "decompose_policy \<Rightarrow> segment \<Rightarrow> bool" where
  "segment_ok policy s =
     (sg_depth s \<le> dp_max_depth policy \<and> dc_clean_text (sg_text s) 1000 \<noteq> [] \<and>
      (sg_depth s = dp_max_depth policy \<or> word_count (sg_text s) \<le> dp_max_words_per_leaf policy \<or>
       segment_candidates (sg_text s) = []))"

lemma recursive_decompose_segments:
  "s \<in> set (recursive_decompose L src depth policy parent) \<Longrightarrow> depth \<le> dp_max_depth policy \<Longrightarrow> segment_ok policy s"
proof (induction L src depth policy parent arbitrary: s rule: recursive_decompose.induct)
  case (1 L src depth policy parent)
  let ?t = "dc_clean_text src 1200" and ?cs = "segment_candidates (dc_clean_text src 1200)"
  let ?deep = "depth \<ge> dp_max_depth policy \<or> word_count ?t \<le> dp_max_words_per_leaf policy"
  let ?out = "concat (map (\<lambda>c. recursive_decompose L c (depth + 1) policy (Some (segment_id L depth ?t))) ?cs)"
  have eq: "recursive_decompose L src depth policy parent =
      (if ?t = [] then [] else if ?deep \<or> ?cs = [] \<or> ?out = []
       then [\<lparr> sg_text = ?t, sg_depth = depth, sg_parent_id = parent \<rparr>] else ?out)"
    by (subst recursive_decompose.simps) (simp add: Let_def)
  have ne: "?t \<noteq> []" using "1.prems"(1) eq by auto
  have out: "?out \<noteq> []" if "?cs \<noteq> []"
  proof -
    have "hd ?cs \<in> set ?cs" using that by simp
    then show ?thesis using segment_candidates_clean recursive_decompose_nonempty by fastforce
  qed
  show ?case
  proof (cases "?deep \<or> ?cs = []")
    case True
    then have "s = \<lparr> sg_text = ?t, sg_depth = depth, sg_parent_id = parent \<rparr>" using "1.prems"(1) eq ne by auto
    then show ?thesis using True ne dc_clean_text_nonempty [OF ne, of 1000] "1.prems"(2) by (auto simp: segment_ok_def)
  next
    case False
    then have "recursive_decompose L src depth policy parent = ?out" using eq ne out by (simp only: if_False de_Morgan_disj simp_thms)
    then have "s \<in> set ?out" using "1.prems"(1) by (simp only:)
    then obtain c where c: "c \<in> set ?cs"
      "s \<in> set (recursive_decompose L c (depth + 1) policy (Some (segment_id L depth ?t)))" by auto
    show ?thesis by (rule "1.IH" [OF refl refl ne _ _ refl c(1) c(2)]) (use False in auto)
  qed
qed

section \<open>What the removal of duplicates gives\<close>

abbreviation segment_key :: "segment \<Rightarrow> string" where
  "segment_key s \<equiv> dc_token (sg_text s) 220"

lemma dedupe_loop_subset: "set (dedupe_loop max_items seen n rows) \<subseteq> set rows"
  by (induction max_items seen n rows rule: dedupe_loop.induct) (auto simp: Let_def)

lemma dedupe_loop_length: "n < max_items \<Longrightarrow> length (dedupe_loop max_items seen n rows) + n \<le> max_items"
  by (induction max_items seen n rows rule: dedupe_loop.induct) (auto simp: Let_def)

lemma dedupe_loop_fresh:
  "s \<in> set (dedupe_loop max_items seen n rows) \<Longrightarrow> segment_key s \<noteq> [] \<and> segment_key s \<notin> set seen"
  by (induction max_items seen n rows rule: dedupe_loop.induct) (auto simp: Let_def split: if_splits)

lemma dedupe_loop_distinct: "distinct (map segment_key (dedupe_loop max_items seen n rows))"
proof (induction max_items seen n rows rule: dedupe_loop.induct)
  case (2 max_items seen n row rows)
  then show ?case using dedupe_loop_fresh by (fastforce simp: Let_def)
qed simp

lemma dedupe_loop_covers:
  "n < max_items \<Longrightarrow> s \<in> set rows \<Longrightarrow>
   length (dedupe_loop max_items seen n rows) + n = max_items \<or>
   segment_key s \<in> segment_key ` set (dedupe_loop max_items seen n rows) \<union> ({[]} \<union> set seen)"
  by (induction max_items seen n rows rule: dedupe_loop.induct) (auto simp: Let_def split: if_splits)

section \<open>What the decomposition gives\<close>

lemma those_map_Some: "(\<And>x. x \<in> set xs \<Longrightarrow> f x = Some (g x)) \<Longrightarrow> those (map f xs) = Some (map g xs)"
  by (induction xs) auto

lemma those_None_iff: "those xs = None \<longleftrightarrow> None \<in> set xs"
  by (induction xs) (auto split: option.splits)

definition goal_segments :: "libs \<Rightarrow> decompose_request \<Rightarrow> segment list" where
  "goal_segments L req = dedupe_segments (recursive_decompose L (dq_goal_text req) 0 (dq_policy req) None)
     (max (dp_max_micro_tasks (dq_policy req)) 1)"

lemma goal_segments_ok: "s \<in> set (goal_segments L req) \<Longrightarrow> segment_ok (dq_policy req) s"
  using dedupe_loop_subset recursive_decompose_segments
  unfolding goal_segments_def dedupe_segments_def by (metis le0 subsetD)

lemma snd_in_enumerate: "p \<in> set (List.enumerate k xs) \<Longrightarrow> snd p \<in> set xs"
  by (metis image_eqI list.set_map map_snd_enumerate)

lemma goal_segments_has_text: "filter has_task_text (List.enumerate k (goal_segments L req)) = List.enumerate k (goal_segments L req)"
proof -
  have "has_task_text p" if "p \<in> set (List.enumerate k (goal_segments L req))" for p
    using goal_segments_ok [OF snd_in_enumerate [OF that]] by (simp add: has_task_text_def segment_ok_def)
  then show ?thesis by (simp add: filter_id_conv)
qed

lemma decompose_goal_segments:
  "decompose_goal L req = map_option (raise_share (dq_policy req))
     (those (map (make_task L req (goal_run_id L ''tdp_'' (dq_run_id req) (dq_goal_id req) (dq_goal_text req)))
       (List.enumerate 0 (goal_segments L req))))"
  by (simp only: decompose_goal_def Let_def goal_segments_has_text flip: goal_segments_def)

text \<open>The task of a segment when the bounds of the minutes are ordered.\<close>

definition task_of :: "libs \<Rightarrow> decompose_request \<Rightarrow> string \<Rightarrow> nat \<times> segment \<Rightarrow> base_task" where
  "task_of L req run_id p = the (make_task L req run_id p)"

lemma make_task_None_iff:
  "make_task L req run_id p = None \<longleftrightarrow> dp_max_minutes (dq_policy req) < dp_min_minutes (dq_policy req)"
  by (cases p) (auto simp: make_task_def estimate_minutes_def usize_clamp_def Let_def)

lemma task_of_fields:
  assumes "dp_min_minutes (dq_policy req) \<le> dp_max_minutes (dq_policy req)"
  shows "mt_index (task_of L req run_id p) = fst p"
    and "mt_depth (task_of L req run_id p) = sg_depth (snd p)"
    and "mt_task_text (task_of L req run_id p) = dc_clean_text (sg_text (snd p)) 1000"
    and "mt_parallel_group (task_of L req run_id p) < max (dp_max_groups (dq_policy req)) 1"
    and "dp_min_minutes (dq_policy req) \<le> mt_estimated_minutes (task_of L req run_id p)"
    and "mt_estimated_minutes (task_of L req run_id p) \<le> dp_max_minutes (dq_policy req)"
    and "mt_suggested_lane (task_of L req run_id p) =
      lane_for_task (dc_clean_text (sg_text (snd p)) 1000) (dq_policy req)"
  using assms clamp_bounds [OF assms]
  by (simp_all add: split_beta task_of_def make_task_def estimate_minutes_def usize_clamp_def Let_def)

lemma raise_share_map:
  "(\<And>t l. f (t\<lparr> mt_suggested_lane := l \<rparr>) = f t) \<Longrightarrow> map f (raise_share policy ts) = map f ts"
  by (cases ts) (simp_all add: raise_share_def)

lemma decompose_goal_eq:
  assumes "dp_min_minutes (dq_policy req) \<le> dp_max_minutes (dq_policy req)"
  shows "decompose_goal L req = Some (raise_share (dq_policy req)
    (map (task_of L req (goal_run_id L ''tdp_'' (dq_run_id req) (dq_goal_id req) (dq_goal_text req)))
      (List.enumerate 0 (goal_segments L req))))"
proof -
  have "make_task L req r p = Some (task_of L req r p)" for r p
    using assms make_task_None_iff [of L req r p] by (auto simp: task_of_def)
  then show ?thesis by (simp add: decompose_goal_segments those_map_Some)
qed

text \<open>Without ordered bounds every goal with a segment makes the program panic.\<close>

lemma decompose_goal_panics_iff:
  "decompose_goal L req = None \<longleftrightarrow>
   dp_max_minutes (dq_policy req) < dp_min_minutes (dq_policy req) \<and> goal_segments L req \<noteq> []"
proof -
  have "None \<in> set (map (make_task L req r) ps) \<longleftrightarrow>
      dp_max_minutes (dq_policy req) < dp_min_minutes (dq_policy req) \<and> ps \<noteq> []" for r ps
    by (induction ps) (auto simp: make_task_None_iff eq_commute [of None])
  then show ?thesis
    by (simp only: decompose_goal_segments those_None_iff option.map_disc_iff) (cases "goal_segments L req"; simp)
qed

definition micro_task_ok :: "decompose_policy \<Rightarrow> base_task \<Rightarrow> bool" where
  "micro_task_ok policy t =
     (mt_task_text t \<noteq> [] \<and> mt_depth t \<le> dp_max_depth policy \<and>
      mt_parallel_group t < max (dp_max_groups policy) 1 \<and>
      dp_min_minutes policy \<le> mt_estimated_minutes t \<and> mt_estimated_minutes t \<le> dp_max_minutes policy)"

text \<open>C21: under a policy whose least number of minutes is not above its largest (otherwise the code panics), a goal
  is decomposed into at most \<open>max_micro_tasks\<close> tasks (one at least is allowed), numbered from zero, with
  pairwise different normal forms, where the normal form of a text is its token of at most 220 characters. Every
  task has a text, a depth within the limit, a group within the number of groups and an estimate within the
  bounds of the policy. Unless the limit is reached, every segment of the goal that has a normal form has the
  normal form of one of the tasks; segments without one are dropped, even when that leaves no task
  (\<open>goal_without_normal_form_dropped\<close>).\<close>

theorem decompose_goal_wf:
  assumes "dp_min_minutes (dq_policy req) \<le> dp_max_minutes (dq_policy req)"
  shows "\<exists>tasks. decompose_goal L req = Some tasks \<and>
    length tasks \<le> max (dp_max_micro_tasks (dq_policy req)) 1 \<and>
    map mt_index tasks = [0..<length tasks] \<and>
    distinct (map (\<lambda>t. dc_token (mt_task_text t) 220) tasks) \<and>
    list_all (micro_task_ok (dq_policy req)) tasks \<and>
    (length tasks = max (dp_max_micro_tasks (dq_policy req)) 1 \<or>
     list_all (\<lambda>s. dc_token (sg_text s) 220 = [] \<or> list_ex (\<lambda>t. dc_token (mt_task_text t) 220 = dc_token (sg_text s) 220) tasks)
       (recursive_decompose L (dq_goal_text req) 0 (dq_policy req) None))"
proof -
  let ?p = "dq_policy req" and ?segs = "goal_segments L req"
  let ?r = "goal_run_id L ''tdp_'' (dq_run_id req) (dq_goal_id req) (dq_goal_text req)"
  let ?raw = "map (task_of L req ?r) (List.enumerate 0 ?segs)"
  let ?ts = "raise_share ?p ?raw"
  have keys: "map (\<lambda>t. dc_token (mt_task_text t) 220) ?ts = map segment_key ?segs"
  proof -
    have "map (\<lambda>t. dc_token (mt_task_text t) 220) ?ts = map (\<lambda>t. dc_token (mt_task_text t) 220) ?raw"
      by (rule raise_share_map) simp
    also have "\<dots> = map (segment_key \<circ> snd) (List.enumerate 0 ?segs)"
      using task_of_fields(3) [OF assms] by (simp add: dc_token_clean comp_def split_beta)
    finally show ?thesis by (simp flip: map_map)
  qed
  then have len: "length ?ts = length ?segs" by (metis length_map)
  have idx: "map mt_index ?ts = [0..<length ?ts]"
  proof -
    have "map mt_index ?ts = map mt_index ?raw" by (rule raise_share_map) simp
    also have "\<dots> = map fst (List.enumerate 0 ?segs)"
      using task_of_fields(1) [OF assms] by (simp add: comp_def split_beta)
    finally show ?thesis by (simp add: len)
  qed
  have ok: "list_all (micro_task_ok ?p) ?ts"
  proof -
    have raw: "list_all (micro_task_ok ?p) ?raw"
      using goal_segments_ok [OF snd_in_enumerate] task_of_fields [OF assms]
      by (fastforce simp: list_all_iff micro_task_ok_def segment_ok_def)
    have "map (micro_task_ok ?p) ?ts = map (micro_task_ok ?p) ?raw"
      by (rule raise_share_map) (simp add: micro_task_ok_def)
    then have "list_all id (map (micro_task_ok ?p) ?ts) = list_all id (map (micro_task_ok ?p) ?raw)" by simp
    then show ?thesis using raw by (simp only: list.pred_map id_comp)
  qed
  let ?m = "max (dp_max_micro_tasks ?p) 1"
  have bound: "length ?segs \<le> ?m" "distinct (map segment_key ?segs)"
    using dedupe_loop_length [of 0 ?m] dedupe_loop_distinct by (auto simp: goal_segments_def dedupe_segments_def)
  have cover: "length ?segs = ?m \<or> segment_key s = [] \<or> segment_key s \<in> segment_key ` set ?segs"
    if "s \<in> set (recursive_decompose L (dq_goal_text req) 0 ?p None)" for s
    using dedupe_loop_covers [of 0 ?m s _ "[]"] that by (auto simp: goal_segments_def dedupe_segments_def)
  have im: "segment_key ` set ?segs = (\<lambda>t. dc_token (mt_task_text t) 220) ` set ?ts"
    using arg_cong [OF keys, of set] by simp
  have key_in: "list_ex (\<lambda>t. dc_token (mt_task_text t) 220 = k) ?ts" if "k \<in> segment_key ` set ?segs" for k
    using that unfolding im by (auto simp: list_ex_iff)
  have "length ?ts = ?m \<or> list_all (\<lambda>s. segment_key s = [] \<or> list_ex (\<lambda>t. dc_token (mt_task_text t) 220 = segment_key s) ?ts)
      (recursive_decompose L (dq_goal_text req) 0 ?p None)"
    using cover key_in unfolding len list_all_iff by blast
  moreover have "length ?ts \<le> ?m" "distinct (map (\<lambda>t. dc_token (mt_task_text t) 220) ?ts)"
    using bound by (simp_all only: len keys)
  ultimately show ?thesis using decompose_goal_eq [OF assms] idx ok by blast
qed

definition sample_goal :: decompose_request where
  "sample_goal = \<lparr> dq_run_id = ''r1'', dq_goal_id = ''g1'', dq_goal_text = ''a ; b ; c'', dq_objective_id = None,
     dq_creator_id = None, dq_policy = decompose_policy_default\<lparr> dp_max_words_per_leaf := 1,
       dp_min_storm_share := Fin (1 / 2) \<rparr> \<rparr>"

theorem decompose_goal_wf_witness:
  "\<exists>tasks. decompose_goal sample_libs sample_goal = Some tasks \<and> length tasks \<le> 96 \<and>
     list_all (micro_task_ok (dq_policy sample_goal)) tasks"
proof -
  have "dp_min_minutes (dq_policy sample_goal) \<le> dp_max_minutes (dq_policy sample_goal)"
    "max (dp_max_micro_tasks (dq_policy sample_goal)) 1 = 96"
    by (simp_all add: sample_goal_def decompose_policy_default_def)
  then show ?thesis using decompose_goal_wf [of sample_goal sample_libs] by auto
qed

text \<open>A goal without a letter or digit has no normal form and is dropped without a task. The share of tasks for
  people is not reached in general, since one task at most is moved to their lane.\<close>

lemma goal_without_normal_form_dropped:
  "decompose_goal sample_libs (sample_goal\<lparr> dq_goal_text := ''?'' \<rparr>) = Some []"
  by code_simp

lemma raise_share_moves_one:
  "length (filter (\<lambda>t. mt_suggested_lane t = dp_storm_lane p) (raise_share p ts)) \<le>
   length (filter (\<lambda>t. mt_suggested_lane t = dp_storm_lane p) ts) + 1"
  by (cases ts) (simp_all add: raise_share_def)

lemma min_storm_share_missed:
  assumes "dp_storm_lane p \<noteq> mt_suggested_lane t" and "dp_min_storm_share p = Fin (1 / 2)"
  shows "f64_lt (human_share (dp_storm_lane p) (raise_share p [t, t, t])) (dp_min_storm_share p)"
proof -
  have "f64_lt (f64_div (f64_of_int 1) (f64_of_int 3)) (Fin (1 / 2))"
    "f64_lt (f64_div (f64_of_int 0) (f64_of_int 3)) (Fin (1 / 2))" by code_simp+
  then show ?thesis using assms by (auto simp: raise_share_def human_share_def)
qed

end
