(* ===== verification/Task_Governance.thy ===== *)
theory Task_Governance
  imports Goal_Decompose
begin

text \<open>
  From micro tasks to dispatch (\<^verbatim>\<open>core/layer2/execution/src/decompose.rs\<close>): the JSON form of a task with its
  profile, the verdicts of the two gates applied to it, the rows of the queues, the rows of the dispatcher
  and the summaries. Tasks are JSON values, as in the source, with fields written and read by name.
\<close>

section \<open>JSON helpers\<close>

text \<open>\<^verbatim>\<open>json!\<close> of a float is null unless the float is finite. A number read as \<^verbatim>\<open>f64\<close> keeps its bits.\<close>

definition json_f64 :: "f64 \<Rightarrow> json" where
  "json_f64 x = (case x of Fin q \<Rightarrow> JFloat (f64_to_bits x) | _ \<Rightarrow> JNull)"

abbreviation json_nat :: "nat \<Rightarrow> json" where
  "json_nat n \<equiv> JInt (int n)"

definition numeric_or_zero :: "json option \<Rightarrow> json" where
  "numeric_or_zero v =
     (case v of Some (JInt i) \<Rightarrow> json_f64 (f64_of_int i) | Some (JFloat b) \<Rightarrow> JFloat b | _ \<Rightarrow> JFloat 0)"

definition get_path :: "json \<Rightarrow> string list \<Rightarrow> json option" where
  "get_path v ks = fold (\<lambda>k acc. Option.bind acc (\<lambda>j. json_get j k)) ks (Some v)"

definition path_str :: "json \<Rightarrow> string list \<Rightarrow> string \<Rightarrow> string" where
  "path_str v ks d = unwrap_or (Option.bind (get_path v ks) as_str) d"

definition path_bool :: "json \<Rightarrow> string list \<Rightarrow> bool" where
  "path_bool v ks = unwrap_or (Option.bind (get_path v ks) as_bool) False"

definition get_or_null :: "json \<Rightarrow> string \<Rightarrow> json" where
  "get_or_null v k = unwrap_or (json_get v k) JNull"

fun ensure_object :: "json \<Rightarrow> (string \<times> json) list" where
  "ensure_object (JObj m) = m"
| "ensure_object _ = []"

text \<open>\<^verbatim>\<open>ensure_object(m.entry(k).or_insert_with(|| json!({})))\<close>, changed by \<open>f\<close>.\<close>

definition update_object ::
  "string \<Rightarrow> ((string \<times> json) list \<Rightarrow> (string \<times> json) list) \<Rightarrow> (string \<times> json) list \<Rightarrow> (string \<times> json) list" where
  "update_object k f m = bt_insert k (JObj (f (ensure_object (unwrap_or (bt_get m k) (JObj []))))) m"

definition nonempty_or :: "string \<Rightarrow> string \<Rightarrow> string" where
  "nonempty_or s d = (if s = [] then d else s)"

section \<open>Composing tasks\<close>

record compose_policy =
  cpo_min_minutes :: nat
  cpo_max_minutes :: nat
  cpo_max_groups :: nat
  cpo_default_lane :: string
  cpo_storm_lane :: string

record compose_request =
  cq_run_id :: string
  cq_goal_id :: string
  cq_goal_text :: string
  cq_objective_id :: "string option"
  cq_creator_id :: "string option"
  cq_policy :: compose_policy
  cq_tasks :: "base_task list"

definition normalize_capability :: "capability \<Rightarrow> capability" where
  "normalize_capability raw =
     \<lparr> cap_capability_id = nonempty_or (dc_token (cap_capability_id raw) 80) ''general_task'',
       cap_adapter_kind = nonempty_or (dc_token (cap_adapter_kind raw) 80) ''shell_task'',
       cap_source_type = nonempty_or (dc_token (cap_source_type raw) 80) ''analysis'' \<rparr>"

definition capability_json :: "capability \<Rightarrow> json" where
  "capability_json c = json_object [(''capability_id'', JStr (cap_capability_id c)),
     (''adapter_kind'', JStr (cap_adapter_kind c)), (''source_type'', JStr (cap_source_type c))]"

definition pending_duality :: json where
  "pending_duality = json_object [(''enabled'', JBool False), (''score_trit'', JInt 0), (''score_label'', JStr ''unknown''),
     (''zero_point_harmony_potential'', JInt 0), (''recommended_adjustment'', JNull),
     (''indicator'', json_object [(''subtle_hint'', JStr ''duality_signal_pending'')])]"

definition initial_constitution :: json where
  "initial_constitution = json_object [(''decision'', JStr ''ALLOW''), (''risk'', JStr ''low''), (''reasons'', JArr [])]"

definition composed_priority :: "f64 \<Rightarrow> nat \<Rightarrow> f64" where
  "composed_priority p minutes =
     (let x = (if is_finite p then p else f64_div (f64_of_int 1) (f64_of_nat (max minutes 1)))
      in f64_div (f64_round (f64_mul x (f64_of_int 10000))) (f64_of_int 10000))"

definition composed_profile ::
  "libs \<Rightarrow> compose_request \<Rightarrow> base_task \<Rightarrow> string \<Rightarrow> string \<Rightarrow> string \<Rightarrow> capability \<Rightarrow> string \<Rightarrow> nat \<Rightarrow> string list \<Rightarrow> json" where
  "composed_profile L req base micro_task_id profile_id task_text cap lane minutes criteria =
     json_object [
       (''schema_id'', JStr ''task_micro_profile''), (''schema_version'', JStr ''1.0''), (''profile_id'', JStr profile_id),
       (''source'', json_object [(''source_type'', JStr (cap_source_type cap)), (''capability_id'', JStr (cap_capability_id cap)),
          (''objective_id'', json_opt_str (cq_objective_id req)), (''origin_lane'', JStr ''task_decomposition_primitive'')]),
       (''intent'', json_object [(''id'', JStr ''micro_task_execute''), (''description'', JStr task_text),
          (''success_criteria'', json_str_list criteria)]),
       (''execution'', json_object [(''adapter_kind'', JStr (cap_adapter_kind cap)), (''estimated_minutes'', json_nat minutes),
          (''dry_run_default'', JBool True)]),
       (''routing'', json_object [(''preferred_lane'', JStr lane), (''requires_manual_review'', JBool False)]),
       (''provenance'', json_object [(''confidence'', json_f64 (f64_rnd (92 / 100))),
          (''evidence'', json_object [(''decomposition_depth'', json_nat (mt_depth base)),
             (''heroic_echo_decision'', JStr ''allow''), (''constitution_decision'', JStr ''ALLOW'')])]),
       (''governance'', json_object [
          (''heroic_echo'', json_object [(''classification'', JStr ''normal''), (''decision'', JStr ''allow''), (''reason_codes'', JArr [])]),
          (''constitution'', initial_constitution)]),
       (''attribution'', json_object [(''source_goal_id'', JStr (cq_goal_id req)),
          (''source_goal_hash'', JStr (sha16 L (cq_goal_text req))), (''creator_id'', json_opt_str (cq_creator_id req)),
          (''influence_score'', JInt 1), (''lineage'', json_str_list [cq_goal_id req, micro_task_id])]),
       (''duality'', pending_duality)]"

definition compose_task :: "libs \<Rightarrow> compose_request \<Rightarrow> string \<Rightarrow> nat \<times> base_task \<Rightarrow> json option" where
  "compose_task L req run_id p =
     (let (i, base) = p;
          policy = cq_policy req;
          task_text = dc_clean_text (mt_task_text base) 1000;
          micro_task_id = nonempty_or (dc_token (mt_micro_task_id base) 120)
            (''mt_'' @ sha16 L (run_id @ ''|'' @ show_nat i @ ''|'' @ task_text));
          profile_id = nonempty_or (dc_token (mt_profile_id base) 120)
            (''task_micro_'' @ sha16 L (cq_goal_id req @ ''|'' @ micro_task_id));
          cap = normalize_capability (mt_capability base);
          lane = nonempty_or (dc_token (mt_suggested_lane base) 80)
            (nonempty_or (dc_token (cpo_default_lane policy) 80) ''autonomous_micro_agent'');
          criteria = (if mt_success_criteria base = [] then success_criteria task_text
                      else cleaned_parts 220 (mt_success_criteria base));
          title = nonempty_or (dc_clean_text (mt_title base) 220) (title_for_task task_text)
      in case usize_clamp (max (cpo_min_minutes policy) 1) (max (cpo_max_minutes policy) 1) (mt_estimated_minutes base) of
           None \<Rightarrow> None
         | Some minutes \<Rightarrow> Some (json_object [
             (''micro_task_id'', JStr micro_task_id), (''goal_id'', JStr (cq_goal_id req)),
             (''objective_id'', json_opt_str (cq_objective_id req)), (''parent_id'', json_opt_str (mt_parent_id base)),
             (''depth'', json_nat (mt_depth base)), (''index'', json_nat (mt_index base)), (''title'', JStr title),
             (''task_text'', JStr task_text), (''estimated_minutes'', json_nat minutes),
             (''success_criteria'', json_str_list criteria), (''required_capability'', JStr (cap_capability_id cap)),
             (''profile_id'', JStr profile_id), (''capability'', capability_json cap),
             (''route'', json_object [(''lane'', JStr lane),
                (''parallel_group'', json_nat (min (mt_parallel_group base) (max (cpo_max_groups policy) 1 - 1))),
                (''parallel_priority'', json_f64 (composed_priority (mt_parallel_priority base) minutes)),
                (''blocked'', JBool False), (''requires_manual_review'', JBool False)]),
             (''profile'', composed_profile L req base micro_task_id profile_id task_text cap lane minutes criteria),
             (''governance'', json_object [(''blocked'', JBool False), (''block_reasons'', JArr []),
                (''heroic_echo'', json_object [(''classification'', JStr ''normal''), (''decision'', JStr ''allow''),
                   (''blocked'', JBool False), (''reason_codes'', JArr [])]),
                (''constitution'', initial_constitution)]),
             (''duality'', pending_duality)]))"

definition compose_micro_tasks :: "libs \<Rightarrow> compose_request \<Rightarrow> json list option" where
  "compose_micro_tasks L req =
     those (map (compose_task L req (goal_run_id L ''tdp_compose_'' (cq_run_id req) (cq_goal_id req) (cq_goal_text req)))
       (filter (\<lambda>(i, base). dc_clean_text (mt_task_text base) 1000 \<noteq> []) (List.enumerate 0 (cq_tasks req))))"

section \<open>Summaries\<close>

record task_counts =
  tc_lane_breakdown :: "(string, nat) btree"
  tc_ready :: nat
  tc_blocked :: nat
  tc_manual_review :: nat
  tc_autonomous_lane :: nat
  tc_storm_lane :: nat

definition summary_step :: "json \<Rightarrow> task_counts \<Rightarrow> task_counts" where
  "summary_step task c =
     (let lane = path_str task [''route'', ''lane''] ''unknown'';
          is_blocked = path_bool task [''governance'', ''blocked''];
          is_manual = path_bool task [''route'', ''requires_manual_review'']
      in \<lparr> tc_lane_breakdown = bt_insert lane (unwrap_or (bt_get (tc_lane_breakdown c) lane) 0 + 1) (tc_lane_breakdown c),
           tc_ready = (if is_blocked then tc_ready c else tc_ready c + 1),
           tc_blocked = (if is_blocked then tc_blocked c + 1 else tc_blocked c),
           tc_manual_review = (if is_manual then tc_manual_review c + 1 else tc_manual_review c),
           tc_autonomous_lane = (if lane = ''autonomous_micro_agent'' then tc_autonomous_lane c + 1 else tc_autonomous_lane c),
           tc_storm_lane = (if lane = ''storm_human_lane'' then tc_storm_lane c + 1 else tc_storm_lane c) \<rparr>)"

definition task_counts_zero :: task_counts where
  "task_counts_zero = \<lparr> tc_lane_breakdown = [], tc_ready = 0, tc_blocked = 0, tc_manual_review = 0,
     tc_autonomous_lane = 0, tc_storm_lane = 0 \<rparr>"

definition summarize_micro_tasks :: "json list \<Rightarrow> bool \<Rightarrow> bool \<Rightarrow> json" where
  "summarize_micro_tasks tasks shadow_only apply_executed =
     (let c = fold summary_step tasks task_counts_zero
      in json_object [(''total_micro_tasks'', json_nat (length tasks)), (''ready'', json_nat (tc_ready c)),
           (''blocked'', json_nat (tc_blocked c)), (''manual_review'', json_nat (tc_manual_review c)),
           (''autonomous_lane'', json_nat (tc_autonomous_lane c)), (''storm_lane'', json_nat (tc_storm_lane c)),
           (''lane_breakdown'', JObj (map (\<lambda>(k, n). (k, json_nat n)) (tc_lane_breakdown c))),
           (''shadow_only'', JBool shadow_only), (''apply_executed'', JBool apply_executed)])"

definition status_count :: "string \<Rightarrow> json list \<Rightarrow> nat" where
  "status_count status rows = fold (\<lambda>row n. if path_str row [''status''] ''unknown'' = status then n + 1 else n) rows 0"

definition summarize_dispatch :: "json list \<Rightarrow> bool \<Rightarrow> json" where
  "summarize_dispatch rows enabled =
     json_object [(''enabled'', JBool enabled), (''total'', json_nat (length rows)),
       (''queued'', json_nat (status_count ''queued'' rows)), (''executed'', json_nat (status_count ''executed'' rows)),
       (''failed'', json_nat (status_count ''failed'' rows)), (''blocked'', json_nat (status_count ''blocked'' rows))]"

section \<open>Queue and dispatch rows\<close>

record rows_request =
  rw_run_id :: string
  rw_goal_id :: string
  rw_objective_id :: "string option"
  rw_shadow_only :: bool
  rw_apply_executed :: bool
  rw_passport_id :: "string option"
  rw_storm_lane :: string
  rw_autonomous_executor :: string
  rw_storm_executor :: string
  rw_tasks :: "json list"

definition duality_indicator_for_task :: "json \<Rightarrow> json" where
  "duality_indicator_for_task task = unwrap_or (get_path task [''duality'', ''indicator''])
     (json_object [(''subtle_hint'', JStr ''duality_signal_absent'')])"

definition attribution_for_task :: "json \<Rightarrow> json" where
  "attribution_for_task task = unwrap_or (get_path task [''profile'', ''attribution'']) (JObj [])"

definition weaver_row :: "rows_request \<Rightarrow> json \<Rightarrow> json" where
  "weaver_row req task = json_object [
     (''type'', JStr ''task_micro_route_candidate''), (''run_id'', JStr (rw_run_id req)), (''goal_id'', JStr (rw_goal_id req)),
     (''objective_id'', json_opt_str (rw_objective_id req)), (''micro_task_id'', get_or_null task ''micro_task_id''),
     (''profile_id'', get_or_null task ''profile_id''), (''lane'', JStr (path_str task [''route'', ''lane''] ''unknown'')),
     (''parallel_group'', JInt (unwrap_or (Option.bind (get_path task [''route'', ''parallel_group'']) as_i64) 0)),
     (''parallel_priority'', numeric_or_zero (get_path task [''route'', ''parallel_priority''])),
     (''blocked'', JBool (path_bool task [''route'', ''blocked''])),
     (''requires_manual_review'', JBool (path_bool task [''route'', ''requires_manual_review''])),
     (''shadow_only'', JBool (rw_shadow_only req)), (''passport_id'', json_opt_str (rw_passport_id req)),
     (''duality_indicator'', duality_indicator_for_task task), (''attribution'', attribution_for_task task)]"

definition storm_row :: "rows_request \<Rightarrow> json \<Rightarrow> json" where
  "storm_row req task = json_object [
     (''type'', JStr ''storm_micro_task_offer''), (''run_id'', JStr (rw_run_id req)), (''goal_id'', JStr (rw_goal_id req)),
     (''objective_id'', json_opt_str (rw_objective_id req)), (''micro_task_id'', get_or_null task ''micro_task_id''),
     (''title'', get_or_null task ''title''), (''task_text'', get_or_null task ''task_text''),
     (''estimated_minutes'', get_or_null task ''estimated_minutes''),
     (''success_criteria'', unwrap_or (json_get task ''success_criteria'') (JArr [])),
     (''profile_id'', get_or_null task ''profile_id''), (''shadow_only'', JBool (rw_shadow_only req)),
     (''passport_id'', json_opt_str (rw_passport_id req)), (''duality_indicator'', duality_indicator_for_task task)]"

definition offered :: "rows_request \<Rightarrow> json \<Rightarrow> bool" where
  "offered req task =
     (path_str task [''route'', ''lane''] ''unknown'' = rw_storm_lane req \<and> \<not> path_bool task [''route'', ''blocked''])"

definition build_queue_rows :: "rows_request \<Rightarrow> json list \<times> json list" where
  "build_queue_rows req =
     (map (weaver_row req) (rw_tasks req), map (storm_row req) (filter (offered req) (rw_tasks req)))"

definition dispatch_row :: "rows_request \<Rightarrow> json \<Rightarrow> json" where
  "dispatch_row req task =
     (let storm_lane = nonempty_or (dc_token (rw_storm_lane req) 80) default_storm_lane;
          autonomous_executor = nonempty_or (dc_token (rw_autonomous_executor req) 80) ''universal_execution_primitive'';
          storm_executor = nonempty_or (dc_token (rw_storm_executor req) 80) ''storm_human_lane'';
          lane = nonempty_or (dc_token (path_str task [''route'', ''lane''] ''unknown'') 80) ''unknown'';
          blocked = path_bool task [''governance'', ''blocked'']
      in json_object [
           (''type'', JStr ''task_micro_execution_dispatch''), (''run_id'', JStr (rw_run_id req)),
           (''goal_id'', JStr (rw_goal_id req)), (''objective_id'', json_opt_str (rw_objective_id req)),
           (''micro_task_id'', get_or_null task ''micro_task_id''), (''profile_id'', get_or_null task ''profile_id''),
           (''lane'', JStr lane), (''executor'', JStr (if lane = storm_lane then storm_executor else autonomous_executor)),
           (''blocked'', JBool blocked), (''shadow_only'', JBool (rw_shadow_only req)),
           (''apply_executed'', JBool (rw_apply_executed req)), (''status'', JStr (if blocked then ''blocked'' else ''queued'')),
           (''passport_id'', json_opt_str (rw_passport_id req))])"

definition build_dispatch_rows :: "rows_request \<Rightarrow> json list" where
  "build_dispatch_rows req = map (dispatch_row req) (rw_tasks req)"

section \<open>Governance\<close>

record governance_policy =
  gp_default_lane :: string
  gp_storm_lane :: string
  gp_min_storm_share :: f64
  gp_block_on_constitution_deny :: bool

definition governed_storm_lane :: "governance_policy \<Rightarrow> string" where
  "governed_storm_lane p = nonempty_or (dc_token (gp_storm_lane p) 80) default_storm_lane"

definition governed_default_lane :: "governance_policy \<Rightarrow> string" where
  "governed_default_lane p = nonempty_or (dc_token (gp_default_lane p) 80) default_lane"

text \<open>A text field of a verdict, cleaned, with a default for a missing or a blank one.\<close>

definition verdict_text :: "json \<Rightarrow> string \<Rightarrow> string \<Rightarrow> nat \<Rightarrow> string" where
  "verdict_text v k d n = nonempty_or (dc_clean_text (path_str v [k] d) n) d"

record gate_verdicts =
  gv_heroic_classification :: string
  gv_heroic_decision :: string
  gv_heroic_blocked :: bool
  gv_heroic_reason_codes :: "string list"
  gv_constitution_decision :: string
  gv_constitution_risk :: string
  gv_constitution_reasons :: "string list"

definition read_verdicts :: "json \<Rightarrow> gate_verdicts" where
  "read_verdicts row =
     (let heroic = unwrap_or (json_get row ''heroic'') (JObj []);
          constitution = unwrap_or (json_get row ''constitution'') (JObj [])
      in \<lparr> gv_heroic_classification = verdict_text heroic ''classification'' ''unknown'' 80,
           gv_heroic_decision = verdict_text heroic ''decision'' ''unknown'' 80,
           gv_heroic_blocked = path_bool heroic [''blocked''],
           gv_heroic_reason_codes = collect_strings (json_get heroic ''reason_codes'') 8 120,
           gv_constitution_decision = verdict_text constitution ''decision'' ''ALLOW'' 40,
           gv_constitution_risk = verdict_text constitution ''risk'' ''low'' 40,
           gv_constitution_reasons = collect_strings (json_get constitution ''reasons'') 8 120 \<rparr>)"

definition blocked_by_constitution :: "governance_policy \<Rightarrow> json \<Rightarrow> bool" where
  "blocked_by_constitution p row =
     (gp_block_on_constitution_deny p \<and> gv_constitution_decision (read_verdicts row) = ''DENY'')"

definition row_blocked :: "governance_policy \<Rightarrow> json \<Rightarrow> bool" where
  "row_blocked p row = (gv_heroic_blocked (read_verdicts row) \<or> blocked_by_constitution p row)"

definition suggested_lane_of :: "governance_policy \<Rightarrow> json \<Rightarrow> json \<Rightarrow> string" where
  "suggested_lane_of p row task =
     (let row_lane = path_str row [''suggested_lane''] [];
          task_lane = path_str task [''route'', ''lane''] [];
          candidate = (if trim row_lane = [] then task_lane else row_lane)
      in nonempty_or (dc_token candidate 80) (governed_default_lane p))"

definition row_lane :: "governance_policy \<Rightarrow> json \<Rightarrow> json \<Rightarrow> string" where
  "row_lane p row task =
     (if gv_constitution_decision (read_verdicts row) = ''MANUAL'' then governed_storm_lane p
      else suggested_lane_of p row task)"

definition row_manual :: "governance_policy \<Rightarrow> json \<Rightarrow> json \<Rightarrow> bool" where
  "row_manual p row task =
     (gv_constitution_decision (read_verdicts row) = ''MANUAL'' \<or> row_lane p row task = governed_storm_lane p)"

definition duality_block :: "json \<Rightarrow> json" where
  "duality_block row =
     (let duality = unwrap_or (json_get row ''duality'') (JObj []);
          adjustment = dc_clean_text (path_str duality [''recommended_adjustment''] []) 120
      in json_object [(''enabled'', JBool (path_bool duality [''enabled''])),
           (''score_trit'', numeric_or_zero (json_get duality ''score_trit'')),
           (''score_label'', JStr (verdict_text duality ''score_label'' ''unknown'' 40)),
           (''zero_point_harmony_potential'', numeric_or_zero (json_get duality ''zero_point_harmony_potential'')),
           (''recommended_adjustment'', if adjustment = [] then JNull else JStr adjustment),
           (''indicator'', case json_get duality ''indicator'' of
              Some (JObj m) \<Rightarrow> JObj m
            | _ \<Rightarrow> json_object [(''subtle_hint'', JStr ''duality_signal_absent'')])])"

definition constitution_json :: "gate_verdicts \<Rightarrow> json" where
  "constitution_json v = json_object [(''decision'', JStr (gv_constitution_decision v)), (''risk'', JStr (gv_constitution_risk v)),
     (''reasons'', json_str_list (gv_constitution_reasons v))]"

definition block_reasons :: "governance_policy \<Rightarrow> json \<Rightarrow> string list" where
  "block_reasons p row =
     (if gv_heroic_blocked (read_verdicts row) then [''heroic_echo_blocked''] else []) @
     (if blocked_by_constitution p row then [''constitution_denied''] else [])"

definition task_governance_json :: "governance_policy \<Rightarrow> json \<Rightarrow> json" where
  "task_governance_json p row =
     (let v = read_verdicts row in
      json_object [(''blocked'', JBool (row_blocked p row)), (''block_reasons'', json_str_list (block_reasons p row)),
        (''heroic_echo'', json_object [(''classification'', JStr (gv_heroic_classification v)),
           (''decision'', JStr (gv_heroic_decision v)), (''blocked'', JBool (gv_heroic_blocked v)),
           (''reason_codes'', json_str_list (gv_heroic_reason_codes v))]),
        (''constitution'', constitution_json v)])"

definition set_lane :: "string \<Rightarrow> string \<Rightarrow> bool \<Rightarrow> (string \<times> json) list \<Rightarrow> (string \<times> json) list" where
  "set_lane key lane manual m = bt_insert ''requires_manual_review'' (JBool manual) (bt_insert key (JStr lane) m)"

definition govern_profile :: "governance_policy \<Rightarrow> json \<Rightarrow> string \<Rightarrow> bool \<Rightarrow> (string \<times> json) list \<Rightarrow> (string \<times> json) list" where
  "govern_profile p row lane manual profile0 =
     (let v = read_verdicts row;
          profile1 = update_object ''routing'' (set_lane ''preferred_lane'' lane manual) profile0;
          profile2 = update_object ''provenance'' (\<lambda>provenance.
            update_object ''evidence''
              (\<lambda>evidence. bt_insert ''constitution_decision'' (JStr (gv_constitution_decision v))
                 (bt_insert ''heroic_echo_decision'' (JStr (gv_heroic_decision v)) evidence))
              (bt_insert ''confidence'' (json_f64 (f64_rnd (if row_blocked p row then 55 / 100 else 92 / 100))) provenance)) profile1;
          profile3 = bt_insert ''governance'' (json_object [
            (''heroic_echo'', json_object [(''classification'', JStr (gv_heroic_classification v)),
               (''decision'', JStr (gv_heroic_decision v)), (''reason_codes'', json_str_list (gv_heroic_reason_codes v))]),
            (''constitution'', constitution_json v)]) profile2
      in bt_insert ''duality'' (duality_block row) profile3)"

definition govern_task :: "governance_policy \<Rightarrow> json \<Rightarrow> (string \<times> json) list \<Rightarrow> (string \<times> json) list" where
  "govern_task p row task0 =
     (let lane = row_lane p row (JObj task0); manual = row_manual p row (JObj task0);
          task1 = update_object ''route'' (\<lambda>route. bt_insert ''requires_manual_review'' (JBool manual)
            (bt_insert ''blocked'' (JBool (row_blocked p row)) (bt_insert ''lane'' (JStr lane) route))) task0;
          task2 = bt_insert ''governance'' (task_governance_json p row) task1;
          task3 = bt_insert ''duality'' (duality_block row) task2
      in update_object ''profile'' (govern_profile p row lane manual) task3)"

definition govern_row :: "governance_policy \<Rightarrow> json \<Rightarrow> json option" where
  "govern_row p row =
     (case json_get row ''task'' of
        Some (JObj task0) \<Rightarrow>
          if dc_clean_text (path_str (JObj task0) [''task_text''] []) 1000 = [] then None
          else Some (JObj (govern_task p row task0))
      | _ \<Rightarrow> None)"

definition in_lane :: "string \<Rightarrow> json \<Rightarrow> bool" where
  "in_lane lane task = (Option.bind (get_path task [''route'', ''lane'']) as_str = Some lane)"

definition movable :: "json \<Rightarrow> bool" where
  "movable task = (Option.bind (get_path task [''governance'', ''constitution'', ''decision'']) as_str \<noteq> Some ''DENY'')"

definition move_to_storm :: "string \<Rightarrow> json \<Rightarrow> json" where
  "move_to_storm lane task =
     JObj (update_object ''profile'' (update_object ''routing'' (set_lane ''preferred_lane'' lane True))
       (update_object ''route'' (set_lane ''lane'' lane True) (ensure_object task)))"

fun update_first :: "('a \<Rightarrow> bool) \<Rightarrow> ('a \<Rightarrow> 'a) \<Rightarrow> 'a list \<Rightarrow> 'a list" where
  "update_first P f [] = []"
| "update_first P f (x # xs) = (if P x then f x # xs else x # update_first P f xs)"

definition storm_share :: "string \<Rightarrow> json list \<Rightarrow> f64" where
  "storm_share lane tasks =
     (if tasks = [] then f64_of_int 0
      else f64_div (f64_of_nat (length (filter (in_lane lane) tasks))) (f64_of_nat (length tasks)))"

definition apply_governance :: "governance_policy \<Rightarrow> json list \<Rightarrow> json list" where
  "apply_governance p rows =
     (let lane = governed_storm_lane p; tasks = List.map_filter (govern_row p) rows
      in if length tasks > 2 \<and> f64_lt (storm_share lane tasks) (f64_clamp (Fin 0) (Fin 1) (gp_min_storm_share p))
         then update_first movable (move_to_storm lane) tasks else tasks)"

section \<open>Reading a governed task\<close>

lemma get_path_Nil [simp]: "get_path v [] = Some v"
  by (simp add: get_path_def)

lemma fold_bind_None: "fold (\<lambda>k acc. Option.bind acc (\<lambda>j. json_get j k)) ks None = None"
  by (induction ks) auto

lemma get_path_Cons [simp]: "get_path v (k # ks) = (case json_get v k of None \<Rightarrow> None | Some j \<Rightarrow> get_path j ks)"
  by (simp add: get_path_def fold_bind_None split: option.splits)

lemma bt_get_update_object [simp]:
  "bt_get (update_object k f m) k' =
     (if k' = k then Some (JObj (f (ensure_object (unwrap_or (bt_get m k) (JObj []))))) else bt_get m k')"
  by (simp add: update_object_def bt_get_insert)

lemma bt_get_ensure_object [simp]: "bt_get (ensure_object v) k = json_get v k"
  by (cases v) simp_all

lemmas governed_simps = bt_get_insert json_get_object path_bool_def path_str_def unwrap_or_def

definition governable :: "json \<Rightarrow> bool" where
  "governable row =
     (case json_get row ''task'' of
        Some (JObj m) \<Rightarrow> dc_clean_text (path_str (JObj m) [''task_text''] []) 1000 \<noteq> []
      | _ \<Rightarrow> False)"

lemma govern_row_Some_iff: "govern_row p row \<noteq> None \<longleftrightarrow> governable row"
  by (auto simp: govern_row_def governable_def Let_def split: option.splits json.splits)

lemma govern_row_obj:
  "govern_row p row = Some task \<Longrightarrow> \<exists>m. json_get row ''task'' = Some (JObj m) \<and> task = JObj (govern_task p row m)"
  by (auto simp: govern_row_def split: option.splits json.splits if_splits)

lemma govern_task_fields:
  "path_bool (JObj (govern_task p row m)) [''governance'', ''blocked''] \<longleftrightarrow> row_blocked p row"
  "path_bool (JObj (govern_task p row m)) [''route'', ''blocked''] \<longleftrightarrow> row_blocked p row"
  "get_path (JObj (govern_task p row m)) [''route'', ''lane''] = Some (JStr (row_lane p row (JObj m)))"
  "path_bool (JObj (govern_task p row m)) [''route'', ''requires_manual_review''] \<longleftrightarrow> row_manual p row (JObj m)"
  "get_path (JObj (govern_task p row m)) [''governance'', ''constitution'', ''decision''] =
     Some (JStr (gv_constitution_decision (read_verdicts row)))"
  "get_path (JObj (govern_task p row m)) [''micro_task_id''] = get_path (JObj m) [''micro_task_id'']"
  by (simp_all add: govern_task_def Let_def governed_simps task_governance_json_def constitution_json_def)

lemma move_to_storm_fields:
  "get_path (move_to_storm lane (JObj m)) (''governance'' # ks) = get_path (JObj m) (''governance'' # ks)"
  "path_bool (move_to_storm lane (JObj m)) [''route'', ''blocked''] \<longleftrightarrow> path_bool (JObj m) [''route'', ''blocked'']"
  "get_path (move_to_storm lane (JObj m)) [''route'', ''lane''] = Some (JStr lane)"
  "path_bool (move_to_storm lane (JObj m)) [''route'', ''requires_manual_review'']"
  "get_path (move_to_storm lane (JObj m)) [''micro_task_id''] = get_path (JObj m) [''micro_task_id'']"
  by (auto simp: move_to_storm_def set_lane_def governed_simps split: option.splits json.splits)

section \<open>What reaches the queues\<close>

lemma update_first_map:
  assumes "list_all (\<lambda>x. f (h x) = f x) xs"
  shows "map f (update_first P h xs) = map f xs"
  using assms by (induction xs) auto

text \<open>A reading of governed tasks that the move to the storm lane keeps is a reading of the rows.\<close>

lemma apply_governance_map:
  assumes "\<And>m. f (move_to_storm (governed_storm_lane p) (JObj m)) = f (JObj m)"
    and "\<And>row m. json_get row ''task'' = Some (JObj m) \<Longrightarrow> f (JObj (govern_task p row m)) = g row"
  shows "map f (apply_governance p rows) = map g (filter governable rows)"
proof -
  let ?ts = "List.map_filter (govern_row p) rows"
  have objs: "\<exists>m. t = JObj m" if "t \<in> set ?ts" for t
    using that govern_row_obj by (fastforce simp: map_filter_def)
  have "map f ?ts = map g (filter governable rows)"
  proof (induction rows)
    case (Cons row rows)
    show ?case
    proof (cases "govern_row p row")
      case None
      then show ?thesis using Cons govern_row_Some_iff [of p row] by (simp add: map_filter_simps)
    next
      case (Some t)
      then have "f t = g row" "governable row" using govern_row_obj [OF Some] assms(2) govern_row_Some_iff [of p row] by auto
      then show ?thesis using Cons Some by (simp add: map_filter_simps)
    qed
  qed (simp add: map_filter_simps)
  moreover have "map f (update_first movable (move_to_storm (governed_storm_lane p)) ?ts) = map f ?ts"
    using objs assms(1) by (intro update_first_map) (auto simp: list_all_iff)
  ultimately show ?thesis by (simp add: apply_governance_def Let_def)
qed

lemma dispatch_row_status:
  "path_str (dispatch_row req task) [''status''] [] = (if path_bool task [''governance'', ''blocked''] then ''blocked'' else ''queued'')"
  by (simp add: dispatch_row_def Let_def json_get_object path_str_def unwrap_or_def)

lemma weaver_row_blocked: "path_bool (weaver_row req task) [''blocked''] \<longleftrightarrow> path_bool task [''route'', ''blocked'']"
  by (simp add: weaver_row_def json_get_object path_bool_def [of "json_object _"] unwrap_or_def)

lemma storm_row_id: "json_get (storm_row req task) ''micro_task_id'' = Some (get_or_null task ''micro_task_id'')"
  by (simp add: storm_row_def json_get_object)

definition row_task_id :: "json \<Rightarrow> json" where
  "row_task_id row = get_or_null (unwrap_or (json_get row ''task'') JNull) ''micro_task_id''"

lemma get_or_null_path: "get_or_null v k = unwrap_or (get_path v [k]) JNull"
  by (simp add: get_or_null_def split: option.splits)

lemma governed_reads:
  "map (\<lambda>t. path_bool t [''governance'', ''blocked'']) (apply_governance p rows) = map (row_blocked p) (filter governable rows)"
  "map (\<lambda>t. path_bool t [''route'', ''blocked'']) (apply_governance p rows) = map (row_blocked p) (filter governable rows)"
  "map (\<lambda>t. (get_or_null t ''micro_task_id'', path_bool t [''route'', ''blocked''])) (apply_governance p rows) =
     map (\<lambda>row. (row_task_id row, row_blocked p row)) (filter governable rows)"
proof -
  have u: "path_bool (move_to_storm l (JObj m)) [''governance'', ''blocked''] \<longleftrightarrow> path_bool (JObj m) [''governance'', ''blocked'']" for l m
    by (simp only: path_bool_def move_to_storm_fields(1))
  show "map (\<lambda>t. path_bool t [''governance'', ''blocked'']) (apply_governance p rows) = map (row_blocked p) (filter governable rows)"
    by (rule apply_governance_map) (simp_all add: u govern_task_fields)
  show "map (\<lambda>t. path_bool t [''route'', ''blocked'']) (apply_governance p rows) = map (row_blocked p) (filter governable rows)"
    by (rule apply_governance_map) (simp_all add: govern_task_fields move_to_storm_fields)
  show "map (\<lambda>t. (get_or_null t ''micro_task_id'', path_bool t [''route'', ''blocked''])) (apply_governance p rows) =
     map (\<lambda>row. (row_task_id row, row_blocked p row)) (filter governable rows)"
    by (rule apply_governance_map)
      (simp_all add: get_or_null_path govern_task_fields move_to_storm_fields row_task_id_def unwrap_or_def del: get_path_Cons)
qed

lemma subseq_filter_imp:
  assumes "\<And>x. P x \<Longrightarrow> Q x"
  shows "subseq (filter P xs) (filter Q xs)"
  using assms by (induction xs) auto

text \<open>C22: after governance a task is dispatched with status blocked exactly when its row says so, that is, when
  the heroic gate blocked it or the constitution denied it and the policy blocks on denials; every other task
  is queued. The queue of the weaver carries the same flags, and the offers to people are tasks that are not
  blocked, in order. The share of tasks that is moved to people changes none of this.\<close>

theorem governed_dispatch_exact:
  "map (\<lambda>r. path_str r [''status''] []) (build_dispatch_rows (req\<lparr> rw_tasks := apply_governance p rows \<rparr>)) =
     map (\<lambda>row. if row_blocked p row then ''blocked'' else ''queued'') (filter governable rows) \<and>
   map (\<lambda>r. path_bool r [''blocked'']) (fst (build_queue_rows (req\<lparr> rw_tasks := apply_governance p rows \<rparr>))) =
     map (row_blocked p) (filter governable rows) \<and>
   subseq (map (\<lambda>r. json_get r ''micro_task_id'') (snd (build_queue_rows (req\<lparr> rw_tasks := apply_governance p rows \<rparr>))))
     (map (\<lambda>row. Some (row_task_id row)) (filter (\<lambda>row. \<not> row_blocked p row) (filter governable rows)))"
proof -
  let ?ts = "apply_governance p rows" and ?R = "filter governable rows"
  let ?pair = "\<lambda>t. (get_or_null t ''micro_task_id'', path_bool t [''route'', ''blocked''])"
  have status: "map (\<lambda>t. if path_bool t [''governance'', ''blocked''] then ''blocked'' else ''queued'') ?ts =
      map (\<lambda>row. if row_blocked p row then ''blocked'' else ''queued'') ?R"
    using arg_cong [OF governed_reads(1), of "map (\<lambda>b. if b then ''blocked'' else ''queued'')"] by (simp add: comp_def del: get_path_Cons)
  have "map (\<lambda>t. Some (get_or_null t ''micro_task_id'')) (filter (\<lambda>t. \<not> path_bool t [''route'', ''blocked'']) ?ts) =
      map (Some \<circ> fst) (filter (\<lambda>x. \<not> snd x) (map ?pair ?ts))"
    by (simp add: filter_map comp_def)
  also have "\<dots> = map (\<lambda>row. Some (row_task_id row)) (filter (\<lambda>row. \<not> row_blocked p row) ?R)"
    unfolding governed_reads(3) by (simp add: filter_map comp_def)
  finally have unblocked: "map (\<lambda>t. Some (get_or_null t ''micro_task_id'')) (filter (\<lambda>t. \<not> path_bool t [''route'', ''blocked'']) ?ts) =
      map (\<lambda>row. Some (row_task_id row)) (filter (\<lambda>row. \<not> row_blocked p row) ?R)" .
  have "subseq (filter (offered req') ?ts) (filter (\<lambda>t. \<not> path_bool t [''route'', ''blocked'']) ?ts)" for req'
    by (rule subseq_filter_imp) (simp add: offered_def)
  then have offers: "subseq (map (\<lambda>t. Some (get_or_null t ''micro_task_id'')) (filter (offered req') ?ts))
      (map (\<lambda>row. Some (row_task_id row)) (filter (\<lambda>row. \<not> row_blocked p row) ?R))" for req'
    using subseq_map unblocked by metis
  show ?thesis
    using status governed_reads(2) offers
    by (simp add: build_dispatch_rows_def build_queue_rows_def dispatch_row_status weaver_row_blocked storm_row_id
        comp_def del: get_path_Cons)
qed

section \<open>The gates and the dispatcher together\<close>

text \<open>The responses of the two gates as JSON, and the row that carries a task with the verdicts on its text.\<close>

definition directive_response_json :: "gate_state \<Rightarrow> json" where
  "directive_response_json g = json_object [(''ok'', JBool True), (''decision'', JStr (gs_decision g)),
     (''risk'', JStr (gs_risk g)), (''reasons'', json_str_list (gs_reasons g))]"

definition heroic_response_json :: "heroic_response \<Rightarrow> json" where
  "heroic_response_json h = json_object [(''ok'', JBool True), (''classification'', JStr (hr_classification h)),
     (''decision'', JStr (hr_decision h)), (''blocked'', JBool (hr_blocked h)), (''reason_codes'', json_str_list (hr_reason_codes h))]"

text \<open>The text of the task of a row, and a row that carries the verdicts of both gates on that text: the request to
  the heroic gate is any, with any purified row and with blocking on or off.\<close>

definition row_task_text :: "json \<Rightarrow> string" where
  "row_task_text row = path_str (get_or_null row ''task'') [''task_text''] []"

definition carries_verdicts :: "(json \<Rightarrow> heroic_request) \<Rightarrow> json \<Rightarrow> bool" where
  "carries_verdicts hreq row =
     (hg_task_text (hreq row) = row_task_text row \<and>
      json_get row ''heroic'' = Some (heroic_response_json (evaluate_heroic_gate (hreq row))) \<and>
      json_get row ''constitution'' = Some (directive_response_json (evaluate_directive_gate (row_task_text row))))"

text \<open>When a task has to be stopped: what the purified row says, the destructive pattern in the text (which with a
  purified row counts only if blocking is on), or a denial.\<close>

definition stopped_by_echo :: "heroic_request \<Rightarrow> bool" where
  "stopped_by_echo q =
     (case hg_purified_row q of
        Some (JObj m) \<Rightarrow>
          bt_get m ''blocked'' = Some (JBool True) \<or>
          hg_block_on_destructive q \<and>
            (bt_get m ''classification'' = Some (JStr ''destructive_instruction'') \<or>
             rs_is_match rs_destructive (hg_task_text q))
      | _ \<Rightarrow> rs_is_match rs_destructive (hg_task_text q))"

definition stopped_by_directives :: "governance_policy \<Rightarrow> string \<Rightarrow> bool" where
  "stopped_by_directives p s =
     (gp_block_on_constitution_deny p \<and> (trim s = [] \<or> denied_text (trim s)))"

lemma directive_decision_clean:
  "verdict_text (directive_response_json (evaluate_directive_gate s)) ''decision'' ''ALLOW'' 40 =
   gs_decision (evaluate_directive_gate s)"
proof -
  have c: "dc_clean_text ''DENY'' 40 = ''DENY''" "dc_clean_text ''MANUAL'' 40 = ''MANUAL''" "dc_clean_text ''ALLOW'' 40 = ''ALLOW''"
    by code_simp+
  have "gs_decision (evaluate_directive_gate s) \<in> {''DENY'', ''MANUAL'', ''ALLOW''}" using directive_decision_cases by blast
  then show ?thesis
    by (auto simp: verdict_text_def directive_response_json_def json_get_object path_str_def unwrap_or_def nonempty_or_def c)
qed

lemma heroic_blocked_iff: "hr_blocked (evaluate_heroic_gate q) \<longleftrightarrow> stopped_by_echo q"
proof -
  have b: "unwrap_or (Option.bind x as_bool) False \<longleftrightarrow> x = Some (JBool True)" for x
    by (cases x; cases "the x") (simp_all add: unwrap_or_def)
  have c: "Option.bind x as_str = Some w \<longleftrightarrow> x = Some (JStr w)" for x w
    by (cases x; cases "the x") simp_all
  show ?thesis
    by (auto simp: evaluate_heroic_gate_def stopped_by_echo_def Let_def b c split: option.splits json.splits)
qed

lemma row_blocked_iff:
  assumes "carries_verdicts hreq row"
  shows "row_blocked p row \<longleftrightarrow> stopped_by_echo (hreq row) \<or> stopped_by_directives p (row_task_text row)"
proof -
  have h: "path_bool (heroic_response_json h) [''blocked''] \<longleftrightarrow> hr_blocked h" for h
    by (simp add: heroic_response_json_def json_get_object path_bool_def unwrap_or_def)
  have "gv_heroic_blocked (read_verdicts row) \<longleftrightarrow> stopped_by_echo (hreq row)"
    using assms by (simp add: carries_verdicts_def read_verdicts_def Let_def unwrap_or_def h heroic_blocked_iff)
  moreover have "gv_constitution_decision (read_verdicts row) = gs_decision (evaluate_directive_gate (row_task_text row))"
    using assms directive_decision_clean by (simp add: carries_verdicts_def read_verdicts_def Let_def unwrap_or_def)
  ultimately show ?thesis
    by (simp add: row_blocked_def blocked_by_constitution_def stopped_by_directives_def directive_denies_iff)
qed

lemma dispatch_statuses:
  "map (\<lambda>r. path_str r [''status''] []) (build_dispatch_rows (req\<lparr> rw_tasks := apply_governance p rows \<rparr>)) =
     map (\<lambda>row. if row_blocked p row then ''blocked'' else ''queued'') (filter governable rows)"
proof -
  have "map (\<lambda>b. if b then ''blocked'' else ''queued'') (map (\<lambda>t. path_bool t [''governance'', ''blocked'']) (apply_governance p rows)) =
      map (\<lambda>b. if b then ''blocked'' else ''queued'') (map (row_blocked p) (filter governable rows))"
    by (simp only: governed_reads(1))
  then show ?thesis by (simp add: build_dispatch_rows_def dispatch_row_status comp_def del: get_path_Cons)
qed

text \<open>Requests for the witnesses.\<close>

definition sample_governance :: governance_policy where
  "sample_governance = \<lparr> gp_default_lane = [], gp_storm_lane = [], gp_min_storm_share = Fin 0,
     gp_block_on_constitution_deny = True \<rparr>"

definition sample_rows_request :: rows_request where
  "sample_rows_request = \<lparr> rw_run_id = ''r'', rw_goal_id = ''g'', rw_objective_id = None, rw_shadow_only = False,
     rw_apply_executed = False, rw_passport_id = None, rw_storm_lane = ''storm'', rw_autonomous_executor = ''a'',
     rw_storm_executor = ''s'', rw_tasks = [] \<rparr>"

text \<open>C20: the way of a task from the verdicts on its text to the dispatcher. For rows that carry the verdicts of both
  gates on the text of their task, whatever purified row and blocking flag the heroic gate was asked with, governance
  and the dispatcher drop the rows without a task or with a blank text, and mark each other task as blocked exactly
  when it has to be stopped: the purified row says that it is blocked; or, with blocking on, the purified row
  classifies it as destructive or its text has a destructive pattern; or there is no purified row and the text has
  such a pattern; or the policy blocks on denials and the directive gate denies the text. Every other task is queued,
  and the order is kept.\<close>

theorem stopped_tasks_never_queued:
  assumes "list_all (carries_verdicts hreq) rows"
  shows "map (\<lambda>r. path_str r [''status''] [])
     (build_dispatch_rows (req\<lparr> rw_tasks := apply_governance p rows \<rparr>)) =
   map (\<lambda>row. if stopped_by_echo (hreq row) \<or> stopped_by_directives p (row_task_text row) then ''blocked'' else ''queued'')
     (filter governable rows)"
  using assms row_blocked_iff unfolding dispatch_statuses list_all_iff by (intro map_cong) auto

theorem stopped_tasks_never_queued_witness:
  "let q = \<lparr> hg_task_text = ''x'', hg_block_on_destructive = False,
         hg_purified_row = Some (JObj [(''blocked'', JBool True)]) \<rparr>;
       row = JObj [(''constitution'', directive_response_json (evaluate_directive_gate ''x'')),
         (''heroic'', heroic_response_json (evaluate_heroic_gate q)), (''task'', JObj [(''task_text'', JStr ''x'')])]
   in map (\<lambda>r. path_str r [''status''] [])
        (build_dispatch_rows (sample_rows_request\<lparr> rw_tasks := apply_governance sample_governance [row] \<rparr>)) = [''blocked'']"
proof -
  let ?q = "\<lparr> hg_task_text = ''x'', hg_block_on_destructive = False,
     hg_purified_row = Some (JObj [(''blocked'', JBool True)]) \<rparr>"
  let ?row = "JObj [(''constitution'', directive_response_json (evaluate_directive_gate ''x'')),
     (''heroic'', heroic_response_json (evaluate_heroic_gate ?q)), (''task'', JObj [(''task_text'', JStr ''x'')])]"
  have task: "json_get ?row ''task'' = Some (JObj [(''task_text'', JStr ''x'')])" by simp
  have t: "path_str (JObj [(''task_text'', JStr ''x'')]) [''task_text''] [] = ''x''" by code_simp
  have "carries_verdicts (\<lambda>_. ?q) ?row"
    using t by (simp add: carries_verdicts_def row_task_text_def get_or_null_def task unwrap_or_def)
  moreover have "dc_clean_text ''x'' 1000 \<noteq> []" by code_simp
  then have "governable ?row" using t by (simp add: governable_def task)
  moreover have "stopped_by_echo ?q" by (simp add: stopped_by_echo_def)
  ultimately show ?thesis
    using stopped_tasks_never_queued [of "\<lambda>_. ?q" "[?row]" sample_governance sample_rows_request] by (simp add: Let_def)
qed

text \<open>A task moved or sent to people needs a manual review, and a task that needs one by the constitution is sent
  to them.\<close>

lemma manual_goes_to_storm:
  "list_all (\<lambda>(lane, manual). lane = Some (JStr (governed_storm_lane p)) \<longrightarrow> manual)
     (map (\<lambda>t. (get_path t [''route'', ''lane''], path_bool t [''route'', ''requires_manual_review''])) (apply_governance p rows))"
proof -
  let ?ok = "\<lambda>t. get_path t [''route'', ''lane''] = Some (JStr (governed_storm_lane p)) \<longrightarrow>
    path_bool t [''route'', ''requires_manual_review'']"
  let ?ts = "List.map_filter (govern_row p) rows" and ?mv = "move_to_storm (governed_storm_lane p)"
  have g: "?ok t \<and> (\<exists>m. t = JObj m)" if "t \<in> set ?ts" for t
  proof -
    from that obtain row where "govern_row p row = Some t" by (auto simp: map_filter_def)
    then obtain m where "t = JObj (govern_task p row m)" using govern_row_obj by blast
    then show ?thesis by (simp add: govern_task_fields row_manual_def del: get_path_Cons)
  qed
  have upd: "t \<in> set (update_first movable ?mv xs) \<Longrightarrow> t \<in> set xs \<or> t \<in> ?mv ` set xs" for t xs
    by (induction xs) (auto split: if_splits)
  have mv: "?ok (?mv t)" if "t \<in> set ?ts" for t
    using g [OF that] move_to_storm_fields(4) by blast
  have "?ok t" if "t \<in> set (apply_governance p rows)" for t
  proof -
    have "t \<in> set ?ts \<or> t \<in> ?mv ` set ?ts"
      using that upd unfolding apply_governance_def Let_def by (auto split: if_splits)
    then show ?thesis using g mv by blast
  qed
  then show ?thesis by (auto simp: list_all_iff simp del: get_path_Cons)
qed

text \<open>A row without verdicts passes, and a denial in lower case is not one.\<close>

definition sample_task_json :: json where
  "sample_task_json = json_object [(''task_text'', JStr ''x'')]"

lemma missing_verdicts_pass:
  "governable (json_object [(''task'', sample_task_json)]) \<and> \<not> row_blocked sample_governance (json_object [(''task'', sample_task_json)])"
  by code_simp

lemma lower_case_denial_passes:
  "\<not> row_blocked sample_governance (json_object [(''task'', sample_task_json),
     (''constitution'', json_object [(''decision'', JStr ''deny'')])])"
  by code_simp

text \<open>The queue compares the lane as it is written, the dispatcher its normal form: with a lane in upper case a
  task goes to the executor for people and is offered to nobody.\<close>

lemma storm_lane_spelling:
  assumes "rw_storm_lane req = ''Storm''" and "rw_storm_executor req = ''people''"
    and "get_path task [''route'', ''lane''] = Some (JStr ''storm'')"
  shows "path_str (dispatch_row req task) [''executor''] [] = ''people'' \<and> \<not> offered req task"
proof -
  have "dc_token ''Storm'' 80 = ''storm''" "dc_token ''storm'' 80 = ''storm''" "dc_token ''people'' 80 = ''people''" by code_simp+
  moreover have "path_str task [''route'', ''lane''] d = ''storm''" for d
    using assms(3) by (simp add: path_str_def unwrap_or_def del: get_path_Cons)
  ultimately show ?thesis using assms
    by (simp add: dispatch_row_def Let_def json_get_object path_str_def [of "json_object _"] unwrap_or_def nonempty_or_def offered_def)
qed

section \<open>What the summaries count\<close>

lemma summary_fold:
  "tc_blocked (fold summary_step ts c) = tc_blocked c + length (filter (\<lambda>t. path_bool t [''governance'', ''blocked'']) ts)"
  "tc_ready (fold summary_step ts c) = tc_ready c + length (filter (\<lambda>t. \<not> path_bool t [''governance'', ''blocked'']) ts)"
  "unwrap_or (bt_get (tc_lane_breakdown (fold summary_step ts c)) lane) 0 =
     unwrap_or (bt_get (tc_lane_breakdown c) lane) 0 + length (filter (\<lambda>t. path_str t [''route'', ''lane''] ''unknown'' = lane) ts)"
  by (induction ts arbitrary: c) (simp_all add: summary_step_def Let_def bt_get_insert unwrap_or_def del: get_path_Cons split: option.splits)

text \<open>Every task is counted as ready or as blocked, and under its lane.\<close>

lemma summary_partition:
  "tc_ready (fold summary_step ts task_counts_zero) + tc_blocked (fold summary_step ts task_counts_zero) = length ts"
  using sum_length_filter_compl [of "\<lambda>t. path_bool t [''governance'', ''blocked'']" ts]
  by (simp add: summary_fold task_counts_zero_def)

end
