(* ===== verification/Attention_Queue.thy ===== *)
theory Attention_Queue
  imports Task_Governance
begin

text \<open>
  Importance scores and the attention queue (\<^verbatim>\<open>core/layer2/execution/src/initiative.rs\<close>). Scores are \<^verbatim>\<open>f64\<close>
  computed with the rounded operations of \<open>Float_Arith\<close>; a literal is its nearest float. In \<open>f64\<close> the two zeros
  are one value; the queue, whose comparison tells them apart, keeps beside each score whether it is the negative
  zero. Events are JSON values. The decoder of the importance struct is an argument, and so is which of two zeros
  of different sign \<^verbatim>\<open>f64::max\<close> returns, which the language leaves open.
\<close>

section \<open>Scores\<close>

abbreviation f64_lit :: "rat \<Rightarrow> f64" where
  "f64_lit q \<equiv> f64_rnd q"

definition weight_criticality :: f64 where
  "weight_criticality = f64_lit (35 / 100)"

definition weight_urgency :: f64 where
  "weight_urgency = f64_lit (25 / 100)"

definition weight_impact :: f64 where
  "weight_impact = f64_lit (20 / 100)"

definition weight_user_relevance :: f64 where
  "weight_user_relevance = f64_lit (15 / 100)"

definition weight_confidence :: f64 where
  "weight_confidence = f64_lit (5 / 100)"

definition default_front_jump_threshold :: f64 where
  "default_front_jump_threshold = f64_lit (70 / 100)"

record importance_input =
  ii_criticality :: "f64 option"
  ii_urgency :: "f64 option"
  ii_impact :: "f64 option"
  ii_user_relevance :: "f64 option"
  ii_confidence :: "f64 option"
  ii_core_floor :: "f64 option"
  ii_inherited_score :: "f64 option"

record importance_decision =
  im_score :: f64
  im_priority :: int
  im_band :: string
  im_front_jump :: bool
  im_initiative_action :: string
  im_initiative_repeat_after_sec :: int
  im_initiative_max_messages :: int

definition clamp01 :: "f64 \<Rightarrow> f64" where
  "clamp01 v = (if \<not> is_finite v then Fin 0 else f64_clamp (Fin 0) (Fin 1) v)"

definition metric_value :: "f64 option \<Rightarrow> f64" where
  "metric_value v = clamp01 (unwrap_or v (Fin 0))"

definition weighted_score :: "importance_input \<Rightarrow> f64" where
  "weighted_score i = clamp01
     (f64_add (f64_add (f64_add (f64_add
        (f64_mul weight_criticality (metric_value (ii_criticality i)))
        (f64_mul weight_urgency (metric_value (ii_urgency i))))
        (f64_mul weight_impact (metric_value (ii_impact i))))
        (f64_mul weight_user_relevance (metric_value (ii_user_relevance i))))
        (f64_mul weight_confidence (metric_value (ii_confidence i))))"

definition score_from_input :: "importance_input \<Rightarrow> f64" where
  "score_from_input i =
     (let weighted = weighted_score i;
          score = (case map_option clamp01 (ii_inherited_score i) of
              Some inherited \<Rightarrow> clamp01 (f64_add (f64_mul inherited (f64_lit (8 / 10))) (f64_mul weighted (f64_lit (2 / 10))))
            | None \<Rightarrow> weighted)
      in case ii_core_floor i of Some fl \<Rightarrow> f64_max score (clamp01 fl) | None \<Rightarrow> score)"

definition band_for_score :: "f64 \<Rightarrow> string" where
  "band_for_score score =
     (if f64_le (f64_lit (95 / 100)) score then ''p0''
      else if f64_le (f64_lit (85 / 100)) score then ''p1''
      else if f64_le (f64_lit (70 / 100)) score then ''p2''
      else if f64_le (f64_lit (40 / 100)) score then ''p3''
      else ''p4'')"

definition initiative_for_score :: "f64 \<Rightarrow> string \<times> int \<times> int" where
  "initiative_for_score score =
     (if f64_le (f64_lit (95 / 100)) score then (''persistent_until_ack'', 60, 999)
      else if f64_lt (f64_lit (85 / 100)) score then (''triple_escalation'', 120, 3)
      else if f64_le (f64_lit (70 / 100)) score then (''double_message'', 300, 2)
      else if f64_le (f64_lit (40 / 100)) score then (''single_message'', 900, 1)
      else (''silent'', 0, 0))"

text \<open>\<^verbatim>\<open>as i64\<close>: towards zero, saturating, and zero for what is not a number.\<close>

definition f64_as_i64 :: "f64 \<Rightarrow> int" where
  "f64_as_i64 x =
     (case x of NaN \<Rightarrow> 0 | PosInf \<Rightarrow> 2 ^ 63 - 1 | NegInf \<Rightarrow> - (2 ^ 63)
      | Fin q \<Rightarrow> clamp (- (2 ^ 63)) (2 ^ 63 - 1) (if q < 0 then \<lceil>q\<rceil> else \<lfloor>q\<rfloor>))"

definition priority_of_score :: "f64 \<Rightarrow> int" where
  "priority_of_score score = clamp 1 1000 (f64_as_i64 (f64_round (f64_mul score (f64_of_int 1000))))"

definition evaluate_importance :: "importance_input \<Rightarrow> f64 \<Rightarrow> importance_decision" where
  "evaluate_importance i front_jump_threshold =
     (let score = score_from_input i; (action, repeat, messages) = initiative_for_score score
      in \<lparr> im_score = score, im_priority = priority_of_score score, im_band = band_for_score score,
           im_front_jump = f64_le (clamp01 front_jump_threshold) score, im_initiative_action = action,
           im_initiative_repeat_after_sec = repeat, im_initiative_max_messages = messages \<rparr>)"

section \<open>Events\<close>

definition as_f64 :: "json \<Rightarrow> f64 option" where
  "as_f64 v = (case v of JInt i \<Rightarrow> Some (f64_of_int i) | JFloat b \<Rightarrow> Some (f64_of_bits b) | _ \<Rightarrow> None)"

definition numeric_value :: "json option \<Rightarrow> f64 option" where
  "numeric_value v = map_option clamp01 (Option.bind v as_f64)"

definition or_else :: "'a option \<Rightarrow> 'a option \<Rightarrow> 'a option" where
  "or_else x y = (case x of Some v \<Rightarrow> Some v | None \<Rightarrow> y)"

definition metric_from_event :: "json \<Rightarrow> string \<Rightarrow> f64 option" where
  "metric_from_event event key =
     or_else (numeric_value (json_get event key)) (numeric_value (get_path event [''importance'', key]))"

definition input_of_event :: "json \<Rightarrow> f64 option \<Rightarrow> importance_input" where
  "input_of_event event inherited =
     \<lparr> ii_criticality = metric_from_event event ''criticality'', ii_urgency = metric_from_event event ''urgency'',
       ii_impact = metric_from_event event ''impact'', ii_user_relevance = metric_from_event event ''user_relevance'',
       ii_confidence = metric_from_event event ''confidence'', ii_core_floor = metric_from_event event ''core_floor'',
       ii_inherited_score = inherited \<rparr>"

definition importance_from_event :: "json \<Rightarrow> f64 \<Rightarrow> importance_decision" where
  "importance_from_event event front_jump_threshold =
     evaluate_importance (input_of_event event
       (or_else (numeric_value (json_get event ''score''))
         (or_else (numeric_value (json_get event ''importance_score'')) (numeric_value (get_path event [''importance'', ''score''])))))
       front_jump_threshold"

definition evaluate_importance_json ::
  "(json \<Rightarrow> (importance_input, string) rresult) \<Rightarrow> json \<Rightarrow> (json, string) rresult" where
  "evaluate_importance_json decode parsed =
     (let threshold = unwrap_or (numeric_value (json_get parsed ''front_jump_threshold'')) default_front_jump_threshold;
          input = (case json_get parsed ''event'' of
              Some event \<Rightarrow> Ok (input_of_event event
                (or_else (metric_from_event event ''score'') (metric_from_event event ''importance_score'')))
            | None \<Rightarrow> (case decode parsed of Inl err \<Rightarrow> Err (''invalid_importance_input:'' @ err) | Inr i \<Rightarrow> Ok i))
      in case input of
           Inl err \<Rightarrow> Err err
         | Inr i \<Rightarrow>
             (let d = evaluate_importance i threshold in
              Ok (json_object [(''ok'', JBool True), (''type'', JStr ''layer2_importance_score''),
                (''score'', json_f64 (im_score d)), (''priority'', JInt (im_priority d)), (''band'', JStr (im_band d)),
                (''front_jump'', JBool (im_front_jump d)), (''initiative_action'', JStr (im_initiative_action d)),
                (''initiative_repeat_after_sec'', JInt (im_initiative_repeat_after_sec d)),
                (''initiative_max_messages'', JInt (im_initiative_max_messages d)),
                (''weights'', json_object [(''criticality'', json_f64 weight_criticality), (''urgency'', json_f64 weight_urgency),
                   (''impact'', json_f64 weight_impact), (''user_relevance'', json_f64 weight_user_relevance),
                   (''confidence'', json_f64 weight_confidence)])])))"

definition evaluate_initiative_json :: "json \<Rightarrow> json" where
  "evaluate_initiative_json parsed =
     (let score = unwrap_or (numeric_value (json_get parsed ''score'')) (Fin 0);
          (action, repeat, messages) = initiative_for_score score
      in json_object [(''ok'', JBool True), (''type'', JStr ''layer2_initiative_decision''), (''score'', json_f64 score),
           (''action'', JStr action), (''repeat_after_sec'', JInt repeat), (''max_messages'', JInt messages),
           (''front_jump'', JBool (f64_le default_front_jump_threshold score)),
           (''thresholds'', json_object [(''silent_below'', json_f64 (f64_lit (4 / 10))),
              (''single_message_min'', json_f64 (f64_lit (4 / 10))), (''double_message_min'', json_f64 (f64_lit (7 / 10))),
              (''triple_escalation_min'', json_f64 (f64_lit (85 / 100))), (''persistent_min'', json_f64 (f64_lit (95 / 100)))])])"

section \<open>The negative zero\<close>

text \<open>Whether a number that is read is the negative zero: \<open>clamp01\<close> keeps it, and replaces nothing else by it.\<close>

definition neg_zero_bits :: u64 where
  "neg_zero_bits = 0x8000000000000000"

definition numeric_negative_zero :: "json option \<Rightarrow> bool option" where
  "numeric_negative_zero v = map_option (\<lambda>_. v = Some (JFloat neg_zero_bits)) (numeric_value v)"

definition metric_negative_zero :: "json \<Rightarrow> string \<Rightarrow> bool option" where
  "metric_negative_zero event key =
     or_else (numeric_negative_zero (json_get event key)) (numeric_negative_zero (get_path event [''importance'', key]))"

definition inherited_negative_zero :: "json \<Rightarrow> bool option" where
  "inherited_negative_zero event =
     or_else (numeric_negative_zero (json_get event ''score''))
       (or_else (numeric_negative_zero (json_get event ''importance_score''))
         (numeric_negative_zero (get_path event [''importance'', ''score''])))"

text \<open>Whether the score of an event is the negative zero. A product with a positive weight keeps the sign of a zero,
  and a sum of numbers that are not below zero is the negative zero only if all of them are. Of two zeros
  \<^verbatim>\<open>max\<close> returns either; \<open>zero_max\<close> says which, by their signs.\<close>

definition score_negative_zero :: "(bool \<Rightarrow> bool \<Rightarrow> bool) \<Rightarrow> json \<Rightarrow> f64 \<Rightarrow> bool" where
  "score_negative_zero zero_max event score =
     (let weighted = list_all (\<lambda>key. metric_negative_zero event key = Some True)
            [''criticality'', ''urgency'', ''impact'', ''user_relevance'', ''confidence''];
          unfloored = (case inherited_negative_zero event of Some inherited \<Rightarrow> inherited \<and> weighted | None \<Rightarrow> weighted)
      in case metric_negative_zero event ''core_floor'' of
           Some fl \<Rightarrow> score = Fin 0 \<and> zero_max unfloored fl
         | None \<Rightarrow> unfloored)"

section \<open>The queue\<close>

record decorated =
  de_idx :: nat
  de_front :: bool
  de_score :: f64
  de_negative_zero :: bool
  de_event :: json

definition score_json :: "f64 \<Rightarrow> bool \<Rightarrow> json" where
  "score_json score negative_zero = (if negative_zero then JFloat neg_zero_bits else json_f64 score)"

definition decorate_event :: "importance_decision \<Rightarrow> bool \<Rightarrow> json \<Rightarrow> json" where
  "decorate_event d negative_zero event =
     (case event of
        JObj m \<Rightarrow> JObj (fold (\<lambda>(k, v). bt_insert k v)
          [(''score'', score_json (im_score d) negative_zero), (''priority'', JInt (im_priority d)), (''band'', JStr (im_band d)),
           (''initiative_action'', JStr (im_initiative_action d)), (''queue_front'', JBool (im_front_jump d)),
           (''importance'', json_object [(''score'', score_json (im_score d) negative_zero), (''priority'', JInt (im_priority d)),
              (''band'', JStr (im_band d)), (''initiative_action'', JStr (im_initiative_action d)),
              (''initiative_repeat_after_sec'', JInt (im_initiative_repeat_after_sec d)),
              (''initiative_max_messages'', JInt (im_initiative_max_messages d))])] m)
      | _ \<Rightarrow> event)"

definition decorate :: "(bool \<Rightarrow> bool \<Rightarrow> bool) \<Rightarrow> f64 \<Rightarrow> nat \<times> json \<Rightarrow> decorated" where
  "decorate zero_max threshold p =
     (let d = importance_from_event (snd p) threshold; nz = score_negative_zero zero_max (snd p) (im_score d)
      in \<lparr> de_idx = fst p, de_front = im_front_jump d, de_score = im_score d, de_negative_zero = nz,
           de_event = decorate_event d nz (snd p) \<rparr>)"

text \<open>\<^verbatim>\<open>total_cmp\<close> on finite scores: the negative zero is less than the positive one. The comparison: front jumps
  first, then the greater score, then the earlier event. \<^verbatim>\<open>sort_by\<close> is stable.\<close>

definition score_total_lt :: "decorated \<Rightarrow> decorated \<Rightarrow> bool" where
  "score_total_lt a b =
     (f64_lt (de_score a) (de_score b) \<or>
      de_score a = de_score b \<and> de_negative_zero a \<and> \<not> de_negative_zero b)"

definition before :: "decorated \<Rightarrow> decorated \<Rightarrow> bool" where
  "before a b =
     (if de_front a \<noteq> de_front b then de_front a
      else if score_total_lt b a then True
      else if score_total_lt a b then False
      else de_idx a \<le> de_idx b)"

fun insert_by :: "('a \<Rightarrow> 'a \<Rightarrow> bool) \<Rightarrow> 'a \<Rightarrow> 'a list \<Rightarrow> 'a list" where
  "insert_by le x [] = [x]"
| "insert_by le x (y # ys) = (if le x y then x # y # ys else y # insert_by le x ys)"

definition sort_by :: "('a \<Rightarrow> 'a \<Rightarrow> bool) \<Rightarrow> 'a list \<Rightarrow> 'a list" where
  "sort_by le xs = foldr (insert_by le) xs []"

definition attention_order :: "(bool \<Rightarrow> bool \<Rightarrow> bool) \<Rightarrow> f64 option \<Rightarrow> json list \<Rightarrow> decorated list" where
  "attention_order zero_max front_jump_threshold events =
     sort_by before (map (decorate zero_max (clamp01 (unwrap_or front_jump_threshold default_front_jump_threshold)))
       (List.enumerate 0 events))"

definition prioritize_attention_json :: "(bool \<Rightarrow> bool \<Rightarrow> bool) \<Rightarrow> f64 option \<Rightarrow> json list \<Rightarrow> json" where
  "prioritize_attention_json zero_max front_jump_threshold events =
     (let threshold = clamp01 (unwrap_or front_jump_threshold default_front_jump_threshold);
          ordered = map de_event (attention_order zero_max front_jump_threshold events)
      in json_object [(''ok'', JBool True), (''type'', JStr ''layer2_attention_priority''),
           (''front_jump_threshold'', json_f64 threshold), (''queue_depth'', json_nat (length ordered)),
           (''events'', JArr ordered)])"

section \<open>Arithmetic on small nonnegative floats\<close>

definition small :: "rat \<Rightarrow> f64 \<Rightarrow> bool" where
  "small b x = (\<exists>q. x = Fin q \<and> 0 \<le> q \<and> q \<le> b)"

definition exact_bound :: "rat \<Rightarrow> bool" where
  "exact_bound b = (\<exists>n. b = of_int n \<and> 0 \<le> n \<and> n < 2 ^ 53)"

lemma small_Fin [simp]: "small b (Fin q) \<longleftrightarrow> 0 \<le> q \<and> q \<le> b"
  by (simp add: small_def)

lemma exact_bound_1 [simp]: "exact_bound 1"
  unfolding exact_bound_def by (rule exI [of _ 1]) simp

lemma exact_bound_numeral [simp]: "(numeral k :: int) < 2 ^ 53 \<Longrightarrow> exact_bound (numeral k)"
  unfolding exact_bound_def by (rule exI [of _ "numeral k"]) simp

lemma f64_rnd_small:
  assumes "0 \<le> q" and "q \<le> b" and "exact_bound b"
  shows "small b (f64_rnd q)"
proof -
  obtain n where n: "b = of_int n" "0 \<le> n" "n < 2 ^ 53" using assms(3) by (auto simp: exact_bound_def)
  then have "rnd_rat b = b" using rnd_rat_of_int [of n] by simp
  then have hi: "rnd_rat q \<le> b" using rnd_rat_mono [OF assms(2)] by simp
  have lo: "0 \<le> rnd_rat q" using rnd_rat_nonneg assms(1) by blast
  have "f64_exponent (rnd_rat q) < 1024"
  proof (cases "rnd_rat q = 0")
    case False
    then have pos: "0 < rnd_rat q" using lo by simp
    have "b < of_int (2 ^ 53)" unfolding n(1) using n(3) by (simp only: of_int_less_iff)
    then have "rnd_rat q < 2 powi 53" using hi by simp
    then have "(2::rat) powi log2_floor (rnd_rat q) < 2 powi 53" using log2_floor_bounds [OF pos] by linarith
    then have "log2_floor (rnd_rat q) < 53" by (rule powi_less_imp_less)
    then show ?thesis using pos by (simp add: f64_exponent_def)
  qed simp
  then show ?thesis using lo hi by (simp add: f64_rnd_def Let_def)
qed

lemma f64_mul_small:
  assumes "small 1 x" and "small b y" and "exact_bound b"
  shows "small b (f64_mul x y)"
proof -
  obtain a c where x: "x = Fin a" "0 \<le> a" "a \<le> 1" and y: "y = Fin c" "0 \<le> c" "c \<le> b"
    using assms by (auto simp: small_def)
  have "a * c \<le> 1 * b" by (rule mult_mono) (use x y in auto)
  then have "small b (f64_rnd (a * c))" using x y assms(3) by (intro f64_rnd_small) auto
  then show ?thesis using x y by (simp add: f64_mul_def)
qed

lemma f64_add_small:
  assumes "small a x" and "small b y" and "exact_bound (a + b)"
  shows "small (a + b) (f64_add x y)"
proof -
  obtain p q where x: "x = Fin p" "0 \<le> p" "p \<le> a" and y: "y = Fin q" "0 \<le> q" "q \<le> b"
    using assms by (auto simp: small_def)
  have "small (a + b) (f64_rnd (p + q))" using x y assms(3) by (intro f64_rnd_small) auto
  then show ?thesis using x y by simp
qed

lemma f64_mul_mono:
  assumes "small 1 x" and "small b y" and "small b z" and "f64_le y z"
  shows "f64_le (f64_mul x y) (f64_mul x z)" "f64_le (f64_mul y x) (f64_mul z x)"
  using assms by (auto simp: small_def f64_mul_def intro!: f64_rnd_mono mult_left_mono mult_right_mono)

lemma f64_add_mono:
  assumes "small a x" and "small a y" and "small b z" and "small b w" and "f64_le x y" and "f64_le z w"
  shows "f64_le (f64_add x z) (f64_add y w)"
  using assms by (auto simp: small_def intro!: f64_rnd_mono add_mono)

lemma clamp01_small [simp]: "small 1 (clamp01 x)"
  by (cases x) (auto simp: clamp01_def f64_clamp_def)

lemma clamp01_mono: "small n x \<Longrightarrow> small n y \<Longrightarrow> f64_le x y \<Longrightarrow> f64_le (clamp01 x) (clamp01 y)"
  by (auto simp: small_def clamp01_def f64_clamp_def)

lemma f64_le_refl_small: "small n x \<Longrightarrow> f64_le x x"
  by (auto simp: small_def)

section \<open>What the scores promise\<close>

lemma weights_small: "small 1 weight_criticality" "small 1 weight_urgency" "small 1 weight_impact" "small 1 weight_user_relevance"
  "small 1 weight_confidence" "small 1 (f64_lit (8 / 10))" "small 1 (f64_lit (2 / 10))"
  unfolding weight_criticality_def weight_urgency_def weight_impact_def weight_user_relevance_def weight_confidence_def
  by (rule f64_rnd_small; simp)+

lemma metric_small: "small 1 (metric_value v)"
  by (simp add: metric_value_def)

definition importance_le :: "importance_input \<Rightarrow> importance_input \<Rightarrow> bool" where
  "importance_le i j =
     (f64_le (metric_value (ii_criticality i)) (metric_value (ii_criticality j)) \<and>
      f64_le (metric_value (ii_urgency i)) (metric_value (ii_urgency j)) \<and>
      f64_le (metric_value (ii_impact i)) (metric_value (ii_impact j)) \<and>
      f64_le (metric_value (ii_user_relevance i)) (metric_value (ii_user_relevance j)) \<and>
      f64_le (metric_value (ii_confidence i)) (metric_value (ii_confidence j)) \<and>
      (case (ii_inherited_score i, ii_inherited_score j) of
         (None, None) \<Rightarrow> True | (Some x, Some y) \<Rightarrow> f64_le (clamp01 x) (clamp01 y) | _ \<Rightarrow> False) \<and>
      (case (ii_core_floor i, ii_core_floor j) of
         (None, _) \<Rightarrow> True | (Some x, Some y) \<Rightarrow> f64_le (clamp01 x) (clamp01 y) | _ \<Rightarrow> False))"

lemmas weighted_small = f64_mul_small [OF weights_small(1) metric_small] f64_mul_small [OF weights_small(2) metric_small]
  f64_mul_small [OF weights_small(3) metric_small] f64_mul_small [OF weights_small(4) metric_small]
  f64_mul_small [OF weights_small(5) metric_small]

lemma weighted_sum_small:
  assumes "small 1 a" "small 1 b" "small 1 c" "small 1 d" "small 1 e"
  shows "small 2 (f64_add a b)" "small 3 (f64_add (f64_add a b) c)" "small 4 (f64_add (f64_add (f64_add a b) c) d)"
    "small 5 (f64_add (f64_add (f64_add (f64_add a b) c) d) e)"
proof -
  show 2: "small 2 (f64_add a b)" using f64_add_small [OF assms(1,2)] by simp
  show 3: "small 3 (f64_add (f64_add a b) c)" using f64_add_small [OF 2 assms(3)] by simp
  show 4: "small 4 (f64_add (f64_add (f64_add a b) c) d)" using f64_add_small [OF 3 assms(4)] by simp
  show "small 5 (f64_add (f64_add (f64_add (f64_add a b) c) d) e)" using f64_add_small [OF 4 assms(5)] by simp
qed

lemma weighted_score_mono:
  assumes "importance_le i j"
  shows "f64_le (weighted_score i) (weighted_score j)"
proof -
  have le: "f64_le (metric_value (ii_criticality i)) (metric_value (ii_criticality j))"
    "f64_le (metric_value (ii_urgency i)) (metric_value (ii_urgency j))"
    "f64_le (metric_value (ii_impact i)) (metric_value (ii_impact j))"
    "f64_le (metric_value (ii_user_relevance i)) (metric_value (ii_user_relevance j))"
    "f64_le (metric_value (ii_confidence i)) (metric_value (ii_confidence j))"
    using assms by (simp_all add: importance_le_def)
  note sm = weighted_small [simplified] and mono = f64_mul_mono(1) [OF _ metric_small metric_small, simplified]
  note sums = weighted_sum_small [OF sm]
  show ?thesis unfolding weighted_score_def
    by (intro clamp01_mono [where n = 5] f64_add_mono [where a = 4 and b = 1] f64_add_mono [where a = 3 and b = 1]
        f64_add_mono [where a = 2 and b = 1] f64_add_mono [where a = 1 and b = 1] sums sm mono weights_small le)
qed

lemma weighted_score_small: "small 1 (weighted_score i)"
  by (simp add: weighted_score_def)

lemma f64_max_small: "small b x \<Longrightarrow> small b y \<Longrightarrow> small b (f64_max x y)"
  by (auto simp: small_def)

text \<open>The score before the floor of the core is applied.\<close>

definition unfloored_score :: "importance_input \<Rightarrow> f64" where
  "unfloored_score i = score_from_input (i\<lparr> ii_core_floor := None \<rparr>)"

lemma weighted_score_floor [simp]: "weighted_score (i\<lparr> ii_core_floor := f \<rparr>) = weighted_score i"
  by (simp add: weighted_score_def)

lemma unfloored_eq:
  "unfloored_score i = (case ii_inherited_score i of
     Some s \<Rightarrow> clamp01 (f64_add (f64_mul (clamp01 s) (f64_lit (8 / 10))) (f64_mul (weighted_score i) (f64_lit (2 / 10))))
   | None \<Rightarrow> weighted_score i)"
  unfolding unfloored_score_def score_from_input_def Let_def by (cases "ii_inherited_score i") simp_all

lemma score_from_input_floor:
  "score_from_input i = (case ii_core_floor i of Some fl \<Rightarrow> f64_max (unfloored_score i) (clamp01 fl) | None \<Rightarrow> unfloored_score i)"
  unfolding unfloored_eq score_from_input_def Let_def by (cases "ii_inherited_score i"; cases "ii_core_floor i") simp_all

lemma unfloored_small: "small 1 (unfloored_score i)"
  by (simp add: unfloored_eq weighted_score_small split: option.splits)

lemma score_small: "small 1 (score_from_input i)"
  by (simp add: score_from_input_floor unfloored_small f64_max_small split: option.splits)

lemma unfloored_mono:
  assumes "importance_le i j"
  shows "f64_le (unfloored_score i) (unfloored_score j)"
proof -
  note w = weighted_score_mono [OF assms] weighted_score_small
  note lit = weights_small(6,7)
  have m: "small 1 (f64_mul (clamp01 x) (f64_lit (8 / 10)))" "small 1 (f64_mul (weighted_score k) (f64_lit (2 / 10)))" for x k
    using f64_mul_small clamp01_small w(2) lit exact_bound_1 by blast+
  have step: "f64_le (clamp01 (f64_add (f64_mul (clamp01 x) (f64_lit (8 / 10))) (f64_mul (weighted_score i) (f64_lit (2 / 10)))))
      (clamp01 (f64_add (f64_mul (clamp01 y) (f64_lit (8 / 10))) (f64_mul (weighted_score j) (f64_lit (2 / 10)))))"
    if "f64_le (clamp01 x) (clamp01 y)" for x y
  proof -
    have sm: "small 2 (f64_add (f64_mul (clamp01 x) (f64_lit (8 / 10))) (f64_mul (weighted_score k) (f64_lit (2 / 10))))" for x k
      using f64_add_small [OF m] by simp
    have "f64_le (f64_add (f64_mul (clamp01 x) (f64_lit (8 / 10))) (f64_mul (weighted_score i) (f64_lit (2 / 10))))
        (f64_add (f64_mul (clamp01 y) (f64_lit (8 / 10))) (f64_mul (weighted_score j) (f64_lit (2 / 10))))"
      by (rule f64_add_mono [OF m(1) m(1) m(2) m(2)])
        (rule f64_mul_mono(2) [OF lit(1) clamp01_small clamp01_small that],
         rule f64_mul_mono(2) [OF lit(2) w(2) w(2) w(1)])
    then show ?thesis by (rule clamp01_mono [OF sm sm])
  qed
  show ?thesis
    using assms step w(1) by (auto simp: unfloored_eq importance_le_def split: option.splits)
qed

lemma score_mono:
  assumes "importance_le i j"
  shows "f64_le (score_from_input i) (score_from_input j)"
proof -
  have "f64_le (unfloored_score i) (unfloored_score j)" by (rule unfloored_mono [OF assms])
  moreover have "f64_le x (f64_max y z)" if "f64_le x y" "small 1 x" "small 1 y" "small 1 z" for x y z
    using that by (auto simp: small_def)
  moreover have "f64_le (f64_max x w) (f64_max y z)"
    if "f64_le x y" "f64_le w z" "small 1 x" "small 1 y" "small 1 z" "small 1 w" for x y z w
    using that by (auto simp: small_def)
  ultimately show ?thesis
    using assms unfloored_small clamp01_small
    by (auto simp: score_from_input_floor importance_le_def split: option.splits)
qed

lemma priority_mono:
  assumes "small 1 x" and "small 1 y" and "f64_le x y"
  shows "priority_of_score x \<le> priority_of_score y"
proof -
  have k: "f64_of_int 1000 = Fin 1000" using f64_of_int_exact [of 1000] by simp
  obtain p q where x: "x = Fin p" "0 \<le> p" "p \<le> 1" and y: "y = Fin q" "0 \<le> q" "q \<le> 1" "p \<le> q"
    using assms by (auto simp: small_def)
  have b: "exact_bound 1000" by simp
  obtain a where a: "f64_mul x (Fin 1000) = Fin a" "0 \<le> a"
    using f64_mul_small [OF assms(1), of 1000 "Fin 1000"] b by (auto simp: small_def)
  obtain c where c: "f64_mul y (Fin 1000) = Fin c" "0 \<le> c"
    using f64_mul_small [OF assms(2), of 1000 "Fin 1000"] b by (auto simp: small_def)
  have "f64_le (f64_mul x (Fin 1000)) (f64_mul y (Fin 1000))"
    using x y by (auto simp: f64_mul_def intro: f64_rnd_mono)
  then have ac: "a \<le> c" by (simp add: a c)
  have r: "round_rat a \<le> round_rat c" "0 \<le> round_rat a" "0 \<le> round_rat c"
    using ac a(2) c(2) by (simp_all add: round_rat_def floor_mono)
  have cl: "u \<le> v \<Longrightarrow> clamp lo hi u \<le> clamp lo hi v" if "lo \<le> hi" for u v lo hi :: int
    using that by (auto simp: clamp_def)
  show ?thesis
    using r by (simp add: priority_of_score_def k a c f64_as_i64_def) (intro cl; simp)
qed

lemma floor_respected: "ii_core_floor i = Some fl \<Longrightarrow> f64_le (clamp01 fl) (score_from_input i)"
  using unfloored_small [of i] clamp01_small [of fl] by (auto simp: score_from_input_floor small_def)

lemma f64_le_trans: "f64_le x y \<Longrightarrow> f64_le y z \<Longrightarrow> f64_le x z"
  by (cases x; cases y; cases z) (auto simp: f64_le_def f64_eq_def)

lemma evaluate_importance_fields:
  "im_score (evaluate_importance i t) = score_from_input i"
  "im_priority (evaluate_importance i t) = priority_of_score (score_from_input i)"
  "im_front_jump (evaluate_importance i t) = f64_le (clamp01 t) (score_from_input i)"
  by (simp_all add: evaluate_importance_def Let_def split: prod.splits)

text \<open>C24: whatever numbers come in, rounding included, an importance score lies between zero and one, is not below
  the floor of the core, and has a priority from 1 to 1000. If no metric, inherited score or floor of an input
  is below that of another, its score and its priority are not lower either, and it jumps the queue
  whenever the other does.\<close>

theorem importance_sound:
  "small 1 (im_score (evaluate_importance i t)) \<and>
   (case ii_core_floor i of Some fl \<Rightarrow> f64_le (clamp01 fl) (im_score (evaluate_importance i t)) | None \<Rightarrow> True) \<and>
   im_priority (evaluate_importance i t) \<in> {1..1000} \<and>
   (if importance_le i j
    then f64_le (im_score (evaluate_importance i t)) (im_score (evaluate_importance j t)) \<and>
         im_priority (evaluate_importance i t) \<le> im_priority (evaluate_importance j t) \<and>
         (if im_front_jump (evaluate_importance i t) then im_front_jump (evaluate_importance j t) else True)
    else True)"
proof -
  have p: "priority_of_score x \<in> {1..1000}" for x by (simp add: priority_of_score_def clamp_def)
  have mono: "f64_le (score_from_input i) (score_from_input j)" if "importance_le i j" by (rule score_mono [OF that])
  show ?thesis
    using score_small floor_respected [of i] p mono priority_mono [OF score_small score_small] f64_le_trans
    by (auto simp: evaluate_importance_fields split: option.splits)
qed

text \<open>The band and the action use different comparisons at 0.85: a score of exactly 0.85 is in band p1 with
  the action of band p2, against the threshold the response lists.\<close>

lemma band_action_differ:
  "band_for_score (f64_lit (85 / 100)) = ''p1'' \<and> fst (initiative_for_score (f64_lit (85 / 100))) = ''double_message''"
  by code_simp

section \<open>Sorting by a comparison\<close>

text \<open>A comparison that is total and transitive on the elements that occur.\<close>

locale comparison_on =
  fixes le :: "'a \<Rightarrow> 'a \<Rightarrow> bool"
    and dom :: "'a \<Rightarrow> bool"
  assumes le_total: "dom x \<Longrightarrow> dom y \<Longrightarrow> le x y \<or> le y x"
    and le_trans: "dom x \<Longrightarrow> dom y \<Longrightarrow> dom z \<Longrightarrow> le x y \<Longrightarrow> le y z \<Longrightarrow> le x z"
begin

lemma mset_insert_by: "mset (insert_by le x xs) = add_mset x (mset xs)"
  by (induction xs) auto

lemma mset_sort_by: "mset (sort_by le xs) = mset xs"
  by (induction xs) (simp_all add: sort_by_def mset_insert_by)

lemma set_insert_by: "set (insert_by le x xs) = insert x (set xs)"
  by (induction xs) auto

lemma sorted_insert_by:
  "list_all dom (x # xs) \<Longrightarrow> sorted_wrt le xs \<Longrightarrow> sorted_wrt le (insert_by le x xs)"
proof (induction xs)
  case (Cons y ys)
  show ?case
  proof (cases "le x y")
    case True
    then have "\<forall>z \<in> set ys. le x z" using Cons.prems le_trans [of x y] by (auto simp: list_all_iff)
    then show ?thesis using True Cons.prems by simp
  next
    case False
    then have "le y x" using le_total Cons.prems by auto
    then show ?thesis using False Cons by (auto simp: set_insert_by)
  qed
qed simp

lemma sorted_sort_by: "list_all dom xs \<Longrightarrow> sorted_wrt le (sort_by le xs)"
proof (induction xs)
  case (Cons x xs)
  have "set (sort_by le xs) = set xs" using mset_sort_by set_mset_mset by metis
  then have "list_all dom (x # sort_by le xs)" using Cons.prems by (simp add: list_all_iff)
  moreover have "sorted_wrt le (sort_by le xs)" using Cons by simp
  ultimately have "sorted_wrt le (insert_by le x (sort_by le xs))" by (rule sorted_insert_by)
  then show ?case by (simp add: sort_by_def)
qed (simp add: sort_by_def)

end

lemma before_lex:
  assumes "de_score a = Fin p" and "de_score b = Fin q"
  shows "before a b \<longleftrightarrow> de_front a \<and> \<not> de_front b \<or> de_front a = de_front b \<and>
     (q < p \<or> p = q \<and> (\<not> de_negative_zero a \<and> de_negative_zero b \<or>
        de_negative_zero a = de_negative_zero b \<and> de_idx a \<le> de_idx b))"
  using assms by (auto simp: before_def score_total_lt_def)

interpretation attention: comparison_on before "\<lambda>d. is_finite (de_score d)"
proof (unfold_locales, goal_cases)
  case (1 x y)
  then obtain p q where "de_score x = Fin p" "de_score y = Fin q" by auto
  then show ?case using linear [of "de_idx x" "de_idx y"] linorder_less_linear [of p q]
    by (auto simp: before_lex)
next
  case (2 x y z)
  then obtain p q r where "de_score x = Fin p" "de_score y = Fin q" "de_score z = Fin r" by auto
  then show ?case using 2(4,5) by (simp add: before_lex) (elim disjE conjE; simp)
qed

section \<open>What the queue promises\<close>

lemma decorate_score_small: "small 1 (de_score (decorate zm t p))"
  by (simp add: decorate_def Let_def importance_from_event_def evaluate_importance_fields score_small)

lemma attention_decorated:
  "d \<in> set (attention_order zm t events) \<Longrightarrow>
     \<exists>i < length events. d = decorate zm (clamp01 (unwrap_or t default_front_jump_threshold)) (i, events ! i)"
proof -
  assume "d \<in> set (attention_order zm t events)"
  then have "d \<in> set (map (decorate zm (clamp01 (unwrap_or t default_front_jump_threshold))) (List.enumerate 0 events))"
    unfolding attention_order_def by (metis attention.mset_sort_by set_mset_mset)
  then show ?thesis by (auto simp: in_set_enumerate_eq)
qed

lemma before_finite:
  assumes "small 1 (de_score a)" and "small 1 (de_score b)"
  shows "before a b \<longleftrightarrow> (if de_front a \<noteq> de_front b then de_front a
     else if de_score a \<noteq> de_score b then f64_lt (de_score b) (de_score a)
     else if de_negative_zero a \<noteq> de_negative_zero b then de_negative_zero b
     else de_idx a \<le> de_idx b)"
proof -
  obtain p q where "de_score a = Fin p" "de_score b = Fin q" using assms by (auto simp: small_def)
  then show ?thesis by (auto simp: before_def score_total_lt_def)
qed

text \<open>Only a score of zero is flagged as the negative zero.\<close>

definition zero_flag :: "bool option \<Rightarrow> f64 option \<Rightarrow> bool" where
  "zero_flag nz v = ((nz = None \<longleftrightarrow> v = None) \<and> (nz = Some True \<longrightarrow> v = Some (Fin 0)))"

lemma zero_flag_numeric: "zero_flag (numeric_negative_zero v) (numeric_value v)"
proof -
  have "numeric_value (Some (JFloat neg_zero_bits)) = Some (Fin 0)" by code_simp
  then show ?thesis by (auto simp: zero_flag_def numeric_negative_zero_def)
qed

lemma zero_flag_or_else: "zero_flag a x \<Longrightarrow> zero_flag b y \<Longrightarrow> zero_flag (or_else a b) (or_else x y)"
  by (auto simp: zero_flag_def or_else_def split: option.splits)

lemma zero_flag_metric: "zero_flag (metric_negative_zero event key) (metric_from_event event key)"
  unfolding metric_negative_zero_def metric_from_event_def by (intro zero_flag_or_else zero_flag_numeric)

lemma zero_flag_inherited:
  "zero_flag (inherited_negative_zero event)
     (or_else (numeric_value (json_get event ''score''))
       (or_else (numeric_value (json_get event ''importance_score'')) (numeric_value (get_path event [''importance'', ''score'']))))"
  unfolding inherited_negative_zero_def by (intro zero_flag_or_else zero_flag_numeric)

lemma f64_rnd_zero [simp]: "f64_rnd 0 = Fin 0"
  by code_simp

lemma f64_zero_simps:
  "clamp01 (Fin 0) = Fin 0" "small b x \<Longrightarrow> f64_mul x (Fin 0) = Fin 0" "small b x \<Longrightarrow> f64_mul (Fin 0) x = Fin 0"
  by (code_simp, auto simp: small_def f64_mul_def)

lemma weighted_negative_zero:
  assumes "list_all (\<lambda>key. metric_negative_zero event key = Some True)
      [''criticality'', ''urgency'', ''impact'', ''user_relevance'', ''confidence'']"
  shows "weighted_score (input_of_event event inherited) = Fin 0"
proof -
  have zero: "metric_value (metric_from_event event key) = Fin 0" if "metric_negative_zero event key = Some True" for key
    using that zero_flag_metric [of event key] by (simp add: zero_flag_def metric_value_def unwrap_or_def f64_zero_simps(1))
  then show ?thesis
    using assms by (simp add: weighted_score_def input_of_event_def zero f64_zero_simps(1) f64_zero_simps(2) [OF weights_small(1)]
        f64_zero_simps(2) [OF weights_small(2)] f64_zero_simps(2) [OF weights_small(3)]
        f64_zero_simps(2) [OF weights_small(4)] f64_zero_simps(2) [OF weights_small(5)])
qed

lemma negative_zero_score:
  assumes "de_negative_zero (decorate zm t p)"
  shows "de_score (decorate zm t p) = Fin 0"
proof -
  let ?e = "snd p"
  let ?inh = "or_else (numeric_value (json_get ?e ''score''))
    (or_else (numeric_value (json_get ?e ''importance_score'')) (numeric_value (get_path ?e [''importance'', ''score''])))"
  let ?i = "input_of_event ?e ?inh"
  have score: "de_score (decorate zm t p) = score_from_input ?i"
    and flag: "score_negative_zero zm ?e (score_from_input ?i)"
    using assms by (simp_all add: decorate_def Let_def importance_from_event_def evaluate_importance_fields)
  show ?thesis
  proof (cases "metric_negative_zero ?e ''core_floor''")
    case (Some fl)
    then show ?thesis using flag unfolding score by (simp add: score_negative_zero_def Let_def)
  next
    case None
    then have "ii_core_floor ?i = None"
      using zero_flag_metric [of ?e "''core_floor''"] by (simp add: input_of_event_def zero_flag_def)
    then have s: "score_from_input ?i = unfloored_score ?i" by (simp add: score_from_input_floor)
    have all: "list_all (\<lambda>key. metric_negative_zero ?e key = Some True)
        [''criticality'', ''urgency'', ''impact'', ''user_relevance'', ''confidence'']"
      using flag None unfolding score_negative_zero_def Let_def by (auto split: option.splits)
    note w = weighted_negative_zero [OF all, of ?inh]
    have "ii_inherited_score ?i = None \<or> ii_inherited_score ?i = Some (Fin 0)"
      using flag None zero_flag_inherited [of ?e]
      by (auto simp: score_negative_zero_def Let_def input_of_event_def zero_flag_def split: option.splits)
    then show ?thesis
    proof
      assume inh: "ii_inherited_score ?i = Some (Fin 0)"
      have "f64_add (Fin 0) (Fin 0) = Fin 0" by simp
      then show ?thesis
        by (simp only: score s unfloored_eq w inh option.case f64_zero_simps(1) f64_zero_simps(3) [OF weights_small(6)]
            f64_zero_simps(3) [OF weights_small(7)])
    qed (simp only: score s unfloored_eq w option.case)
  qed
qed

text \<open>C25: the attention queue holds exactly the decorated events. Events that jump the queue come before all
  others; among equals in that respect a greater score comes first. Of the scores that are equal as numbers the
  positive zero comes before the negative one, as \<^verbatim>\<open>total_cmp\<close> orders them, and events with the same score keep
  the order of arrival. Only a score of zero is ever the negative zero. This holds whichever of two zeros
  \<^verbatim>\<open>f64::max\<close> returns.\<close>

theorem attention_queue_sorted:
  "mset (attention_order zero_max t events) =
     mset (map (decorate zero_max (clamp01 (unwrap_or t default_front_jump_threshold))) (List.enumerate 0 events)) \<and>
   sorted_wrt (\<lambda>a b. if de_front a \<noteq> de_front b then de_front a
     else if de_score a \<noteq> de_score b then f64_lt (de_score b) (de_score a)
     else if de_negative_zero a \<noteq> de_negative_zero b then de_negative_zero b
     else de_idx a \<le> de_idx b) (attention_order zero_max t events) \<and>
   list_all (\<lambda>d. if de_negative_zero d then de_score d = Fin 0 else True) (attention_order zero_max t events)"
proof -
  let ?ds = "map (decorate zero_max (clamp01 (unwrap_or t default_front_jump_threshold))) (List.enumerate 0 events)"
  let ?q = "attention_order zero_max t events"
  have small: "small 1 (de_score d)" if "d \<in> set ?q" for d
    using attention_decorated [OF that] decorate_score_small by blast
  have "list_all (\<lambda>d. is_finite (de_score d)) ?ds"
    using decorate_score_small by (fastforce simp: list_all_iff small_def)
  then have "sorted_wrt before ?q" unfolding attention_order_def by (rule attention.sorted_sort_by)
  then have "sorted_wrt (\<lambda>a b. if de_front a \<noteq> de_front b then de_front a
     else if de_score a \<noteq> de_score b then f64_lt (de_score b) (de_score a)
     else if de_negative_zero a \<noteq> de_negative_zero b then de_negative_zero b
     else de_idx a \<le> de_idx b) ?q"
    by (rule sorted_wrt_mono_rel [rotated]) (simp only: before_finite [OF small small])
  moreover have "list_all (\<lambda>d. if de_negative_zero d then de_score d = Fin 0 else True) ?q"
    unfolding list_all_iff using attention_decorated negative_zero_score by fastforce
  ultimately show ?thesis by (simp add: attention_order_def attention.mset_sort_by)
qed

text \<open>An event whose metrics are all the negative zero is scored with it, one with positive zeros is not; so the first
  comes after the second, even when it arrived before.\<close>

definition zero_event :: "u64 \<Rightarrow> json" where
  "zero_event b = json_object (map (\<lambda>k. (k, JFloat b))
     [''criticality'', ''urgency'', ''impact'', ''user_relevance'', ''confidence''])"

lemma negative_zero_kept:
  "score_negative_zero zero_max (zero_event neg_zero_bits) score" "\<not> score_negative_zero zero_max (zero_event 0) score"
  by code_simp+

end
