(* ===== verification/Importers.thy ===== *)
theory Importers
  imports Attention_Queue
begin

text \<open>
  The importers of \<^verbatim>\<open>core/layer2/execution/src/importers.rs\<close>: generic JSON, a small subset of YAML, OpenFang
  exports and workflow graphs, all mapped to one form of entities. The payload is the decoded JSON value;
  decoding and the text of a number are those of the record \<open>libs\<close> and of an argument.
\<close>

section \<open>Tokens\<close>

fun importer_token_loop :: "bool \<Rightarrow> string \<Rightarrow> string" where
  "importer_token_loop prev_underscore [] = []"
| "importer_token_loop prev_underscore (ch # cs) =
     (let allowed = (is_ascii_lower ch \<or> is_ascii_digit ch \<or> ch \<in> set ''_.:-'');
          mapped = (if allowed then ch else CHR ''_'')
      in if mapped = CHR ''_''
         then (if prev_underscore then importer_token_loop True cs else CHR ''_'' # importer_token_loop True cs)
         else mapped # importer_token_loop False cs)"

definition importer_token :: "string \<Rightarrow> string" where
  "importer_token input = trim_matches CHR ''_'' (importer_token_loop False (to_ascii_lowercase (trim input)))"

section \<open>The result\<close>

definition import_result ::
  "json list \<Rightarrow> json list \<Rightarrow> json list \<Rightarrow> json list \<Rightarrow> json list \<Rightarrow> nat \<Rightarrow> nat \<Rightarrow> json" where
  "import_result agents tasks workflows tools records source_item_count mapped_item_count =
     json_object [(''ok'', JBool True),
       (''payload'', json_object [
          (''entities'', json_object [(''agents'', JArr agents), (''tasks'', JArr tasks), (''workflows'', JArr workflows),
             (''tools'', JArr tools), (''records'', JArr records)]),
          (''source_item_count'', json_nat source_item_count), (''mapped_item_count'', json_nat mapped_item_count),
          (''warnings'', JArr [])])]"

definition import_record :: "string \<Rightarrow> string \<Rightarrow> json \<Rightarrow> json" where
  "import_record i bucket source = json_object [(''id'', JStr i), (''bucket'', JStr bucket), (''source'', source)]"

section \<open>Generic JSON\<close>

fun array_rows :: "json option \<Rightarrow> json list" where
  "array_rows (Some (JArr rows)) = rows"
| "array_rows _ = []"

definition bucket_step :: "string \<times> json \<Rightarrow> json list \<times> nat \<Rightarrow> json list \<times> nat" where
  "bucket_step e st =
     (let (bucket, value) = e; (records, source_item_count) = st; base = importer_token bucket in
      case value of
        JArr rows \<Rightarrow>
          (records @ map (\<lambda>(idx, row). import_record (nonempty_or base ''record'' @ ''_'' @ show_nat (idx + 1)) bucket row)
             (List.enumerate 0 rows),
           source_item_count + length rows)
      | _ \<Rightarrow>
          (records @ [import_record (if base = [] then ''record_'' @ show_nat (length records + 1) else base) bucket value],
           source_item_count + 1))"

definition run_importer_generic_json :: "json \<Rightarrow> json" where
  "run_importer_generic_json parsed =
     (let (records, source_item_count) = fold bucket_step (ensure_object parsed) ([], 0)
      in import_result [] [] [] [] records source_item_count (length records))"

section \<open>YAML\<close>

text \<open>\<^verbatim>\<open>str::parse::<f64>\<close>: a sign, then an infinity, not a number, or decimal digits with at most one point and an
  exponent; the value is the nearest float. The result keeps the sign for the negative zero.\<close>

definition parse_exponent :: "string \<Rightarrow> int option" where
  "parse_exponent s =
     (let neg = (s \<noteq> [] \<and> hd s = CHR ''-''); ds = (if s \<noteq> [] \<and> (hd s = CHR ''-'' \<or> hd s = CHR ''+'') then tl s else s)
      in if ds \<noteq> [] \<and> list_all is_ascii_digit ds then Some (if neg then - int (digits_value ds) else int (digits_value ds))
         else None)"

definition parse_decimal :: "string \<Rightarrow> rat option" where
  "parse_decimal s =
     (let mant = takeWhile (\<lambda>c. c \<noteq> CHR ''e'' \<and> c \<noteq> CHR ''E'') s;
          rest = drop (length mant) s;
          whole = takeWhile (\<lambda>c. c \<noteq> CHR ''.'') mant;
          frac = drop (length whole + 1) mant;
          e = (if rest = [] then Some 0 else parse_exponent (tl rest))
      in if whole @ frac \<noteq> [] \<and> list_all is_ascii_digit (whole @ frac)
         then map_option (\<lambda>k. of_int (int (digits_value (whole @ frac))) * 10 powi (k - int (length frac))) e
         else None)"

definition parse_f64 :: "string \<Rightarrow> (bool \<times> f64) option" where
  "parse_f64 s =
     (let neg = (s \<noteq> [] \<and> hd s = CHR ''-''); body = (if s \<noteq> [] \<and> (hd s = CHR ''-'' \<or> hd s = CHR ''+'') then tl s else s);
          low = to_ascii_lowercase body
      in if low = ''inf'' \<or> low = ''infinity'' then Some (neg, PosInf)
         else if low = ''nan'' then Some (neg, NaN)
         else map_option (\<lambda>q. (neg, f64_rnd q)) (parse_decimal body))"

text \<open>\<^verbatim>\<open>Number::from_f64\<close> refuses what is not finite.\<close>

definition json_of_parsed :: "bool \<times> f64 \<Rightarrow> json option" where
  "json_of_parsed p =
     (case snd p of
        Fin q \<Rightarrow> Some (JFloat (if q = 0 then (if fst p then 0x8000000000000000 else 0)
                              else f64_to_bits (Fin (if fst p then - q else q))))
      | _ \<Rightarrow> None)"

definition parse_simple_yaml_value :: "string \<Rightarrow> json" where
  "parse_simple_yaml_value raw =
     (if raw = ''true'' then JBool True
      else if raw = ''false'' then JBool False
      else case parse_i64 raw of
        Some n \<Rightarrow> JInt n
      | None \<Rightarrow>
          (case Option.bind (parse_f64 raw) json_of_parsed of
             Some v \<Rightarrow> v
           | None \<Rightarrow>
               if length raw \<ge> 2 \<and> (hd raw = CHR 0x22 \<and> last raw = CHR 0x22 \<or> hd raw = CHR 0x27 \<and> last raw = CHR 0x27)
               then JStr (butlast (tl raw)) else JStr raw))"

definition yaml_line :: "string \<Rightarrow> (string \<times> json) option" where
  "yaml_line line =
     (let trimmed = trim line;
          key = trim (takeWhile (\<lambda>c. c \<noteq> CHR '':'') trimmed);
          raw = trim (tl (dropWhile (\<lambda>c. c \<noteq> CHR '':'') trimmed))
      in if trimmed = [] \<or> hd trimmed = CHR ''#'' \<or> CHR '':'' \<notin> set trimmed \<or> hd trimmed = CHR '':'' \<or> key = [] then None
         else Some (key, parse_simple_yaml_value raw))"

definition parse_simple_yaml_text :: "string \<Rightarrow> json" where
  "parse_simple_yaml_text s = JObj (fold (\<lambda>(k, v). bt_insert k v) (List.map_filter yaml_line (rust_lines s)) [])"

definition run_importer_generic_yaml :: "(string \<Rightarrow> json option) \<Rightarrow> string \<Rightarrow> json" where
  "run_importer_generic_yaml parse_json payload =
     (let parsed = (case parse_json payload of Some v \<Rightarrow> v | None \<Rightarrow> JStr payload);
          normalized = (case parsed of JStr s \<Rightarrow> parse_simple_yaml_text s | _ \<Rightarrow> parsed)
      in run_importer_generic_json normalized)"

section \<open>OpenFang\<close>

definition named_text :: "json \<Rightarrow> string \<Rightarrow> string" where
  "named_text row k = trim (unwrap_or (Option.bind (json_get row k) as_str) [])"

definition coerce_row_name :: "json \<Rightarrow> string \<Rightarrow> nat \<Rightarrow> string" where
  "coerce_row_name row kind idx =
     (if named_text row ''name'' \<noteq> [] then named_text row ''name''
      else if named_text row ''id'' \<noteq> [] then named_text row ''id''
      else kind @ ''_'' @ show_nat (idx + 1))"

definition openfang_row :: "string \<Rightarrow> nat \<times> json \<Rightarrow> json" where
  "openfang_row kind p =
     (let (idx, row) = p; name = coerce_row_name row kind idx;
          i = nonempty_or (importer_token name) (kind @ ''_'' @ show_nat (idx + 1))
      in json_object [(''id'', JStr i), (''name'', JStr name), (''source_kind'', JStr kind), (''source'', row)])"

definition map_openfang_rows :: "json list \<Rightarrow> string \<Rightarrow> json list" where
  "map_openfang_rows rows kind = map (openfang_row kind) (List.enumerate 0 rows)"

definition run_importer_openfang :: "json \<Rightarrow> json" where
  "run_importer_openfang parsed =
     (let source_agents = array_rows (json_get parsed ''agents''); source_tasks = array_rows (json_get parsed ''tasks'');
          source_workflows = array_rows (json_get parsed ''workflows''); source_tools = array_rows (json_get parsed ''tools'');
          agents = map_openfang_rows source_agents ''agent''; tasks = map_openfang_rows source_tasks ''task'';
          workflows = map_openfang_rows source_workflows ''workflow''; tools = map_openfang_rows source_tools ''tool''
      in import_result agents tasks workflows tools []
           (length source_agents + length source_tasks + length source_workflows + length source_tools)
           (length agents + length tasks + length workflows + length tools))"

section \<open>Workflow graphs\<close>

definition value_to_plain_string :: "libs \<Rightarrow> json option \<Rightarrow> string" where
  "value_to_plain_string L value =
     (case value of
        Some (JStr v) \<Rightarrow> v
      | Some (JInt i) \<Rightarrow> json_to_string L (JInt i)
      | Some (JFloat b) \<Rightarrow> json_to_string L (JFloat b)
      | Some (JBool b) \<Rightarrow> show_bool b
      | _ \<Rightarrow> [])"

definition graph_node_key :: "libs \<Rightarrow> json \<Rightarrow> string" where
  "graph_node_key L node =
     nonempty_or (value_to_plain_string L (json_get node ''id'')) (value_to_plain_string L (json_get node ''name''))"

definition imported_workflow :: "libs \<Rightarrow> json list \<Rightarrow> nat \<times> json \<Rightarrow> json" where
  "imported_workflow L edges p =
     (let (idx, node) = p; fallback = ''node_'' @ show_nat (idx + 1); node_key = graph_node_key L node;
          id_candidate = nonempty_or node_key fallback;
          i = nonempty_or (importer_token id_candidate) fallback;
          name = nonempty_or (value_to_plain_string L (json_get node ''name'')) (nonempty_or node_key fallback);
          edges_out = length (filter (\<lambda>edge. value_to_plain_string L (json_get edge ''from'') = node_key) edges)
      in json_object [(''id'', JStr i), (''name'', JStr name), (''edges_out'', json_nat edges_out), (''source'', node)])"

definition graph_record :: "nat \<times> json \<Rightarrow> json" where
  "graph_record p = import_record (''edge_'' @ show_nat (fst p + 1)) ''edge'' (snd p)"

definition run_importer_workflow_graph :: "libs \<Rightarrow> json \<Rightarrow> json" where
  "run_importer_workflow_graph L parsed =
     (let nodes = array_rows (json_get parsed ''nodes''); edges = array_rows (json_get parsed ''edges'');
          workflows = map (imported_workflow L edges) (List.enumerate 0 nodes);
          records = map graph_record (List.enumerate 0 edges)
      in import_result [] [] workflows [] records (length nodes + length edges) (length workflows + length records))"

section \<open>Nothing is lost\<close>

text \<open>The items of a result, each with the source it carries.\<close>

definition result_sources :: "json \<Rightarrow> string \<Rightarrow> json option list" where
  "result_sources result kind =
     map (\<lambda>v. json_get v ''source'') (array_rows (get_path result [''payload'', ''entities'', kind]))"

definition bucket_items :: "json \<Rightarrow> json list" where
  "bucket_items v = (case v of JArr rows \<Rightarrow> rows | _ \<Rightarrow> [v])"

lemma map_Some_snd_enumerate [simp]: "map (\<lambda>x. Some (snd x)) (List.enumerate k xs) = map Some xs"
  by (induction xs arbitrary: k) simp_all

lemma import_record_source [simp]: "json_get (import_record i b s) ''source'' = Some s"
  by (simp add: import_record_def json_get_object)

lemma result_sources_import:
  "result_sources (import_result a t w o' r n m) ''records'' = map (\<lambda>v. json_get v ''source'') r"
  "result_sources (import_result a t w o' r n m) ''workflows'' = map (\<lambda>v. json_get v ''source'') w"
  "result_sources (import_result a t w o' r n m) ''agents'' = map (\<lambda>v. json_get v ''source'') a"
  "result_sources (import_result a t w o' r n m) ''tasks'' = map (\<lambda>v. json_get v ''source'') t"
  "result_sources (import_result a t w o' r n m) ''tools'' = map (\<lambda>v. json_get v ''source'') o'"
  "get_path (import_result a t w o' r n m) [''payload'', ''source_item_count''] = Some (json_nat n)"
  "get_path (import_result a t w o' r n m) [''payload'', ''mapped_item_count''] = Some (json_nat m)"
  by (simp_all add: result_sources_def import_result_def json_get_object)

lemma bucket_step_sources:
  "map (\<lambda>v. json_get v ''source'') (fst (bucket_step (k, v) st)) =
     map (\<lambda>v. json_get v ''source'') (fst st) @ map Some (bucket_items v)"
  "snd (bucket_step (k, v) st) = snd st + length (bucket_items v)"
  by (cases st; cases v; simp add: bucket_step_def bucket_items_def Let_def comp_def split_beta)+

lemma bucket_fold_sources:
  "map (\<lambda>v. json_get v ''source'') (fst (fold bucket_step m st)) =
     map (\<lambda>v. json_get v ''source'') (fst st) @ map Some (concat (map (bucket_items \<circ> snd) m)) \<and>
   snd (fold bucket_step m st) = snd st + length (concat (map (bucket_items \<circ> snd) m))"
proof (induction m arbitrary: st)
  case (Cons e m)
  then show ?case using bucket_step_sources [of "fst e" "snd e" st] by (simp add: comp_def)
qed simp

text \<open>The importers lose nothing: the sources of the records, workflows, agents, tasks and tools of a result are
  exactly the items of the payload in their order, and the count of mapped items is the count of source items.\<close>

lemma importers_lossless:
  "result_sources (run_importer_generic_json v) ''records'' = map Some (concat (map (bucket_items \<circ> snd) (ensure_object v))) \<and>
   get_path (run_importer_generic_json v) [''payload'', ''mapped_item_count''] =
     get_path (run_importer_generic_json v) [''payload'', ''source_item_count''] \<and>
   list_all (\<lambda>kind. result_sources (run_importer_openfang v) kind = map Some (array_rows (json_get v kind)))
     [''agents'', ''tasks'', ''workflows'', ''tools''] \<and>
   get_path (run_importer_openfang v) [''payload'', ''mapped_item_count''] =
     get_path (run_importer_openfang v) [''payload'', ''source_item_count''] \<and>
   result_sources (run_importer_workflow_graph L v) ''workflows'' = map Some (array_rows (json_get v ''nodes'')) \<and>
   result_sources (run_importer_workflow_graph L v) ''records'' = map Some (array_rows (json_get v ''edges''))"
proof -
  have gen: "result_sources (run_importer_generic_json v) ''records'' = map Some (concat (map (bucket_items \<circ> snd) (ensure_object v)))"
    "get_path (run_importer_generic_json v) [''payload'', ''mapped_item_count''] =
       get_path (run_importer_generic_json v) [''payload'', ''source_item_count'']"
  proof -
    obtain r n where rn: "fold bucket_step (ensure_object v) ([], 0) = (r, n)" by force
    have r: "map (\<lambda>v. json_get v ''source'') r = map Some (concat (map (bucket_items \<circ> snd) (ensure_object v)))"
      and n: "n = length (concat (map (bucket_items \<circ> snd) (ensure_object v)))"
      using bucket_fold_sources [of "ensure_object v" "([], 0)"] by (simp_all add: rn)
    from r have "length r = n" unfolding n by (metis length_map)
    then show "result_sources (run_importer_generic_json v) ''records'' = map Some (concat (map (bucket_items \<circ> snd) (ensure_object v)))"
      "get_path (run_importer_generic_json v) [''payload'', ''mapped_item_count''] =
       get_path (run_importer_generic_json v) [''payload'', ''source_item_count'']"
      using r by (simp_all only: run_importer_generic_json_def rn Let_def prod.case result_sources_import)
  qed
  have of: "map (\<lambda>v. json_get v ''source'') (map_openfang_rows rows k) = map Some rows" for rows k
    by (simp add: map_openfang_rows_def openfang_row_def json_get_object Let_def comp_def split_beta)
  have graph: "map (\<lambda>v. json_get v ''source'') (map (imported_workflow L es) (List.enumerate 0 ns)) = map Some ns"
    "map (\<lambda>v. json_get v ''source'') (map graph_record (List.enumerate 0 es)) = map Some es" for es ns
    by (simp_all add: imported_workflow_def graph_record_def json_get_object Let_def comp_def split_beta)
  have len: "length (map_openfang_rows rows k) = length rows" for rows k by (simp add: map_openfang_rows_def)
  show ?thesis
    using gen by (simp only: run_importer_openfang_def run_importer_workflow_graph_def Let_def result_sources_import list.pred_inject
        of graph len simp_thms)
qed

text \<open>Ids are not unique: two buckets may give the same id. A node without a key counts the edges that have no
  source node.\<close>

lemma import_ids_collide:
  "map (\<lambda>v. json_get v ''id'') (fst (fold bucket_step [(''a'', JArr [JNull]), (''a_1'', JNull)] ([], 0))) =
     [Some (JStr ''a_1''), Some (JStr ''a_1'')]"
  by code_simp

lemma keyless_node_counts_sourceless_edges:
  "json_get (imported_workflow L [JObj [], JObj []] (0, JObj [])) ''edges_out'' = Some (json_nat 2)"
  by (simp add: imported_workflow_def Let_def graph_node_key_def value_to_plain_string_def nonempty_or_def json_get_object)

end
