(* ===== verification/Inversion_Base.thy ===== *)
theory Inversion_Base
  imports Importers
begin

text \<open>
  The vocabulary of the inversion engine (\<^verbatim>\<open>core/layer2/execution/src/inversion.rs\<close>): words of the policy, tokens,
  numbers read from JSON the way JavaScript reads them, trits, paths, and the maps of the policy. Floats are those of
  \<open>Float_Arith\<close>; the two zeros are one value.
\<close>

section \<open>Words\<close>

definition inv_words :: "string \<Rightarrow> string" where
  "inv_words raw = trim (join '' '' (split_whitespace raw))"

definition inv_normalize_token :: "string \<Rightarrow> nat \<Rightarrow> string" where
  "inv_normalize_token raw max_len = take max_len (to_ascii_lowercase (inv_words raw))"

definition compute_normalize_impact :: "string option \<Rightarrow> string" where
  "compute_normalize_impact value =
     (let raw = inv_normalize_token (unwrap_or value ''medium'') 24
      in if raw \<in> {''low'', ''medium'', ''high'', ''critical''} then raw else ''medium'')"

definition compute_normalize_mode :: "string option \<Rightarrow> string" where
  "compute_normalize_mode value =
     (if inv_normalize_token (unwrap_or value ''live'') 16 = ''test'' then ''test'' else ''live'')"

definition tier_targets :: "string list" where
  "tier_targets = [''tactical'', ''belief'', ''identity'', ''directive'', ''constitution'']"

definition compute_normalize_target :: "string option \<Rightarrow> string" where
  "compute_normalize_target value =
     (let raw = inv_normalize_token (unwrap_or value ''tactical'') 24
      in if raw \<in> {''tactical'', ''belief'', ''identity'', ''directive'', ''constitution''} then raw else ''tactical'')"

definition compute_normalize_result :: "string option \<Rightarrow> string" where
  "compute_normalize_result value =
     (let raw = inv_normalize_token (unwrap_or value []) 24
      in if raw \<in> {''success'', ''neutral'', ''fail'', ''destructive''} then raw else [])"

definition is_valid_objective_id :: "string \<Rightarrow> bool" where
  "is_valid_objective_id raw =
     (6 \<le> length raw \<and> length raw \<le> 140 \<and> is_ascii_alphanumeric (hd raw) \<and> is_ascii_alphanumeric (last raw) \<and>
      list_all (\<lambda>c. is_ascii_alphanumeric c \<or> c \<in> set ''_.:-'') (butlast (tl raw)))"

definition compute_objective_id_valid :: "string option \<Rightarrow> bool" where
  "compute_objective_id_valid value = is_valid_objective_id (trim (unwrap_or value []))"

definition clean_text_runtime :: "string \<Rightarrow> nat \<Rightarrow> string" where
  "clean_text_runtime raw max_len = take max_len (inv_words raw)"

fun token_runtime_loop :: "(char \<Rightarrow> bool) \<Rightarrow> bool \<Rightarrow> string \<Rightarrow> string" where
  "token_runtime_loop keep prev_underscore [] = []"
| "token_runtime_loop keep prev_underscore (ch # cs) =
     (if keep ch then ch # token_runtime_loop keep False cs
      else if \<not> prev_underscore then CHR ''_'' # token_runtime_loop keep True cs
      else token_runtime_loop keep prev_underscore cs)"

definition is_token_char :: "char \<Rightarrow> bool" where
  "is_token_char c = (is_ascii_lower c \<or> is_ascii_digit c \<or> c \<in> set ''_.:-'')"

definition normalize_token_runtime :: "string \<Rightarrow> nat \<Rightarrow> string" where
  "normalize_token_runtime raw max_len =
     trim_matches CHR ''_'' (token_runtime_loop is_token_char False (to_ascii_lowercase (clean_text_runtime raw max_len)))"

definition compute_clean_text :: "string option \<Rightarrow> int option \<Rightarrow> string" where
  "compute_clean_text value max_len = clean_text_runtime (unwrap_or value []) (nat (clamp 0 10000 (unwrap_or max_len 240)))"

definition compute_normalize_token :: "string option \<Rightarrow> int option \<Rightarrow> string" where
  "compute_normalize_token value max_len =
     normalize_token_runtime (unwrap_or value []) (nat (clamp 1 10000 (unwrap_or max_len 80)))"

definition compute_normalize_word_token :: "string option \<Rightarrow> int option \<Rightarrow> string" where
  "compute_normalize_word_token value max_len =
     trim_matches CHR ''_'' (token_runtime_loop (\<lambda>c. is_ascii_lower c \<or> is_ascii_digit c) False
       (to_ascii_lowercase (clean_text_runtime (unwrap_or value []) (nat (clamp 1 10000 (unwrap_or max_len 80))))))"

definition compute_band_to_index :: "string option \<Rightarrow> int" where
  "compute_band_to_index band =
     (let b = compute_normalize_token band (Some 24)
      in if b = ''novice'' then 0 else if b = ''developing'' then 1 else if b = ''mature'' then 2
         else if b = ''seasoned'' then 3 else 4)"

definition compute_normalize_observer_id :: "string option \<Rightarrow> string" where
  "compute_normalize_observer_id value = normalize_token_runtime (unwrap_or value []) 120"

definition compute_normalize_axiom_pattern :: "string option \<Rightarrow> string" where
  "compute_normalize_axiom_pattern value = to_ascii_lowercase (clean_text_runtime (unwrap_or value []) 200)"

definition compute_normalize_objective_arg :: "string option \<Rightarrow> string" where
  "compute_normalize_objective_arg value = clean_text_runtime (unwrap_or value []) 420"

definition compute_maturity_band_order :: "string list" where
  "compute_maturity_band_order = [''novice'', ''developing'', ''mature'', ''seasoned'', ''legendary'']"

definition compute_current_runtime_mode :: "string option \<Rightarrow> string option \<Rightarrow> string option \<Rightarrow> string" where
  "compute_current_runtime_mode env_mode args_mode policy_runtime_mode =
     (if unwrap_or env_mode [] \<noteq> [] then compute_normalize_mode env_mode
      else if args_mode \<noteq> None then compute_normalize_mode args_mode
      else compute_normalize_mode policy_runtime_mode)"

section \<open>Values read from JSON\<close>

definition obj_get :: "json option \<Rightarrow> string \<Rightarrow> json option" where
  "obj_get v k = Option.bind v (\<lambda>j. json_get j k)"

definition value_path :: "json option \<Rightarrow> string list \<Rightarrow> json option" where
  "value_path root0 path = fold (\<lambda>k acc. obj_get acc k) path root0"

text \<open>The map of an object, empty for anything else: \<^verbatim>\<open>as_object().cloned().unwrap_or_default()\<close>.\<close>

definition object_of :: "json option \<Rightarrow> (string \<times> json) list" where
  "object_of v = (case v of Some (JObj m) \<Rightarrow> m | _ \<Rightarrow> [])"

fun json_is_object :: "json \<Rightarrow> bool" where
  "json_is_object (JObj m) = True"
| "json_is_object _ = False"

definition parse_f64_value :: "string \<Rightarrow> f64 option" where
  "parse_f64_value s = map_option (\<lambda>(neg, x). if neg then f64_neg x else x) (parse_f64 s)"

definition parse_number_like :: "json option \<Rightarrow> f64 option" where
  "parse_number_like value =
     (case value of
        None \<Rightarrow> None
      | Some v \<Rightarrow>
          (case as_f64 v of
             Some n \<Rightarrow> Some n
           | None \<Rightarrow> (case v of JStr s \<Rightarrow> parse_f64_value (trim s) | JBool b \<Rightarrow> Some (Fin (if b then 1 else 0)) | _ \<Rightarrow> None)))"

definition js_number_for_extract :: "json option \<Rightarrow> f64 option" where
  "js_number_for_extract value =
     (case value of
        None \<Rightarrow> None
      | Some JNull \<Rightarrow> Some (Fin 0)
      | Some (JBool b) \<Rightarrow> Some (Fin (if b then 1 else 0))
      | Some (JStr s) \<Rightarrow> (if trim s = [] then Some (Fin 0) else parse_f64_value (trim s))
      | Some v \<Rightarrow> as_f64 v)"

definition value_to_string :: "libs \<Rightarrow> json option \<Rightarrow> string" where
  "value_to_string L value =
     (case value of None \<Rightarrow> [] | Some (JStr s) \<Rightarrow> s | Some JNull \<Rightarrow> [] | Some v \<Rightarrow> json_to_string L v)"

definition round6 :: "f64 \<Rightarrow> f64" where
  "round6 value = f64_div (f64_round (f64_mul value (f64_of_int 1000000))) (f64_of_int 1000000)"

definition js_truthy :: "json option \<Rightarrow> bool" where
  "js_truthy value =
     (case value of
        None \<Rightarrow> False
      | Some JNull \<Rightarrow> False
      | Some (JBool b) \<Rightarrow> b
      | Some (JStr s) \<Rightarrow> s \<noteq> []
      | Some (JArr rows) \<Rightarrow> rows \<noteq> []
      | Some (JObj m) \<Rightarrow> m \<noteq> []
      | Some v \<Rightarrow> (case as_f64 v of Some (Fin q) \<Rightarrow> q \<noteq> 0 | _ \<Rightarrow> False))"

definition js_or_number :: "json option \<Rightarrow> f64 \<Rightarrow> f64" where
  "js_or_number value fallback = (if js_truthy value then unwrap_or (parse_number_like value) fallback else fallback)"

definition to_bool_like :: "libs \<Rightarrow> json option \<Rightarrow> bool \<Rightarrow> bool" where
  "to_bool_like L value fallback =
     (case value of
        None \<Rightarrow> fallback
      | Some v \<Rightarrow>
          (let raw = to_ascii_lowercase (trim (case v of JStr s \<Rightarrow> s | JBool b \<Rightarrow> show_bool b | _ \<Rightarrow> json_to_string L v))
           in if raw \<in> {''1'', ''true'', ''yes'', ''on''} then True
              else if raw \<in> {''0'', ''false'', ''no'', ''off''} then False
              else fallback))"

definition clamp_number :: "f64 \<Rightarrow> f64 \<Rightarrow> f64 \<Rightarrow> f64" where
  "clamp_number value lo hi = f64_min (f64_max value lo) hi"

definition clamp_int_value :: "json option \<Rightarrow> int \<Rightarrow> int \<Rightarrow> int \<Rightarrow> int" where
  "clamp_int_value value lo hi fallback =
     clamp lo hi (f64_as_i64 (f64_floor (unwrap_or (parse_number_like value) (f64_of_int fallback))))"

text \<open>\<^verbatim>\<open>Ord::clamp\<close> panics when the bounds are crossed: no result.\<close>

definition compute_clamp_int :: "json option \<Rightarrow> int option \<Rightarrow> int option \<Rightarrow> int option \<Rightarrow> int option" where
  "compute_clamp_int value lo0 hi0 fallback =
     (let lo = unwrap_or lo0 (- (2 ^ 63)); hi = unwrap_or hi0 (2 ^ 63 - 1)
      in if hi < lo then None else Some (clamp_int_value value lo hi (unwrap_or fallback 0)))"

definition compute_clamp_number :: "json option \<Rightarrow> f64 option \<Rightarrow> f64 option \<Rightarrow> f64 option \<Rightarrow> f64" where
  "compute_clamp_number value lo hi fallback =
     clamp_number (unwrap_or (parse_number_like value) (unwrap_or fallback (Fin 0))) (unwrap_or lo NegInf) (unwrap_or hi PosInf)"

definition compute_to_bool :: "libs \<Rightarrow> json option \<Rightarrow> bool option \<Rightarrow> bool" where
  "compute_to_bool L value fallback = to_bool_like L value (unwrap_or fallback False)"

definition compute_extract_numeric :: "json \<Rightarrow> f64 option" where
  "compute_extract_numeric value = finite_only (js_number_for_extract (Some value))"

fun compute_pick_first_numeric :: "json list \<Rightarrow> f64 option" where
  "compute_pick_first_numeric [] = None"
| "compute_pick_first_numeric (c # cs) =
     (case compute_extract_numeric c of Some n \<Rightarrow> Some n | None \<Rightarrow> compute_pick_first_numeric cs)"

definition map_number_key :: "json option \<Rightarrow> string \<Rightarrow> f64 \<Rightarrow> f64 \<Rightarrow> f64 \<Rightarrow> f64" where
  "map_number_key map_value key lo hi fallback =
     clamp_number (unwrap_or (Option.bind (obj_get map_value key) (\<lambda>row. parse_number_like (Some row))) fallback) lo hi"

definition map_int_key :: "json option \<Rightarrow> string \<Rightarrow> int \<Rightarrow> int \<Rightarrow> int \<Rightarrow> int" where
  "map_int_key map_value key lo hi fallback = clamp_int_value (obj_get map_value key) lo hi fallback"

definition map_bool_key :: "libs \<Rightarrow> json option \<Rightarrow> string \<Rightarrow> bool \<Rightarrow> bool" where
  "map_bool_key L map_value key fallback = to_bool_like L (obj_get map_value key) fallback"

definition number_path :: "json option \<Rightarrow> string list \<Rightarrow> f64 \<Rightarrow> f64" where
  "number_path root0 path fallback = unwrap_or (parse_number_like (value_path root0 path)) fallback"

definition read_number_key :: "json option \<Rightarrow> string \<Rightarrow> f64 \<Rightarrow> f64" where
  "read_number_key value key fallback =
     unwrap_or (map_option (\<lambda>n. clamp_number n (Fin 0) (Fin 1)) (Option.bind (obj_get value key) as_f64)) fallback"

definition read_rank_key :: "json option \<Rightarrow> string \<Rightarrow> int \<Rightarrow> int" where
  "read_rank_key value key fallback =
     unwrap_or (Option.bind (obj_get value key) (\<lambda>v. or_else (as_i64 v) (map_option (\<lambda>n. f64_as_i64 (f64_round n)) (as_f64 v))))
       fallback"

definition array_to_string_rows :: "libs \<Rightarrow> json option \<Rightarrow> string list" where
  "array_to_string_rows L value = map (\<lambda>row. value_to_string L (Some row)) (array_rows value)"

section \<open>Lists of words\<close>

fun dedupe_loop_words :: "string list \<Rightarrow> string list \<Rightarrow> string list" where
  "dedupe_loop_words out [] = out"
| "dedupe_loop_words out (value # values) =
     dedupe_loop_words (if value = [] \<or> value \<in> set out then out else out @ [value]) values"

definition dedupe_preserve_order :: "string list \<Rightarrow> string list" where
  "dedupe_preserve_order values = dedupe_loop_words [] values"

definition value_to_csv_list :: "libs \<Rightarrow> json option \<Rightarrow> string list" where
  "value_to_csv_list L value =
     (case value of
        None \<Rightarrow> []
      | Some (JArr rows) \<Rightarrow> map (\<lambda>row. value_to_string L (Some row)) rows
      | Some v \<Rightarrow> split_on CHR '','' (value_to_string L (Some v)))"

definition compute_tokenize_text :: "string option \<Rightarrow> int option \<Rightarrow> string list" where
  "compute_tokenize_text value max_tokens =
     (let text0 = to_ascii_lowercase (clean_text_runtime (unwrap_or value []) 1200);
          raw = map (\<lambda>ch. if is_ascii_lower ch \<or> is_ascii_digit ch then ch else CHR '' '') text0
      in take (nat (clamp 0 256 (unwrap_or max_tokens 64)))
           (dedupe_preserve_order (filter (\<lambda>row. 3 \<le> length row) (map trim (split_on CHR '' '' raw)))))"

definition compute_normalize_list :: "libs \<Rightarrow> json option \<Rightarrow> int option \<Rightarrow> string list" where
  "compute_normalize_list L value max_len =
     take 64 (dedupe_preserve_order (filter (\<lambda>row. row \<noteq> [])
       (map (\<lambda>row. normalize_token_runtime row (nat (clamp 1 400 (unwrap_or max_len 80)))) (value_to_csv_list L value))))"

fun text_list_loop :: "nat \<Rightarrow> nat \<Rightarrow> string list \<Rightarrow> string list \<Rightarrow> string list" where
  "text_list_loop max_len max_items out [] = out"
| "text_list_loop max_len max_items out (row # rows) =
     (let next = clean_text_runtime row max_len in
      if next = [] \<or> next \<in> set out then text_list_loop max_len max_items out rows
      else if max_items \<le> length (out @ [next]) then out @ [next]
      else text_list_loop max_len max_items (out @ [next]) rows)"

definition compute_normalize_text_list :: "libs \<Rightarrow> json option \<Rightarrow> int option \<Rightarrow> int option \<Rightarrow> string list" where
  "compute_normalize_text_list L value max_len max_items =
     text_list_loop (nat (clamp 1 2000 (unwrap_or max_len 180))) (nat (clamp 0 1024 (unwrap_or max_items 64))) []
       (value_to_csv_list L value)"

definition compute_normalize_axiom_signal_terms :: "libs \<Rightarrow> json list \<Rightarrow> string list" where
  "compute_normalize_axiom_signal_terms L terms =
     take 32 (filter (\<lambda>row. row \<noteq> []) (map (\<lambda>row. compute_normalize_axiom_pattern (Some (value_to_string L (Some row)))) terms))"

definition stable_id_runtime :: "libs \<Rightarrow> string \<Rightarrow> string \<Rightarrow> string" where
  "stable_id_runtime L seed p = p @ ''_'' @ take 16 (sha256_hex L seed)"

definition compute_stable_id :: "libs \<Rightarrow> string option \<Rightarrow> string option \<Rightarrow> string" where
  "compute_stable_id L seed p =
     stable_id_runtime L (unwrap_or seed []) (nonempty_or (clean_text_runtime (unwrap_or p ''inv'') 80) ''inv'')"

section \<open>Trits and similarity\<close>

definition trit_of :: "f64 \<Rightarrow> int" where
  "trit_of n = (if f64_lt (Fin 0) n then 1 else if f64_lt n (Fin 0) then - 1 else 0)"

definition trit_of_text :: "string \<Rightarrow> int" where
  "trit_of_text s = trit_of (unwrap_or (parse_f64_value (trim s)) (Fin 0))"

definition normalize_trit_value :: "json \<Rightarrow> int" where
  "normalize_trit_value value =
     (case as_f64 value of
        Some n \<Rightarrow> trit_of n
      | None \<Rightarrow> (case value of JBool b \<Rightarrow> if b then 1 else 0 | JStr s \<Rightarrow> trit_of_text s | _ \<Rightarrow> 0))"

definition compute_trit_vector_from_input :: "json list option \<Rightarrow> string option \<Rightarrow> int list" where
  "compute_trit_vector_from_input trit_vector trit_vector_csv =
     (case trit_vector of
        Some vec \<Rightarrow> map normalize_trit_value vec
      | None \<Rightarrow>
          (let raw = trim (unwrap_or trit_vector_csv [])
           in if raw = [] then [] else map trit_of_text (split_on CHR '','' raw)))"

definition token_set_of :: "string list \<Rightarrow> string list" where
  "token_set_of tokens = btree_set (filter (\<lambda>t. t \<noteq> []) (map trim tokens))"

definition compute_jaccard_similarity :: "string list \<Rightarrow> string list \<Rightarrow> f64" where
  "compute_jaccard_similarity left_tokens right_tokens =
     (let left = token_set_of left_tokens; right = token_set_of right_tokens
      in if left = [] \<and> right = [] then Fin 1
         else if left = [] \<or> right = [] then Fin 0
         else let inter = f64_of_nat (length (filter (\<lambda>t. t \<in> set right) left));
                  union = f64_of_nat (length (btree_set (left @ right)))
              in if f64_lt (Fin 0) union then f64_div inter union else Fin 0)"

definition majority_trit :: "json list \<Rightarrow> int" where
  "majority_trit values =
     (let trits = map normalize_trit_value values;
          pain = length (filter (\<lambda>t. t < 0) trits); ok = length (filter (\<lambda>t. t > 0) trits);
          unknown = length (filter (\<lambda>t. t = 0) trits)
      in if pain > ok \<and> pain > unknown then - 1 else if ok > pain \<and> ok > unknown then 1 else 0)"

definition compute_trit_similarity :: "json list \<Rightarrow> json option \<Rightarrow> f64" where
  "compute_trit_similarity query_vector entry_trit =
     (let trit = normalize_trit_value (unwrap_or entry_trit JNull); majority = majority_trit query_vector
      in if query_vector = [] then (if trit = 0 then Fin 1 else f64_lit (1 / 2))
         else if majority = trit then Fin 1
         else if majority = 0 \<or> trit = 0 then f64_lit (6 / 10)
         else Fin 0)"

text \<open>A weighted mean of scores, the divisor kept away from zero.\<close>

definition weighted_three :: "f64 \<Rightarrow> f64 \<Rightarrow> f64 \<Rightarrow> f64 \<Rightarrow> f64 \<Rightarrow> f64 \<Rightarrow> f64" where
  "weighted_three a wa b wb c wc =
     f64_div (f64_add (f64_add (f64_mul a wa) (f64_mul b wb)) (f64_mul c wc))
       (f64_max (f64_add (f64_add wa wb) wc) (f64_lit (1 / 10000)))"

record library_match =
  lm_query_signature_tokens :: "string list"
  lm_query_trit_vector :: "json list"
  lm_query_target :: "string option"
  lm_row_signature_tokens :: "string list"
  lm_row_outcome_trit :: "int option"
  lm_row_target :: "string option"
  lm_token_weight :: "f64 option"
  lm_trit_weight :: "f64 option"
  lm_target_weight :: "f64 option"

definition compute_library_match_score :: "library_match \<Rightarrow> f64" where
  "compute_library_match_score i =
     (let token_score = compute_jaccard_similarity (lm_query_signature_tokens i) (lm_row_signature_tokens i);
          trit_score = compute_trit_similarity (lm_query_trit_vector i) (Some (JInt (unwrap_or (lm_row_outcome_trit i) 0)));
          target_score = Fin (if unwrap_or (lm_query_target i) [] = unwrap_or (lm_row_target i) [] then 1 else 0);
          zero = Fin 0
      in round6 (clamp_number (weighted_three token_score (unwrap_or (lm_token_weight i) zero)
           trit_score (unwrap_or (lm_trit_weight i) zero) target_score (unwrap_or (lm_target_weight i) zero)) (Fin 0) (Fin 1)))"

record failure_pressure =
  fp_fail_count :: int
  fp_hard_block :: bool
  fp_max_similarity :: f64

definition failure_step :: "f64 \<Rightarrow> json \<Rightarrow> failure_pressure \<Rightarrow> failure_pressure" where
  "failure_step block_similarity candidate st =
     (let similarity = unwrap_or (parse_number_like (json_get candidate ''similarity'')) (Fin 0) in
      case json_get candidate ''row'' of
        Some (JObj m) \<Rightarrow>
          (let outcome = unwrap_or (parse_number_like (bt_get m ''outcome_trit'')) (Fin 0) in
           if f64_lt outcome (Fin 0)
           then \<lparr> fp_fail_count = fp_fail_count st + 1,
                  fp_hard_block = (fp_hard_block st \<or> f64_le block_similarity similarity),
                  fp_max_similarity = (if f64_lt (fp_max_similarity st) similarity then similarity else fp_max_similarity st) \<rparr>
           else st)
      | _ \<Rightarrow> st)"

definition compute_known_failure_pressure :: "json list \<Rightarrow> f64 option \<Rightarrow> failure_pressure" where
  "compute_known_failure_pressure candidates failed_repetition_similarity_block =
     (let st = fold (failure_step (unwrap_or failed_repetition_similarity_block (f64_lit (72 / 100)))) candidates
            \<lparr> fp_fail_count = 0, fp_hard_block = False, fp_max_similarity = Fin 0 \<rparr>
      in st\<lparr> fp_max_similarity := round6 (fp_max_similarity st) \<rparr>)"

section \<open>The maps of the policy\<close>

definition compute_certainty_threshold :: "json option \<Rightarrow> string option \<Rightarrow> string option \<Rightarrow> bool option \<Rightarrow> f64" where
  "compute_certainty_threshold thresholds band0 impact0 allow_zero =
     (let band = inv_normalize_token (unwrap_or band0 ''novice'') 24;
          impact = inv_normalize_token (unwrap_or impact0 ''medium'') 24;
          by_band = (case obj_get thresholds band of
                       Some (JObj m) \<Rightarrow> Some (JObj m) | _ \<Rightarrow> obj_get thresholds ''novice'')
      in if unwrap_or allow_zero False \<and> band = ''legendary'' \<and> impact = ''critical'' then Fin 0
         else read_number_key by_band impact (Fin 1))"

definition compute_max_target_rank :: "json option \<Rightarrow> json option \<Rightarrow> string option \<Rightarrow> string option \<Rightarrow> int" where
  "compute_max_target_rank rank_by_band rank_by_impact maturity_band impact0 =
     (let band = inv_normalize_token (unwrap_or maturity_band ''novice'') 24;
          impact = inv_normalize_token (unwrap_or impact0 ''medium'') 24
      in max (min (read_rank_key rank_by_band band 1) (read_rank_key rank_by_impact impact 1)) 1)"

definition compute_effective_first_n_human_veto_uses :: "json option \<Rightarrow> json option \<Rightarrow> string option \<Rightarrow> int" where
  "compute_effective_first_n_human_veto_uses configured_map minimum_map target =
     (let key = inv_normalize_token (unwrap_or target ''tactical'') 24
      in max (clamp 0 100000 (read_rank_key configured_map key 0)) (clamp 0 100000 (read_rank_key minimum_map key 0)))"

definition normalized_number :: "json option \<Rightarrow> json option \<Rightarrow> f64 option \<Rightarrow> f64 option \<Rightarrow> string \<Rightarrow> f64" where
  "normalized_number raw base lo0 hi0 key =
     (let lo = unwrap_or lo0 (Fin 0); hi = unwrap_or hi0 (Fin 1)
      in map_number_key raw key lo hi (map_number_key base key lo hi lo))"

record band_map =
  bm_novice :: f64
  bm_developing :: f64
  bm_mature :: f64
  bm_seasoned :: f64
  bm_legendary :: f64

definition compute_normalize_band_map :: "json option \<Rightarrow> json option \<Rightarrow> f64 option \<Rightarrow> f64 option \<Rightarrow> band_map" where
  "compute_normalize_band_map raw base lo hi =
     (let n = normalized_number raw base lo hi
      in \<lparr> bm_novice = n ''novice'', bm_developing = n ''developing'', bm_mature = n ''mature'',
           bm_seasoned = n ''seasoned'', bm_legendary = n ''legendary'' \<rparr>)"

record impact_map =
  ip_low :: f64
  ip_medium :: f64
  ip_high :: f64
  ip_critical :: f64

definition compute_normalize_impact_map :: "json option \<Rightarrow> json option \<Rightarrow> f64 option \<Rightarrow> f64 option \<Rightarrow> impact_map" where
  "compute_normalize_impact_map raw base lo hi =
     (let n = normalized_number raw base lo hi
      in \<lparr> ip_low = n ''low'', ip_medium = n ''medium'', ip_high = n ''high'', ip_critical = n ''critical'' \<rparr>)"

record target_map =
  tm_tactical :: f64
  tm_belief :: f64
  tm_identity :: f64
  tm_directive :: f64
  tm_constitution :: f64

definition compute_normalize_target_map :: "json option \<Rightarrow> json option \<Rightarrow> f64 option \<Rightarrow> f64 option \<Rightarrow> target_map" where
  "compute_normalize_target_map raw base lo hi =
     (let n = normalized_number raw base lo hi
      in \<lparr> tm_tactical = n ''tactical'', tm_belief = n ''belief'', tm_identity = n ''identity'',
           tm_directive = n ''directive'', tm_constitution = n ''constitution'' \<rparr>)"

record target_policy =
  tp_rank :: int
  tp_live_enabled :: bool
  tp_test_enabled :: bool
  tp_require_human_veto_live :: bool
  tp_min_shadow_hours :: int

definition compute_normalize_target_policy :: "libs \<Rightarrow> json option \<Rightarrow> json option \<Rightarrow> target_policy" where
  "compute_normalize_target_policy L raw base =
     (let flag = (\<lambda>key d. map_bool_key L raw key (map_bool_key L base key d));
          num = (\<lambda>key lo hi d. map_int_key raw key lo hi (map_int_key base key lo hi d))
      in \<lparr> tp_rank = num ''rank'' 1 10 1, tp_live_enabled = flag ''live_enabled'' False,
           tp_test_enabled = flag ''test_enabled'' True, tp_require_human_veto_live = flag ''require_human_veto_live'' False,
           tp_min_shadow_hours = num ''min_shadow_hours'' 0 (24 * 365) 0 \<rparr>)"

definition compute_window_days_for_target :: "json option \<Rightarrow> string option \<Rightarrow> int option \<Rightarrow> int" where
  "compute_window_days_for_target window_map target0 fallback =
     map_int_key window_map (compute_normalize_target (Some (unwrap_or target0 ''tactical''))) 1 3650
       (clamp 1 3650 (unwrap_or fallback 90))"

definition compute_effective_window_days_for_target ::
  "json option \<Rightarrow> json option \<Rightarrow> string option \<Rightarrow> int option \<Rightarrow> int" where
  "compute_effective_window_days_for_target window_map minimum_window_map target fallback =
     max (compute_window_days_for_target window_map target fallback)
       (compute_window_days_for_target minimum_window_map target (Some 1))"

definition compute_tier_retention_days :: "json option \<Rightarrow> int" where
  "compute_tier_retention_days policy =
     (let maps = map (\<lambda>p. object_of (value_path policy p))
            [[''tier_transition'', ''window_days_by_target''], [''tier_transition'', ''minimum_window_days_by_target''],
             [''shadow_pass_gate'', ''window_days_by_target'']];
          all_days = map (\<lambda>(k, v). clamp_int_value (Some v) 1 3650 1) (concat maps);
          max_days = fold (\<lambda>days acc. if days > acc then days else acc) all_days 365
      in if max_days < 30 then 30 else max_days)"

section \<open>Tokens are stable\<close>

lemma split_ws_single: "list_all (\<lambda>c. \<not> is_ws c) s \<Longrightarrow> acc @ s \<noteq> [] \<Longrightarrow> split_ws_acc acc s = [rev acc @ s]"
  by (induction s arbitrary: acc) auto

lemma inv_words_word: "list_all (\<lambda>c. \<not> is_ws c) s \<Longrightarrow> inv_words s = s"
proof (cases "s = []")
  case False
  assume w: "list_all (\<lambda>c. \<not> is_ws c) s"
  then have "trim s = s" using False by (intro trim_id) (auto simp: list_all_iff)
  then show ?thesis using w False by (simp add: inv_words_def split_whitespace_def split_ws_single)
qed (simp add: inv_words_def split_whitespace_def)

lemma inv_token_not_ws: "is_token_char c \<Longrightarrow> \<not> is_ws c"
  by (auto simp: is_token_char_def char_class_defs char_nat_def)

lemma token_char_lower: "is_token_char c \<Longrightarrow> char_to_ascii_lowercase c = c"
  by (auto simp: is_token_char_def char_to_ascii_lowercase_def char_class_defs char_nat_def)

lemma token_char_underscore [simp]: "is_token_char CHR ''_''"
  by (simp add: is_token_char_def)

lemma token_loop_chars: "list_all is_token_char (token_runtime_loop is_token_char b s)"
  by (induction is_token_char b s rule: token_runtime_loop.induct) auto

lemma inv_token_loop_length: "length (token_runtime_loop keep b s) \<le> length s"
  by (induction keep b s rule: token_runtime_loop.induct) auto

lemma token_loop_id: "list_all keep s \<Longrightarrow> token_runtime_loop keep b s = s"
  by (induction s arbitrary: b) auto

lemma trim_matches_sub: "set (trim_matches ch s) \<subseteq> set s" "length (trim_matches ch s) \<le> length s"
proof -
  show "set (trim_matches ch s) \<subseteq> set s" unfolding trim_matches_def by (auto dest!: set_dropWhileD)
  have "length (dropWhile P xs) \<le> length xs" for P :: "char \<Rightarrow> bool" and xs by (rule length_dropWhile_le)
  then show "length (trim_matches ch s) \<le> length s" unfolding trim_matches_def by (metis le_trans length_rev)
qed

lemma dropWhile_rev_dropWhile:
  "dropWhile P (rev (dropWhile P (rev s))) = rev (dropWhile P (rev (dropWhile P s)))"
proof (cases "list_all P s")
  case True
  then show ?thesis by (simp add: list_all_iff dropWhile_eq_Nil_conv [THEN iffD2])
next
  case False
  then have "\<exists>x \<in> set s. \<not> P x" by (simp add: list_all_iff)
  then obtain xs y ys where s: "s = xs @ y # ys" "\<not> P y" and "\<forall>x \<in> set xs. \<not> \<not> P x" by (rule split_list_first_propE)
  then have xs: "list_all P xs" by (simp add: list_all_iff)
  have d: "dropWhile P s = y # ys" using s xs by (simp add: list_all_iff)
  have g: "dropWhile P (zs @ y # ws) = dropWhile P (zs @ [y]) @ ws" for zs ws
    using s(2) by (induction zs) auto
  have "dropWhile P (rev s) = dropWhile P (rev ys @ [y]) @ rev xs" using g [of "rev ys" "rev xs"] by (simp add: s(1))
  then have "rev (dropWhile P (rev s)) = xs @ rev (dropWhile P (rev (y # ys)))" by simp
  moreover have "\<exists>zs. rev (dropWhile P (rev (y # ys))) = y # zs"
  proof -
    have "dropWhile P (ws @ [y]) = dropWhile P ws @ [y]" for ws using s(2) by (induction ws) auto
    then show ?thesis by simp
  qed
  ultimately show ?thesis using s xs d by (auto simp: list_all_iff)
qed

lemma trim_matches_idem: "trim_matches ch (trim_matches ch s) = trim_matches ch s"
proof -
  let ?P = "\<lambda>c. c = ch"
  have "trim_matches ch (trim_matches ch s) = rev (dropWhile ?P (rev (dropWhile ?P (rev (dropWhile ?P (rev (dropWhile ?P s)))))))"
    by (simp add: trim_matches_def)
  also have "\<dots> = rev (dropWhile ?P (dropWhile ?P (rev (dropWhile ?P (dropWhile ?P s)))))"
    by (simp only: dropWhile_rev_dropWhile rev_rev_ident)
  finally show ?thesis by (simp add: trim_matches_def)
qed

lemma normalize_token_runtime_chars: "list_all is_token_char (normalize_token_runtime s n)"
  using token_loop_chars trim_matches_sub(1) unfolding normalize_token_runtime_def list_all_iff by blast

lemma normalize_token_runtime_length: "length (normalize_token_runtime s n) \<le> n"
proof -
  have "length (to_ascii_lowercase (clean_text_runtime s n)) \<le> n" by (simp add: to_ascii_lowercase_def clean_text_runtime_def)
  then show ?thesis unfolding normalize_token_runtime_def
    using inv_token_loop_length trim_matches_sub(2) le_trans by blast
qed

text \<open>A word of token characters is its own token when it fits and has no underscore at the ends.\<close>

lemma normalize_token_word:
  assumes "list_all is_token_char s" and "length s \<le> n"
  shows "normalize_token_runtime s n = trim_matches CHR ''_'' s"
proof -
  have "list_all (\<lambda>c. \<not> is_ws c) s" using assms(1) inv_token_not_ws by (auto simp: list_all_iff)
  then have "clean_text_runtime s n = s" using assms(2) by (simp add: clean_text_runtime_def inv_words_word)
  moreover have "to_ascii_lowercase s = s"
    using assms(1) token_char_lower by (auto simp: to_ascii_lowercase_def list_all_iff intro: map_idI)
  ultimately show ?thesis using assms(1) by (simp add: normalize_token_runtime_def token_loop_id)
qed

lemma normalize_token_runtime_idem [simp]:
  assumes "n \<le> m"
  shows "normalize_token_runtime (normalize_token_runtime s n) m = normalize_token_runtime s n"
proof -
  have "length (normalize_token_runtime s n) \<le> m" using normalize_token_runtime_length [of s n] assms by simp
  then have "normalize_token_runtime (normalize_token_runtime s n) m = trim_matches CHR ''_'' (normalize_token_runtime s n)"
    by (rule normalize_token_word [OF normalize_token_runtime_chars])
  then show ?thesis by (simp add: normalize_token_runtime_def trim_matches_idem)
qed

lemma compute_normalize_token_24: "compute_normalize_token (Some s) (Some 24) = normalize_token_runtime s 24"
  by (simp add: compute_normalize_token_def unwrap_or_def clamp_def)

lemma band_index_normalized [simp]:
  "compute_band_to_index (Some (normalize_token_runtime s 24)) = compute_band_to_index (Some s)"
  by (simp only: compute_band_to_index_def compute_normalize_token_24 normalize_token_runtime_idem [OF order_refl])

lemma compute_normalize_target_mem: "compute_normalize_target v \<in> set tier_targets"
  by (auto simp: compute_normalize_target_def tier_targets_def Let_def)

end
