(* ===== verification/Float_Bits.thy ===== *)
theory Float_Bits
  imports Float_Arith
begin

text \<open>
  The bits of a float. A rounded value is a whole number of its own units, so rounding it again changes nothing, and
  the bits of a finite float read back as the float.
\<close>

definition representable :: "rat \<Rightarrow> bool" where
  "representable q = (rnd_rat q = q \<and> f64_exponent q < 1024)"

section \<open>Rounding twice\<close>

lemma log2_floor_exponent: "- 1022 < f64_exponent q \<Longrightarrow> log2_floor \<bar>q\<bar> = f64_exponent q"
  by (auto simp: f64_exponent_def max_def split: if_splits)

lemma abs_less_exponent: "v \<noteq> 0 \<Longrightarrow> \<bar>v\<bar> < 2 powi (f64_exponent v + 1)"
proof -
  assume "v \<noteq> 0"
  then have "\<bar>v\<bar> < 2 powi (log2_floor \<bar>v\<bar> + 1)" using log2_floor_bounds [of "\<bar>v\<bar>"] by simp
  also have "(2::rat) powi (log2_floor \<bar>v\<bar> + 1) \<le> 2 powi (f64_exponent v + 1)"
    by (rule power_int_increasing) (simp_all add: f64_exponent_def)
  finally show ?thesis .
qed

lemma powi_split: "(2::rat) powi (a + b) = 2 powi a * 2 powi b"
  by (simp add: power_int_add)

lemma powi_nat_int: "0 \<le> k \<Longrightarrow> (2::rat) powi k = of_int (2 ^ nat k)"
  by (metis nonneg_int_cases nat_int of_int_numeral of_int_power power_int_of_nat)

lemma units_of_multiple:
  assumes "v \<noteq> 0" and v: "v = of_int h * 2 powi (e - 52)" and "\<bar>h\<bar> \<le> 2 ^ 53" and "- 1022 \<le> e"
  shows "\<exists>k. v = of_int k * f64_ulp v"
proof (cases "f64_exponent v \<le> e")
  case True
  have "(2::rat) powi (e - 52) = 2 powi (e - f64_exponent v) * 2 powi (f64_exponent v - 52)"
    by (simp flip: powi_split)
  also have "\<dots> = of_int (2 ^ nat (e - f64_exponent v)) * f64_ulp v"
    using True by (simp add: powi_nat_int f64_ulp_def)
  finally have "v = of_int (h * 2 ^ nat (e - f64_exponent v)) * f64_ulp v" using v by simp
  then show ?thesis by blast
next
  case False
  let ?E = "f64_exponent v"
  have "2 powi ?E \<le> \<bar>v\<bar>"
    using False assms(1,4) log2_floor_bounds [of "\<bar>v\<bar>"] log2_floor_exponent [of v] by simp
  moreover have "\<bar>v\<bar> \<le> 2 powi (e + 1)"
  proof -
    have "\<bar>v\<bar> = of_int \<bar>h\<bar> * 2 powi (e - 52)" by (subst v) (simp add: abs_mult)
    also have "\<dots> \<le> of_int (2 ^ 53) * 2 powi (e - 52)"
      by (rule mult_right_mono) (use assms(3) in \<open>simp_all only: of_int_le_iff zero_le_power_int zero_le_numeral\<close>)
    also have "\<dots> = 2 powi (e + 1)" by (simp add: power_int_diff power_int_add)
    finally show ?thesis .
  qed
  moreover have "(2::rat) powi (e + 1) \<le> 2 powi ?E" using False by (intro power_int_increasing) auto
  ultimately have a: "\<bar>v\<bar> = 2 powi ?E" by linarith
  have "(2::rat) powi ?E = of_int (2 ^ 52) * f64_ulp v"
    by (simp add: f64_ulp_def power_int_diff)
  then have "v = of_int (2 ^ 52) * f64_ulp v \<or> v = of_int (- (2 ^ 52)) * f64_ulp v" using a by (auto simp: abs_if split: if_splits)
  then show ?thesis by blast
qed

lemma rnd_rat_units: "v = of_int k * f64_ulp v \<Longrightarrow> rnd_rat v = v"
proof (cases "v = 0")
  case False
  assume k: "v = of_int k * f64_ulp v"
  then have "v / f64_ulp v = of_int k" using f64_ulp_pos [of v] by (metis nonzero_mult_div_cancel_right order_less_irrefl)
  then have "half_even (v / f64_ulp v) = k" by simp
  then show ?thesis using False k by (simp add: rnd_rat_def)
qed simp

lemma rnd_rat_multiple: "rnd_rat q \<noteq> 0 \<Longrightarrow> \<exists>k. rnd_rat q = of_int k * f64_ulp (rnd_rat q)"
proof -
  assume nz: "rnd_rat q \<noteq> 0"
  then have q: "q \<noteq> 0" by auto
  let ?h = "half_even (q / f64_ulp q)" and ?e = "f64_exponent q"
  have r: "rnd_rat q = of_int ?h * 2 powi (?e - 52)" using q by (simp add: rnd_rat_def f64_ulp_def)
  have "\<bar>q\<bar> / f64_ulp q \<le> of_int (2 ^ 53)"
  proof -
    have "2 powi (?e + 1) = of_int (2 ^ 53) * f64_ulp q" by (simp add: f64_ulp_def power_int_diff power_int_add)
    then have "\<bar>q\<bar> \<le> of_int (2 ^ 53) * f64_ulp q" using abs_less_exponent [OF q] by simp
    then show ?thesis by (simp add: pos_divide_le_eq)
  qed
  then have "half_even (\<bar>q\<bar> / f64_ulp q) \<le> 2 ^ 53" using half_even_mono half_even_int by metis
  moreover have "0 \<le> \<bar>q\<bar> / f64_ulp q" by (simp add: less_imp_le)
  then have "0 \<le> half_even (\<bar>q\<bar> / f64_ulp q)" using half_even_mono half_even_int [of 0] by (metis of_int_0)
  moreover have "half_even (\<bar>q\<bar> / f64_ulp q) = \<bar>?h\<bar>"
    using calculation half_even_neg [of "q / f64_ulp q"] by (cases "0 \<le> q") (auto simp: abs_if split: if_splits)
  ultimately have "\<bar>?h\<bar> \<le> 2 ^ 53" by simp
  moreover have "- 1022 \<le> ?e" by (simp add: f64_exponent_def)
  ultimately show ?thesis using units_of_multiple [OF nz r] by blast
qed

lemma rnd_rat_idem [simp]: "rnd_rat (rnd_rat q) = rnd_rat q"
  using rnd_rat_multiple [of q] rnd_rat_units by (cases "rnd_rat q = 0") auto

lemma representable_rnd: "f64_rnd q = Fin v \<Longrightarrow> representable v"
  by (auto simp: f64_rnd_def Let_def representable_def f64_inf_def split: if_splits)

section \<open>The bits read back\<close>

lemma sign_split:
  fixes x :: int
  assumes "0 \<le> x" "x < 2 ^ 63"
  shows "(if neg then 2 ^ 63 + x else x) \<ge> 2 ^ 63 \<longleftrightarrow> neg"
    and "(if neg then 2 ^ 63 + x else x) div 2 ^ 52 mod 2 ^ 11 = x div 2 ^ 52"
    and "(if neg then 2 ^ 63 + x else x) mod 2 ^ 52 = x mod 2 ^ 52"
proof -
  show "(if neg then 2 ^ 63 + x else x) \<ge> 2 ^ 63 \<longleftrightarrow> neg" using assms by auto
  have r: "0 \<le> x div 2 ^ 52" "x div 2 ^ 52 < 2 ^ 11" using assms by auto
  have e: "(2 ^ 63 + x) = x + 2 ^ 11 * 2 ^ 52" by simp
  have "(2 ^ 63 + x) div 2 ^ 52 = x div 2 ^ 52 + 2 ^ 11" unfolding e by (subst div_mult_self1) simp_all
  then show "(if neg then 2 ^ 63 + x else x) div 2 ^ 52 mod 2 ^ 11 = x div 2 ^ 52" using r by (simp add: mod_pos_pos_trivial)
  show "(if neg then 2 ^ 63 + x else x) mod 2 ^ 52 = x mod 2 ^ 52" unfolding e by (cases neg) (simp_all only: if_True if_False mod_mult_self1)
qed

lemma f64_bits_roundtrip:
  assumes "representable q"
  shows "f64_of_bits (f64_to_bits (Fin q)) = Fin q"
proof (cases "q = 0")
  case True
  then show ?thesis by (simp add: f64_of_bits_def Let_def)
next
  case False
  let ?E = "f64_exponent q" and ?u = "f64_ulp q"
  obtain k where k: "q = of_int k * ?u" using rnd_rat_multiple [of q] assms False by (auto simp: representable_def)
  have E: "- 1022 \<le> ?E" "?E < 1024" using assms by (simp_all add: f64_exponent_def representable_def)
  have aq: "\<bar>q\<bar> = of_int \<bar>k\<bar> * ?u" by (subst k) (simp add: abs_mult less_imp_le)
  then have fl: "\<lfloor>\<bar>q\<bar> / ?u\<rfloor> = \<bar>k\<bar>" using f64_ulp_pos [of q] by (metis floor_of_int nonzero_mult_div_cancel_right order_less_irrefl)
  have U: "2 powi (?E + 1) = of_int (2 ^ 53) * ?u" "2 powi ?E = of_int (2 ^ 52) * ?u"
    by (simp_all add: f64_ulp_def power_int_diff power_int_add)
  have "of_int \<bar>k\<bar> * ?u < of_int (2 ^ 53) * ?u" using abs_less_exponent [OF False] unfolding aq U .
  then have k53: "\<bar>k\<bar> < 2 ^ 53" by (simp only: mult_less_cancel_right_pos [OF f64_ulp_pos] of_int_less_iff)
  have k52: "2 ^ 52 \<le> \<bar>k\<bar>" if "- 1022 < ?E"
  proof -
    have "2 powi ?E \<le> \<bar>q\<bar>" using log2_floor_bounds [of "\<bar>q\<bar>"] log2_floor_exponent [OF that] False by simp
    then have "of_int (2 ^ 52) * ?u \<le> of_int \<bar>k\<bar> * ?u" unfolding aq U .
    then show ?thesis by (simp only: mult_le_cancel_right_pos [OF f64_ulp_pos] of_int_le_iff)
  qed
  define x where "x = (?E + 1022) * 2 ^ 52 + \<bar>k\<bar>"
  have x: "0 \<le> x" "x < 2 ^ 63" using E k53 by (auto simp: x_def)
  have bits: "uint (f64_to_bits (Fin q)) = (if q < 0 then 2 ^ 63 + x else x)"
  proof -
    have "f64_to_bits (Fin q) = word_of_int (if q < 0 then 2 ^ 63 + x else x)"
      using False by (simp add: fl x_def add.assoc del: of_int_add of_int_mult)
    moreover have "0 \<le> (if q < 0 then 2 ^ 63 + x else x)" "(if q < 0 then 2 ^ 63 + x else x) < 2 ^ 64" using x by auto
    ultimately show ?thesis by (simp only: uint_word_of_int) simp
  qed
  note sp = sign_split [OF x, of "q < 0"]
  have s: "(if q < 0 then - 1 else 1) * \<bar>q\<bar> = q" by simp
  show ?thesis
  proof (cases "2 ^ 52 \<le> \<bar>k\<bar>")
    case True
    have m: "x = (\<bar>k\<bar> - 2 ^ 52) + (?E + 1023) * 2 ^ 52" by (simp add: x_def algebra_simps)
    have r: "0 \<le> \<bar>k\<bar> - 2 ^ 52" "\<bar>k\<bar> - 2 ^ 52 < 2 ^ 52" using True k53 by simp_all
    have "x div 2 ^ 52 = ?E + 1023" unfolding m by (subst div_mult_self1) (simp_all only: div_pos_pos_trivial [OF r], simp_all)
    moreover have "x mod 2 ^ 52 = \<bar>k\<bar> - 2 ^ 52" unfolding m by (simp only: mod_mult_self1 mod_pos_pos_trivial [OF r])
    moreover have "?E + 1023 \<noteq> 2047" "?E + 1023 \<noteq> 0" using E by auto
    moreover have "of_int (2 ^ 52 + (\<bar>k\<bar> - 2 ^ 52)) * pow2 (?E + 1023 - 1075) = \<bar>q\<bar>"
      unfolding aq f64_ulp_def by simp
    then have "(if q < 0 then - 1 else 1) * of_int (2 ^ 52 + (\<bar>k\<bar> - 2 ^ 52)) * pow2 (?E + 1023 - 1075) = q"
      by (simp only: mult.assoc s)
    ultimately show ?thesis unfolding f64_of_bits_def Let_def bits sp by (simp only: if_False)
  next
    case sub: False
    then have "?E = - 1022" using k52 E by fastforce
    then have "x div 2 ^ 52 = 0" "x mod 2 ^ 52 = \<bar>k\<bar>" "of_int \<bar>k\<bar> * pow2 (- 1074) = \<bar>q\<bar>"
      using sub by (simp_all add: x_def aq f64_ulp_def)
    moreover from this(3) have "(if q < 0 then - 1 else 1) * of_int \<bar>k\<bar> * pow2 (- 1074) = q" by (simp only: mult.assoc s)
    moreover have "(0::int) \<noteq> 2047" by simp
    ultimately show ?thesis unfolding f64_of_bits_def Let_def bits sp by (simp only: if_False if_True refl)
  qed
qed

section \<open>What bits can denote\<close>

lemma representable_0 [simp]: "representable 0"
  by (simp add: representable_def)

lemma exponent_below: "\<bar>q\<bar> < 2 powi 1024 \<Longrightarrow> f64_exponent q < 1024"
proof (cases "q = 0")
  case False
  assume "\<bar>q\<bar> < 2 powi 1024"
  then have "(2::rat) powi log2_floor \<bar>q\<bar> < 2 powi 1024" using log2_floor_bounds [of "\<bar>q\<bar>"] False by simp
  then have "log2_floor \<bar>q\<bar> < 1024" by (rule powi_less_imp_less)
  then show ?thesis by (simp add: f64_exponent_def)
qed simp

lemma representable_multiple:
  assumes "q = of_int h * 2 powi (e - 52)" and "\<bar>h\<bar> < 2 ^ 53" and "- 1022 \<le> e" and "e \<le> 1023"
  shows "representable q"
proof (cases "q = 0")
  case False
  obtain k where "q = of_int k * f64_ulp q" using units_of_multiple [OF False assms(1) _ assms(3)] assms(2) by auto
  then have "rnd_rat q = q" by (rule rnd_rat_units)
  moreover have "\<bar>q\<bar> < 2 powi 1024"
  proof -
    have "\<bar>q\<bar> = of_int \<bar>h\<bar> * 2 powi (e - 52)" by (subst assms(1)) (simp add: abs_mult)
    also have "\<dots> < of_int (2 ^ 53) * 2 powi (e - 52)"
      by (rule mult_strict_right_mono) (use assms(2) in \<open>simp_all only: of_int_less_iff zero_less_power_int zero_less_numeral\<close>)
    also have "\<dots> = 2 powi (e + 1)" by (simp add: power_int_diff power_int_add)
    also have "\<dots> \<le> 2 powi 1024" using assms(4) by (intro power_int_increasing) auto
    finally show ?thesis .
  qed
  ultimately show ?thesis by (simp add: representable_def exponent_below)
qed simp

lemma f64_of_bits_representable: "f64_of_bits w = Fin q \<Longrightarrow> representable q"
proof -
  assume f: "f64_of_bits w = Fin q"
  define n where "n = uint w"
  define e where "e = (n div 2 ^ 52) mod 2 ^ 11"
  define m where "m = n mod 2 ^ 52"
  define s :: int where "s = (if n \<ge> 2 ^ 63 then - 1 else 1)"
  have b: "0 \<le> m" "m < 2 ^ 52" "0 \<le> e" "e < 2 ^ 11" "\<bar>s\<bar> = 1" unfolding m_def e_def s_def by auto
  have s: "(if 2 ^ 63 \<le> uint w then - 1 else 1 :: rat) = of_int s" by (simp add: s_def n_def)
  have q: "q = (if e = 0 then of_int s * of_int m * pow2 (- 1074) else of_int s * of_int (2 ^ 52 + m) * pow2 (e - 1075))"
    and ne: "e \<noteq> 2047"
    using f unfolding f64_of_bits_def Let_def n_def [symmetric] e_def [symmetric] m_def [symmetric] s [unfolded n_def [symmetric]]
    by (auto simp: f64_inf_def split: if_splits)
  show ?thesis
  proof (cases "e = 0")
    case True
    then have "q = of_int (s * m) * 2 powi (- 1022 - 52)" by (simp add: q)
    moreover have "\<bar>s * m\<bar> < 2 ^ 53" using b by (simp add: abs_mult)
    ultimately show ?thesis by (rule representable_multiple) simp_all
  next
    case False
    then have "q = of_int (s * (2 ^ 52 + m)) * 2 powi ((e - 1023) - 52)" by (simp add: q)
    moreover have "\<bar>s * (2 ^ 52 + m)\<bar> < 2 ^ 53" using b by (simp add: abs_mult)
    ultimately show ?thesis by (rule representable_multiple) (use b ne False in auto)
  qed
qed

lemma log2_floor_1: "f64_exponent 1 = 0"
  by code_simp

lemma representable_1 [simp]: "representable 1"
  using rnd_rat_of_int [of 1] by (simp add: representable_def log2_floor_1)

lemma representable_neg: "representable q \<Longrightarrow> representable (- q)"
  by (simp add: representable_def rnd_rat_neg f64_exponent_def)

end
