(* ===== verification/Inversion_Rounding.thy ===== *)
theory Inversion_Rounding
  imports Inversion_Base Float_Bits
begin

text \<open>
  Rounding to six decimals (\<^verbatim>\<open>round6\<close> of \<^verbatim>\<open>core/layer2/execution/src/inversion.rs\<close>) on the scores between zero and
  one: it is monotone, rounding again changes nothing, and the JSON number reads back as the score.
\<close>

section \<open>Six decimals\<close>

lemma half_even_near: "\<bar>of_int (half_even x) - x\<bar> \<le> 1 / 2"
proof -
  have "of_int \<lfloor>x\<rfloor> \<le> x" "x < of_int \<lfloor>x\<rfloor> + 1" by linarith+
  then have "\<bar>of_int \<lfloor>x\<rfloor> - x\<bar> \<le> 1 / 2 \<or> x - of_int \<lfloor>x\<rfloor> > 1 / 2" "x - of_int \<lfloor>x\<rfloor> \<ge> 1 / 2 \<Longrightarrow> \<bar>of_int (\<lfloor>x\<rfloor> + 1) - x\<bar> \<le> 1 / 2"
    by linarith+
  then show ?thesis by (auto simp: half_even_def Let_def)
qed

lemma rnd_rat_near: "\<bar>rnd_rat q - q\<bar> \<le> f64_ulp q / 2"
proof (cases "q = 0")
  case False
  let ?u = "f64_ulp q"
  have u: "0 < ?u" by simp
  have "\<bar>of_int (half_even (q / ?u)) - q / ?u\<bar> * ?u \<le> 1 / 2 * ?u"
    by (rule mult_right_mono [OF half_even_near]) (simp add: less_imp_le)
  moreover have "\<bar>of_int (half_even (q / ?u)) - q / ?u\<bar> * ?u = \<bar>(of_int (half_even (q / ?u)) - q / ?u) * ?u\<bar>"
    using abs_of_pos [OF u] by (simp add: abs_mult)
  moreover have "(of_int (half_even (q / ?u)) - q / ?u) * ?u = rnd_rat q - q"
    using less_imp_neq [OF u] False by (simp add: rnd_rat_def left_diff_distrib)
  ultimately show ?thesis by simp
qed (simp add: less_imp_le)

lemma f64_ulp_unit: "0 \<le> q \<Longrightarrow> q \<le> 1 \<Longrightarrow> f64_ulp q \<le> 2 powi (- 52)"
proof -
  assume q: "0 \<le> q" "q \<le> 1"
  have "f64_exponent 1 = 0" "f64_exponent 0 \<le> 0" by code_simp+
  then have "f64_exponent q \<le> 0" using f64_exponent_mono [of q 1] q by (cases "q = 0") auto
  then show ?thesis unfolding f64_ulp_def pow2_eq by (intro power_int_increasing) auto
qed

lemma rnd_rat_quarters:
  assumes "\<bar>n\<bar> \<le> 2 ^ 50"
  shows "rnd_rat (of_int n / 4) = of_int n / 4"
proof (cases "n = 0")
  case False
  let ?v = "of_int n / 4 :: rat"
  have "?v = of_int n * 2 powi (50 - 52)" by (simp add: power_int_def power_one_over)
  moreover have "\<bar>n\<bar> \<le> 2 ^ 53" using assms by simp
  moreover have "?v \<noteq> 0" "- 1022 \<le> (50::int)" using False by simp_all
  ultimately obtain k where "?v = of_int k * f64_ulp ?v" using units_of_multiple by metis
  then show ?thesis by (rule rnd_rat_units)
qed simp

definition sixth :: "int \<Rightarrow> rat" where
  "sixth n = rnd_rat (of_int n / 1000000)"

definition millionths :: "rat \<Rightarrow> int" where
  "millionths q = round_rat (rnd_rat (q * 1000000))"

lemma million: "f64_of_int 1000000 = Fin 1000000"
  using f64_of_int_exact [of 1000000] by simp

lemma millionths_range:
  assumes "0 \<le> q" and "q \<le> 1"
  shows "0 \<le> millionths q \<and> millionths q \<le> 1000000" and "f64_rnd (q * 1000000) = Fin (rnd_rat (q * 1000000))"
proof -
  have "small 1000000 (f64_rnd (q * 1000000))" using assms by (intro f64_rnd_small) auto
  then have r: "f64_rnd (q * 1000000) = Fin (rnd_rat (q * 1000000))" "0 \<le> rnd_rat (q * 1000000)" "rnd_rat (q * 1000000) \<le> 1000000"
    by (auto simp: f64_rnd_def Let_def f64_inf_def small_def split: if_splits)
  then show "f64_rnd (q * 1000000) = Fin (rnd_rat (q * 1000000))" by simp
  have "0 \<le> \<lfloor>rnd_rat (q * 1000000) + 1 / 2\<rfloor>" "\<lfloor>rnd_rat (q * 1000000) + 1 / 2\<rfloor> \<le> 1000000"
    using r by (linarith, simp add: floor_le_iff)
  then show "0 \<le> millionths q \<and> millionths q \<le> 1000000"
    using r by (simp add: millionths_def round_rat_def)
qed

lemma sixth_range:
  assumes "0 \<le> n" and "n \<le> 1000000"
  shows "0 \<le> sixth n \<and> sixth n \<le> 1" and "f64_rnd (of_int n / 1000000) = Fin (sixth n)"
proof -
  have "(of_int n :: rat) \<le> of_int 1000000" using assms(2) by (simp only: of_int_le_iff)
  then have "small 1 (f64_rnd (of_int n / 1000000))" using assms(1) by (intro f64_rnd_small) auto
  then show "0 \<le> sixth n \<and> sixth n \<le> 1" "f64_rnd (of_int n / 1000000) = Fin (sixth n)"
    by (auto simp: f64_rnd_def Let_def f64_inf_def small_def sixth_def split: if_splits)
qed

lemma round6_unit:
  assumes "0 \<le> q" and "q \<le> 1"
  shows "round6 (Fin q) = Fin (sixth (millionths q))"
  using millionths_range [OF assms] sixth_range [of "millionths q"]
  by (simp add: round6_def million f64_mul_def f64_div_def millionths_def)

lemma millionths_sixth:
  assumes "0 \<le> n" and "n \<le> 1000000"
  shows "millionths (sixth n) = n"
proof -
  let ?x = "of_int n / 1000000 :: rat"
  have n: "(of_int n :: rat) \<le> of_int 1000000" using assms(2) by (simp only: of_int_le_iff)
  have "\<bar>sixth n - ?x\<bar> \<le> f64_ulp ?x / 2" unfolding sixth_def by (rule rnd_rat_near)
  also have "\<dots> \<le> 2 powi (- 52) / 2" using f64_ulp_unit [of ?x] assms(1) n by simp
  also have "\<dots> \<le> 1 / 4000000" by (simp add: power_int_def power_one_over)
  finally have "\<bar>sixth n - ?x\<bar> \<le> 1 / 4000000" .
  then have "\<bar>sixth n * 1000000 - of_int n\<bar> \<le> 1 / 4" by (simp add: abs_le_iff field_simps)
  then have "of_int (4 * n - 1) / 4 \<le> sixth n * 1000000" "sixth n * 1000000 \<le> of_int (4 * n + 1) / 4"
    unfolding abs_le_iff by simp_all
  then have "rnd_rat (of_int (4 * n - 1) / 4) \<le> rnd_rat (sixth n * 1000000)"
    "rnd_rat (sixth n * 1000000) \<le> rnd_rat (of_int (4 * n + 1) / 4)"
    by (simp_all only: rnd_rat_mono)
  moreover have "rnd_rat (of_int (4 * n - 1) / 4) = of_int (4 * n - 1) / 4" "rnd_rat (of_int (4 * n + 1) / 4) = of_int (4 * n + 1) / 4"
    by (rule rnd_rat_quarters; use assms in simp)+
  ultimately have "of_int (4 * n - 1) / 4 \<le> rnd_rat (sixth n * 1000000)" "rnd_rat (sixth n * 1000000) \<le> of_int (4 * n + 1) / 4"
    by (simp_all only:)
  then have "\<bar>rnd_rat (sixth n * 1000000) - of_int n\<bar> \<le> 1 / 4" unfolding abs_le_iff by simp
  then have "\<bar>of_int (millionths (sixth n)) - of_int n :: rat\<bar> < 1"
    using round_rat_near [of "rnd_rat (sixth n * 1000000)"] unfolding millionths_def by linarith
  then show ?thesis by linarith
qed

lemma round6_idem: "small 1 x \<Longrightarrow> round6 (round6 x) = round6 x"
proof -
  assume "small 1 x"
  then obtain q where q: "x = Fin q" "0 \<le> q" "q \<le> 1" by (auto simp: small_def)
  note m = millionths_range(1) [OF q(2,3)]
  show ?thesis using m sixth_range(1) [of "millionths q"] by (simp add: q round6_unit millionths_sixth)
qed

lemma round6_small [simp]: "small 1 x \<Longrightarrow> small 1 (round6 x)"
  using millionths_range(1) sixth_range(1) by (auto simp: small_def round6_unit)

lemma round6_mono: "small 1 x \<Longrightarrow> small 1 y \<Longrightarrow> f64_le x y \<Longrightarrow> f64_le (round6 x) (round6 y)"
proof -
  assume s: "small 1 x" "small 1 y" "f64_le x y"
  then obtain p q where pq: "x = Fin p" "0 \<le> p" "p \<le> 1" "y = Fin q" "0 \<le> q" "q \<le> 1" "p \<le> q" by (auto simp: small_def)
  have "rnd_rat (p * 1000000) \<le> rnd_rat (q * 1000000)" "0 \<le> rnd_rat (p * 1000000)"
    using pq by (auto intro: rnd_rat_mono rnd_rat_nonneg)
  then have "millionths p \<le> millionths q" by (simp add: millionths_def round_rat_def floor_mono)
  then have "sixth (millionths p) \<le> sixth (millionths q)" unfolding sixth_def by (intro rnd_rat_mono divide_right_mono) simp_all
  then show ?thesis using pq by (simp add: round6_unit)
qed

lemma round6_read_back: "small 1 x \<Longrightarrow> as_f64 (json_f64 (round6 x)) = Some (round6 x)"
proof -
  assume "small 1 x"
  then obtain q where q: "x = Fin q" "0 \<le> q" "q \<le> 1" by (auto simp: small_def)
  note m = millionths_range(1) [OF q(2,3)]
  have "representable (sixth (millionths q))"
    using sixth_range(2) [of "millionths q"] m representable_rnd by blast
  then show ?thesis by (simp add: q round6_unit as_f64_def json_f64_def f64_bits_roundtrip del: f64_to_bits.simps)
qed

end
