(* ===== verification/Inversion_Stores.thy ===== *)
theory Inversion_Stores
  imports Inversion_Rounding
begin

text \<open>
  The files of the inversion engine (\<^verbatim>\<open>core/layer2/execution/src/inversion.rs\<close>): JSON documents and JSON lines,
  and the locks on first principles.

  The clock, the parser of RFC 3339 times (crate \<^verbatim>\<open>chrono\<close>), the JSON decoder and the indented text
  (crate \<^verbatim>\<open>serde_json\<close>) are fields of the record \<open>inv_env\<close>; one operation reads one instant. A write replaces the
  file when the path can be written and changes nothing otherwise, since the code drops the errors; the temporary file
  of the atomic write is gone after the rename and is not part of the state.
\<close>

record inv_env =
  iv_libs :: libs
  iv_pretty :: "json \<Rightarrow> string"
  iv_parse :: "string \<Rightarrow> json option"
  iv_time :: "string \<Rightarrow> int option"
  iv_now_iso :: string
  iv_now_ms :: int
  iv_writable :: "string \<Rightarrow> bool"

abbreviation newline :: string where
  "newline \<equiv> [CHR 0x0A]"

abbreviation env_str :: "inv_env \<Rightarrow> json option \<Rightarrow> string" where
  "env_str E \<equiv> value_to_string (iv_libs E)"

definition parse_ts_ms_runtime :: "inv_env \<Rightarrow> string \<Rightarrow> int" where
  "parse_ts_ms_runtime E value = unwrap_or (iv_time E value) 0"

section \<open>Documents and lines\<close>

definition file_path_of :: "string option \<Rightarrow> string" where
  "file_path_of p = trim (unwrap_or p [])"

definition compute_read_json :: "inv_env \<Rightarrow> files \<Rightarrow> string option \<Rightarrow> json option \<Rightarrow> json" where
  "compute_read_json E fs path fallback =
     (let p = file_path_of path; d = unwrap_or fallback JNull in
      if p = [] then d
      else case fs p of
        None \<Rightarrow> d
      | Some content \<Rightarrow> (case iv_parse E content of Some v \<Rightarrow> if v = JNull then d else v | None \<Rightarrow> d))"

definition compute_read_jsonl :: "inv_env \<Rightarrow> files \<Rightarrow> string option \<Rightarrow> json list" where
  "compute_read_jsonl E fs path =
     (let p = file_path_of path in
      if p = [] then []
      else case fs p of
        None \<Rightarrow> []
      | Some content \<Rightarrow>
          filter json_is_object (List.map_filter (iv_parse E) (filter (\<lambda>line. trim line \<noteq> []) (rust_lines content))))"

definition compute_write_json_atomic :: "inv_env \<Rightarrow> files \<Rightarrow> string option \<Rightarrow> json option \<Rightarrow> files" where
  "compute_write_json_atomic E fs path value =
     (let p = file_path_of path in
      if p = [] \<or> \<not> iv_writable E p then fs
      else fs(p \<mapsto> iv_pretty E (unwrap_or value JNull) @ newline))"

definition compute_append_jsonl :: "inv_env \<Rightarrow> files \<Rightarrow> string option \<Rightarrow> json option \<Rightarrow> files" where
  "compute_append_jsonl E fs path row =
     (let p = file_path_of path in
      if p = [] \<or> \<not> iv_writable E p then fs
      else fs(p \<mapsto> unwrap_or (fs p) [] @ json_to_string (iv_libs E) (unwrap_or row JNull) @ newline))"

definition compute_read_text :: "files \<Rightarrow> string option \<Rightarrow> string option \<Rightarrow> string" where
  "compute_read_text fs path fallback =
     (let p = file_path_of path; d = unwrap_or fallback [] in if p = [] then d else unwrap_or (fs p) d)"

definition compute_ensure_correspondence_file :: "inv_env \<Rightarrow> files \<Rightarrow> string option \<Rightarrow> string option \<Rightarrow> files" where
  "compute_ensure_correspondence_file E fs path header =
     (let p = file_path_of path in
      if p = [] \<or> fs p \<noteq> None \<or> \<not> iv_writable E p then fs
      else fs(p \<mapsto> unwrap_or header (''# Shadow Conclave Correspondence'' @ newline @ newline)))"

text \<open>A field that is kept from the document when it has text, and otherwise taken from the clock.\<close>

definition updated_at_of :: "inv_env \<Rightarrow> json \<Rightarrow> string \<Rightarrow> string" where
  "updated_at_of E doc now_iso = nonempty_or (env_str E (json_get doc ''updated_at'')) now_iso"

section \<open>Locks on first principles\<close>

definition compute_default_first_principle_lock_state :: "inv_env \<Rightarrow> json" where
  "compute_default_first_principle_lock_state E =
     json_object [(''schema_id'', JStr ''inversion_first_principle_lock_state''), (''schema_version'', JStr ''1.0''),
       (''updated_at'', JStr (iv_now_iso E)), (''locks'', JObj [])]"

definition lock_document :: "string \<Rightarrow> (string \<times> json) list \<Rightarrow> json" where
  "lock_document updated_at locks =
     json_object [(''schema_id'', JStr ''inversion_first_principle_lock_state''), (''schema_version'', JStr ''1.0''),
       (''updated_at'', JStr updated_at), (''locks'', JObj locks)]"

definition compute_load_first_principle_lock_state :: "inv_env \<Rightarrow> files \<Rightarrow> string option \<Rightarrow> string option \<Rightarrow> json" where
  "compute_load_first_principle_lock_state E fs path now_iso =
     (let src = compute_read_json E fs path (Some JNull)
      in lock_document (updated_at_of E src (unwrap_or now_iso (iv_now_iso E))) (object_of (json_get src ''locks'')))"

definition compute_save_first_principle_lock_state ::
  "inv_env \<Rightarrow> files \<Rightarrow> string option \<Rightarrow> json option \<Rightarrow> string option \<Rightarrow> files \<times> json" where
  "compute_save_first_principle_lock_state E fs path state now_iso =
     (let out = lock_document (unwrap_or now_iso (iv_now_iso E)) (object_of (obj_get state ''locks''))
      in (compute_write_json_atomic E fs path (Some out), out))"

definition compute_principle_key_for_session ::
  "inv_env \<Rightarrow> string option \<Rightarrow> string option \<Rightarrow> string option \<Rightarrow> string" where
  "compute_principle_key_for_session E objective_id objective target =
     (let objective_part = to_ascii_lowercase (clean_text_runtime (unwrap_or (or_else objective_id objective) []) 240)
      in compute_normalize_target (Some (unwrap_or target ''tactical'')) @ ''::'' @
         take 16 (sha256_hex (iv_libs E) objective_part))"

definition session_key :: "inv_env \<Rightarrow> (string \<times> json) list \<Rightarrow> string" where
  "session_key E session =
     compute_principle_key_for_session E (Option.bind (bt_get session ''objective_id'') as_str)
       (Option.bind (bt_get session ''objective'') as_str) (Option.bind (bt_get session ''target'') as_str)"

definition band_word :: "inv_env \<Rightarrow> json option \<Rightarrow> string" where
  "band_word E v = nonempty_or (compute_normalize_token (Some (env_str E v)) (Some 24)) ''novice''"

record downgrade_check =
  dg_allowed :: bool
  dg_reason :: "string option"
  dg_key :: string
  dg_lock_state :: "json option"

definition finite_confidence :: "f64 option \<Rightarrow> f64" where
  "finite_confidence c = (let v = unwrap_or c (Fin 0) in if is_finite v then v else Fin 0)"

definition compute_check_first_principle_downgrade ::
  "inv_env \<Rightarrow> files \<Rightarrow> string option \<Rightarrow> json option \<Rightarrow> json option \<Rightarrow> f64 option \<Rightarrow> string option \<Rightarrow> downgrade_check" where
  "compute_check_first_principle_downgrade E fs path policy session0 confidence0 now_iso =
     (let session = object_of session0; key = session_key E session;
          anti = object_of (value_path policy [''first_principles'', ''anti_downgrade'']);
          flag = (\<lambda>k. to_bool_like (iv_libs E) (bt_get anti k) False)
      in if \<not> flag ''enabled''
         then \<lparr> dg_allowed = True, dg_reason = None, dg_key = key, dg_lock_state = None \<rparr>
         else
           let lock_state = compute_load_first_principle_lock_state E fs path now_iso;
               answer = (\<lambda>ok reason. \<lparr> dg_allowed = ok, dg_reason = reason, dg_key = key, dg_lock_state = Some lock_state \<rparr>)
           in case value_path (Some lock_state) [''locks'', key] of
             Some (JObj existing) \<Rightarrow>
               (let existing_idx = compute_band_to_index (Some (band_word E (bt_get existing ''maturity_band'')));
                    session_idx = compute_band_to_index (Some (band_word E (bt_get session ''maturity_band'')))
                in if flag ''require_same_or_higher_maturity'' \<and> session_idx < existing_idx
                   then answer False (Some ''first_principle_downgrade_blocked_lower_maturity'')
                   else if flag ''prevent_lower_confidence_same_band'' \<and> session_idx = existing_idx \<and>
                     f64_lt (finite_confidence confidence0)
                       (f64_mul (unwrap_or (js_number_for_extract (bt_get existing ''confidence'')) (Fin 0))
                         (compute_clamp_number (bt_get anti ''same_band_confidence_floor_ratio'') (Some (f64_lit (1 / 10)))
                           (Some (Fin 1)) (Some (f64_lit (92 / 100)))))
                   then answer False (Some ''first_principle_downgrade_blocked_lower_confidence'')
                   else answer True None)
           | _ \<Rightarrow> answer True None)"

definition merged_lock_band :: "inv_env \<Rightarrow> json option \<Rightarrow> (string \<times> json) list option \<Rightarrow> string" where
  "merged_lock_band E session_band existing =
     (let next_band = band_word E session_band; next_idx = compute_band_to_index (Some next_band);
          prev_idx = (case existing of None \<Rightarrow> - 1
            | Some row \<Rightarrow> compute_band_to_index (Some (env_str E (bt_get row ''maturity_band''))));
          merged_band = (if prev_idx > next_idx
            then compute_normalize_token (Some (case Option.bind existing (\<lambda>row. bt_get row ''maturity_band'') of
                   Some v \<Rightarrow> env_str E (Some v) | None \<Rightarrow> next_band)) (Some 24)
            else next_band)
      in nonempty_or merged_band ''novice'')"

definition merged_lock_confidence :: "json option \<Rightarrow> (string \<times> json) list option \<Rightarrow> f64" where
  "merged_lock_confidence principle_confidence existing =
     (let confidence = finite_confidence (js_number_for_extract principle_confidence);
          existing_confidence = unwrap_or (Option.bind existing (\<lambda>row. js_number_for_extract (bt_get row ''confidence''))) (Fin 0);
          merged = f64_max existing_confidence confidence
      in round6 (compute_clamp_number (Some (json_f64 merged)) (Some (Fin 0)) (Some (Fin 1)) (Some (Fin 0))))"

definition lock_row :: "inv_env \<Rightarrow> string \<Rightarrow> (string \<times> json) list \<Rightarrow> (string \<times> json) list \<Rightarrow> (string \<times> json) list option \<Rightarrow> string \<Rightarrow> json" where
  "lock_row E key session principle existing now =
     json_object [(''key'', JStr key),
       (''principle_id'', JStr (clean_text_runtime (unwrap_or (Option.bind (bt_get principle ''id'') as_str) []) 120)),
       (''maturity_band'', JStr (merged_lock_band E (bt_get session ''maturity_band'') existing)),
       (''confidence'', json_f64 (merged_lock_confidence (bt_get principle ''confidence'') existing)),
       (''ts'', JStr now)]"

definition lock_entry :: "json \<Rightarrow> string \<Rightarrow> (string \<times> json) list option" where
  "lock_entry lock_state key = (case value_path (Some lock_state) [''locks'', key] of Some (JObj m) \<Rightarrow> Some m | _ \<Rightarrow> None)"

definition compute_upsert_first_principle_lock ::
  "inv_env \<Rightarrow> files \<Rightarrow> string option \<Rightarrow> json option \<Rightarrow> json option \<Rightarrow> string option \<Rightarrow> files \<times> json \<times> string" where
  "compute_upsert_first_principle_lock E fs path session0 principle0 now_iso0 =
     (let now_iso = unwrap_or now_iso0 (iv_now_iso E);
          session = object_of session0; principle = object_of principle0; key = session_key E session;
          lock_state = compute_load_first_principle_lock_state E fs path (Some now_iso);
          row = lock_row E key session principle (lock_entry lock_state key) now_iso;
          locks = bt_insert key row (object_of (json_get lock_state ''locks''));
          (fs', saved) = compute_save_first_principle_lock_state E fs path
            (Some (json_set ''locks'' (JObj locks) lock_state)) (Some now_iso)
      in (fs', saved, key))"

section \<open>What a lock holds\<close>

text \<open>The rank a session asks for, and the rank and confidence of a stored lock. A lock as the engine writes it has a
  band that is a token and a confidence of six decimals.\<close>

definition session_rank :: "inv_env \<Rightarrow> (string \<times> json) list \<Rightarrow> int" where
  "session_rank E session = compute_band_to_index (Some (band_word E (bt_get session ''maturity_band'')))"

definition lock_confidence :: "(string \<times> json) list \<Rightarrow> f64" where
  "lock_confidence row = unwrap_or (js_number_for_extract (bt_get row ''confidence'')) (Fin 0)"

definition written_band :: "(string \<times> json) list \<Rightarrow> bool" where
  "written_band row =
     (case bt_get row ''maturity_band'' of Some (JStr b) \<Rightarrow> b \<noteq> [] \<and> normalize_token_runtime b 24 = b | _ \<Rightarrow> False)"

definition written_confidence :: "(string \<times> json) list \<Rightarrow> bool" where
  "written_confidence row =
     (case lock_confidence row of Fin q \<Rightarrow> 0 \<le> q \<and> q \<le> 1 \<and> round6 (Fin q) = Fin q | _ \<Rightarrow> False)"

definition locks_written :: "(string \<times> json) list \<Rightarrow> bool" where
  "locks_written locks = list_all (\<lambda>(k, v). case v of JObj row \<Rightarrow> written_band row \<and> written_confidence row | _ \<Rightarrow> True) locks"

definition file_locks :: "inv_env \<Rightarrow> files \<Rightarrow> string option \<Rightarrow> (string \<times> json) list" where
  "file_locks E fs path = object_of (json_get (compute_read_json E fs path (Some JNull)) ''locks'')"

definition lock_at :: "inv_env \<Rightarrow> files \<Rightarrow> string option \<Rightarrow> string \<Rightarrow> (string \<times> json) list option" where
  "lock_at E fs path key = (case bt_get (file_locks E fs path) key of Some (JObj row) \<Rightarrow> Some row | _ \<Rightarrow> None)"

text \<open>The document the engine has written decodes to itself.\<close>

definition decodes :: "inv_env \<Rightarrow> json \<Rightarrow> bool" where
  "decodes E doc = (iv_parse E (iv_pretty E doc @ newline) = Some doc)"

named_theorems lock_simps \<open>reading the documents of the engine\<close>

lemma lock_document_get [lock_simps]: "json_get (lock_document u locks) ''locks'' = Some (JObj locks)"
  by (simp add: lock_document_def json_get_object)

lemma object_of_simps [lock_simps]: "object_of (Some (JObj m)) = m" "object_of None = []"
  by (simp_all add: object_of_def)

lemma lock_state_entry [lock_simps]:
  "value_path (Some (compute_load_first_principle_lock_state E fs path now)) [''locks'', key] = bt_get (file_locks E fs path) key"
  by (simp add: compute_load_first_principle_lock_state_def Let_def value_path_def obj_get_def lock_simps file_locks_def)

lemma lock_entry_load [lock_simps]:
  "lock_entry (compute_load_first_principle_lock_state E fs path now) key = lock_at E fs path key"
  by (simp add: lock_entry_def lock_simps lock_at_def split: option.splits json.splits)

lemma lock_document_object: "\<exists>m. lock_document u locks = JObj m"
  by (simp add: lock_document_def json_object_def)

lemma json_set_locks: "json_get (json_set k v (lock_document u locks)) k = Some v"
  using lock_document_object [of u locks] by (auto simp: bt_get_insert)

text \<open>What an upsert writes.\<close>

definition upserted_row :: "inv_env \<Rightarrow> files \<Rightarrow> string option \<Rightarrow> json option \<Rightarrow> json option \<Rightarrow> string \<Rightarrow> json" where
  "upserted_row E fs path session principle now =
     lock_row E (session_key E (object_of session)) (object_of session) (object_of principle)
       (lock_at E fs path (session_key E (object_of session))) now"

lemma upsert_result:
  "compute_upsert_first_principle_lock E fs path session principle now0 =
     (let now = unwrap_or now0 (iv_now_iso E); key = session_key E (object_of session);
          doc = lock_document now (bt_insert key (upserted_row E fs path session principle now) (file_locks E fs path))
      in (compute_write_json_atomic E fs path (Some doc), doc, key))"
proof -
  have locks: "object_of (json_get (compute_load_first_principle_lock_state E fs path now) ''locks'') = file_locks E fs path" for now
    by (simp add: compute_load_first_principle_lock_state_def Let_def lock_simps file_locks_def)
  have set: "obj_get (Some (json_set ''locks'' v (compute_load_first_principle_lock_state E fs path now))) ''locks'' = Some v" for v now
    by (simp add: obj_get_def compute_load_first_principle_lock_state_def Let_def json_set_locks)
  show ?thesis
    by (simp add: compute_upsert_first_principle_lock_def compute_save_first_principle_lock_state_def Let_def locks set
        lock_simps upserted_row_def unwrap_or_def)
qed

lemma read_after_write:
  assumes "file_path_of path \<noteq> []" and "iv_writable E (file_path_of path)" and "decodes E doc" and "doc \<noteq> JNull"
  shows "compute_read_json E (compute_write_json_atomic E fs path (Some doc)) path d = doc"
  using assms by (simp add: compute_read_json_def compute_write_json_atomic_def Let_def decodes_def unwrap_or_def)

lemma file_locks_after_upsert:
  assumes "compute_upsert_first_principle_lock E fs path session principle now0 = (fs', doc, key)"
    and "file_path_of path \<noteq> []" and "iv_writable E (file_path_of path)" and "decodes E doc"
  shows "file_locks E fs' path =
    bt_insert key (upserted_row E fs path session principle (unwrap_or now0 (iv_now_iso E))) (file_locks E fs path)"
    and "key = session_key E (object_of session)"
proof -
  let ?now = "unwrap_or now0 (iv_now_iso E)"
  have d: "doc = lock_document ?now (bt_insert key (upserted_row E fs path session principle ?now) (file_locks E fs path))"
    and f: "fs' = compute_write_json_atomic E fs path (Some doc)" and k: "key = session_key E (object_of session)"
    using assms(1) by (auto simp: upsert_result Let_def)
  have "doc \<noteq> JNull" using d lock_document_object by (metis json.distinct(11))
  then have "compute_read_json E fs' path (Some JNull) = doc" unfolding f using read_after_write assms by blast
  then show "file_locks E fs' path = bt_insert key (upserted_row E fs path session principle ?now) (file_locks E fs path)"
    unfolding file_locks_def [of E fs'] by (simp add: d lock_simps)
  show "key = session_key E (object_of session)" by (rule k)
qed

section \<open>Bands and confidences only grow\<close>

lemma novice_token [simp]: "normalize_token_runtime ''novice'' 24 = ''novice''"
  by code_simp

lemma band_index_novice [simp]: "compute_band_to_index (Some ''novice'') = 0"
  by code_simp

lemma band_word_written: "band_word E v \<noteq> [] \<and> normalize_token_runtime (band_word E v) 24 = band_word E v"
  by (simp add: band_word_def compute_normalize_token_24 nonempty_or_def)

lemma band_word_str: "b \<noteq> [] \<Longrightarrow> normalize_token_runtime b 24 = b \<Longrightarrow> band_word E (Some (JStr b)) = b"
  by (simp add: band_word_def compute_normalize_token_24 nonempty_or_def value_to_string_def)

lemma merged_band_written:
  "merged_lock_band E v existing \<noteq> [] \<and> normalize_token_runtime (merged_lock_band E v existing) 24 = merged_lock_band E v existing"
  using band_word_written [of E v] by (auto simp: merged_lock_band_def Let_def nonempty_or_def compute_normalize_token_24)

definition lock_rank :: "inv_env \<Rightarrow> (string \<times> json) list \<Rightarrow> int" where
  "lock_rank E row = compute_band_to_index (Some (band_word E (bt_get row ''maturity_band'')))"

lemma lock_rank_written: "written_band row \<Longrightarrow> \<exists>b. bt_get row ''maturity_band'' = Some (JStr b) \<and> b \<noteq> [] \<and>
    normalize_token_runtime b 24 = b \<and> lock_rank E row = compute_band_to_index (Some b)"
  by (auto simp: written_band_def lock_rank_def band_word_str split: option.splits json.splits)

lemma merged_band_rank:
  "compute_band_to_index (Some (merged_lock_band E (bt_get session ''maturity_band'') None)) = session_rank E session"
  "written_band row \<Longrightarrow> compute_band_to_index (Some (merged_lock_band E (bt_get session ''maturity_band'') (Some row))) =
     max (lock_rank E row) (session_rank E session)"
proof -
  let ?n = "band_word E (bt_get session ''maturity_band'')"
  have n: "?n \<noteq> []" using band_word_written by blast
  have pos: "0 \<le> compute_band_to_index x" for x by (simp add: compute_band_to_index_def Let_def)
  show "compute_band_to_index (Some (merged_lock_band E (bt_get session ''maturity_band'') None)) = session_rank E session"
    using n pos [of "Some ?n"] by (simp add: merged_lock_band_def Let_def nonempty_or_def session_rank_def)
  assume "written_band row"
  then obtain b where b: "bt_get row ''maturity_band'' = Some (JStr b)" "b \<noteq> []" "normalize_token_runtime b 24 = b"
    "lock_rank E row = compute_band_to_index (Some b)" using lock_rank_written by blast
  show "compute_band_to_index (Some (merged_lock_band E (bt_get session ''maturity_band'') (Some row))) =
     max (lock_rank E row) (session_rank E session)"
    using n by (simp add: merged_lock_band_def Let_def nonempty_or_def session_rank_def b compute_normalize_token_24
        value_to_string_def)
qed

lemma clamp_unit_small: "small 1 (clamp_number x (Fin 0) (Fin 1))"
  by (cases x) (auto simp: clamp_number_def f64_max_def f64_min_def)

lemma clamp_unit_mono: "small 1 (Fin a) \<Longrightarrow> a \<le> b \<Longrightarrow> f64_le (Fin a) (clamp_number (Fin b) (Fin 0) (Fin 1))"
  by (auto simp: clamp_number_def)

lemma merged_confidence_small: "small 1 (merged_lock_confidence c existing)"
  and merged_confidence_fixed: "round6 (merged_lock_confidence c existing) = merged_lock_confidence c existing"
  by (simp_all add: merged_lock_confidence_def Let_def compute_clamp_number_def unwrap_or_def clamp_unit_small round6_idem)

lemma merged_confidence_read_back:
  "js_number_for_extract (Some (json_f64 (merged_lock_confidence c existing))) = Some (merged_lock_confidence c existing)"
proof -
  let ?m = "merged_lock_confidence c existing"
  have "as_f64 (json_f64 (round6 ?m)) = Some (round6 ?m)" by (rule round6_read_back [OF merged_confidence_small])
  then have "as_f64 (json_f64 ?m) = Some ?m" unfolding merged_confidence_fixed .
  moreover have "\<exists>b. json_f64 ?m = JFloat b" using merged_confidence_small [of c existing] by (auto simp: small_def json_f64_def)
  ultimately show ?thesis by (auto simp: js_number_for_extract_def)
qed

lemma parse_f64_representable: "parse_f64_value s = Some (Fin q) \<Longrightarrow> representable q"
proof -
  assume "parse_f64_value s = Some (Fin q)"
  then obtain neg x where x: "parse_f64 s = Some (neg, x)" "(if neg then f64_neg x else x) = Fin q"
    by (auto simp: parse_f64_value_def)
  then obtain p where p: "x = Fin p" "q = p \<or> q = - p" by (cases x; cases neg) auto
  then have "\<exists>r. f64_rnd r = Fin p" using x(1) by (auto simp: parse_f64_def Let_def split: if_splits)
  then have "representable p" using representable_rnd by blast
  then show ?thesis using p(2) representable_neg by blast
qed

lemma as_f64_representable: "as_f64 v = Some (Fin q) \<Longrightarrow> representable q"
  by (auto simp: as_f64_def f64_of_int_def split: json.splits dest: representable_rnd f64_of_bits_representable)

lemma js_number_representable: "js_number_for_extract v = Some (Fin q) \<Longrightarrow> representable q"
  by (auto simp: js_number_for_extract_def split: option.splits json.splits if_splits
      dest: parse_f64_representable as_f64_representable)

lemma merged_confidence_grows:
  assumes "written_confidence row"
  shows "f64_le (lock_confidence row) (merged_lock_confidence c (Some row))"
proof -
  obtain a where a: "lock_confidence row = Fin a" "0 \<le> a" "a \<le> 1" "round6 (Fin a) = Fin a"
    using assms by (auto simp: written_confidence_def split: f64.splits)
  have "\<exists>b. finite_confidence (js_number_for_extract c) = Fin b \<and> representable b"
  proof (cases "\<exists>q. js_number_for_extract c = Some (Fin q)")
    case True
    then show ?thesis using js_number_representable by (auto simp: finite_confidence_def unwrap_or_def)
  next
    case False
    then have "finite_confidence (js_number_for_extract c) = Fin 0"
      by (cases "js_number_for_extract c") (auto simp: finite_confidence_def unwrap_or_def)
    then show ?thesis by simp
  qed
  then obtain b where b: "finite_confidence (js_number_for_extract c) = Fin b" "representable b" by blast
  have ra: "representable a"
    using a(1) js_number_representable by (cases "js_number_for_extract (bt_get row ''confidence'')") (auto simp: lock_confidence_def unwrap_or_def)
  have "representable (max a b)" using ra b(2) by (simp add: max_def)
  then have "as_f64 (json_f64 (Fin (max a b))) = Some (Fin (max a b))"
    by (simp add: json_f64_def as_f64_def f64_bits_roundtrip del: f64_to_bits.simps)
  then have p: "parse_number_like (Some (json_f64 (Fin (max a b)))) = Some (Fin (max a b))"
    by (simp add: parse_number_like_def)
  have "merged_lock_confidence c (Some row) = round6 (clamp_number (Fin (max a b)) (Fin 0) (Fin 1))"
    using a(1) b(1) p by (simp add: merged_lock_confidence_def Let_def compute_clamp_number_def unwrap_or_def lock_confidence_def)
  moreover have "f64_le (round6 (Fin a)) (round6 (clamp_number (Fin (max a b)) (Fin 0) (Fin 1)))"
    using a by (intro round6_mono clamp_unit_mono clamp_unit_small) auto
  ultimately show ?thesis using a by simp
qed

section \<open>The locks hold\<close>

lemma upserted_row_fields:
  assumes "lock_at E fs path (session_key E (object_of session)) = old"
  obtains row where "upserted_row E fs path session principle now = JObj row" "written_band row" "written_confidence row"
    "lock_rank E row = compute_band_to_index (Some (merged_lock_band E (bt_get (object_of session) ''maturity_band'') old))"
    "lock_confidence row = merged_lock_confidence (bt_get (object_of principle) ''confidence'') old"
proof -
  let ?r = "upserted_row E fs path session principle now"
  let ?b = "merged_lock_band E (bt_get (object_of session) ''maturity_band'') old"
  let ?c = "merged_lock_confidence (bt_get (object_of principle) ''confidence'') old"
  obtain row where row: "?r = JObj row" by (simp add: upserted_row_def lock_row_def json_object_def)
  have "json_get ?r ''maturity_band'' = Some (JStr ?b)" "json_get ?r ''confidence'' = Some (json_f64 ?c)"
    using assms by (simp_all add: upserted_row_def lock_row_def json_get_object)
  then have g: "bt_get row ''maturity_band'' = Some (JStr ?b)" "bt_get row ''confidence'' = Some (json_f64 ?c)" by (simp_all add: row)
  have c: "lock_confidence row = ?c" unfolding lock_confidence_def g merged_confidence_read_back by (simp add: unwrap_or_def)
  have wb: "written_band row" using merged_band_written by (simp add: written_band_def g)
  obtain q where "?c = Fin q" "0 \<le> q" "q \<le> 1" "round6 (Fin q) = Fin q"
    using merged_confidence_small merged_confidence_fixed by (metis small_def)
  then have "written_confidence row" by (simp add: written_confidence_def c)
  moreover have "lock_rank E row = compute_band_to_index (Some ?b)"
    using lock_rank_written [OF wb, of E] g by auto
  ultimately show thesis using that row wb c by blast
qed

lemma set_bt_insert: "set (bt_insert k v m) \<subseteq> insert (k, v) (set m)"
  by (induction m) (auto split: if_splits)

lemma locks_written_at: "locks_written (file_locks E fs path) \<Longrightarrow> lock_at E fs path key = Some row \<Longrightarrow> written_band row \<and> written_confidence row"
  by (auto simp: locks_written_def lock_at_def list_all_iff bt_get_map_of split: option.splits json.splits dest!: map_of_SomeD)

text \<open>Runs of upserts on one file of locks.\<close>

inductive lock_run :: "inv_env \<Rightarrow> string option \<Rightarrow> files \<Rightarrow> files \<Rightarrow> bool" where
  lock_run_refl: "lock_run E path fs fs"
| lock_run_step: "lock_run E path fs fs1 \<Longrightarrow>
    compute_upsert_first_principle_lock E fs1 path session principle now = (fs2, doc, key) \<Longrightarrow> decodes E doc \<Longrightarrow>
    lock_run E path fs fs2"

definition lock_grows :: "inv_env \<Rightarrow> (string \<times> json) list option \<Rightarrow> (string \<times> json) list option \<Rightarrow> bool" where
  "lock_grows E old new =
     (case old of None \<Rightarrow> True
      | Some row \<Rightarrow> (case new of None \<Rightarrow> False
          | Some row' \<Rightarrow> lock_rank E row \<le> lock_rank E row' \<and> f64_le (lock_confidence row) (lock_confidence row')))"

lemma lock_grows_refl: "locks_written (file_locks E fs path) \<Longrightarrow> lock_grows E (lock_at E fs path key) (lock_at E fs path key)"
  by (auto simp: lock_grows_def written_confidence_def split: option.splits f64.splits dest!: locks_written_at)

lemma lock_grows_trans: "lock_grows E a b \<Longrightarrow> lock_grows E b c \<Longrightarrow> lock_grows E a c"
  by (auto simp: lock_grows_def split: option.splits intro: f64_le_trans)

lemma upsert_grows:
  assumes up: "compute_upsert_first_principle_lock E fs path session principle now = (fs', doc, k)"
    and path: "file_path_of path \<noteq> []" "iv_writable E (file_path_of path)" and dec: "decodes E doc"
    and ok: "locks_written (file_locks E fs path)"
  shows "locks_written (file_locks E fs' path) \<and> lock_grows E (lock_at E fs path key) (lock_at E fs' path key)"
proof -
  note after = file_locks_after_upsert [OF up path dec]
  obtain row where row: "upserted_row E fs path session principle (unwrap_or now (iv_now_iso E)) = JObj row"
    "written_band row" "written_confidence row"
    "lock_rank E row = compute_band_to_index (Some (merged_lock_band E (bt_get (object_of session) ''maturity_band'') (lock_at E fs path k)))"
    "lock_confidence row = merged_lock_confidence (bt_get (object_of principle) ''confidence'') (lock_at E fs path k)"
    using upserted_row_fields [OF refl] after(2) by metis
  have "locks_written (file_locks E fs' path)"
    unfolding after(1) row(1) using ok row(2,3) set_bt_insert by (fastforce simp: locks_written_def list_all_iff)
  moreover have at: "lock_at E fs' path x = (if x = k then Some row else lock_at E fs path x)" for x
    unfolding lock_at_def after(1) row(1) by (simp add: bt_get_insert)
  have "lock_grows E (lock_at E fs path key) (lock_at E fs' path key)"
  proof (cases "key = k \<and> lock_at E fs path k \<noteq> None")
    case True
    then obtain old where old: "lock_at E fs path k = Some old" by blast
    then have w: "written_band old" "written_confidence old" using locks_written_at [OF ok] by simp_all
    show ?thesis
      using True merged_band_rank(2) [OF w(1)] merged_confidence_grows [OF w(2)] row(4,5) by (simp add: at lock_grows_def old)
  next
    case False
    then show ?thesis using lock_grows_refl [OF ok] by (auto simp: at lock_grows_def)
  qed
  ultimately show ?thesis by blast
qed

text \<open>C11: Over any run of upserts of first-principle locks on one file, whatever the sessions and principles are, a
  lock is never lost, its maturity rank and its confidence never go down, and every stored lock keeps a valid band and
  a confidence of six decimals between zero and one.\<close>

theorem locks_never_downgrade:
  assumes "lock_run E path fs fs'" and "file_path_of path \<noteq> []" and "iv_writable E (file_path_of path)"
    and "locks_written (file_locks E fs path)"
  shows "locks_written (file_locks E fs' path) \<and> lock_grows E (lock_at E fs path key) (lock_at E fs' path key)"
  using assms
proof (induction rule: lock_run.induct)
  case (lock_run_refl E path fs)
  then show ?case by (simp add: lock_grows_refl)
next
  case (lock_run_step E path fs fs1 session principle now fs2 doc k)
  then have "locks_written (file_locks E fs1 path)" and g: "lock_grows E (lock_at E fs path key) (lock_at E fs1 path key)" by simp_all
  then have "locks_written (file_locks E fs2 path)" "lock_grows E (lock_at E fs1 path key) (lock_at E fs2 path key)"
    using upsert_grows [OF lock_run_step.hyps(2)] lock_run_step by blast+
  then show ?case using lock_grows_trans [OF g] by blast
qed

text \<open>C13: After an upsert, and under a policy with all three flags against downgrades on, a later session on the same
  principle passes the downgrade check exactly when its maturity rank is not below that of the lock and, at the same
  rank, its confidence reaches the configured share of the lock's; the lock has the greater rank of the former lock
  and of the session that wrote it.\<close>

theorem downgrade_check_exact:
  assumes up: "compute_upsert_first_principle_lock E fs path session principle now = (fs', doc, key)"
    and path: "file_path_of path \<noteq> []" "iv_writable E (file_path_of path)" and dec: "decodes E doc"
    and ok: "locks_written (file_locks E fs path)"
    and policy: "value_path policy [''first_principles'', ''anti_downgrade''] = Some (JObj anti)"
    and flags: "list_all (\<lambda>k. to_bool_like (iv_libs E) (bt_get anti k) False)
       [''enabled'', ''require_same_or_higher_maturity'', ''prevent_lower_confidence_same_band'']"
    and same: "session_key E (object_of later) = key"
  shows "let rank = (case lock_at E fs path key of None \<Rightarrow> session_rank E (object_of session)
              | Some old \<Rightarrow> max (lock_rank E old) (session_rank E (object_of session)));
            conf = merged_lock_confidence (bt_get (object_of principle) ''confidence'') (lock_at E fs path key);
            ratio = compute_clamp_number (bt_get anti ''same_band_confidence_floor_ratio'') (Some (f64_lit (1 / 10)))
              (Some (Fin 1)) (Some (f64_lit (92 / 100)))
        in dg_allowed (compute_check_first_principle_downgrade E fs' path policy later c now2) =
             (rank < session_rank E (object_of later) \<or>
              rank = session_rank E (object_of later) \<and> \<not> f64_lt (finite_confidence c) (f64_mul conf ratio))"
proof -
  note after = file_locks_after_upsert [OF up path dec]
  obtain row where row: "upserted_row E fs path session principle (unwrap_or now (iv_now_iso E)) = JObj row"
    "lock_rank E row = compute_band_to_index (Some (merged_lock_band E (bt_get (object_of session) ''maturity_band'') (lock_at E fs path key)))"
    "lock_confidence row = merged_lock_confidence (bt_get (object_of principle) ''confidence'') (lock_at E fs path key)"
    using upserted_row_fields [OF refl] after(2) by metis
  have entry: "bt_get (file_locks E fs' path) key = Some (JObj row)" unfolding after(1) row(1) by (simp add: bt_get_insert)
  have rank: "lock_rank E row = (case lock_at E fs path key of None \<Rightarrow> session_rank E (object_of session)
              | Some old \<Rightarrow> max (lock_rank E old) (session_rank E (object_of session)))"
    using row(2) merged_band_rank locks_written_at [OF ok] by (auto split: option.splits)
  have flags': "to_bool_like (iv_libs E) (bt_get anti ''enabled'') False"
    "to_bool_like (iv_libs E) (bt_get anti ''require_same_or_higher_maturity'') False"
    "to_bool_like (iv_libs E) (bt_get anti ''prevent_lower_confidence_same_band'') False" using flags by simp_all
  have an: "object_of (value_path policy [''first_principles'', ''anti_downgrade'']) = anti" by (simp add: policy lock_simps)
  have "dg_allowed (compute_check_first_principle_downgrade E fs' path policy later c now2) =
    (\<not> session_rank E (object_of later) < lock_rank E row \<and>
     \<not> (session_rank E (object_of later) = lock_rank E row \<and> f64_lt (finite_confidence c) (f64_mul (lock_confidence row)
       (compute_clamp_number (bt_get anti ''same_band_confidence_floor_ratio'') (Some (f64_lit (1 / 10)))
          (Some (Fin 1)) (Some (f64_lit (92 / 100)))))))"
    unfolding compute_check_first_principle_downgrade_def Let_def an same lock_simps entry
      lock_confidence_def lock_rank_def session_rank_def
    using flags' by simp
  then show ?thesis unfolding Let_def rank [symmetric] row(3) [symmetric] by auto
qed

section \<open>A file of locks\<close>

definition sample_lock_row :: "string \<Rightarrow> json \<Rightarrow> json" where
  "sample_lock_row pid conf = json_object [(''key'', JStr ''tactical::#x''), (''principle_id'', JStr pid),
     (''maturity_band'', JStr ''mature''), (''confidence'', conf), (''ts'', JStr ''t'')]"

definition sample_lock_doc :: "string \<Rightarrow> json \<Rightarrow> json" where
  "sample_lock_doc pid conf = lock_document ''t'' [(''tactical::#x'', sample_lock_row pid conf)]"

definition sample_new_doc :: json where
  "sample_new_doc = sample_lock_doc ''p'' (JFloat 0x3FF0000000000000)"

definition sample_inv_env :: inv_env where
  "sample_inv_env = \<lparr> iv_libs = sample_libs, iv_pretty = code_json,
     iv_parse = (\<lambda>s. if s = ''old'' then Some (sample_lock_doc ''o'' (JInt 0))
                     else if s = code_json sample_new_doc @ newline then Some sample_new_doc else None),
     iv_time = (\<lambda>_. None), iv_now_iso = ''t'', iv_now_ms = 0, iv_writable = (\<lambda>_. True) \<rparr>"

definition sample_lock_files :: files where
  "sample_lock_files = [''l'' \<mapsto> ''old'']"

definition sample_session :: "string \<Rightarrow> json" where
  "sample_session band = json_object [(''objective'', JStr ''x''), (''maturity_band'', JStr band)]"

definition sample_principle :: json where
  "sample_principle = json_object [(''id'', JStr ''p''), (''confidence'', JInt 1)]"

definition sample_anti :: "(string \<times> json) list" where
  "sample_anti = [(''enabled'', JBool True), (''prevent_lower_confidence_same_band'', JBool True),
     (''require_same_or_higher_maturity'', JBool True)]"

definition sample_lock_policy :: json where
  "sample_lock_policy = json_object [(''first_principles'', json_object [(''anti_downgrade'', JObj sample_anti)])]"

lemma sample_old_locks: "file_locks sample_inv_env sample_lock_files (Some ''l'') = [(''tactical::#x'', sample_lock_row ''o'' (JInt 0))]"
  by code_simp

lemma sample_locks_written: "locks_written (file_locks sample_inv_env sample_lock_files (Some ''l''))"
  by code_simp

lemma sample_new_row: "upserted_row sample_inv_env sample_lock_files (Some ''l'') (Some (sample_session ''novice'')) (Some sample_principle) ''t'' =
    sample_lock_row ''p'' (JFloat 0x3FF0000000000000)"
  by code_simp

lemma sample_key: "session_key sample_inv_env (object_of (Some (sample_session b))) = ''tactical::#x''"
  by (simp add: session_key_def sample_session_def object_of_def json_object_def bt_get_insert) code_simp

lemma sample_upsert:
  "compute_upsert_first_principle_lock sample_inv_env sample_lock_files (Some ''l'') (Some (sample_session ''novice'')) (Some sample_principle) (Some ''t'') =
     (compute_write_json_atomic sample_inv_env sample_lock_files (Some ''l'') (Some sample_new_doc), sample_new_doc, ''tactical::#x'')"
  by (simp add: upsert_result Let_def sample_key unwrap_or_def sample_new_row sample_old_locks sample_new_doc_def sample_lock_doc_def)

lemma sample_decodes: "decodes sample_inv_env sample_new_doc"
  by (simp add: decodes_def sample_inv_env_def)

abbreviation sample_new_files :: files where
  "sample_new_files \<equiv> compute_write_json_atomic sample_inv_env sample_lock_files (Some ''l'') (Some sample_new_doc)"

theorem locks_never_downgrade_witness:
  "lock_run sample_inv_env (Some ''l'') sample_lock_files sample_new_files \<and> file_path_of (Some ''l'') \<noteq> [] \<and>
   iv_writable sample_inv_env (file_path_of (Some ''l'')) \<and> locks_written (file_locks sample_inv_env sample_lock_files (Some ''l'')) \<and>
   locks_written (file_locks sample_inv_env sample_new_files (Some ''l'')) \<and>
   lock_grows sample_inv_env (lock_at sample_inv_env sample_lock_files (Some ''l'') ''tactical::#x'')
     (lock_at sample_inv_env sample_new_files (Some ''l'') ''tactical::#x'')"
proof -
  have run: "lock_run sample_inv_env (Some ''l'') sample_lock_files sample_new_files"
    by (rule lock_run_step [OF lock_run_refl sample_upsert sample_decodes])
  have path: "file_path_of (Some ''l'') \<noteq> []" "iv_writable sample_inv_env (file_path_of (Some ''l''))" by code_simp+
  show ?thesis
    using run path sample_locks_written locks_never_downgrade [OF run path sample_locks_written, of "''tactical::#x''"] by blast
qed

theorem downgrade_check_exact_witness:
  "\<not> dg_allowed (compute_check_first_principle_downgrade sample_inv_env sample_new_files (Some ''l'') (Some sample_lock_policy)
       (Some (sample_session ''novice'')) (Some (Fin 1)) None)"
proof -
  have path: "file_path_of (Some ''l'') \<noteq> []" "iv_writable sample_inv_env (file_path_of (Some ''l''))" by code_simp+
  have policy: "value_path (Some sample_lock_policy) [''first_principles'', ''anti_downgrade''] = Some (JObj sample_anti)" by code_simp
  have flags: "list_all (\<lambda>k. to_bool_like (iv_libs sample_inv_env) (bt_get sample_anti k) False)
       [''enabled'', ''require_same_or_higher_maturity'', ''prevent_lower_confidence_same_band'']" by code_simp
  have ranks: "session_rank sample_inv_env (object_of (Some (sample_session ''novice''))) = 0"
    "\<exists>old. lock_at sample_inv_env sample_lock_files (Some ''l'') ''tactical::#x'' = Some old \<and> lock_rank sample_inv_env old = 2"
    by (code_simp, simp add: lock_at_def sample_old_locks sample_lock_row_def json_object_def, code_simp)
  show ?thesis
    using downgrade_check_exact [OF sample_upsert path sample_decodes sample_locks_written policy flags sample_key,
        where c = "Some (Fin 1)" and ?now2.0 = None and ?b1 = "''novice''"] ranks
    by (auto simp: Let_def)
qed

end
