(* ===== verification/Inversion_Sessions.thy ===== *)
theory Inversion_Sessions
  imports Inversion_Stores
begin

text \<open>
  The approvals of observers, the state of the maturity harness, the maturity score and the active sessions
  (\<^verbatim>\<open>core/layer2/execution/src/inversion.rs\<close>), over the documents and lines of \<open>Inversion_Stores\<close>.
\<close>

section \<open>Approvals of observers\<close>

definition approval_row :: "inv_env \<Rightarrow> json \<Rightarrow> json option" where
  "approval_row E row =
     (case row of
        JObj item \<Rightarrow>
          (let ts = clean_text_runtime (env_str E (bt_get item ''ts'')) 64;
               target = compute_normalize_target (Some (env_str E (bt_get item ''target'')));
               observer_id = compute_normalize_observer_id (Some
                 (if bt_get item ''observer_id'' \<noteq> None then env_str E (bt_get item ''observer_id'')
                  else env_str E (bt_get item ''observerId'')));
               note0 = clean_text_runtime (env_str E (bt_get item ''note'')) 280
           in if ts = [] \<or> observer_id = [] then None
              else Some (json_object [(''ts'', JStr ts), (''target'', JStr target), (''observer_id'', JStr observer_id),
                     (''note'', JStr note0)]))
      | _ \<Rightarrow> None)"

definition compute_load_observer_approvals :: "inv_env \<Rightarrow> files \<Rightarrow> string option \<Rightarrow> json list" where
  "compute_load_observer_approvals E fs path = List.map_filter (approval_row E) (compute_read_jsonl E fs path)"

definition new_approval :: "inv_env \<Rightarrow> string option \<Rightarrow> string option \<Rightarrow> string option \<Rightarrow> string option \<Rightarrow> json" where
  "new_approval E target observer_id note0 now_iso =
     json_object [(''ts'', JStr (unwrap_or now_iso (iv_now_iso E))),
       (''type'', JStr ''inversion_live_graduation_observer_approval''),
       (''target'', JStr (compute_normalize_target target)),
       (''observer_id'', JStr (compute_normalize_observer_id observer_id)),
       (''note'', JStr (clean_text_runtime (unwrap_or note0 []) 280))]"

definition compute_append_observer_approval ::
  "inv_env \<Rightarrow> files \<Rightarrow> string option \<Rightarrow> string option \<Rightarrow> string option \<Rightarrow> string option \<Rightarrow> string option \<Rightarrow> files \<times> json" where
  "compute_append_observer_approval E fs path target observer_id note0 now_iso =
     (let row = new_approval E target observer_id note0 now_iso in (compute_append_jsonl E fs path (Some row), row))"

definition day_ms :: int where
  "day_ms = 24 * 60 * 60 * 1000"

definition approval_counts :: "inv_env \<Rightarrow> int \<Rightarrow> string \<Rightarrow> json \<Rightarrow> string option" where
  "approval_counts E cutoff target row =
     (let observer_id = compute_normalize_observer_id (Some (env_str E (json_get row ''observer_id'')))
      in if compute_normalize_target (Some (env_str E (json_get row ''target''))) \<noteq> target \<or>
            parse_ts_ms_runtime E (env_str E (json_get row ''ts'')) < cutoff \<or> observer_id = []
         then None else Some observer_id)"

definition compute_count_observer_approvals :: "inv_env \<Rightarrow> files \<Rightarrow> string option \<Rightarrow> string option \<Rightarrow> json option \<Rightarrow> int" where
  "compute_count_observer_approvals E fs path target window_days0 =
     (let window_days = clamp 1 3650 (f64_as_i64 (f64_floor (unwrap_or (parse_number_like window_days0) (f64_of_int 90))));
          cutoff = iv_now_ms E - window_days * day_ms
      in int (card (set (List.map_filter (approval_counts E cutoff (compute_normalize_target target))
           (compute_load_observer_approvals E fs path)))))"

section \<open>The harness\<close>

definition compute_default_harness_state :: "inv_env \<Rightarrow> json" where
  "compute_default_harness_state E =
     json_object [(''schema_id'', JStr ''inversion_maturity_harness_state''), (''schema_version'', JStr ''1.0''),
       (''updated_at'', JStr (iv_now_iso E)), (''last_run_ts'', JNull), (''cursor'', JInt 0)]"

definition harness_document :: "inv_env \<Rightarrow> json option \<Rightarrow> string \<Rightarrow> json" where
  "harness_document E src updated_at =
     (let last_run = env_str E (obj_get src ''last_run_ts'')
      in json_object [(''schema_id'', JStr ''inversion_maturity_harness_state''), (''schema_version'', JStr ''1.0''),
           (''updated_at'', JStr updated_at), (''last_run_ts'', if last_run = [] then JNull else JStr last_run),
           (''cursor'', JInt (clamp 0 1000000
              (f64_as_i64 (f64_floor (unwrap_or (parse_number_like (obj_get src ''cursor'')) (Fin 0))))))])"

definition compute_load_harness_state :: "inv_env \<Rightarrow> files \<Rightarrow> string option \<Rightarrow> string option \<Rightarrow> json" where
  "compute_load_harness_state E fs path now_iso =
     (let src = compute_read_json E fs path (Some JNull)
      in harness_document E (Some src) (updated_at_of E src (unwrap_or now_iso (iv_now_iso E))))"

definition compute_save_harness_state ::
  "inv_env \<Rightarrow> files \<Rightarrow> string option \<Rightarrow> json option \<Rightarrow> string option \<Rightarrow> files \<times> json" where
  "compute_save_harness_state E fs path state now_iso =
     (let out = harness_document E state (unwrap_or now_iso (iv_now_iso E))
      in (compute_write_json_atomic E fs path (Some out), out))"

section \<open>Maturity\<close>

definition compute_default_maturity_state :: "inv_env \<Rightarrow> json" where
  "compute_default_maturity_state E =
     json_object [(''schema_id'', JStr ''inversion_maturity_state''), (''schema_version'', JStr ''1.0''),
       (''updated_at'', JStr (iv_now_iso E)),
       (''stats'', json_object [(''total_tests'', JInt 0), (''passed_tests'', JInt 0), (''failed_tests'', JInt 0),
          (''safe_failures'', JInt 0), (''destructive_failures'', JInt 0)]),
       (''recent_tests'', JArr []), (''score'', JInt 0), (''band'', JStr ''novice'')]"

record maturity =
  ma_score :: f64
  ma_band :: string
  ma_pass_rate :: f64
  ma_non_destructive_rate :: f64
  ma_experience :: f64

definition band_of_score :: "(string \<Rightarrow> f64 \<Rightarrow> f64) \<Rightarrow> f64 \<Rightarrow> string" where
  "band_of_score bound score =
     (if f64_lt score (bound ''novice'' (f64_lit (25 / 100))) then ''novice''
      else if f64_lt score (bound ''developing'' (f64_lit (45 / 100))) then ''developing''
      else if f64_lt score (bound ''mature'' (f64_lit (65 / 100))) then ''mature''
      else if f64_lt score (bound ''seasoned'' (f64_lit (82 / 100))) then ''seasoned''
      else ''legendary'')"

text \<open>The two scoring routines differ only in how they read numbers.\<close>

definition maturity_of :: "(json option \<Rightarrow> f64 option) \<Rightarrow> json option \<Rightarrow> json option \<Rightarrow> maturity" where
  "maturity_of read state policy =
     (let stat = (\<lambda>k. f64_max (unwrap_or (read (value_path state [''stats'', k])) (Fin 0)) (Fin 0));
          total = stat ''total_tests''; passed = stat ''passed_tests''; destructive = stat ''destructive_failures'';
          non_destructive_rate = (if f64_lt (Fin 0) total then f64_max (f64_div (f64_sub total destructive) total) (Fin 0) else Fin 1);
          pass_rate = (if f64_lt (Fin 0) total then f64_max (f64_div passed total) (Fin 0) else Fin 0);
          target_test_count = f64_max (unwrap_or (read (value_path policy [''maturity'', ''target_test_count''])) (f64_of_int 40)) (Fin 1);
          experience = f64_min (f64_div total target_test_count) (Fin 1);
          weight = (\<lambda>k. unwrap_or (read (value_path policy [''maturity'', ''score_weights'', k])) (Fin 0));
          score = clamp_number (weighted_three pass_rate (weight ''pass_rate'')
            non_destructive_rate (weight ''non_destructive_rate'') experience (weight ''experience'')) (Fin 0) (Fin 1)
      in \<lparr> ma_score = round6 score,
           ma_band = band_of_score (\<lambda>k d. unwrap_or (read (value_path policy [''maturity'', ''bands'', k])) d) score,
           ma_pass_rate = round6 pass_rate, ma_non_destructive_rate = round6 non_destructive_rate,
           ma_experience = round6 experience \<rparr>)"

definition compute_maturity_score :: "json option \<Rightarrow> json option \<Rightarrow> maturity" where
  "compute_maturity_score state policy = maturity_of js_number_for_extract state policy"

definition maturity_json :: "maturity \<Rightarrow> json" where
  "maturity_json m = json_object [(''score'', json_f64 (ma_score m)), (''band'', JStr (ma_band m)),
     (''pass_rate'', json_f64 (ma_pass_rate m)), (''non_destructive_rate'', json_f64 (ma_non_destructive_rate m)),
     (''experience'', json_f64 (ma_experience m))]"

definition compute_maturity_score_runtime :: "json \<Rightarrow> json \<Rightarrow> maturity" where
  "compute_maturity_score_runtime state policy = maturity_of parse_number_like (Some state) (Some policy)"

definition store_maturity :: "string \<Rightarrow> maturity \<Rightarrow> json \<Rightarrow> json" where
  "store_maturity updated_at m state =
     json_set ''band'' (JStr (ma_band m)) (json_set ''score'' (json_f64 (ma_score m)) (json_set ''updated_at'' (JStr updated_at) state))"

definition compute_load_maturity_state ::
  "inv_env \<Rightarrow> files \<Rightarrow> string option \<Rightarrow> json option \<Rightarrow> string option \<Rightarrow> json \<times> json" where
  "compute_load_maturity_state E fs path policy now_iso =
     (let src = compute_read_json E fs path (Some JNull);
          state = (if json_is_object src then src else compute_default_maturity_state E);
          m = compute_maturity_score_runtime state (unwrap_or policy (JObj []));
          updated_at = nonempty_or (take 64 (env_str E (json_get state ''updated_at''))) (unwrap_or now_iso (iv_now_iso E))
      in (store_maturity updated_at m state, maturity_json m))"

definition compute_save_maturity_state ::
  "inv_env \<Rightarrow> files \<Rightarrow> string option \<Rightarrow> json option \<Rightarrow> json option \<Rightarrow> string option \<Rightarrow> files \<times> json \<times> json" where
  "compute_save_maturity_state E fs path state0 policy now_iso =
     (let state = (case state0 of Some (JObj m) \<Rightarrow> JObj m | _ \<Rightarrow> compute_default_maturity_state E);
          m = compute_maturity_score_runtime state (unwrap_or policy (JObj []));
          out = store_maturity (unwrap_or now_iso (iv_now_iso E)) m state
      in (compute_write_json_atomic E fs path (Some out), out, maturity_json m))"

section \<open>Sessions\<close>

definition sessions_document :: "string \<Rightarrow> json list \<Rightarrow> json" where
  "sessions_document updated_at sessions =
     json_object [(''schema_id'', JStr ''inversion_active_sessions''), (''schema_version'', JStr ''1.0''),
       (''updated_at'', JStr updated_at), (''sessions'', JArr sessions)]"

definition session_rows :: "json option \<Rightarrow> json list" where
  "session_rows store = filter json_is_object (array_rows (obj_get store ''sessions''))"

definition compute_load_active_sessions :: "inv_env \<Rightarrow> files \<Rightarrow> string option \<Rightarrow> string option \<Rightarrow> json" where
  "compute_load_active_sessions E fs path now_iso =
     (let payload = compute_read_json E fs path (Some JNull); stamp = env_str E (json_get payload ''updated_at'')
      in sessions_document (if stamp = [] then unwrap_or now_iso (iv_now_iso E) else clean_text_runtime stamp 64)
           (session_rows (Some payload)))"

definition compute_save_active_sessions ::
  "inv_env \<Rightarrow> files \<Rightarrow> string option \<Rightarrow> json option \<Rightarrow> string option \<Rightarrow> files \<times> json" where
  "compute_save_active_sessions E fs path store now_iso =
     (let out = sessions_document (unwrap_or now_iso (iv_now_iso E)) (session_rows store)
      in (compute_write_json_atomic E fs path (Some out), out))"

section \<open>An approval counts once\<close>

text \<open>A log is empty or ends with a line feed. A line is a text of one row: no line feed or carriage return, not blank,
  and it decodes to the row.\<close>

definition is_log :: "string \<Rightarrow> bool" where
  "is_log content = (content = [] \<or> last content = CHR 0x0A)"

definition line_of :: "inv_env \<Rightarrow> json \<Rightarrow> bool" where
  "line_of E row =
     (let line = json_to_string (iv_libs E) row
      in CHR 0x0A \<notin> set line \<and> CHR 0x0D \<notin> set line \<and> trim line \<noteq> [] \<and> iv_parse E line = Some row)"

lemma lines_acc_append:
  "is_log content \<Longrightarrow> content \<noteq> [] \<Longrightarrow> lines_acc acc (content @ rest) = lines_acc acc content @ lines_acc [] rest"
proof (induction content arbitrary: acc)
  case (Cons c cs)
  show ?case
  proof (cases "cs = []")
    case True
    then show ?thesis using Cons.prems by (simp add: is_log_def char_nat_def)
  next
    case False
    then have "is_log cs" using Cons.prems by (simp add: is_log_def)
    then show ?thesis using Cons.IH False by simp
  qed
qed simp

lemma lines_acc_line: "CHR 0x0A \<notin> set line \<Longrightarrow> CHR 0x0D \<notin> set (rev acc @ line) \<Longrightarrow>
    lines_acc acc (line @ newline) = [rev acc @ line]"
proof (induction line arbitrary: acc)
  case Nil
  have "last (rev acc) \<noteq> CHR 0x0D" if "acc \<noteq> []" using Nil.prems last_in_set [of "rev acc"] that by auto
  then have "char_nat (last (rev acc)) \<noteq> 13" if "acc \<noteq> []"
    using that char_nat_inject [of "last (rev acc)" "CHR 0x0D"] by (auto simp: char_nat_def)
  then have "strip_cr (rev acc) = rev acc" by (auto simp: strip_cr_def)
  then show ?case by (simp add: char_nat_def)
next
  case (Cons c cs)
  then have "char_nat c \<noteq> 10" using char_nat_inject [of c "CHR 0x0A"] by (auto simp: char_nat_def)
  then show ?case using Cons by simp
qed

lemma rust_lines_append:
  assumes "is_log content" and "CHR 0x0A \<notin> set line" and "CHR 0x0D \<notin> set line"
  shows "rust_lines (content @ line @ newline) = rust_lines content @ [line]"
  using assms lines_acc_append [OF assms(1), of "[]" "line @ newline"] lines_acc_line [of line "[]"]
  by (cases "content = []") (simp_all add: rust_lines_def)

lemma map_filter_append: "List.map_filter f (xs @ ys) = List.map_filter f xs @ List.map_filter f ys"
  by (simp add: List.map_filter_def)

lemma read_after_append:
  assumes "file_path_of path \<noteq> []" and "iv_writable E (file_path_of path)" and "is_log (unwrap_or (fs (file_path_of path)) [])"
    and "line_of E row" and "json_is_object row"
  shows "compute_read_jsonl E (compute_append_jsonl E fs path (Some row)) path = compute_read_jsonl E fs path @ [row]"
proof -
  let ?line = "json_to_string (iv_libs E) row" and ?c = "unwrap_or (fs (file_path_of path)) []"
  have "rust_lines (?c @ ?line @ newline) = rust_lines ?c @ [?line]"
    using assms(3,4) by (intro rust_lines_append) (auto simp: line_of_def Let_def)
  moreover have "rust_lines [] = []" by (simp add: rust_lines_def)
  ultimately show ?thesis
    using assms by (auto simp: compute_read_jsonl_def compute_append_jsonl_def Let_def line_of_def unwrap_or_def map_filter_simps
        map_filter_append split: option.splits)
qed

definition window_cutoff :: "inv_env \<Rightarrow> json option \<Rightarrow> int" where
  "window_cutoff E window_days =
     iv_now_ms E - clamp 1 3650 (f64_as_i64 (f64_floor (unwrap_or (parse_number_like window_days) (f64_of_int 90)))) * day_ms"

definition approvers :: "inv_env \<Rightarrow> files \<Rightarrow> string option \<Rightarrow> string option \<Rightarrow> json option \<Rightarrow> string list" where
  "approvers E fs path target window_days =
     List.map_filter (approval_counts E (window_cutoff E window_days) (compute_normalize_target target))
       (compute_load_observer_approvals E fs path)"

lemma count_approvers: "compute_count_observer_approvals E fs path target w = int (card (set (approvers E fs path target w)))"
  by (simp add: compute_count_observer_approvals_def approvers_def window_cutoff_def Let_def)

lemma target_words: "t \<in> set tier_targets \<Longrightarrow> compute_normalize_target (Some t) = t"
proof -
  have "list_all (\<lambda>t. compute_normalize_target (Some t) = t) tier_targets" by code_simp
  then show "t \<in> set tier_targets \<Longrightarrow> compute_normalize_target (Some t) = t" by (simp add: list_all_iff)
qed

lemma target_idem [simp]: "compute_normalize_target (Some (compute_normalize_target t)) = compute_normalize_target t"
  by (rule target_words [OF compute_normalize_target_mem])

lemma observer_idem [simp]: "compute_normalize_observer_id (Some (compute_normalize_observer_id o')) = compute_normalize_observer_id o'"
  by (simp add: compute_normalize_observer_id_def unwrap_or_def)

lemma clean_text_Nil [simp]: "clean_text_runtime [] n = []"
  by (simp add: clean_text_runtime_def inv_words_def split_whitespace_def)

lemma new_approval_row:
  assumes "compute_normalize_observer_id observer \<noteq> []" and "clean_text_runtime now 64 = now" and "now \<noteq> []"
  shows "\<exists>row. approval_row E (new_approval E target observer note0 (Some now)) = Some row \<and>
    approval_counts E cutoff t row =
      (if t = compute_normalize_target target \<and> cutoff \<le> parse_ts_ms_runtime E now then Some (compute_normalize_observer_id observer) else None)"
proof -
  let ?v = "new_approval E target observer note0 (Some now)"
  obtain item where item: "?v = JObj item" by (simp add: new_approval_def json_object_def)
  have "json_get ?v ''ts'' = Some (JStr now)" "json_get ?v ''target'' = Some (JStr (compute_normalize_target target))"
    "json_get ?v ''observer_id'' = Some (JStr (compute_normalize_observer_id observer))"
    by (simp_all add: new_approval_def json_get_object unwrap_or_def)
  then have g: "bt_get item ''ts'' = Some (JStr now)" "bt_get item ''target'' = Some (JStr (compute_normalize_target target))"
    "bt_get item ''observer_id'' = Some (JStr (compute_normalize_observer_id observer))" by (simp_all add: item)
  show ?thesis using assms
    by (auto simp: item approval_row_def g Let_def value_to_string_def approval_counts_def json_get_object)
qed

text \<open>C14: An approval that is appended to the log is counted for its target, within the window, once per observer: the
  count grows by one when the observer had not approved that target in the window and stays as it is otherwise; the
  counts of the other targets do not change.\<close>

theorem approval_counted_once:
  assumes "file_path_of path \<noteq> []" and "iv_writable E (file_path_of path)" and "is_log (unwrap_or (fs (file_path_of path)) [])"
    and "line_of E (new_approval E target observer note0 (Some now))"
    and "compute_normalize_observer_id observer \<noteq> []" and "clean_text_runtime now 64 = now" and "now \<noteq> []"
    and "window_cutoff E w \<le> parse_ts_ms_runtime E now"
  shows "compute_count_observer_approvals E (fst (compute_append_observer_approval E fs path target observer note0 (Some now))) path t w =
    compute_count_observer_approvals E fs path t w +
      (if compute_normalize_target t = compute_normalize_target target \<and>
          compute_normalize_observer_id observer \<notin> set (approvers E fs path t w) then 1 else 0)"
proof -
  let ?v = "new_approval E target observer note0 (Some now)" and ?fs = "fst (compute_append_observer_approval E fs path target observer note0 (Some now))"
  let ?o = "compute_normalize_observer_id observer"
  have "json_is_object ?v" by (simp add: new_approval_def json_object_def)
  then have rows: "compute_read_jsonl E ?fs path = compute_read_jsonl E fs path @ [?v]"
    using read_after_append [of path E fs ?v] assms(1-4) by (simp add: compute_append_observer_approval_def Let_def)
  obtain row where row: "approval_row E ?v = Some row"
    "approval_counts E (window_cutoff E w) (compute_normalize_target t) row =
      (if compute_normalize_target t = compute_normalize_target target then Some ?o else None)"
    using new_approval_row [OF assms(5-7), of E target note0 "window_cutoff E w" "compute_normalize_target t"] assms(8) by auto
  have "approvers E ?fs path t w = approvers E fs path t w @
      (if compute_normalize_target t = compute_normalize_target target then [?o] else [])"
    by (simp add: approvers_def compute_load_observer_approvals_def rows map_filter_append map_filter_simps row)
  then show ?thesis
    by (cases "compute_normalize_target t = compute_normalize_target target") (simp_all add: count_approvers card_insert_if)
qed

definition sample_approval :: json where
  "sample_approval = new_approval sample_inv_env (Some ''belief'') (Some ''Ann'') None (Some ''now'')"

definition sample_log_env :: inv_env where
  "sample_log_env = sample_inv_env\<lparr> iv_libs := \<lparr> sha256_hex = (\<lambda>s. s), json_to_string = (\<lambda>v. ''row'') \<rparr>,
     iv_parse := (\<lambda>s. if s = ''row'' then Some sample_approval else None),
     iv_time := (\<lambda>s. if s = ''now'' then Some 1000 else None), iv_now_ms := 1000 \<rparr>"

theorem approval_counted_once_witness:
  "compute_count_observer_approvals sample_log_env
     (fst (compute_append_observer_approval sample_log_env (\<lambda>_. None) (Some ''a'') (Some ''belief'') (Some ''Ann'') None (Some ''now'')))
     (Some ''a'') (Some ''belief'') None = 1"
proof -
  let ?E = sample_log_env and ?fs = "\<lambda>_. None :: string option"
  have e: "new_approval ?E (Some ''belief'') (Some ''Ann'') None (Some ''now'') = sample_approval"
    by (simp add: sample_approval_def new_approval_def unwrap_or_def)
  have path: "file_path_of (Some ''a'') \<noteq> []" "iv_writable ?E (file_path_of (Some ''a''))" by code_simp+
  have log: "is_log (unwrap_or (?fs (file_path_of (Some ''a''))) [])" by (simp add: is_log_def unwrap_or_def)
  have line: "line_of ?E (new_approval ?E (Some ''belief'') (Some ''Ann'') None (Some ''now''))"
    unfolding e by (simp add: line_of_def sample_log_env_def) code_simp
  have words: "compute_normalize_observer_id (Some ''Ann'') \<noteq> []" "clean_text_runtime ''now'' 64 = ''now''" by code_simp+
  have cut: "window_cutoff ?E None \<le> parse_ts_ms_runtime ?E ''now''" by code_simp
  have none: "approvers ?E ?fs (Some ''a'') (Some ''belief'') None = []"
    by (simp add: approvers_def compute_load_observer_approvals_def compute_read_jsonl_def map_filter_simps Let_def)
  then show ?thesis
    using approval_counted_once [OF path log line words _ cut, of "Some ''belief''"] by (simp add: count_approvers)
qed

end
