(* ===== verification/Inversion_Library.thy ===== *)
theory Inversion_Library
  imports Inversion_Sessions
begin

text \<open>
  The library of past inversions, the events and the sweep of expired sessions
  (\<^verbatim>\<open>core/layer2/execution/src/inversion.rs\<close>).
\<close>

section \<open>Rows of the library\<close>

definition null_or_text :: "string \<Rightarrow> json" where
  "null_or_text v = (if v = [] then JNull else JStr v)"

definition library_tokens :: "inv_env \<Rightarrow> json option \<Rightarrow> string \<Rightarrow> string \<Rightarrow> string list" where
  "library_tokens E tokens signature objective =
     (case tokens of
        Some (JArr rows) \<Rightarrow>
          take 64 (filter (\<lambda>row. row \<noteq> []) (map (\<lambda>row. compute_normalize_word_token (Some (env_str E (Some row))) (Some 40)) rows))
      | _ \<Rightarrow> compute_tokenize_text (Some (if signature \<noteq> [] then signature else objective)) None)"

definition compute_normalize_library_row :: "inv_env \<Rightarrow> json option \<Rightarrow> json" where
  "compute_normalize_library_row E row =
     (let field = obj_get row; word = (\<lambda>k n. clean_text_runtime (env_str E (field k)) n);
          objective = word ''objective'' 280; signature = word ''signature'' 240
      in json_object [(''id'', JStr (word ''id'' 80)), (''ts'', JStr (word ''ts'' 40)), (''objective'', JStr objective),
           (''objective_id'', JStr (word ''objective_id'' 120)), (''signature'', JStr signature),
           (''signature_tokens'', json_str_list (library_tokens E (field ''signature_tokens'') signature objective)),
           (''target'', JStr (compute_normalize_target (Some (env_str E (field ''target''))))),
           (''impact'', JStr (compute_normalize_impact (Some (env_str E (field ''impact''))))),
           (''certainty'', json_f64 (clamp_number (unwrap_or (parse_number_like (field ''certainty'')) (Fin 0)) (Fin 0) (Fin 1))),
           (''filter_stack'', json_str_list (compute_normalize_list (iv_libs E)
              (Some (unwrap_or (or_else (field ''filter_stack'') (field ''filters'')) (JArr []))) (Some 120))),
           (''outcome_trit'', JInt (clamp (- 1) 1 (normalize_trit_value (unwrap_or (field ''outcome_trit'') JNull)))),
           (''result'', JStr (compute_normalize_result (Some (env_str E (field ''result''))))),
           (''maturity_band'', JStr (compute_normalize_token (Some (env_str E (field ''maturity_band''))) (Some 24))),
           (''principle_id'', null_or_text (word ''principle_id'' 80)), (''session_id'', null_or_text (word ''session_id'' 80))])"

definition trimmed_library_row :: "inv_env \<Rightarrow> json \<Rightarrow> json" where
  "trimmed_library_row E row =
     (let normalized = compute_normalize_library_row E (Some row)
      in if env_str E (json_get normalized ''maturity_band'') = [] then json_set ''maturity_band'' (JStr ''novice'') normalized
         else normalized)"

definition compute_trim_library :: "inv_env \<Rightarrow> files \<Rightarrow> string option \<Rightarrow> json option \<Rightarrow> files \<times> json list" where
  "compute_trim_library E fs path max_entries =
     (let rows = map (trimmed_library_row E) (compute_read_jsonl E fs path);
          cap = nat (max (f64_as_i64 (f64_floor (unwrap_or (parse_number_like max_entries) (f64_of_int 4000)))) 100)
      in if length rows \<le> cap then (fs, rows)
         else
           let sorted = sort_key (\<lambda>row. env_str E (json_get row ''ts'')) rows;
               keep = drop (length sorted - cap) sorted; p = file_path_of path
           in (if p = [] \<or> \<not> iv_writable E p then fs
               else fs(p \<mapsto> join newline (map (json_to_string (iv_libs E)) keep) @ newline), keep))"

section \<open>Events and records\<close>

definition compute_emit_event ::
  "inv_env \<Rightarrow> files \<Rightarrow> string option \<Rightarrow> string option \<Rightarrow> string option \<Rightarrow> json option \<Rightarrow> bool option \<Rightarrow> string option \<Rightarrow> files \<times> string option" where
  "compute_emit_event E fs events_dir0 date_str0 event_type payload emit_events now_iso =
     (let events_dir = file_path_of events_dir0; date_str = clean_text_runtime (unwrap_or date_str0 []) 32
      in if \<not> unwrap_or emit_events False \<or> events_dir = [] \<or> date_str = [] then (fs, None)
         else
           let fp = path_join events_dir (date_str @ ''.jsonl'');
               row = json_object [(''ts'', JStr (unwrap_or now_iso (iv_now_iso E))), (''type'', JStr ''inversion_event''),
                 (''event'', JStr (nonempty_or (normalize_token_runtime (unwrap_or event_type []) 64) ''unknown'')),
                 (''payload'', unwrap_or payload (JObj []))]
           in (compute_append_jsonl E fs (Some fp) (Some row), Some fp))"

text \<open>A record is written as the latest one and appended to the history.\<close>

definition persist_record :: "inv_env \<Rightarrow> files \<Rightarrow> string option \<Rightarrow> string option \<Rightarrow> json option \<Rightarrow> files" where
  "persist_record E fs latest_path history_path payload0 =
     (let payload = unwrap_or payload0 (JObj [])
      in compute_append_jsonl E (compute_write_json_atomic E fs latest_path (Some payload)) history_path (Some payload))"

definition compute_persist_decision :: "inv_env \<Rightarrow> files \<Rightarrow> string option \<Rightarrow> string option \<Rightarrow> json option \<Rightarrow> files" where
  "compute_persist_decision E fs latest_path history_path payload = persist_record E fs latest_path history_path payload"

definition compute_persist_interface_envelope :: "inv_env \<Rightarrow> files \<Rightarrow> string option \<Rightarrow> string option \<Rightarrow> json option \<Rightarrow> files" where
  "compute_persist_interface_envelope E fs latest_path history_path envelope = persist_record E fs latest_path history_path envelope"

definition path_field :: "json option \<Rightarrow> string \<Rightarrow> string option" where
  "path_field paths k = Option.bind (obj_get paths k) as_str"

definition compute_persist_first_principle ::
  "inv_env \<Rightarrow> files \<Rightarrow> json option \<Rightarrow> json option \<Rightarrow> json option \<Rightarrow> string option \<Rightarrow> files \<times> json" where
  "compute_persist_first_principle E fs paths session principle0 now_iso =
     (let principle = unwrap_or principle0 (JObj []);
          fs1 = persist_record E fs (path_field paths ''first_principles_latest_path'')
            (path_field paths ''first_principles_history_path'') (Some principle);
          (fs2, state, key) = compute_upsert_first_principle_lock E fs1 (path_field paths ''first_principles_lock_path'')
            session (Some principle) now_iso
      in (fs2, principle))"

definition compute_parse_lane_decision :: "inv_env \<Rightarrow> json option \<Rightarrow> string \<times> string" where
  "compute_parse_lane_decision E args =
     (let candidates = map (\<lambda>k. env_str E (obj_get args k)) [''brain_lane'', ''brain-lane'', ''generation_lane'', ''generation-lane''];
          lane = compute_normalize_token (Some (unwrap_or (find (\<lambda>v. trim v \<noteq> []) candidates) [])) (Some 120)
      in if lane \<noteq> [] then (lane, ''arg'') else ([], ''none''))"

section \<open>The sweep\<close>

definition session_expired :: "inv_env \<Rightarrow> int \<Rightarrow> json \<Rightarrow> bool" where
  "session_expired E now_ms session =
     (let expires_ms = parse_ts_ms_runtime E (env_str E (json_get session ''expires_at'')) in 0 < expires_ms \<and> expires_ms \<le> now_ms)"

definition revert_receipt :: "inv_env \<Rightarrow> string \<Rightarrow> json \<Rightarrow> json" where
  "revert_receipt E now_iso session =
     json_object [(''ts'', JStr now_iso), (''type'', JStr ''inversion_auto_revert''), (''reason'', JStr ''session_timeout''),
       (''session_id'', JStr (clean_text_runtime (env_str E (json_get session ''session_id'')) 80)),
       (''objective'', JStr (clean_text_runtime (env_str E (json_get session ''objective'')) 220)),
       (''target'', JStr (compute_normalize_target (Some (env_str E (json_get session ''target''))))),
       (''outcome_trit'', JInt 0), (''result'', JStr ''neutral''),
       (''certainty'', json_f64 (unwrap_or (js_number_for_extract (json_get session ''certainty'')) (Fin 0)))]"

definition revert_library_row :: "inv_env \<Rightarrow> string \<Rightarrow> json \<Rightarrow> json" where
  "revert_library_row E now_iso session =
     (let row = revert_receipt E now_iso session; objective = env_str E (json_get session ''objective'');
          signature = nonempty_or (env_str E (json_get session ''signature'')) objective;
          sid = env_str E (json_get row ''session_id'')
      in json_object [(''id'', JStr (stable_id_runtime (iv_libs E) (sid @ ''|'' @ now_iso @ ''|timeout'') ''ifl'')), (''ts'', JStr now_iso),
           (''objective'', JStr (clean_text_runtime objective 240)),
           (''objective_id'', JStr (clean_text_runtime (env_str E (json_get session ''objective_id'')) 120)),
           (''signature'', JStr (clean_text_runtime signature 240)),
           (''signature_tokens'', json_str_list (compute_tokenize_text (Some signature) (Some 64))),
           (''target'', JStr (compute_normalize_target (Some (env_str E (json_get row ''target''))))),
           (''impact'', JStr (compute_normalize_impact (Some (env_str E (json_get session ''impact''))))),
           (''certainty'', json_f64 (round6 (clamp_number
              (unwrap_or (js_number_for_extract (json_get row ''certainty'')) (Fin 0)) (Fin 0) (Fin 1)))),
           (''filter_stack'', json_str_list (compute_normalize_list (iv_libs E)
              (Some (unwrap_or (json_get session ''filter_stack'') (JArr []))) (Some 120))),
           (''outcome_trit'', JInt 0), (''result'', JStr ''neutral''),
           (''maturity_band'', JStr (compute_normalize_token (Some (env_str E (json_get session ''maturity_band''))) (Some 24))),
           (''session_id'', JStr (clean_text_runtime sid 80))])"

definition revert_session :: "inv_env \<Rightarrow> json option \<Rightarrow> bool \<Rightarrow> string \<Rightarrow> string \<Rightarrow> json \<Rightarrow> files \<Rightarrow> files" where
  "revert_session E paths emit date_str now_iso session fs =
     (let row = revert_receipt E now_iso session;
          fs1 = compute_append_jsonl E fs (path_field paths ''receipts_path'') (Some row);
          fs2 = compute_append_jsonl E fs1 (path_field paths ''library_path'') (Some (revert_library_row E now_iso session))
      in if emit
         then fst (compute_emit_event E fs2 (path_field paths ''events_dir'') (Some date_str) (Some ''session_auto_revert'')
           (Some row) (Some True) (Some now_iso))
         else fs2)"

definition compute_sweep_expired_sessions ::
  "inv_env \<Rightarrow> files \<Rightarrow> json option \<Rightarrow> json option \<Rightarrow> string option \<Rightarrow> string option \<Rightarrow> files \<times> int \<times> json list" where
  "compute_sweep_expired_sessions E fs paths policy0 date_str0 now_iso0 =
     (let policy = unwrap_or policy0 (JObj []); date_str = clean_text_runtime (unwrap_or date_str0 []) 32;
          now_iso = unwrap_or now_iso0 (iv_now_iso E); now_ms = parse_ts_ms_runtime E now_iso;
          store = compute_load_active_sessions E fs (path_field paths ''active_sessions_path'') (Some now_iso);
          sessions = array_rows (json_get store ''sessions'');
          expired = filter (session_expired E now_ms) sessions;
          keep = filter (\<lambda>s. \<not> session_expired E now_ms s) sessions
      in if expired = [] then (fs, 0, keep)
         else
           let (fs1, saved) = compute_save_active_sessions E fs (path_field paths ''active_sessions_path'')
                 (Some (json_object [(''sessions'', JArr keep)])) (Some now_iso);
               emit = to_bool_like (iv_libs E) (value_path (Some policy) [''telemetry'', ''emit_events'']) False;
               fs2 = fold (revert_session E paths emit date_str now_iso) expired fs1;
               (fs3, rows) = compute_trim_library E fs2 (path_field paths ''library_path'')
                 (value_path (Some policy) [''library'', ''max_entries''])
           in (fs3, int (length sessions - length keep), keep))"

section \<open>A sweep settles\<close>

lemma sessions_document_get [lock_simps]: "json_get (sessions_document u rows) ''sessions'' = Some (JArr rows)"
  by (simp add: sessions_document_def json_get_object)

lemma append_other: "q \<noteq> file_path_of path \<Longrightarrow> compute_append_jsonl E fs path row q = fs q"
  by (simp add: compute_append_jsonl_def Let_def)

lemma emit_other:
  "q \<noteq> file_path_of (Some (path_join (file_path_of dir) (clean_text_runtime (unwrap_or date []) 32 @ ''.jsonl''))) \<Longrightarrow>
   fst (compute_emit_event E fs dir date ty payload emit now) q = fs q"
  by (simp add: compute_emit_event_def Let_def append_other)

lemma trim_other: "q \<noteq> file_path_of path \<Longrightarrow> fst (compute_trim_library E fs path cap) q = fs q"
  by (simp add: compute_trim_library_def Let_def)

text \<open>The file of sessions is none of the files the sweep appends to.\<close>

definition sessions_apart :: "json option \<Rightarrow> string \<Rightarrow> bool" where
  "sessions_apart paths date =
     (let p = file_path_of (path_field paths ''active_sessions_path'')
      in p \<noteq> file_path_of (path_field paths ''receipts_path'') \<and> p \<noteq> file_path_of (path_field paths ''library_path'') \<and>
         p \<noteq> file_path_of (Some (path_join (file_path_of (path_field paths ''events_dir'')) (date @ ''.jsonl''))))"

lemma revert_session_other:
  assumes "sessions_apart paths (clean_text_runtime date 32)"
  shows "revert_session E paths emit date now s fs (file_path_of (path_field paths ''active_sessions_path'')) =
    fs (file_path_of (path_field paths ''active_sessions_path''))"
  using assms by (simp add: revert_session_def Let_def sessions_apart_def emit_other append_other unwrap_or_def)

lemma revert_sessions_other:
  assumes "sessions_apart paths (clean_text_runtime date 32)"
  shows "fold (revert_session E paths emit date now) rows fs (file_path_of (path_field paths ''active_sessions_path'')) =
    fs (file_path_of (path_field paths ''active_sessions_path''))"
  by (induction rows arbitrary: fs) (simp_all add: revert_session_other [OF assms])

definition active_sessions :: "inv_env \<Rightarrow> files \<Rightarrow> json option \<Rightarrow> json list" where
  "active_sessions E fs paths = session_rows (Some (compute_read_json E fs (path_field paths ''active_sessions_path'') (Some JNull)))"

lemma sweep_sessions [lock_simps]:
  "array_rows (json_get (compute_load_active_sessions E fs (path_field paths ''active_sessions_path'') now) ''sessions'') =
     active_sessions E fs paths"
  by (simp add: compute_load_active_sessions_def Let_def lock_simps active_sessions_def)

lemma active_sessions_objects: "filter (\<lambda>x. P x \<and> json_is_object x) (active_sessions E fs paths) = filter P (active_sessions E fs paths)"
  by (rule filter_cong) (auto simp: active_sessions_def session_rows_def)

lemma sweep_unexpired:
  assumes "filter (session_expired E (parse_ts_ms_runtime E now)) (active_sessions E fs paths) = []"
  shows "compute_sweep_expired_sessions E fs paths policy date (Some now) = (fs, 0, active_sessions E fs paths)"
proof -
  have "filter (\<lambda>s. \<not> session_expired E (parse_ts_ms_runtime E now) s) (active_sessions E fs paths) = active_sessions E fs paths"
    using assms by (auto simp: filter_empty_conv filter_id_conv)
  then show ?thesis using assms by (simp add: compute_sweep_expired_sessions_def Let_def unwrap_or_def lock_simps)
qed

lemma read_json_cong: "fs (file_path_of path) = fs' (file_path_of path) \<Longrightarrow> compute_read_json E fs path d = compute_read_json E fs' path d"
  by (simp add: compute_read_json_def Let_def)

text \<open>C15: A sweep keeps exactly the sessions that have not expired, in their order, and reports how many it reverted;
  the file of sessions then holds the kept ones, and sweeping again at the same time changes nothing.\<close>

theorem sweep_settles:
  assumes path: "file_path_of (path_field paths ''active_sessions_path'') \<noteq> []"
      "iv_writable E (file_path_of (path_field paths ''active_sessions_path''))"
    and apart: "sessions_apart paths (clean_text_runtime (clean_text_runtime (unwrap_or date []) 32) 32)"
    and dec: "decodes E (sessions_document now
      (filter (\<lambda>s. \<not> session_expired E (parse_ts_ms_runtime E now) s) (active_sessions E fs paths)))"
    and sweep: "compute_sweep_expired_sessions E fs paths policy date (Some now) = (fs', n, kept)"
  shows "kept = filter (\<lambda>s. \<not> session_expired E (parse_ts_ms_runtime E now) s) (active_sessions E fs paths) \<and>
    n = int (length (filter (session_expired E (parse_ts_ms_runtime E now)) (active_sessions E fs paths))) \<and>
    active_sessions E fs' paths = kept \<and>
    compute_sweep_expired_sessions E fs' paths policy date (Some now) = (fs', 0, kept)"
proof (cases "filter (session_expired E (parse_ts_ms_runtime E now)) (active_sessions E fs paths) = []")
  case True
  note u = sweep_unexpired [OF True, of policy date]
  have k: "filter (\<lambda>s. \<not> session_expired E (parse_ts_ms_runtime E now) s) (active_sessions E fs paths) = active_sessions E fs paths"
    using True by (auto simp: filter_empty_conv filter_id_conv)
  show ?thesis using u sweep True k by simp
next
  case False
  let ?ms = "parse_ts_ms_runtime E now" and ?p = "path_field paths ''active_sessions_path''"
  let ?keep = "filter (\<lambda>s. \<not> session_expired E ?ms s) (active_sessions E fs paths)"
  let ?doc = "sessions_document now ?keep"
  have rows: "session_rows (Some (json_object [(''sessions'', JArr ?keep)])) = ?keep"
    by (simp add: session_rows_def obj_get_def json_get_object active_sessions_objects)
  define fs1 where "fs1 = compute_write_json_atomic E fs ?p (Some ?doc)"
  define emit where "emit = to_bool_like (iv_libs E) (value_path (Some (unwrap_or policy (JObj []))) [''telemetry'', ''emit_events'']) False"
  define fs2 where "fs2 = fold (revert_session E paths emit (clean_text_runtime (unwrap_or date []) 32) now)
    (filter (session_expired E ?ms) (active_sessions E fs paths)) fs1"
  have now: "unwrap_or (Some now) x = now" for x by (simp add: unwrap_or_def)
  have res: "compute_sweep_expired_sessions E fs paths policy date (Some now) =
      (fst (compute_trim_library E fs2 (path_field paths ''library_path'')
         (value_path (Some (unwrap_or policy (JObj []))) [''library'', ''max_entries''])),
       int (length (active_sessions E fs paths) - length ?keep), ?keep)"
    using False by (simp only: compute_sweep_expired_sessions_def Let_def now lock_simps compute_save_active_sessions_def rows
        fs1_def [symmetric] emit_def [symmetric] fs2_def [symmetric] prod.case split_beta fst_conv snd_conv if_False)
  then have kept: "kept = ?keep" and n: "n = int (length (active_sessions E fs paths) - length ?keep)"
    using sweep by simp_all
  have "fs' (file_path_of ?p) = fs2 (file_path_of ?p)"
    using res sweep apart trim_other [of "file_path_of ?p" "path_field paths ''library_path''" E fs2]
    by (auto simp: sessions_apart_def Let_def)
  also have "\<dots> = fs1 (file_path_of ?p)" unfolding fs2_def by (rule revert_sessions_other [OF apart])
  finally have "fs' (file_path_of ?p) = compute_write_json_atomic E fs ?p (Some ?doc) (file_path_of ?p)" by (simp add: fs1_def)
  then have "compute_read_json E fs' ?p (Some JNull) = compute_read_json E (compute_write_json_atomic E fs ?p (Some ?doc)) ?p (Some JNull)"
    by (intro read_json_cong) simp
  also have "\<dots> = ?doc" by (rule read_after_write [OF path dec]) (simp add: sessions_document_def json_object_def)
  finally have active: "active_sessions E fs' paths = kept"
    by (simp add: kept active_sessions_def [of E fs'] session_rows_def obj_get_def lock_simps active_sessions_objects)
  have "length (active_sessions E fs paths) - length ?keep = length (filter (session_expired E ?ms) (active_sessions E fs paths))"
    using sum_length_filter_compl [of "session_expired E ?ms" "active_sessions E fs paths"] by simp
  moreover have "compute_sweep_expired_sessions E fs' paths policy date (Some now) = (fs', 0, kept)"
    using sweep_unexpired [of E now fs' paths policy date] by (simp add: active kept)
  ultimately show ?thesis using kept n active by simp
qed

definition sample_old_session :: json where
  "sample_old_session = JObj [(''expires_at'', JStr ''e'')]"

definition sample_open_session :: json where
  "sample_open_session = JObj [(''expires_at'', JStr ''l'')]"

definition sample_sessions_env :: inv_env where
  "sample_sessions_env = sample_inv_env\<lparr> iv_libs := \<lparr> sha256_hex = (\<lambda>s. s), json_to_string = (\<lambda>v. ''row'') \<rparr>,
     iv_pretty := (\<lambda>v. ''doc''),
     iv_parse := (\<lambda>s. if s = ''S'' then Some (sessions_document ''now'' [sample_old_session, sample_open_session])
                      else if s = ''doc'' @ newline then Some (sessions_document ''now'' [sample_open_session]) else None),
     iv_time := (\<lambda>s. if s = ''now'' then Some 100 else if s = ''e'' then Some 50 else if s = ''l'' then Some 200 else None) \<rparr>"

definition sample_sweep_paths :: json where
  "sample_sweep_paths = JObj [(''active_sessions_path'', JStr ''s''), (''receipts_path'', JStr ''r'')]"

definition sample_sweep :: "files \<times> int \<times> json list" where
  "sample_sweep = compute_sweep_expired_sessions sample_sessions_env [''s'' \<mapsto> ''S''] (Some sample_sweep_paths) None None (Some ''now'')"

theorem sweep_settles_witness:
  "fst (snd sample_sweep) = 1 \<and> snd (snd sample_sweep) = [sample_open_session] \<and>
   compute_sweep_expired_sessions sample_sessions_env (fst sample_sweep) (Some sample_sweep_paths) None None (Some ''now'') =
     (fst sample_sweep, 0, [sample_open_session])"
proof -
  let ?E = sample_sessions_env and ?P = "Some sample_sweep_paths" and ?fs = "[''s'' \<mapsto> ''S'']"
  have path: "file_path_of (path_field ?P ''active_sessions_path'') \<noteq> []"
    "iv_writable ?E (file_path_of (path_field ?P ''active_sessions_path''))" by code_simp+
  have apart: "sessions_apart ?P (clean_text_runtime (clean_text_runtime (unwrap_or None []) 32) 32)" by code_simp
  have act: "active_sessions ?E ?fs ?P = [sample_old_session, sample_open_session]" by code_simp
  have ex: "session_expired ?E (parse_ts_ms_runtime ?E ''now'') sample_old_session"
    "\<not> session_expired ?E (parse_ts_ms_runtime ?E ''now'') sample_open_session" by code_simp+
  have dec: "decodes ?E (sessions_document ''now'' (filter (\<lambda>s. \<not> session_expired ?E (parse_ts_ms_runtime ?E ''now'') s) (active_sessions ?E ?fs ?P)))"
    unfolding act using ex by (simp add: decodes_def sample_sessions_env_def)
  have sw: "compute_sweep_expired_sessions ?E ?fs ?P None None (Some ''now'') = (fst sample_sweep, fst (snd sample_sweep), snd (snd sample_sweep))"
    by (simp add: sample_sweep_def)
  show ?thesis using sweep_settles [OF path apart dec sw] ex by (simp add: act)
qed

end
