(* ===== verification/Inversion_Tiers.thy ===== *)
theory Inversion_Tiers
  imports Inversion_Library
begin

text \<open>
  The counters of the governance tiers (\<^verbatim>\<open>core/layer2/execution/src/inversion.rs\<close>): for every version of the policy a
  scope, for every metric a map from targets to the times of its events. The state is a JSON document; it is abstracted
  to a table of event lists by metric and target.
\<close>

section \<open>Events\<close>

definition tier_metrics :: "string list" where
  "tier_metrics = [''live_apply_attempts'', ''live_apply_successes'', ''live_apply_safe_aborts'', ''shadow_passes'',
     ''shadow_critical_failures'']"

definition default_tier_event_map_value :: json where
  "default_tier_event_map_value = json_object [(''tactical'', JArr []), (''belief'', JArr []), (''identity'', JArr []),
     (''directive'', JArr []), (''constitution'', JArr [])]"

fun keep_first :: "string list \<Rightarrow> string list \<Rightarrow> string list" where
  "keep_first dedup [] = dedup"
| "keep_first dedup (row # rows) = keep_first (if row \<in> set dedup then dedup else dedup @ [row]) rows"

definition compute_normalize_iso_events :: "inv_env \<Rightarrow> json list \<Rightarrow> int option \<Rightarrow> string list" where
  "compute_normalize_iso_events E src max_rows0 =
     (let max_rows = nat (clamp 1 100000 (unwrap_or max_rows0 10000));
          out = filter (\<lambda>row. 0 < parse_ts_ms_runtime E row) (map (\<lambda>row. trim (env_str E (Some row))) src);
          out = (if length out > max_rows then drop (length out - max_rows) out else out)
      in keep_first [] (sort_key (parse_ts_ms_runtime E) out))"

definition compute_expand_legacy_count_to_events :: "inv_env \<Rightarrow> json option \<Rightarrow> string option \<Rightarrow> string list" where
  "compute_expand_legacy_count_to_events E count0 ts =
     replicate (nat (clamp_int_value count0 0 4096 0)) (unwrap_or ts (iv_now_iso E))"

definition tier_rows :: "inv_env \<Rightarrow> json option \<Rightarrow> json option \<Rightarrow> json option \<Rightarrow> string \<Rightarrow> string \<Rightarrow> string list" where
  "tier_rows E src fallback legacy_counts legacy_ts target =
     (let src_rows = array_rows (obj_get src target);
          legacy = compute_expand_legacy_count_to_events E (obj_get legacy_counts target) (Some legacy_ts)
      in if src_rows \<noteq> [] then compute_normalize_iso_events E src_rows (Some 10000)
         else if obj_get legacy_counts target \<noteq> None \<and> legacy \<noteq> [] then legacy
         else array_to_string_rows (iv_libs E) (obj_get fallback target))"

definition tier_map :: "(string \<Rightarrow> string list) \<Rightarrow> json" where
  "tier_map f = json_object (map (\<lambda>t. (t, json_str_list (f t))) tier_targets)"

definition normalize_tier_event_map_value :: "inv_env \<Rightarrow> json option \<Rightarrow> json option \<Rightarrow> json option \<Rightarrow> string \<Rightarrow> json" where
  "normalize_tier_event_map_value E src fallback legacy_counts legacy_ts = tier_map (tier_rows E src fallback legacy_counts legacy_ts)"

definition compute_normalize_tier_event_map ::
  "inv_env \<Rightarrow> json option \<Rightarrow> json option \<Rightarrow> json option \<Rightarrow> string option \<Rightarrow> json" where
  "compute_normalize_tier_event_map E src fallback legacy_counts legacy_ts =
     normalize_tier_event_map_value E src fallback legacy_counts (unwrap_or legacy_ts (iv_now_iso E))"

definition compute_coerce_tier_event_map :: "inv_env \<Rightarrow> json option \<Rightarrow> json" where
  "compute_coerce_tier_event_map E m = tier_map (\<lambda>t. array_to_string_rows (iv_libs E) (obj_get m t))"

section \<open>Scopes\<close>

definition legacy_counts_of :: "json option \<Rightarrow> string \<Rightarrow> json option" where
  "legacy_counts_of legacy metric =
     (if metric = ''live_apply_attempts'' \<or> metric = ''live_apply_successes''
      then or_else (obj_get legacy metric) (obj_get legacy ''live_apply_counts'')
      else if metric = ''shadow_passes'' then or_else (obj_get legacy metric) (obj_get legacy ''shadow_pass_counts'')
      else obj_get legacy metric)"

definition tier_scope :: "(string \<Rightarrow> json) \<Rightarrow> json" where
  "tier_scope f = json_object (map (\<lambda>m. (m, f m)) tier_metrics)"

definition default_tier_scope_value :: "inv_env \<Rightarrow> json option \<Rightarrow> string \<Rightarrow> json" where
  "default_tier_scope_value E legacy legacy_ts =
     tier_scope (\<lambda>metric. normalize_tier_event_map_value E (Some (JObj [])) (Some default_tier_event_map_value)
       (legacy_counts_of legacy metric) legacy_ts)"

definition compute_default_tier_scope :: "inv_env \<Rightarrow> json option \<Rightarrow> string option \<Rightarrow> json" where
  "compute_default_tier_scope E legacy legacy_ts = default_tier_scope_value E legacy (unwrap_or legacy_ts (iv_now_iso E))"

definition normalize_tier_scope_value :: "inv_env \<Rightarrow> json option \<Rightarrow> json option \<Rightarrow> string \<Rightarrow> json" where
  "normalize_tier_scope_value E scope legacy legacy_ts =
     (let src = object_of scope; fallback = default_tier_scope_value E legacy legacy_ts
      in tier_scope (\<lambda>metric. normalize_tier_event_map_value E (bt_get src metric) (json_get fallback metric) None legacy_ts))"

definition compute_normalize_tier_scope :: "inv_env \<Rightarrow> json option \<Rightarrow> json option \<Rightarrow> string option \<Rightarrow> json" where
  "compute_normalize_tier_scope E scope legacy legacy_ts =
     normalize_tier_scope_value E scope legacy (unwrap_or legacy_ts (iv_now_iso E))"

definition compute_clone_tier_scope :: "inv_env \<Rightarrow> json option \<Rightarrow> json" where
  "compute_clone_tier_scope E scope = normalize_tier_scope_value E scope None (iv_now_iso E)"

definition policy_version_of :: "string option \<Rightarrow> string" where
  "policy_version_of v = nonempty_or (clean_text_runtime (unwrap_or v ''1.0'') 24) ''1.0''"

definition tier_document :: "string \<Rightarrow> string \<Rightarrow> (string \<times> json) list \<Rightarrow> json" where
  "tier_document version updated_at scopes =
     json_object [(''schema_id'', JStr ''inversion_tier_governance_state''), (''schema_version'', JStr ''1.0''),
       (''active_policy_version'', JStr version), (''updated_at'', JStr updated_at), (''scopes'', JObj scopes)]"

definition compute_default_tier_governance_state :: "inv_env \<Rightarrow> string option \<Rightarrow> json" where
  "compute_default_tier_governance_state E policy_version =
     (let v = policy_version_of policy_version
      in tier_document v (iv_now_iso E) [(v, default_tier_scope_value E None (iv_now_iso E))])"

definition prune_map :: "inv_env \<Rightarrow> int \<Rightarrow> json \<Rightarrow> json" where
  "prune_map E keep_cutoff m =
     fold (\<lambda>target m'.
         (let filtered = filter (\<lambda>row. keep_cutoff \<le> parse_ts_ms_runtime E row) (array_to_string_rows (iv_libs E) (json_get m' target));
              kept = (if length filtered > 10000 then drop (length filtered - 10000) filtered else filtered)
          in json_set target (json_str_list kept) m')) tier_targets m"

definition compute_prune_tier_scope_events :: "inv_env \<Rightarrow> json option \<Rightarrow> int option \<Rightarrow> json" where
  "compute_prune_tier_scope_events E scope retention_days0 =
     (let retention_days = clamp 1 3650 (unwrap_or retention_days0 365);
          keep_cutoff = iv_now_ms E - retention_days * day_ms
      in fold (\<lambda>metric out. json_set metric (prune_map E keep_cutoff (unwrap_or (json_get out metric) default_tier_event_map_value)) out)
           tier_metrics (normalize_tier_scope_value E scope None (iv_now_iso E)))"

definition compute_count_tier_events :: "inv_env \<Rightarrow> json option \<Rightarrow> string option \<Rightarrow> string option \<Rightarrow> int option \<Rightarrow> int" where
  "compute_count_tier_events E scope metric0 target0 window_days0 =
     (let metric = clean_text_runtime (unwrap_or metric0 []) 80;
          target = compute_normalize_target (Some (unwrap_or target0 ''tactical''));
          m = unwrap_or (obj_get scope metric) default_tier_event_map_value;
          cutoff = iv_now_ms E - clamp 1 3650 (unwrap_or window_days0 90) * day_ms
      in int (length (filter (\<lambda>row. cutoff \<le> parse_ts_ms_runtime E (env_str E (Some row))) (array_rows (json_get m target)))))"

section \<open>The state\<close>

text \<open>The scope of a version; a missing one is made.\<close>

definition compute_get_tier_scope :: "inv_env \<Rightarrow> json option \<Rightarrow> string option \<Rightarrow> json \<times> json" where
  "compute_get_tier_scope E state0 policy_version0 =
     (let policy_version = policy_version_of policy_version0; state = object_of state0;
          scopes0 = object_of (bt_get state ''scopes'');
          fresh = compute_default_tier_scope E None None;
          scopes = (case bt_get scopes0 policy_version of Some (JObj _) \<Rightarrow> scopes0 | _ \<Rightarrow> bt_insert policy_version fresh scopes0);
          scope = unwrap_or (bt_get scopes policy_version) fresh
      in (JObj (bt_insert ''scopes'' (JObj scopes) state), scope))"

definition with_active_scope :: "json \<times> json \<Rightarrow> json" where
  "with_active_scope got = JObj (bt_insert ''active_scope'' (snd got) (object_of (Some (fst got))))"

text \<open>The scopes of a document, each rewritten; the map is built by inserting them in order.\<close>

definition map_scopes :: "(json \<Rightarrow> json) \<Rightarrow> (string \<times> json) list \<Rightarrow> (string \<times> json) list" where
  "map_scopes f scopes = fold (\<lambda>(version, scope) acc. bt_insert version (f scope) acc) scopes []"

definition ensure_scope :: "string \<Rightarrow> json \<Rightarrow> (string \<times> json) list \<Rightarrow> (string \<times> json) list" where
  "ensure_scope version scope scopes = (case bt_get scopes version of Some (JObj _) \<Rightarrow> scopes | _ \<Rightarrow> bt_insert version scope scopes)"

definition legacy_scope :: "inv_env \<Rightarrow> json \<Rightarrow> string \<Rightarrow> json" where
  "legacy_scope E src updated_at =
     compute_default_tier_scope E
       (Some (json_object (map (\<lambda>k. (k, unwrap_or (json_get src k) (JObj [])))
          [''live_apply_counts'', ''shadow_pass_counts'', ''live_apply_safe_aborts'', ''shadow_critical_failures'']))) (Some updated_at)"

definition compute_load_tier_governance_state ::
  "inv_env \<Rightarrow> files \<Rightarrow> string option \<Rightarrow> string option \<Rightarrow> string option \<Rightarrow> json" where
  "compute_load_tier_governance_state E fs path policy_version0 now_iso =
     (let policy_version = policy_version_of policy_version0;
          src = compute_read_json E fs path (Some JNull);
          updated_at = updated_at_of E src (unwrap_or now_iso (iv_now_iso E));
          norm = (\<lambda>scope. compute_normalize_tier_scope E (Some scope) None (Some updated_at));
          scopes = ensure_scope policy_version (norm (legacy_scope E src updated_at))
            (map_scopes norm (object_of (json_get src ''scopes'')))
      in with_active_scope (compute_get_tier_scope E (Some (tier_document policy_version updated_at scopes)) (Some policy_version)))"

definition saved_tier_document :: "inv_env \<Rightarrow> json option \<Rightarrow> string option \<Rightarrow> int option \<Rightarrow> string option \<Rightarrow> json" where
  "saved_tier_document E state policy_version0 retention_days0 now_iso =
     (let policy_version = policy_version_of policy_version0;
          retention_days = clamp 1 3650 (unwrap_or retention_days0 365);
          scopes = ensure_scope policy_version (compute_default_tier_scope E None None)
            (map_scopes (\<lambda>scope. compute_prune_tier_scope_events E (Some scope) (Some retention_days)) (object_of (obj_get state ''scopes'')))
      in tier_document policy_version (unwrap_or now_iso (iv_now_iso E)) scopes)"

definition compute_save_tier_governance_state ::
  "inv_env \<Rightarrow> files \<Rightarrow> string option \<Rightarrow> json option \<Rightarrow> string option \<Rightarrow> int option \<Rightarrow> string option \<Rightarrow> files \<times> json" where
  "compute_save_tier_governance_state E fs path state policy_version0 retention_days0 now_iso =
     (let out = saved_tier_document E state policy_version0 retention_days0 now_iso
      in (compute_write_json_atomic E fs path (Some out),
          with_active_scope (compute_get_tier_scope E (Some out) (Some (env_str E (json_get out ''active_policy_version''))))))"

definition compute_push_tier_event :: "inv_env \<Rightarrow> json option \<Rightarrow> string option \<Rightarrow> string option \<Rightarrow> json" where
  "compute_push_tier_event E scope_map target0 ts =
     (let m = object_of scope_map; target = compute_normalize_target target0;
          rows = array_rows (bt_get m target) @ [JStr (unwrap_or ts (iv_now_iso E))]
      in JObj (bt_insert target (json_str_list (compute_normalize_iso_events E rows (Some 10000))) m))"

definition policy_version_field :: "json option \<Rightarrow> string" where
  "policy_version_field policy = clean_text_runtime (unwrap_or (Option.bind (value_path policy [''version'']) as_str) ''1.0'') 24"

text \<open>The loaded state with the event pushed into the scope of the version; a metric that is not one of the five
  changes nothing.\<close>

definition state_with_event ::
  "inv_env \<Rightarrow> files \<Rightarrow> string option \<Rightarrow> string \<Rightarrow> string option \<Rightarrow> string option \<Rightarrow> string \<Rightarrow> string \<Rightarrow> json" where
  "state_with_event E fs path policy_version metric0 target ts now_iso =
     (let loaded = compute_load_tier_governance_state E fs path (Some policy_version) (Some now_iso);
          (state, scope0) = compute_get_tier_scope E (Some loaded) (Some policy_version);
          metric = clean_text_runtime (unwrap_or metric0 []) 80;
          scope = (if metric \<in> set tier_metrics
                   then json_set metric (compute_push_tier_event E
                     (Some (unwrap_or (json_get scope0 metric) default_tier_event_map_value)) target (Some ts)) scope0
                   else scope0);
          scopes = bt_insert policy_version scope (object_of (json_get state ''scopes''))
      in JObj (bt_insert ''scopes'' (JObj scopes) (object_of (Some state))))"

definition compute_add_tier_event ::
  "inv_env \<Rightarrow> files \<Rightarrow> string option \<Rightarrow> json option \<Rightarrow> string option \<Rightarrow> string option \<Rightarrow> string option \<Rightarrow> string option \<Rightarrow> files \<times> json" where
  "compute_add_tier_event E fs path policy metric target ts now_iso0 =
     (let now_iso = unwrap_or now_iso0 (iv_now_iso E);
          policy_version = nonempty_or (policy_version_field policy) ''1.0'';
          state = state_with_event E fs path policy_version metric target (unwrap_or ts now_iso) now_iso
      in compute_save_tier_governance_state E fs path (Some state) (Some policy_version)
           (Some (compute_tier_retention_days policy)) (Some now_iso))"

definition increment_metric :: "string \<Rightarrow> inv_env \<Rightarrow> files \<Rightarrow> string option \<Rightarrow> json option \<Rightarrow> string option \<Rightarrow> string option \<Rightarrow> files \<times> json" where
  "increment_metric metric E fs path policy target now_iso =
     compute_add_tier_event E fs path policy (Some metric) target (Some (unwrap_or now_iso (iv_now_iso E))) now_iso"

definition compute_increment_live_apply_attempt where
  "compute_increment_live_apply_attempt = increment_metric ''live_apply_attempts''"

definition compute_increment_live_apply_success where
  "compute_increment_live_apply_success = increment_metric ''live_apply_successes''"

definition compute_increment_live_apply_safe_abort where
  "compute_increment_live_apply_safe_abort = increment_metric ''live_apply_safe_aborts''"

definition compute_update_shadow_trial_counters ::
  "inv_env \<Rightarrow> files \<Rightarrow> string option \<Rightarrow> json option \<Rightarrow> json option \<Rightarrow> string option \<Rightarrow> bool option \<Rightarrow> string option \<Rightarrow> files \<times> json option" where
  "compute_update_shadow_trial_counters E fs path policy session0 result0 destructive now_iso0 =
     (let mode = compute_normalize_mode (Some (env_str E (obj_get session0 ''mode'')));
          apply_requested = to_bool_like (iv_libs E) (obj_get session0 ''apply_requested'') False
      in if mode \<noteq> ''test'' \<and> apply_requested then (fs, None)
         else
           let target = compute_normalize_target (Some (env_str E (obj_get session0 ''target'')));
               result = compute_normalize_result result0; now_iso = unwrap_or now_iso0 (iv_now_iso E);
               state = compute_load_tier_governance_state E fs path (Some (policy_version_field policy)) (Some now_iso);
               add = (\<lambda>metric st. compute_add_tier_event E (fst st) path policy (Some metric) (Some target) (Some now_iso) (Some now_iso));
               st1 = (if result = ''success'' then add ''shadow_passes'' (fs, state) else (fs, state));
               st2 = (if destructive = Some True \<or> result = ''destructive'' then add ''shadow_critical_failures'' st1 else st1)
           in (fst st2, Some (snd st2)))"

section \<open>Lists of events in order\<close>

definition ordered_events :: "inv_env \<Rightarrow> string list \<Rightarrow> bool" where
  "ordered_events E xs =
     (list_all (\<lambda>s. trim s = s \<and> 0 < parse_ts_ms_runtime E s) xs \<and> sorted (map (parse_ts_ms_runtime E) xs) \<and> distinct xs \<and>
      length xs \<le> 10000)"

abbreviation norm_events :: "inv_env \<Rightarrow> json list \<Rightarrow> string list" where
  "norm_events E rows \<equiv> compute_normalize_iso_events E rows (Some 10000)"

lemma keep_first_distinct: "distinct d \<Longrightarrow> distinct (keep_first d rows)"
  by (induction rows arbitrary: d) auto

lemma keep_first_set: "set (keep_first d rows) = set d \<union> set rows"
  by (induction rows arbitrary: d) auto

lemma keep_first_length: "length (keep_first d rows) \<le> length d + length rows"
proof (induction rows arbitrary: d)
  case (Cons r rows)
  show ?case using Cons.IH [of d] Cons.IH [of "d @ [r]"] by (cases "r \<in> set d") (simp_all add: le_SucI)
qed simp

lemma keep_first_id: "distinct (d @ rows) \<Longrightarrow> keep_first d rows = d @ rows"
  by (induction rows arbitrary: d) auto

lemma keep_first_sorted: "sorted (map f (d @ rows)) \<Longrightarrow> sorted (map f (keep_first d rows))"
  by (induction rows arbitrary: d) (auto simp: sorted_append)

lemma norm_events_Nil [simp]: "norm_events E [] = []"
  by (simp add: compute_normalize_iso_events_def Let_def)

lemma norm_events_ordered: "ordered_events E (norm_events E rows)"
proof -
  define out where "out = filter (\<lambda>row. 0 < parse_ts_ms_runtime E row) (map (\<lambda>row. trim (env_str E (Some row))) rows)"
  define cut where "cut = (if length out > 10000 then drop (length out - 10000) out else out)"
  have n: "norm_events E rows = keep_first [] (sort_key (parse_ts_ms_runtime E) cut)"
    by (simp add: compute_normalize_iso_events_def Let_def unwrap_or_def clamp_def out_def [symmetric] cut_def)
  have "set cut \<subseteq> set out" by (auto simp: cut_def dest: in_set_dropD)
  then have ok: "list_all (\<lambda>s. trim s = s \<and> 0 < parse_ts_ms_runtime E s) cut" by (auto simp: out_def list_all_iff)
  have "length cut \<le> 10000" by (simp add: cut_def)
  then have "length (norm_events E rows) \<le> 10000" unfolding n using keep_first_length [of "[]"] by (metis add_0 le_trans length_sort list.size(3))
  moreover have "sorted (map (parse_ts_ms_runtime E) (norm_events E rows))" unfolding n by (rule keep_first_sorted) simp
  ultimately show ?thesis
    using ok by (simp add: ordered_events_def n keep_first_distinct list_all_iff keep_first_set)
qed

lemma norm_events_id: "ordered_events E xs \<Longrightarrow> norm_events E (map JStr xs) = xs"
proof -
  assume o: "ordered_events E xs"
  have "map (\<lambda>row. trim (env_str E (Some row))) (map JStr xs) = xs"
    using o by (auto simp: ordered_events_def list_all_iff value_to_string_def intro: map_idI)
  moreover have "filter (\<lambda>row. 0 < parse_ts_ms_runtime E row) xs = xs" using o by (auto simp: ordered_events_def list_all_iff filter_id_conv)
  ultimately show ?thesis
    using o by (simp add: compute_normalize_iso_events_def Let_def unwrap_or_def clamp_def ordered_events_def sort_key_id_if_sorted keep_first_id)
qed

lemma ordered_events_filter: "ordered_events E xs \<Longrightarrow> ordered_events E (filter P xs)"
  using length_filter_le [of P xs] le_trans [of "length (filter P xs)" "length xs" 10000]
  by (simp add: ordered_events_def list_all_iff sorted_filter)

text \<open>Where a stable sort puts one more element, and what is left of it when it was there before.\<close>

lemma sort_key_snoc:
  "sorted (map f ys) \<Longrightarrow>
     sort_key f (ys @ [t]) = takeWhile (\<lambda>e. f e \<le> f t) ys @ t # dropWhile (\<lambda>e. f e \<le> f t) ys"
proof (induction ys)
  case (Cons y ys)
  have IH: "sort_key f (ys @ [t]) = takeWhile (\<lambda>e. f e \<le> f t) ys @ t # dropWhile (\<lambda>e. f e \<le> f t) ys"
    using Cons by simp
  show ?case
  proof (cases "f y \<le> f t")
    case True
    have "set (takeWhile (\<lambda>e. f e \<le> f t) ys @ t # dropWhile (\<lambda>e. f e \<le> f t) ys) = insert t (set ys)"
      by (metis Un_insert_right list.simps(15) set_append takeWhile_dropWhile_id)
    then have "\<forall>e \<in> set (takeWhile (\<lambda>e. f e \<le> f t) ys @ t # dropWhile (\<lambda>e. f e \<le> f t) ys). f y \<le> f e"
      using Cons.prems True by simp
    then show ?thesis using True IH by (simp add: insort_is_Cons)
  next
    case False
    then have "\<not> f e \<le> f t" if "e \<in> set ys" for e using that Cons.prems by force
    then have "takeWhile (\<lambda>e. f e \<le> f t) ys = []" "dropWhile (\<lambda>e. f e \<le> f t) ys = ys"
      by (cases ys; simp)+
    moreover have "insort_key f y ys = y # ys" using Cons.prems by (intro insort_is_Cons) simp
    ultimately show ?thesis using False IH by simp
  qed
qed simp

lemma in_takeWhile_sorted:
  "sorted (map f ys) \<Longrightarrow> t \<in> set ys \<Longrightarrow> t \<in> set (takeWhile (\<lambda>e. f e \<le> f t) ys)"
  by (induction ys) auto

lemma keep_first_append: "keep_first d (xs @ ys) = keep_first (keep_first d xs) ys"
  by (induction xs arbitrary: d) auto

lemma keep_first_again:
  assumes "distinct (xs @ ys)" "t \<in> set xs"
  shows "keep_first [] (xs @ t # ys) = xs @ ys"
  using assms keep_first_id [of "[]" xs] keep_first_id [of xs ys] by (simp add: keep_first_append)

section \<open>The table of a scope\<close>

definition rows_at :: "json \<Rightarrow> string \<Rightarrow> string \<Rightarrow> json list" where
  "rows_at scope m t = array_rows (obj_get (json_get scope m) t)"

named_theorems tier_simps \<open>reading scopes and states\<close>

lemma bt_get_fold_map:
  "distinct ks \<Longrightarrow> bt_get (fold (\<lambda>(k, v). bt_insert k v) (map (\<lambda>k. (k, f k)) ks) m) k = (if k \<in> set ks then Some (f k) else bt_get m k)"
  by (induction ks arbitrary: m) (auto simp: bt_get_insert)

lemma json_object_table: "distinct ks \<Longrightarrow> json_get (json_object (map (\<lambda>k. (k, f k)) ks)) k = (if k \<in> set ks then Some (f k) else None)"
  by (simp add: json_object_def bt_get_fold_map)

lemma distinct_tiers [simp]: "distinct tier_targets" "distinct tier_metrics"
  by (simp_all add: tier_targets_def tier_metrics_def)

lemma tier_map_get [tier_simps]: "t \<in> set tier_targets \<Longrightarrow> json_get (tier_map f) t = Some (json_str_list (f t))"
  by (simp add: tier_map_def json_object_table)

lemma tier_scope_get [tier_simps]: "m \<in> set tier_metrics \<Longrightarrow> json_get (tier_scope f) m = Some (f m)"
  by (simp add: tier_scope_def json_object_table)

lemma array_rows_strings [tier_simps]: "array_rows (Some (json_str_list xs)) = map JStr xs"
  by simp

lemma string_rows [tier_simps]: "array_to_string_rows L (Some (json_str_list xs)) = xs"
  by (simp add: array_to_string_rows_def comp_def value_to_string_def)

lemma obj_get_Some [tier_simps]: "obj_get (Some v) k = json_get v k" "obj_get None k = None"
  by (simp_all add: obj_get_def)

lemma default_map_rows: "t \<in> set tier_targets \<Longrightarrow> json_get default_tier_event_map_value t = Some (JArr [])"
  by (auto simp: default_tier_event_map_value_def tier_targets_def json_get_object)

lemma default_scope_rows: "m \<in> set tier_metrics \<Longrightarrow> t \<in> set tier_targets \<Longrightarrow> rows_at (default_tier_scope_value E None u) m t = []"
  by (auto simp: rows_at_def default_tier_scope_value_def tier_simps normalize_tier_event_map_value_def tier_rows_def Let_def
      legacy_counts_of_def default_map_rows array_to_string_rows_def or_else_def)

lemma normalized_rows:
  assumes "m \<in> set tier_metrics" and "t \<in> set tier_targets"
  shows "rows_at (normalize_tier_scope_value E (Some scope) None u) m t = map JStr (norm_events E (rows_at scope m t))"
proof -
  have src: "array_rows (obj_get (bt_get (object_of (Some scope)) m) t) = rows_at scope m t"
    by (cases scope) (simp_all add: rows_at_def object_of_def)
  have fb: "array_to_string_rows (iv_libs E) (obj_get (json_get (default_tier_scope_value E None u) m) t) = []"
    using default_scope_rows [OF assms, of E u] by (simp add: rows_at_def array_to_string_rows_def)
  show ?thesis
    using assms by (subst rows_at_def) (simp add: normalize_tier_scope_value_def Let_def tier_simps
        normalize_tier_event_map_value_def tier_rows_def src fb)
qed

lemma fold_json_set:
  assumes "distinct ks"
  shows "\<exists>o'. fold (\<lambda>k out. json_set k (g (json_get out k)) out) ks (JObj ob) = JObj o' \<and>
    (\<forall>k. bt_get o' k = (if k \<in> set ks then Some (g (bt_get ob k)) else bt_get ob k))"
  using assms
proof (induction ks arbitrary: ob)
  case (Cons a ks)
  let ?ob = "bt_insert a (g (bt_get ob a)) ob"
  obtain o' where o': "fold (\<lambda>k out. json_set k (g (json_get out k)) out) ks (JObj ?ob) = JObj o'"
    "\<forall>k. bt_get o' k = (if k \<in> set ks then Some (g (bt_get ?ob k)) else bt_get ?ob k)" using Cons by force
  have "bt_get o' k = (if k \<in> set (a # ks) then Some (g (bt_get ob k)) else bt_get ob k)" for k
    using o'(2) Cons.prems by (simp add: bt_get_insert)
  then show ?case using o'(1) by simp
qed simp

lemma tier_map_object: "\<exists>ob. tier_map f = JObj ob"
  by (simp add: tier_map_def json_object_def)

lemma tier_scope_object: "\<exists>ob. tier_scope f = JObj ob"
  by (simp add: tier_scope_def json_object_def)

definition recent :: "inv_env \<Rightarrow> int \<Rightarrow> string list \<Rightarrow> string list" where
  "recent E cutoff xs = filter (\<lambda>s. cutoff \<le> parse_ts_ms_runtime E s) xs"

lemma prune_map_rows:
  assumes "t \<in> set tier_targets" and "m = JObj ob" and "array_to_string_rows (iv_libs E) (bt_get ob t) = xs" and "length xs \<le> 10000"
  shows "array_rows (json_get (prune_map E cutoff m) t) = map JStr (recent E cutoff xs)"
proof -
  define g where "g v = (let filtered = recent E cutoff (array_to_string_rows (iv_libs E) v)
    in json_str_list (if length filtered > 10000 then drop (length filtered - 10000) filtered else filtered))" for v
  have p: "prune_map E cutoff m = fold (\<lambda>k out. json_set k (g (json_get out k)) out) tier_targets m"
    unfolding prune_map_def g_def recent_def Let_def ..
  obtain o' where "fold (\<lambda>k out. json_set k (g (json_get out k)) out) tier_targets (JObj ob) = JObj o'"
    "\<forall>k. bt_get o' k = (if k \<in> set tier_targets then Some (g (bt_get ob k)) else bt_get ob k)"
    using fold_json_set [OF distinct_tiers(1), of g ob] by blast
  then have o': "prune_map E cutoff m = JObj o'" "bt_get o' t = Some (g (bt_get ob t))" using assms(1,2) p by simp_all
  have "length (recent E cutoff xs) \<le> 10000" using assms(4) length_filter_le le_trans unfolding recent_def by blast
  then show ?thesis unfolding o'(1) json_get.simps o'(2) g_def assms(3) Let_def by simp
qed

definition retention_cutoff :: "inv_env \<Rightarrow> int \<Rightarrow> int" where
  "retention_cutoff E days = iv_now_ms E - clamp 1 3650 days * day_ms"

lemma pruned_rows:
  assumes "m \<in> set tier_metrics" and "t \<in> set tier_targets"
  shows "rows_at (compute_prune_tier_scope_events E (Some scope) (Some days)) m t =
      map JStr (recent E (retention_cutoff E days) (norm_events E (rows_at scope m t)))"
    and "\<exists>ob. compute_prune_tier_scope_events E (Some scope) (Some days) = JObj ob"
proof -
  let ?n = "normalize_tier_scope_value E (Some scope) None (iv_now_iso E)"
  define g where "g v = prune_map E (retention_cutoff E days) (unwrap_or v default_tier_event_map_value)" for v
  obtain ob where ob: "?n = JObj ob" using tier_scope_object by (simp add: normalize_tier_scope_value_def Let_def) metis
  have p: "compute_prune_tier_scope_events E (Some scope) (Some days) = fold (\<lambda>k out. json_set k (g (json_get out k)) out) tier_metrics ?n"
    by (simp add: compute_prune_tier_scope_events_def Let_def g_def retention_cutoff_def unwrap_or_def)
  obtain o' where "fold (\<lambda>k out. json_set k (g (json_get out k)) out) tier_metrics (JObj ob) = JObj o'"
    "\<forall>k. bt_get o' k = (if k \<in> set tier_metrics then Some (g (bt_get ob k)) else bt_get ob k)"
    using fold_json_set [OF distinct_tiers(2), of g ob] by blast
  then have o': "compute_prune_tier_scope_events E (Some scope) (Some days) = JObj o'" "bt_get o' m = Some (g (bt_get ob m))"
    using assms(1) p ob by simp_all
  then show "\<exists>ob. compute_prune_tier_scope_events E (Some scope) (Some days) = JObj ob" by blast
  let ?ev = "norm_events E (rows_at scope m t)"
  have rn: "rows_at ?n m t = map JStr ?ev" by (rule normalized_rows [OF assms])
  obtain mv where mv: "bt_get ob m = Some (JObj mv)"
  proof -
    have "json_get ?n m = Some (normalize_tier_event_map_value E (bt_get (object_of (Some scope)) m)
        (json_get (default_tier_scope_value E None (iv_now_iso E)) m) None (iv_now_iso E))"
      using assms(1) by (simp add: normalize_tier_scope_value_def Let_def tier_simps)
    then show thesis using that tier_map_object unfolding ob normalize_tier_event_map_value_def by (metis json_get.simps(1))
  qed
  have "array_rows (bt_get mv t) = map JStr ?ev" using rn unfolding ob by (simp add: rows_at_def mv tier_simps)
  then have s: "array_to_string_rows (iv_libs E) (bt_get mv t) = ?ev" by (simp add: array_to_string_rows_def comp_def value_to_string_def)
  have len: "length ?ev \<le> 10000" using norm_events_ordered [of E "rows_at scope m t"] by (simp add: ordered_events_def)
  show "rows_at (compute_prune_tier_scope_events E (Some scope) (Some days)) m t =
      map JStr (recent E (retention_cutoff E days) ?ev)"
    using prune_map_rows [OF assms(2) refl s len] by (simp add: rows_at_def o' tier_simps g_def mv unwrap_or_def)
qed

section \<open>The table of a state\<close>

lemma map_scopes_fold: "map_scopes f scopes = fold (\<lambda>(k, v). bt_insert k v) (map (\<lambda>(k, s). (k, f s)) scopes) []"
  unfolding map_scopes_def fold_map comp_def by (rule arg_cong [where f = "\<lambda>g. fold g scopes []"]) auto

lemma map_scopes_wf [simp]: "bt_wf (map_scopes f scopes)"
  unfolding map_scopes_fold by (rule bt.wf_fold_insert) simp

lemma map_scopes_get: "bt_wf scopes \<Longrightarrow> bt_get (map_scopes f scopes) v = map_option f (bt_get scopes v)"
proof -
  have "distinct (bt_keys scopes) \<Longrightarrow> bt_get (fold (\<lambda>(k, s) acc. bt_insert k (f s) acc) scopes acc) v =
      (case bt_get scopes v of Some s \<Rightarrow> Some (f s) | None \<Rightarrow> bt_get acc v)" for acc
  proof (induction scopes arbitrary: acc)
    case (Cons e scopes)
    obtain k s where e: "e = (k, s)" by force
    show ?case
    proof (cases "v = k")
      case True
      then have "bt_get scopes v = None" using Cons.prems by (simp add: e bt_get_None_iff)
      then show ?thesis using Cons True by (simp add: e bt_get_insert)
    next
      case False
      then show ?thesis using Cons by (simp add: e bt_get_insert split: option.splits)
    qed
  qed simp
  then show "bt_wf scopes \<Longrightarrow> bt_get (map_scopes f scopes) v = map_option f (bt_get scopes v)"
    by (auto simp: map_scopes_def distinct_bt_keys split: option.splits)
qed

lemma map_scopes_some: "bt_get (map_scopes f scopes) v = Some x \<Longrightarrow> \<exists>s. x = f s"
proof -
  have "bt_get (fold (\<lambda>(k, s) acc. bt_insert k (f s) acc) scopes acc) v = Some x \<Longrightarrow> bt_get acc v = Some x \<or> (\<exists>s. x = f s)" for acc
    by (induction scopes arbitrary: acc) (force simp: bt_get_insert split: if_splits)+
  then show "bt_get (map_scopes f scopes) v = Some x \<Longrightarrow> \<exists>s. x = f s" by (force simp: map_scopes_def)
qed

definition loaded_scopes :: "inv_env \<Rightarrow> files \<Rightarrow> string option \<Rightarrow> string \<Rightarrow> string \<Rightarrow> (string \<times> json) list" where
  "loaded_scopes E fs path v now =
     (let src = compute_read_json E fs path (Some JNull); u = updated_at_of E src now;
          norm = (\<lambda>scope. compute_normalize_tier_scope E (Some scope) None (Some u))
      in ensure_scope v (norm (legacy_scope E src u)) (map_scopes norm (object_of (json_get src ''scopes''))))"

text \<open>The scope of a version in the stored state, and its table of events.\<close>

definition stored_scope :: "inv_env \<Rightarrow> files \<Rightarrow> string option \<Rightarrow> string \<Rightarrow> string \<Rightarrow> json" where
  "stored_scope E fs path v now =
     snd (compute_get_tier_scope E (Some (compute_load_tier_governance_state E fs path (Some v) (Some now))) (Some v))"

definition tier_events :: "inv_env \<Rightarrow> files \<Rightarrow> string option \<Rightarrow> string \<Rightarrow> string \<Rightarrow> string \<Rightarrow> string \<Rightarrow> string list" where
  "tier_events E fs path v now m t = array_to_string_rows (iv_libs E) (obj_get (json_get (stored_scope E fs path v now) m) t)"

lemma normalized_scope_object: "\<exists>ob. compute_normalize_tier_scope E scope legacy u = JObj ob"
  using tier_scope_object by (simp add: compute_normalize_tier_scope_def normalize_tier_scope_value_def Let_def)

lemma ensure_scope_wf [simp]: "bt_wf scopes \<Longrightarrow> bt_wf (ensure_scope v s scopes)"
  by (simp add: ensure_scope_def bt_wf_insert split: option.splits json.splits)

lemma loaded_scopes_wf [simp]: "bt_wf (loaded_scopes E fs path v now)"
  by (simp add: loaded_scopes_def Let_def)

lemma loaded_scope:
  obtains scope u ob where "bt_get (loaded_scopes E fs path v now) v = Some (compute_normalize_tier_scope E (Some scope) None (Some u))"
    and "compute_normalize_tier_scope E (Some scope) None (Some u) = JObj ob"
proof -
  define src where "src = compute_read_json E fs path (Some JNull)"
  define u where "u = updated_at_of E src now"
  define norm where "norm scope = compute_normalize_tier_scope E (Some scope) None (Some u)" for scope
  define sc where "sc = map_scopes norm (object_of (json_get src ''scopes''))"
  have l: "loaded_scopes E fs path v now = ensure_scope v (norm (legacy_scope E src u)) sc"
    by (simp add: loaded_scopes_def Let_def src_def [symmetric] u_def [symmetric] norm_def [abs_def] sc_def)
  have "\<exists>s. bt_get (loaded_scopes E fs path v now) v = Some (norm s)"
  proof (cases "bt_get sc v")
    case None
    then show ?thesis by (auto simp: l ensure_scope_def bt_get_insert)
  next
    case (Some x)
    then show ?thesis using map_scopes_some [of norm _ v x]
      by (auto simp: l ensure_scope_def bt_get_insert sc_def split: json.splits)
  qed
  then show thesis using that normalized_scope_object unfolding norm_def by metis
qed

lemma get_scope_present:
  assumes "policy_version_of (Some v) = v" and "bt_get scopes v = Some (JObj ob)" and "bt_get st ''scopes'' = Some (JObj scopes)"
  shows "compute_get_tier_scope E (Some (JObj st)) (Some v) = (JObj (bt_insert ''scopes'' (JObj scopes) st), JObj ob)"
  using assms by (simp add: compute_get_tier_scope_def Let_def lock_simps unwrap_or_def)

lemma tier_document_get:
  obtains st where "tier_document v u scopes = JObj st" "bt_get st ''scopes'' = Some (JObj scopes)" "bt_get st ''active_policy_version'' = Some (JStr v)"
proof -
  obtain st where st: "tier_document v u scopes = JObj st" by (simp add: tier_document_def json_object_def)
  have "json_get (tier_document v u scopes) ''scopes'' = Some (JObj scopes)" "json_get (tier_document v u scopes) ''active_policy_version'' = Some (JStr v)"
    by (simp_all add: tier_document_def json_get_object)
  then show thesis using that st by simp
qed

lemma load_and_get:
  assumes "policy_version_of (Some v) = v"
  obtains st scope where
    "compute_get_tier_scope E (Some (compute_load_tier_governance_state E fs path (Some v) (Some now))) (Some v) = (JObj st, scope)"
    "bt_get st ''scopes'' = Some (JObj (loaded_scopes E fs path v now))" "bt_get (loaded_scopes E fs path v now) v = Some scope"
    "stored_scope E fs path v now = scope" "\<exists>s u. scope = compute_normalize_tier_scope E (Some s) None (Some u)" "\<exists>ob. scope = JObj ob"
proof -
  let ?L = "loaded_scopes E fs path v now"
  obtain s u ob where s: "bt_get ?L v = Some (compute_normalize_tier_scope E (Some s) None (Some u))"
    and ob: "compute_normalize_tier_scope E (Some s) None (Some u) = JObj ob" by (rule loaded_scope)
  define up where "up = updated_at_of E (compute_read_json E fs path (Some JNull)) now"
  obtain st0 where st0: "tier_document v up ?L = JObj st0" "bt_get st0 ''scopes'' = Some (JObj ?L)" by (rule tier_document_get)
  have e: "compute_load_tier_governance_state E fs path (Some v) (Some now) =
      with_active_scope (compute_get_tier_scope E (Some (tier_document v up ?L)) (Some v))"
    by (simp add: compute_load_tier_governance_state_def Let_def assms up_def loaded_scopes_def unwrap_or_def)
  have g: "bt_get ?L v = Some (JObj ob)" using s ob by simp
  define st1 where "st1 = bt_insert ''active_scope'' (JObj ob) (bt_insert ''scopes'' (JObj ?L) st0)"
  have l: "compute_load_tier_governance_state E fs path (Some v) (Some now) = JObj st1"
    unfolding e st0(1) get_scope_present [OF assms g st0(2)] by (simp add: with_active_scope_def lock_simps st1_def)
  have s1: "bt_get st1 ''scopes'' = Some (JObj ?L)" by (simp add: st1_def bt_get_insert)
  have get: "compute_get_tier_scope E (Some (compute_load_tier_governance_state E fs path (Some v) (Some now))) (Some v) =
      (JObj (bt_insert ''scopes'' (JObj ?L) st1), JObj ob)"
    unfolding l by (rule get_scope_present [OF assms g s1])
  have ex: "\<exists>s u. JObj ob = compute_normalize_tier_scope E (Some s) None (Some u)" using ob by metis
  show thesis
    by (rule that [OF get _ g _ ex]) (simp_all add: get bt_get_insert stored_scope_def)
qed

lemma stored_rows:
  assumes "policy_version_of (Some v) = v" and "m \<in> set tier_metrics" and "t \<in> set tier_targets"
  shows "rows_at (stored_scope E fs path v now) m t = map JStr (tier_events E fs path v now m t)"
    and "ordered_events E (tier_events E fs path v now m t)"
proof -
  let ?s = "stored_scope E fs path v now"
  obtain s u where "?s = compute_normalize_tier_scope E (Some s) None (Some u)" using load_and_get [OF assms(1)] by metis
  then have r: "rows_at ?s m t = map JStr (norm_events E (rows_at s m t))"
    using normalized_rows [OF assms(2,3)] by (simp add: compute_normalize_tier_scope_def unwrap_or_def)
  then have "tier_events E fs path v now m t = norm_events E (rows_at s m t)"
    by (simp add: tier_events_def array_to_string_rows_def rows_at_def comp_def value_to_string_def)
  then show "rows_at ?s m t = map JStr (tier_events E fs path v now m t)" "ordered_events E (tier_events E fs path v now m t)"
    using r norm_events_ordered by simp_all
qed

lemma pushed_rows:
  assumes "scope = JObj ob" and "m \<in> set tier_metrics" and "t \<in> set tier_targets" and "metric \<in> set tier_metrics"
  shows "rows_at (json_set metric (compute_push_tier_event E (Some (unwrap_or (json_get scope metric) default_tier_event_map_value)) target (Some ts)) scope) m t =
    (if m = metric \<and> t = compute_normalize_target target
     then map JStr (norm_events E (rows_at scope m t @ [JStr ts])) else rows_at scope m t)"
proof -
  let ?d = "unwrap_or (json_get scope metric) default_tier_event_map_value"
  have d: "array_rows (bt_get (object_of (Some ?d)) t) = rows_at scope metric t" for t
  proof (cases "json_get scope metric")
    case None
    then have "bt_get (object_of (Some ?d)) t = json_get default_tier_event_map_value t"
      by (simp add: unwrap_or_def default_tier_event_map_value_def json_object_def object_of_def)
    moreover have "array_rows (json_get default_tier_event_map_value t) = []" by (simp add: default_tier_event_map_value_def json_get_object)
    ultimately show ?thesis using None by (simp add: rows_at_def tier_simps)
  next
    case (Some v)
    then show ?thesis by (cases v) (simp_all add: unwrap_or_def rows_at_def tier_simps object_of_def)
  qed
  let ?p = "compute_push_tier_event E (Some ?d) target (Some ts)"
  have p: "array_rows (json_get ?p t) =
      (if t = compute_normalize_target target then map JStr (norm_events E (rows_at scope metric t @ [JStr ts])) else rows_at scope metric t)"
    by (simp add: compute_push_tier_event_def Let_def bt_get_insert d unwrap_or_def [of "Some ts"])
  have o': "json_get (json_set metric ?p scope) m = (if m = metric then Some ?p else json_get scope m)"
    by (simp add: assms(1) bt_get_insert)
  have "rows_at (json_set metric ?p scope) m t = (if m = metric then array_rows (json_get ?p t) else rows_at scope m t)"
    unfolding rows_at_def o' by (simp add: tier_simps)
  then show ?thesis unfolding p by simp
qed

section \<open>Adding an event\<close>

text \<open>The specification: a table of event lists by metric and target. Adding an event inserts its time in the list of
  its metric and target and drops from every list what is older than the retention. Inserting drops the oldest
  event when the list holds 10000, then puts the trimmed time after the events that are not later, unless it is
  there already; a text that is no time changes nothing.\<close>

definition insert_event :: "inv_env \<Rightarrow> string \<Rightarrow> string list \<Rightarrow> string list" where
  "insert_event E ts xs =
     (let t = trim ts; ys = (if length xs < 10000 then xs else tl xs);
          earlier = (\<lambda>e. parse_ts_ms_runtime E e \<le> parse_ts_ms_runtime E t)
      in if parse_ts_ms_runtime E t \<le> 0 then xs
         else if t \<in> set ys then ys
         else takeWhile earlier ys @ t # dropWhile earlier ys)"

lemma norm_events_snoc:
  assumes "ordered_events E xs"
  shows "norm_events E (map JStr xs @ [JStr ts]) = insert_event E ts xs"
proof -
  let ?f = "parse_ts_ms_runtime E" and ?t = "trim ts"
  let ?ys = "if length xs < 10000 then xs else tl xs" and ?le = "\<lambda>e. parse_ts_ms_runtime E e \<le> parse_ts_ms_runtime E (trim ts)"
  have x: "sorted (map ?f xs)" "distinct xs" "length xs \<le> 10000" using assms by (simp_all add: ordered_events_def)
  have rows: "map (\<lambda>row. trim (env_str E (Some row))) (map JStr xs @ [JStr ts]) = xs @ [?t]"
    using assms by (auto simp: ordered_events_def list_all_iff value_to_string_def intro: map_idI)
  have keep: "filter (\<lambda>row. 0 < ?f row) xs = xs"
    using assms by (auto simp: ordered_events_def list_all_iff filter_id_conv)
  show ?thesis
  proof (cases "0 < ?f ?t")
    case False
    then show ?thesis
      using x unfolding compute_normalize_iso_events_def rows Let_def
      by (simp add: keep unwrap_or_def clamp_def sort_key_id_if_sorted keep_first_id insert_event_def)
  next
    case True
    have cut: "(if length (xs @ [?t]) > 10000 then drop (length (xs @ [?t]) - 10000) (xs @ [?t]) else xs @ [?t]) = ?ys @ [?t]"
    proof (cases "length xs < 10000")
      case False
      then have len: "length xs = 10000" using x(3) by simp
      then obtain a list where "xs = a # list" by (cases xs) auto
      then show ?thesis using len by simp
    qed simp
    have y: "sorted (map ?f ?ys)" "distinct ?ys" using x by (simp_all add: map_tl sorted_tl distinct_tl)
    have "keep_first [] (sort_key ?f (?ys @ [?t])) =
        (if ?t \<in> set ?ys then ?ys else takeWhile ?le ?ys @ ?t # dropWhile ?le ?ys)"
    proof (cases "?t \<in> set ?ys")
      case True
      then have "?t \<in> set (takeWhile ?le ?ys)"
        by (rule in_takeWhile_sorted [OF y(1)])
      then show ?thesis
        using True y(2) keep_first_again [of "takeWhile ?le ?ys" "dropWhile ?le ?ys" ?t] sort_key_snoc [OF y(1), of ?t] by simp
    next
      case False
      then have "distinct (takeWhile ?le ?ys @ ?t # dropWhile ?le ?ys)"
        using y(2) takeWhile_dropWhile_id [of ?le ?ys] distinct_append [of "takeWhile ?le ?ys" "dropWhile ?le ?ys"]
        by (auto dest: set_takeWhileD set_dropWhileD)
      then show ?thesis using False keep_first_id [of "[]"] sort_key_snoc [OF y(1), of ?t] by simp
    qed
    moreover have "norm_events E (map JStr xs @ [JStr ts]) = keep_first [] (sort_key ?f (?ys @ [?t]))"
    proof -
      have all: "filter (\<lambda>row. 0 < ?f row) (xs @ [?t]) = xs @ [?t]" using keep True by simp
      have max: "nat (clamp 1 100000 (unwrap_or (Some 10000) 10000)) = 10000" by (simp add: unwrap_or_def clamp_def)
      show ?thesis unfolding compute_normalize_iso_events_def rows Let_def all max cut ..
    qed
    ultimately show ?thesis using True by (simp add: insert_event_def Let_def)
  qed
qed

lemma insert_event_ordered: "ordered_events E xs \<Longrightarrow> ordered_events E (insert_event E ts xs)"
  using norm_events_ordered [of E "map JStr xs @ [JStr ts]"] by (simp add: norm_events_snoc)

definition add_to_table ::
  "inv_env \<Rightarrow> int \<Rightarrow> string \<Rightarrow> string \<Rightarrow> string \<Rightarrow> (string \<Rightarrow> string \<Rightarrow> string list) \<Rightarrow> string \<Rightarrow> string \<Rightarrow> string list" where
  "add_to_table E cutoff metric target ts table m t =
     recent E cutoff (if m = metric \<and> t = target then insert_event E ts (table m t) else table m t)"

lemma clean_metric: "metric \<in> set tier_metrics \<Longrightarrow> clean_text_runtime metric 80 = metric"
proof -
  have "list_all (\<lambda>m. clean_text_runtime m 80 = m) tier_metrics" by code_simp
  then show "metric \<in> set tier_metrics \<Longrightarrow> clean_text_runtime metric 80 = metric" by (simp add: list_all_iff)
qed

lemma state_with_event_scope:
  assumes v: "policy_version_of (Some v) = v" and metric: "metric \<in> set tier_metrics"
  obtains st scopes scope where "state_with_event E fs path v (Some metric) target ts now = JObj st"
    "bt_get st ''scopes'' = Some (JObj scopes)" "bt_wf scopes" "bt_get scopes v = Some scope"
    "\<forall>m \<in> set tier_metrics. \<forall>t \<in> set tier_targets. rows_at scope m t =
       map JStr (if m = metric \<and> t = compute_normalize_target target then insert_event E ts (tier_events E fs path v now m t)
                 else tier_events E fs path v now m t)"
proof -
  obtain st scope where get:
    "compute_get_tier_scope E (Some (compute_load_tier_governance_state E fs path (Some v) (Some now))) (Some v) = (JObj st, scope)"
    "bt_get st ''scopes'' = Some (JObj (loaded_scopes E fs path v now))" "bt_get (loaded_scopes E fs path v now) v = Some scope"
    and stored: "stored_scope E fs path v now = scope"
    and "\<exists>s u. scope = compute_normalize_tier_scope E (Some s) None (Some u)" and ex: "\<exists>ob. scope = JObj ob"
    by (rule load_and_get [OF v])
  then obtain ob where ob: "scope = JObj ob" by blast
  define sc where "sc = json_set metric (compute_push_tier_event E
    (Some (unwrap_or (json_get scope metric) default_tier_event_map_value)) target (Some ts)) scope"
  have st': "state_with_event E fs path v (Some metric) target ts now =
      JObj (bt_insert ''scopes'' (JObj (bt_insert v sc (loaded_scopes E fs path v now))) st)"
    using metric by (simp add: state_with_event_def Let_def get clean_metric unwrap_or_def [of "Some metric"] sc_def lock_simps)
  have rows: "rows_at sc m t =
       map JStr (if m = metric \<and> t = compute_normalize_target target then insert_event E ts (tier_events E fs path v now m t)
                 else tier_events E fs path v now m t)" if "m \<in> set tier_metrics" "t \<in> set tier_targets" for m t
    using pushed_rows [OF ob that metric, of E target ts] stored_rows(1) [OF v that, of E fs path now]
      stored_rows(2) [OF v that, of E fs path now]
    by (auto simp: sc_def [symmetric] stored norm_events_snoc)
  have "bt_get (bt_insert ''scopes'' (JObj (bt_insert v sc (loaded_scopes E fs path v now))) st) ''scopes'' =
      Some (JObj (bt_insert v sc (loaded_scopes E fs path v now)))" "bt_get (bt_insert v sc (loaded_scopes E fs path v now)) v = Some sc"
    by (simp_all add: bt_get_insert)
  then show thesis using that [OF st' _ bt_wf_insert [OF loaded_scopes_wf]] rows by blast
qed

lemma saved_scope:
  assumes v: "policy_version_of (Some v) = v" and "bt_get st ''scopes'' = Some (JObj scopes)" and "bt_wf scopes"
    and "bt_get scopes v = Some scope"
  obtains ds where "saved_tier_document E (Some (JObj st)) (Some v) (Some days) now = tier_document v (unwrap_or now (iv_now_iso E)) ds"
    "bt_wf ds" "bt_get ds v = Some (compute_prune_tier_scope_events E (Some scope) (Some (clamp 1 3650 days)))"
proof -
  let ?prune = "\<lambda>scope. compute_prune_tier_scope_events E (Some scope) (Some (clamp 1 3650 days))"
  let ?m = "map_scopes ?prune scopes"
  have g: "bt_get ?m v = Some (?prune scope)" using assms(3,4) by (simp add: map_scopes_get)
  obtain ob where ob: "?prune scope = JObj ob"
    using pruned_rows(2) [of "''live_apply_attempts''" "''tactical''" E scope "clamp 1 3650 days"]
    by (simp add: tier_metrics_def tier_targets_def) blast
  then have e: "ensure_scope v x ?m = ?m" for x using g by (simp add: ensure_scope_def)
  have "saved_tier_document E (Some (JObj st)) (Some v) (Some days) now = tier_document v (unwrap_or now (iv_now_iso E)) ?m"
    by (simp add: saved_tier_document_def Let_def v unwrap_or_def [of "Some days"] tier_simps assms(2) lock_simps e)
  then show thesis using that g by simp
qed

text \<open>C12: Adding a governance event to the stored state refines the specification: read back from the file, the table
  of the policy version is the former table with the time of the event inserted for its metric and target after the
  events that are not later and at most once (the oldest of 10000 making room), and with the events older than the
  retention dropped; every other list keeps its recent events. The file must be writable and its decoder read back
  what was written.\<close>

theorem add_tier_event_refines:
  assumes path: "file_path_of path \<noteq> []" "iv_writable E (file_path_of path)"
    and version: "v = nonempty_or (policy_version_field policy) ''1.0''" "policy_version_of (Some v) = v"
    and metric: "metric \<in> set tier_metrics"
    and dec: "decodes E (saved_tier_document E (Some (state_with_event E fs path v (Some metric) target ts now)) (Some v)
      (Some (compute_tier_retention_days policy)) (Some now))"
    and add: "compute_add_tier_event E fs path policy (Some metric) target (Some ts) (Some now) = (fs', state)"
    and mt: "m \<in> set tier_metrics" "t \<in> set tier_targets"
  shows "tier_events E fs' path v now' m t =
    add_to_table E (retention_cutoff E (compute_tier_retention_days policy)) metric (compute_normalize_target target) ts
      (tier_events E fs path v now) m t"
proof -
  let ?days = "compute_tier_retention_days policy" and ?T = "tier_events E fs path v now"
  let ?new = "if m = metric \<and> t = compute_normalize_target target then insert_event E ts (?T m t) else ?T m t"
  obtain st scopes scope where st: "state_with_event E fs path v (Some metric) target ts now = JObj st"
    "bt_get st ''scopes'' = Some (JObj scopes)" "bt_wf scopes" "bt_get scopes v = Some scope"
    and all_rows: "\<forall>m \<in> set tier_metrics. \<forall>t \<in> set tier_targets. rows_at scope m t =
       map JStr (if m = metric \<and> t = compute_normalize_target target then insert_event E ts (?T m t) else ?T m t)"
    by (rule state_with_event_scope [OF version(2) metric, where E = E and fs = fs and path = path and target = target and ts = ts and now = now])
  note rows = bspec [OF bspec [OF all_rows mt(1)] mt(2)]
  obtain ds where doc: "saved_tier_document E (Some (JObj st)) (Some v) (Some ?days) (Some now) = tier_document v now ds"
    "bt_wf ds" "bt_get ds v = Some (compute_prune_tier_scope_events E (Some scope) (Some (clamp 1 3650 ?days)))"
    using saved_scope [OF version(2) st(2-4), of E ?days "Some now"] by (metis unwrap_or_def option.simps(5))
  have "fs' = compute_write_json_atomic E fs path (Some (tier_document v now ds))"
    using add st(1) doc(1) version(1) by (simp add: compute_add_tier_event_def compute_save_tier_governance_state_def Let_def unwrap_or_def)
  moreover have "tier_document v now ds \<noteq> JNull" by (simp add: tier_document_def json_object_def)
  moreover have "decodes E (tier_document v now ds)" using dec by (simp add: st(1) doc(1))
  ultimately have read: "compute_read_json E fs' path (Some JNull) = tier_document v now ds" using read_after_write [OF path] by simp
  obtain dd where dd: "tier_document v now ds = JObj dd" "bt_get dd ''scopes'' = Some (JObj ds)" by (rule tier_document_get)
  obtain s2 u where s2: "stored_scope E fs' path v now' = compute_normalize_tier_scope E
      (Some (compute_prune_tier_scope_events E (Some scope) (Some (clamp 1 3650 ?days)))) None (Some u)"
  proof -
    have sc: "bt_get (loaded_scopes E fs' path v now') v = Some (stored_scope E fs' path v now')"
      by (rule load_and_get [OF version(2), of E fs' path now']) simp
    define norm where "norm s = compute_normalize_tier_scope E (Some s) None (Some (updated_at_of E (tier_document v now ds) now'))" for s
    have "bt_get (map_scopes norm ds) v = Some (norm (compute_prune_tier_scope_events E (Some scope) (Some (clamp 1 3650 ?days))))"
      using doc(2,3) by (simp add: map_scopes_get)
    moreover obtain ob where "norm (compute_prune_tier_scope_events E (Some scope) (Some (clamp 1 3650 ?days))) = JObj ob"
      using normalized_scope_object unfolding norm_def by blast
    ultimately have "bt_get (loaded_scopes E fs' path v now') v = Some (norm (compute_prune_tier_scope_events E (Some scope) (Some (clamp 1 3650 ?days))))"
      using dd by (simp add: loaded_scopes_def Let_def read norm_def [abs_def] ensure_scope_def lock_simps)
    then show thesis using that sc unfolding norm_def by simp
  qed
  have cut: "retention_cutoff E (clamp 1 3650 ?days) = retention_cutoff E ?days" by (simp add: retention_cutoff_def clamp_def)
  have ord: "ordered_events E ?new" using stored_rows(2) [OF version(2) mt] insert_event_ordered by (auto split: if_splits)
  have "rows_at (stored_scope E fs' path v now') m t = map JStr (norm_events E (map JStr (recent E (retention_cutoff E ?days) ?new)))"
    unfolding s2 compute_normalize_tier_scope_def normalized_rows [OF mt] pruned_rows(1) [OF mt] cut rows norm_events_id [OF ord] ..
  also have "\<dots> = map JStr (recent E (retention_cutoff E ?days) ?new)"
    using norm_events_id [OF ordered_events_filter [OF ord]] by (simp add: recent_def)
  finally have "map JStr (tier_events E fs' path v now' m t) = map JStr (recent E (retention_cutoff E ?days) ?new)"
    using stored_rows(1) [OF version(2) mt] by simp
  then have "tier_events E fs' path v now' m t = recent E (retention_cutoff E ?days) ?new"
    by (rule map_injective) (simp add: inj_def)
  then show ?thesis by (simp add: add_to_table_def)
qed

text \<open>What a count reads from the stored scope.\<close>

lemma count_stored_events:
  assumes "policy_version_of (Some v) = v" and "m \<in> set tier_metrics" and "t \<in> set tier_targets"
  shows "compute_count_tier_events E (Some (stored_scope E fs path v now)) (Some m) (Some t) (Some days) =
    int (length (recent E (retention_cutoff E days) (tier_events E fs path v now m t)))"
proof -
  let ?s = "stored_scope E fs path v now"
  obtain s u where "?s = compute_normalize_tier_scope E (Some s) None (Some u)" using load_and_get [OF assms(1)] by metis
  then obtain mv where mv: "json_get ?s m = Some mv"
    using assms(2) by (simp add: compute_normalize_tier_scope_def normalize_tier_scope_value_def Let_def tier_simps)
  have "array_rows (json_get mv t) = map JStr (tier_events E fs path v now m t)"
    using stored_rows(1) [OF assms, of E fs path now] by (simp add: rows_at_def mv tier_simps)
  then show ?thesis
    by (simp add: compute_count_tier_events_def Let_def unwrap_or_def clean_metric [OF assms(2)] target_words [OF assms(3)] tier_simps mv
        retention_cutoff_def recent_def filter_map comp_def value_to_string_def)
qed

text \<open>A document without scopes is read through its old counters; without a file there are no events.\<close>

lemma legacy_stored:
  assumes "policy_version_of (Some v) = v" and "compute_read_json E fs path (Some JNull) = src" and "json_get src ''scopes'' = None"
    and "updated_at_of E src now = u"
  shows "stored_scope E fs path v now = compute_normalize_tier_scope E (Some (legacy_scope E src u)) None (Some u)"
proof -
  have "bt_get (loaded_scopes E fs path v now) v = Some (stored_scope E fs path v now)"
    by (rule load_and_get [OF assms(1), of E fs path now]) simp
  then show ?thesis by (simp add: loaded_scopes_def Let_def assms lock_simps map_scopes_def ensure_scope_def)
qed

lemma no_file_read: "compute_read_json E (\<lambda>_. None) path (Some d) = d"
  by (simp add: compute_read_json_def Let_def unwrap_or_def)

lemma no_file_events:
  assumes "policy_version_of (Some v) = v" and "m \<in> set tier_metrics" and "t \<in> set tier_targets"
  shows "tier_events E (\<lambda>_. None) path v now m t = []"
proof -
  define u where "u = updated_at_of E JNull now"
  define lg where "lg = json_object (map (\<lambda>k. (k, unwrap_or (json_get JNull k) (JObj [])))
          [''live_apply_counts'', ''shadow_pass_counts'', ''live_apply_safe_aborts'', ''shadow_critical_failures''])"
  have l: "legacy_scope E JNull u = default_tier_scope_value E (Some lg) u"
    by (simp only: legacy_scope_def compute_default_tier_scope_def lg_def unwrap_or_def option.case)
  have "obj_get (legacy_counts_of (Some lg) m) t = None"
    using assms(2) by (auto simp: tier_metrics_def lg_def legacy_counts_of_def tier_simps json_get_object unwrap_or_def or_else_def)
  then have "rows_at (legacy_scope E JNull u) m t = []"
    using assms(2,3) by (simp add: l default_tier_scope_value_def rows_at_def tier_simps normalize_tier_event_map_value_def tier_rows_def
        Let_def default_map_rows array_to_string_rows_def)
  then have "rows_at (stored_scope E (\<lambda>_. None) path v now) m t = []"
    unfolding legacy_stored [OF assms(1) no_file_read json_get.simps(2) u_def [symmetric]] compute_normalize_tier_scope_def
      normalized_rows [OF assms(2,3)] by simp
  then show ?thesis using stored_rows(1) [OF assms, of E "\<lambda>_. None" path now] by simp
qed

section \<open>A stored event\<close>

definition sample_tier_base :: inv_env where
  "sample_tier_base = sample_inv_env\<lparr> iv_pretty := (\<lambda>v. ''doc''), iv_parse := (\<lambda>s. None),
     iv_time := (\<lambda>s. if s = ''now'' then Some 100 else None), iv_now_ms := 100 \<rparr>"

definition sample_tier_document :: "inv_env \<Rightarrow> json" where
  "sample_tier_document E = saved_tier_document E
     (Some (state_with_event E (\<lambda>_. None) (Some ''g'') ''1.0'' (Some ''shadow_passes'') (Some ''belief'') ''now'' ''now'')) (Some ''1.0'')
     (Some (compute_tier_retention_days None)) (Some ''now'')"

definition sample_tier_env :: inv_env where
  "sample_tier_env = sample_tier_base\<lparr> iv_parse := (\<lambda>s. if s = ''doc'' @ newline then Some (sample_tier_document sample_tier_base) else None) \<rparr>"

text \<open>Without a file the decoder plays no part.\<close>

lemma parse_time_decoder [simp]: "parse_ts_ms_runtime (E\<lparr> iv_parse := f \<rparr>) = parse_ts_ms_runtime E"
  by (simp add: parse_ts_ms_runtime_def fun_eq_iff)

lemma events_decoder [simp]:
  "compute_normalize_iso_events (E\<lparr> iv_parse := f \<rparr>) = compute_normalize_iso_events E"
  "compute_expand_legacy_count_to_events (E\<lparr> iv_parse := f \<rparr>) = compute_expand_legacy_count_to_events E"
  "prune_map (E\<lparr> iv_parse := f \<rparr>) = prune_map E"
  "updated_at_of (E\<lparr> iv_parse := f \<rparr>) = updated_at_of E"
  by (simp_all add: fun_eq_iff compute_normalize_iso_events_def compute_expand_legacy_count_to_events_def prune_map_def updated_at_of_def Let_def)

lemma rows_decoder [simp]: "tier_rows (E\<lparr> iv_parse := f \<rparr>) = tier_rows E"
  by (simp add: fun_eq_iff tier_rows_def Let_def)

lemma map_decoder [simp]: "normalize_tier_event_map_value (E\<lparr> iv_parse := f \<rparr>) = normalize_tier_event_map_value E"
  by (simp add: fun_eq_iff normalize_tier_event_map_value_def)

lemma default_scope_decoder [simp]: "default_tier_scope_value (E\<lparr> iv_parse := f \<rparr>) = default_tier_scope_value E"
  by (simp add: fun_eq_iff default_tier_scope_value_def)

lemma scope_decoder [simp]:
  "normalize_tier_scope_value (E\<lparr> iv_parse := f \<rparr>) = normalize_tier_scope_value E"
  "compute_default_tier_scope (E\<lparr> iv_parse := f \<rparr>) = compute_default_tier_scope E"
  "compute_push_tier_event (E\<lparr> iv_parse := f \<rparr>) = compute_push_tier_event E"
  by (simp_all add: fun_eq_iff normalize_tier_scope_value_def compute_default_tier_scope_def compute_push_tier_event_def Let_def)

lemma state_decoder [simp]:
  "compute_normalize_tier_scope (E\<lparr> iv_parse := f \<rparr>) = compute_normalize_tier_scope E"
  "compute_prune_tier_scope_events (E\<lparr> iv_parse := f \<rparr>) = compute_prune_tier_scope_events E"
  "compute_get_tier_scope (E\<lparr> iv_parse := f \<rparr>) = compute_get_tier_scope E"
  "legacy_scope (E\<lparr> iv_parse := f \<rparr>) = legacy_scope E"
  by (simp_all add: fun_eq_iff compute_normalize_tier_scope_def compute_prune_tier_scope_events_def compute_get_tier_scope_def legacy_scope_def Let_def)

lemma sample_tier_documents: "sample_tier_document sample_tier_env = sample_tier_document sample_tier_base"
  by (simp add: sample_tier_env_def sample_tier_document_def saved_tier_document_def state_with_event_def
      compute_load_tier_governance_state_def no_file_read Let_def cong del: if_weak_cong)

theorem add_tier_event_refines_witness:
  "tier_events sample_tier_env (fst (compute_add_tier_event sample_tier_env (\<lambda>_. None) (Some ''g'') None (Some ''shadow_passes'')
     (Some ''belief'') (Some ''now'') (Some ''now''))) (Some ''g'') ''1.0'' ''now'' ''shadow_passes'' ''belief'' = [''now'']"
proof -
  let ?E = sample_tier_env and ?fs = "\<lambda>_. None :: string option"
  have path: "file_path_of (Some ''g'') \<noteq> []" "iv_writable ?E (file_path_of (Some ''g''))" by code_simp+
  have version: "''1.0'' = nonempty_or (policy_version_field None) ''1.0''" "policy_version_of (Some ''1.0'') = ''1.0''" by code_simp+
  have metric: "''shadow_passes'' \<in> set tier_metrics" "''belief'' \<in> set tier_targets" by (simp_all add: tier_metrics_def tier_targets_def)
  have dec: "decodes ?E (saved_tier_document ?E (Some (state_with_event ?E ?fs (Some ''g'') ''1.0'' (Some ''shadow_passes'') (Some ''belief'') ''now'' ''now''))
      (Some ''1.0'') (Some (compute_tier_retention_days None)) (Some ''now''))"
    using sample_tier_documents unfolding sample_tier_document_def [of ?E] by (simp add: decodes_def sample_tier_env_def sample_tier_base_def)
  have t: "add_to_table ?E (retention_cutoff ?E (compute_tier_retention_days None)) ''shadow_passes'' (compute_normalize_target (Some ''belief'')) ''now''
      (tier_events ?E ?fs (Some ''g'') ''1.0'' ''now'') ''shadow_passes'' ''belief'' = [''now'']"
    unfolding add_to_table_def no_file_events [OF version(2) metric] by code_simp
  show ?thesis
    using add_tier_event_refines [OF path version metric(1) dec surjective_pairing metric, where now' = "''now''"] unfolding t .
qed

text \<open>A count in the old format becomes that many equal times; the same load then drops the equal ones, so any number
  of old attempts is read as one. Two events of the same millisecond are one event for the same reason.\<close>

lemma keep_first_replicate: "u \<in> set d \<Longrightarrow> keep_first d (replicate n u) = d"
  by (induction n) auto

lemma norm_events_replicate:
  assumes "trim u = u" and "0 < parse_ts_ms_runtime E u" and "0 < n" and "n \<le> 10000"
  shows "norm_events E (map JStr (replicate n u)) = [u]"
proof -
  have "env_str E (Some (JStr u)) = u" by (simp add: value_to_string_def)
  moreover have "filter (\<lambda>row. 0 < parse_ts_ms_runtime E row) (replicate n u) = replicate n u" using assms(2) by simp
  moreover have "sort_key (parse_ts_ms_runtime E) (replicate n u) = replicate n u" by (rule sort_key_id_if_sorted) simp
  moreover have "keep_first [] (replicate n u) = [u]" using assms(3) by (cases n) (simp_all add: keep_first_replicate)
  ultimately show ?thesis using assms(1,4) by (simp add: compute_normalize_iso_events_def Let_def unwrap_or_def clamp_def)
qed

lemma legacy_counts_collapse:
  assumes v: "policy_version_of (Some v) = v" and t: "t \<in> set tier_targets"
    and src: "compute_read_json E fs path (Some JNull) = src" "json_get src ''scopes'' = None" "json_get src ''live_apply_counts'' = Some counts"
    and n: "0 < clamp_int_value (json_get counts t) 0 4096 0"
    and u: "updated_at_of E src now = u" "trim u = u" "0 < parse_ts_ms_runtime E u"
  shows "tier_events E fs path v now ''live_apply_attempts'' t = [u]"
proof -
  let ?m = "''live_apply_attempts''" and ?k = "nat (clamp_int_value (json_get counts t) 0 4096 0)"
  have m: "?m \<in> set tier_metrics" by (simp add: tier_metrics_def)
  have le: "?k \<le> 10000" by (auto simp: clamp_int_value_def clamp_def)
  note stored = legacy_stored [OF v src(1,2) u(1)]
  define lg where "lg = json_object (map (\<lambda>k. (k, unwrap_or (json_get src k) (JObj [])))
          [''live_apply_counts'', ''shadow_pass_counts'', ''live_apply_safe_aborts'', ''shadow_critical_failures''])"
  have l: "legacy_scope E src u = default_tier_scope_value E (Some lg) u"
    by (simp only: legacy_scope_def compute_default_tier_scope_def lg_def unwrap_or_def option.case)
  have c: "legacy_counts_of (Some lg) ?m = Some counts"
    by (simp add: lg_def legacy_counts_of_def tier_simps json_get_object src(3) unwrap_or_def or_else_def)
  have "clamp_int_value None 0 4096 0 = 0" by code_simp
  then have "json_get counts t \<noteq> None" using n by (metis less_irrefl)
  then have "rows_at (legacy_scope E src u) ?m t = map JStr (replicate ?k u)"
    using n m t by (auto simp: l default_tier_scope_value_def c rows_at_def unwrap_or_def tier_simps
        normalize_tier_event_map_value_def tier_rows_def Let_def compute_expand_legacy_count_to_events_def)
  then have "rows_at (stored_scope E fs path v now) ?m t = map JStr [u]"
    unfolding stored compute_normalize_tier_scope_def normalized_rows [OF m t] using norm_events_replicate [OF u(2,3) _ le] n by simp
  then show ?thesis using stored_rows(1) [OF v m t, of E fs path now] by auto
qed

lemma same_time_counts_once: "insert_event sample_tier_env ''now'' [''now''] = [''now'']"
  by code_simp

text \<open>An unknown band ranks with the highest.\<close>

lemma unknown_band_is_highest: "compute_band_to_index (Some ''expert'') = compute_band_to_index (Some ''legendary'')"
  by code_simp

text \<open>A lock whose band is null ranks highest when it is merged, and the merged lock then takes the lowest band.\<close>

lemma null_band_lowers: "merged_lock_band sample_inv_env (Some (JStr ''mature'')) (Some [(''maturity_band'', JNull)]) = ''novice''"
  by code_simp

end
