(* ===== verification/Inversion_Axioms.thy ===== *)
theory Inversion_Axioms
  imports Inversion_Stores Regex_Search
begin

text \<open>
  The gate on immutable axioms of the inversion engine (\<^verbatim>\<open>core/layer2/execution/src/inversion.rs\<close>): the axioms of the
  policy in normal form, phrases found in the text of a decision, groups of signal terms, and the ids of the
  axioms a decision violates. The flags of the conclave and the suite of the harness follow.

  The code escapes the words of a phrase and compiles the result with the crate \<^verbatim>\<open>regex\<close>; the model builds the pattern
  itself. The rules of an axiom are expressions of the operator: \<open>re_match rule text\<close> stands for compiling and
  matching them, \<open>None\<close> for a rule that does not compile.
\<close>

section \<open>Phrases\<close>

fun rs_phrase :: "string list \<Rightarrow> rs" where
  "rs_phrase [] = RsEps"
| "rs_phrase [w] = rs_text w"
| "rs_phrase (w # v # ws) = RsSeq (rs_text w) (RsSeq (rs_plus (RsClass is_ws)) (rs_phrase (v # ws)))"

definition compute_pattern_to_word_regex :: "string option \<Rightarrow> int option \<Rightarrow> rs option" where
  "compute_pattern_to_word_regex pattern max_len0 =
     (let raw = clean_text_runtime (unwrap_or pattern []) (nat (clamp 1 10000 (unwrap_or max_len0 200)));
          words = split_whitespace raw
      in if raw = [] \<or> words = [] then None else Some (rs_bounded (rs_phrase words)))"

definition compute_has_signal_term_match :: "string \<Rightarrow> string list \<Rightarrow> string option \<Rightarrow> bool" where
  "compute_has_signal_term_match haystack token_set term0 =
     (let term1 = to_ascii_lowercase (clean_text_runtime (unwrap_or term0 []) 200); parts = split_whitespace term1
      in if term1 = [] \<or> parts = [] then False
         else if rs_is_match (rs_bounded (rs_phrase parts)) haystack then True
         else if length parts = 1 then hd parts \<in> set token_set
         else list_all (\<lambda>part. part \<in> set token_set) parts)"

record signal_groups =
  sg_configured_groups :: int
  sg_matched_groups :: int
  sg_required_groups :: int
  sg_pass :: bool

definition group_terms :: "string list \<Rightarrow> string list" where
  "group_terms rows = take 32 (filter (\<lambda>row. row \<noteq> []) (map (\<lambda>row. to_ascii_lowercase (clean_text_runtime row 200)) rows))"

definition compute_count_axiom_signal_groups ::
  "string list \<Rightarrow> string list \<Rightarrow> string list \<Rightarrow> int option \<Rightarrow> string \<Rightarrow> string list \<Rightarrow> signal_groups" where
  "compute_count_axiom_signal_groups action_terms subject_terms object_terms min_signal_groups haystack token_set =
     (let groups = [group_terms action_terms, group_terms subject_terms, group_terms object_terms];
          configured = int (length (filter (\<lambda>terms. terms \<noteq> []) groups));
          matched = int (length (filter (\<lambda>terms. terms \<noteq> [] \<and>
            list_ex (\<lambda>t. compute_has_signal_term_match haystack token_set (Some t)) terms) groups));
          required = clamp 0 3 (unwrap_or min_signal_groups configured)
      in \<lparr> sg_configured_groups = configured, sg_matched_groups = matched, sg_required_groups = required,
           sg_pass = (matched \<ge> required) \<rparr>)"

section \<open>Axioms in normal form\<close>

definition text_rows :: "libs \<Rightarrow> (string \<Rightarrow> string) \<Rightarrow> nat \<Rightarrow> nat \<Rightarrow> json option \<Rightarrow> string list" where
  "text_rows L f max_len max_items v =
     take max_items (filter (\<lambda>x. x \<noteq> []) (map (\<lambda>x. f (clean_text_runtime (value_to_string L (Some x)) max_len)) (array_rows v)))"

definition axiom_tags :: "libs \<Rightarrow> json option \<Rightarrow> string list" where
  "axiom_tags L v = take 24 (compute_normalize_list L v (Some 80))"

definition normalize_axiom :: "libs \<Rightarrow> json \<Rightarrow> json option" where
  "normalize_axiom L row =
     (let item = json_get row;
          id0 = normalize_token_runtime (value_to_string L (item ''id'')) 80;
          patterns = text_rows L to_ascii_lowercase 140 20 (item ''patterns'');
          regex = text_rows L (\<lambda>x. x) 220 20 (item ''regex'');
          intent_tags = axiom_tags L (item ''intent_tags'');
          terms = (\<lambda>k. text_rows L to_ascii_lowercase 80 24 (obj_get (item ''signals'') k));
          default_groups = int (length (filter (\<lambda>k. terms k \<noteq> []) [''action_terms'', ''subject_terms'', ''object_terms'']));
          min_signal_groups = clamp 0 3 (f64_as_i64 (f64_floor
            (unwrap_or (parse_number_like (item ''min_signal_groups'')) (f64_of_int default_groups))));
          semantic = (\<lambda>k. axiom_tags L (obj_get (item ''semantic_requirements'') k));
          has_semantic_requirements = (semantic ''actions'' \<noteq> [] \<or> semantic ''subjects'' \<noteq> [] \<or> semantic ''objects'' \<noteq> [])
      in if id0 = [] \<or> (patterns = [] \<and> regex = [] \<and> intent_tags = [] \<and> \<not> has_semantic_requirements) then None
         else Some (json_object [(''id'', JStr id0), (''patterns'', json_str_list patterns), (''regex'', json_str_list regex),
           (''intent_tags'', json_str_list intent_tags),
           (''signals'', json_object [(''action_terms'', json_str_list (terms ''action_terms'')),
              (''subject_terms'', json_str_list (terms ''subject_terms'')),
              (''object_terms'', json_str_list (terms ''object_terms''))]),
           (''min_signal_groups'', JInt min_signal_groups),
           (''semantic_requirements'', json_object [(''actions'', json_str_list (semantic ''actions'')),
              (''subjects'', json_str_list (semantic ''subjects'')), (''objects'', json_str_list (semantic ''objects''))])]))"

definition compute_normalize_axiom_list :: "libs \<Rightarrow> json option \<Rightarrow> json option \<Rightarrow> json list" where
  "compute_normalize_axiom_list L raw_axioms base_axioms =
     (let src = array_rows raw_axioms; rows = (if src = [] then array_rows base_axioms else src)
      in List.map_filter (normalize_axiom L) rows)"

section \<open>The gate\<close>

definition decision_haystack :: "libs \<Rightarrow> json option \<Rightarrow> string" where
  "decision_haystack L decision =
     (let objective = clean_text_runtime (value_to_string L (obj_get decision ''objective'')) 500;
          signature = clean_text_runtime (value_to_string L (obj_get decision ''signature'')) 500;
          filters = filter (\<lambda>row. row \<noteq> [])
            (map (\<lambda>row. clean_text_runtime (value_to_string L (Some row)) 120) (array_rows (obj_get decision ''filters'')))
      in clean_text_runtime (to_ascii_lowercase (join '' '' [objective, signature, join '' '' filters])) 2400)"

definition axiom_patterns :: "libs \<Rightarrow> json \<Rightarrow> string list" where
  "axiom_patterns L axiom0 = filter (\<lambda>row. row \<noteq> [])
     (map (\<lambda>row. compute_normalize_axiom_pattern (Some (value_to_string L (Some row)))) (array_rows (json_get axiom0 ''patterns'')))"

definition pattern_hits :: "string \<Rightarrow> string \<Rightarrow> bool" where
  "pattern_hits haystack pattern =
     (case compute_pattern_to_word_regex (Some pattern) (Some 220) of None \<Rightarrow> False | Some re \<Rightarrow> rs_is_match re haystack)"

definition axiom_rules :: "libs \<Rightarrow> json \<Rightarrow> string list" where
  "axiom_rules L axiom0 = filter (\<lambda>row. row \<noteq> [])
     (map (\<lambda>row. clean_text_runtime (value_to_string L (Some row)) 220) (array_rows (json_get axiom0 ''regex'')))"

definition tags_of :: "libs \<Rightarrow> json option \<Rightarrow> string list" where
  "tags_of L v = compute_normalize_list L (Some (unwrap_or v (JArr []))) (Some 80)"

definition axiom_signals :: "libs \<Rightarrow> string \<Rightarrow> string list \<Rightarrow> json \<Rightarrow> signal_groups" where
  "axiom_signals L haystack token_set axiom0 =
     (let terms = (\<lambda>k. compute_normalize_axiom_signal_terms L (array_rows (obj_get (json_get axiom0 ''signals'') k)))
      in compute_count_axiom_signal_groups (terms ''action_terms'') (terms ''subject_terms'') (terms ''object_terms'')
           (Option.bind (json_get axiom0 ''min_signal_groups'') as_i64) haystack token_set)"

definition axiom_hit ::
  "libs \<Rightarrow> (string \<Rightarrow> string \<Rightarrow> bool option) \<Rightarrow> string \<Rightarrow> string list \<Rightarrow> string list \<Rightarrow> json \<Rightarrow> string option" where
  "axiom_hit L re_match haystack token_set intent_tags axiom0 =
     (let id0 = compute_normalize_token (Some (value_to_string L (json_get axiom0 ''id''))) (Some 80);
          pattern_matched = list_ex (pattern_hits haystack) (axiom_patterns L axiom0);
          regex_matched = list_ex (\<lambda>rule. unwrap_or (re_match rule haystack) False) (axiom_rules L axiom0);
          tag_matched = list_ex (\<lambda>tag. tag \<in> set intent_tags) (tags_of L (json_get axiom0 ''intent_tags''));
          signal_groups = axiom_signals L haystack token_set axiom0;
          structured_signal_configured = (sg_configured_groups signal_groups > 0);
          structured_pattern_match = (pattern_matched \<and> (\<not> structured_signal_configured \<or> sg_pass signal_groups))
      in if \<not> json_is_object axiom0 \<or> id0 = [] then None
         else if tag_matched \<or> regex_matched \<or> structured_pattern_match then Some id0 else None)"

definition compute_detect_immutable_axiom_violation ::
  "libs \<Rightarrow> (string \<Rightarrow> string \<Rightarrow> bool option) \<Rightarrow> json option \<Rightarrow> json option \<Rightarrow> string list" where
  "compute_detect_immutable_axiom_violation L re_match policy decision =
     (let axioms_policy = value_path policy [''immutable_axioms''];
          rows = array_rows (obj_get axioms_policy ''axioms'');
          haystack = decision_haystack L decision;
          token_set = compute_tokenize_text (Some haystack) (Some 64);
          intent_tags = tags_of L (obj_get decision ''intent_tags'')
      in if \<not> to_bool_like L (obj_get axioms_policy ''enabled'') False \<or> rows = [] then []
         else remdups_adj (sort (List.map_filter (axiom_hit L re_match haystack token_set intent_tags) rows)))"


section \<open>A phrase is found where its text stands between word boundaries\<close>

definition occurs_bounded :: "string \<Rightarrow> string \<Rightarrow> bool" where
  "occurs_bounded t s =
     (\<exists>pre post. s = pre @ t @ post \<and> at_boundary s (length pre) \<and> at_boundary s (length pre + length t))"

text \<open>White space of a cleaned text is a single blank.\<close>

definition single_blanks :: "string \<Rightarrow> bool" where
  "single_blanks s = (\<forall>i < length s. is_ws (s ! i) \<longrightarrow> s ! i = CHR '' '' \<and> (Suc i < length s \<longrightarrow> \<not> is_ws (s ! Suc i)))"

definition phrase_of :: "string \<Rightarrow> string" where
  "phrase_of p = join '' '' (split_whitespace p)"

lemma rs_match_text: "rs_match s (rs_text w) i j \<longleftrightarrow> j = i + length w \<and> take (length w) (drop i s) = w"
proof (induction w arbitrary: i)
  case (Cons c w)
  have "rs_match s (rs_text (c # w)) i j \<longleftrightarrow> i < length s \<and> s ! i = c \<and> rs_match s (rs_text w) (i + 1) j"
    by (auto simp: rs_match_simps)
  also have "\<dots> \<longleftrightarrow> j = i + length (c # w) \<and> take (length (c # w)) (drop i s) = c # w"
  proof (cases "i < length s")
    case True
    then show ?thesis using Cons.IH [of "i + 1"] by (auto simp: Cons_nth_drop_Suc [symmetric])
  qed simp
  finally show ?case .
qed (auto simp: rs_match_simps)

lemma rs_match_star_class:
  "rs_match s r i k \<Longrightarrow> r = RsStar (RsClass p) \<Longrightarrow> i < k \<Longrightarrow> i < length s \<and> p (s ! i)"
  by (induction rule: rs_match.induct) (auto simp: rs_match_simps)

lemma rs_match_blank:
  assumes "single_blanks s"
  shows "rs_match s (rs_plus (RsClass is_ws)) i j \<longleftrightarrow> j = i + 1 \<and> i < length s \<and> s ! i = CHR '' ''"
proof
  assume "rs_match s (rs_plus (RsClass is_ws)) i j"
  then have i: "i < length s" "is_ws (s ! i)" and r: "rs_match s (RsStar (RsClass is_ws)) (i + 1) j"
    by (auto simp: rs_plus_def rs_match_simps)
  have "\<not> i + 1 < j" using rs_match_star_class [OF r refl] assms i by (auto simp: single_blanks_def)
  then show "j = i + 1 \<and> i < length s \<and> s ! i = CHR '' ''"
    using rs_match_mono [OF r] assms i by (auto simp: single_blanks_def)
next
  assume "j = i + 1 \<and> i < length s \<and> s ! i = CHR '' ''"
  then show "rs_match s (rs_plus (RsClass is_ws)) i j"
    by (auto simp: rs_plus_def intro!: m_seq [OF m_class] m_star)
qed

lemma take_drop_append: "take (length (u @ v)) (drop i s) = u @ v \<longleftrightarrow>
    take (length u) (drop i s) = u \<and> take (length v) (drop (i + length u) s) = v"
  (is "?L \<longleftrightarrow> ?R")
proof -
  have e: "take (length (u @ v)) (drop i s) = take (length u) (drop i s) @ take (length v) (drop (i + length u) s)"
    by (simp add: take_add add.commute)
  show ?thesis
  proof
    assume ?L
    then have "length (take (length (u @ v)) (drop i s)) = length (u @ v)" by (rule arg_cong)
    then have "length (take (length u) (drop i s)) = length u" by simp
    then show ?R using \<open>?L\<close> unfolding e by (simp add: append_eq_append_conv)
  next
    assume ?R
    then show ?L unfolding e by simp
  qed
qed

lemma rs_match_phrase:
  assumes "single_blanks s"
  shows "rs_match s (rs_phrase ws) i j \<longleftrightarrow> j = i + length (join '' '' ws) \<and> take (length (join '' '' ws)) (drop i s) = join '' '' ws"
proof (induction ws arbitrary: i rule: rs_phrase.induct)
  case (3 w v ws)
  let ?t = "join '' '' (v # ws)"
  have "rs_match s (rs_phrase (w # v # ws)) i j \<longleftrightarrow> take (length w) (drop i s) = w \<and> i + length w < length s \<and>
      s ! (i + length w) = CHR '' '' \<and> rs_match s (rs_phrase (v # ws)) (i + length w + 1) j"
    by (auto simp: rs_match_simps rs_match_text rs_match_blank [OF assms])
  moreover have "(i + length w < length s \<and> s ! (i + length w) = CHR '' '' \<and> take (length ?t) (drop (i + length w + 1) s) = ?t) =
      (take (length (CHR '' '' # ?t)) (drop (i + length w) s) = CHR '' '' # ?t)"
    by (cases "i + length w < length s") (auto simp: Cons_nth_drop_Suc [symmetric])
  moreover have "join '' '' (w # v # ws) = w @ CHR '' '' # ?t" by simp
  ultimately show ?case using "3.IH" [of "i + length w + 1"] take_drop_append [of w "CHR '' '' # ?t" i s] by auto
qed (auto simp: rs_match_simps rs_match_text)

lemma phrase_is_match:
  assumes "single_blanks s"
  shows "rs_is_match (rs_bounded (rs_phrase ws)) s \<longleftrightarrow> occurs_bounded (join '' '' ws) s"
proof -
  let ?t = "join '' '' ws"
  have "rs_is_match (rs_bounded (rs_phrase ws)) s \<longleftrightarrow>
    (\<exists>i \<le> length s. take (length ?t) (drop i s) = ?t \<and> at_boundary s i \<and> at_boundary s (i + length ?t))"
    by (auto simp: rs_is_match_iff rs_bounded_def rs_match_simps rs_match_phrase [OF assms])
  also have "\<dots> \<longleftrightarrow> occurs_bounded ?t s"
  proof
    assume "\<exists>i \<le> length s. take (length ?t) (drop i s) = ?t \<and> at_boundary s i \<and> at_boundary s (i + length ?t)"
    then obtain i where i: "i \<le> length s" "take (length ?t) (drop i s) = ?t" "at_boundary s i" "at_boundary s (i + length ?t)"
      by blast
    have "s = take i s @ ?t @ drop (length ?t) (drop i s)" using i(2) by (metis append_take_drop_id)
    then show "occurs_bounded ?t s" unfolding occurs_bounded_def using i by (metis length_take min.absorb2)
  next
    assume "occurs_bounded ?t s"
    then obtain pre post where s: "s = pre @ ?t @ post" and b: "at_boundary s (length pre)" "at_boundary s (length pre + length ?t)"
      unfolding occurs_bounded_def by blast
    have "length pre \<le> length s" "take (length ?t) (drop (length pre) s) = ?t" by (simp_all add: s)
    then show "\<exists>i \<le> length s. take (length ?t) (drop i s) = ?t \<and> at_boundary s i \<and> at_boundary s (i + length ?t)"
      using b by blast
  qed
  finally show ?thesis .
qed

section \<open>Cleaned texts\<close>

lemma split_whitespace_no_ws: "w \<in> set (split_whitespace s) \<Longrightarrow> c \<in> set w \<Longrightarrow> \<not> is_ws c"
  using split_whitespace_words by blast

lemma single_blanks_join:
  "\<forall>w \<in> set ws. w \<noteq> [] \<and> (\<forall>c \<in> set w. \<not> is_ws c) \<Longrightarrow>
     single_blanks (join '' '' ws) \<and> (ws \<noteq> [] \<longrightarrow> join '' '' ws \<noteq> [] \<and> \<not> is_ws (hd (join '' '' ws)) \<and> \<not> is_ws (last (join '' '' ws)))"
proof (induction ws rule: induct_list012)
  case (2 w)
  then show ?case by (auto simp: single_blanks_def)
next
  case (3 w v ws)
  let ?t = "join '' '' (v # ws)"
  have t: "single_blanks ?t" "?t \<noteq> []" "\<not> is_ws (hd ?t)" "\<not> is_ws (last ?t)" using 3 by simp_all
  have w: "w \<noteq> []" "\<forall>c \<in> set w. \<not> is_ws c" using 3 by simp_all
  have "single_blanks (w @ CHR '' '' # ?t)"
    unfolding single_blanks_def
  proof (intro allI impI)
    fix i assume i: "i < length (w @ CHR '' '' # ?t)" "is_ws ((w @ CHR '' '' # ?t) ! i)"
    consider "i < length w" | "i = length w" | k where "i = Suc (length w + k)" by (metis add_Suc_right less_imp_Suc_add linorder_neqE_nat)
    then show "(w @ CHR '' '' # ?t) ! i = CHR '' '' \<and> (Suc i < length (w @ CHR '' '' # ?t) \<longrightarrow> \<not> is_ws ((w @ CHR '' '' # ?t) ! Suc i))"
    proof cases
      case 1
      then show ?thesis using i w(2) by (auto simp: nth_append)
    next
      case 2
      then show ?thesis using t(2,3) by (simp add: nth_append hd_conv_nth)
    next
      case (3 k)
      then show ?thesis using i t(1) by (auto simp: nth_append single_blanks_def)
    qed
  qed
  then show ?case using t w by simp
qed (simp add: single_blanks_def)

lemma phrase_of_words: "\<forall>w \<in> set (split_whitespace s). w \<noteq> [] \<and> (\<forall>c \<in> set w. \<not> is_ws c)"
  using split_whitespace_words by blast

lemma inv_words_phrase: "inv_words s = phrase_of s"
  using single_blanks_join [OF phrase_of_words, of s]
  by (cases "split_whitespace s = []") (simp_all add: inv_words_def phrase_of_def trim_id)

lemma single_blanks_take: "single_blanks s \<Longrightarrow> single_blanks (take n s)"
  by (auto simp: single_blanks_def)

lemma clean_text_single_blanks: "single_blanks (clean_text_runtime s n)"
  using single_blanks_join [OF phrase_of_words, of s]
  by (simp add: clean_text_runtime_def inv_words_phrase phrase_of_def single_blanks_take)

lemma split_phrase_of [simp]: "split_whitespace (phrase_of s) = split_whitespace s"
  unfolding phrase_of_def by (rule split_whitespace_join [OF phrase_of_words])

lemma join_split_acc: "length (join '' '' (split_ws_acc acc s)) \<le> length acc + length s"
proof (induction acc s rule: split_ws_acc.induct)
  case (2 acc c cs)
  have "length (join '' '' (w # ws)) \<le> length w + 1 + length (join '' '' ws)" for w ws by (cases ws) simp_all
  from this [of "rev acc" "split_ws_acc [] cs"] 2 show ?case by (auto simp: not_le)
qed simp

lemma phrase_of_length: "length (phrase_of s) \<le> length s"
  using join_split_acc [of "[]" s] by (simp add: phrase_of_def split_whitespace_def)

lemma clean_text_short: "length s \<le> n \<Longrightarrow> clean_text_runtime s n = phrase_of s"
  using phrase_of_length [of s] by (simp add: clean_text_runtime_def inv_words_phrase)

lemma phrase_of_Nil_iff [simp]: "phrase_of s = [] \<longleftrightarrow> split_whitespace s = []"
  using single_blanks_join [OF phrase_of_words, of s] by (cases "split_whitespace s = []") (simp_all add: phrase_of_def)

lemma split_ws_acc_Nil_iff: "split_ws_acc acc s = [] \<longleftrightarrow> acc = [] \<and> list_all is_ws s"
  by (induction acc s rule: split_ws_acc.induct) auto

lemma clean_text_words: "clean_text_runtime s n \<noteq> [] \<Longrightarrow> split_whitespace (to_ascii_lowercase (clean_text_runtime s n)) \<noteq> []"
proof -
  assume ne: "clean_text_runtime s n \<noteq> []"
  then have "split_whitespace s \<noteq> []" "n \<noteq> 0" by (auto simp: clean_text_runtime_def inv_words_phrase)
  then have "\<not> is_ws (hd (clean_text_runtime s n))"
    using single_blanks_join [OF phrase_of_words, of s] by (simp add: clean_text_runtime_def inv_words_phrase phrase_of_def)
  then show ?thesis using ne
    by (cases "clean_text_runtime s n") (simp_all add: split_whitespace_def split_ws_acc_Nil_iff to_ascii_lowercase_def)
qed

lemma lower_phrase_of: "list_all (\<lambda>c. char_to_ascii_lowercase c = c) s \<Longrightarrow> to_ascii_lowercase (phrase_of s) = phrase_of s"
proof -
  have "set (join '' '' (split_ws_acc acc s)) \<subseteq> set acc \<union> set s \<union> {CHR '' ''}" for acc
  proof (induction acc s rule: split_ws_acc.induct)
    case (2 acc c cs)
    have "set (join '' '' (w # ws)) \<subseteq> set w \<union> {CHR '' ''} \<union> set (join '' '' ws)" for w ws by (cases ws) auto
    from this [of "rev acc" "split_ws_acc [] cs"]
    have j: "set (join '' '' (rev acc # split_ws_acc [] cs)) \<subseteq> set acc \<union> {CHR '' ''} \<union> set (join '' '' (split_ws_acc [] cs))" by simp
    consider "\<not> is_ws c" | "is_ws c" "acc = []" | "is_ws c" "acc \<noteq> []" by blast
    then show ?case
    proof cases
      case 1
      then show ?thesis using "2.IH"(3) by auto
    next
      case 2
      then show ?thesis using "2.IH"(1) by auto
    next
      case 3
      then show ?thesis using "2.IH"(2) j by auto
    qed
  qed auto
  from this [of "[]"] have "set (phrase_of s) \<subseteq> set s \<union> {CHR '' ''}" by (simp add: phrase_of_def split_whitespace_def)
  moreover assume "list_all (\<lambda>c. char_to_ascii_lowercase c = c) s"
  moreover have "char_to_ascii_lowercase CHR '' '' = CHR '' ''" by (simp add: char_to_ascii_lowercase_def char_class_defs char_nat_def)
  ultimately show ?thesis unfolding to_ascii_lowercase_def by (intro map_idI) (auto simp: list_all_iff)
qed

lemma clean_text_length: "length (clean_text_runtime s n) \<le> n"
  by (simp add: clean_text_runtime_def)

lemma to_ascii_lowercase_Nil: "to_ascii_lowercase s = [] \<longleftrightarrow> s = []"
  by (simp add: to_ascii_lowercase_def)

lemma lower_fixed: "list_all (\<lambda>c. char_to_ascii_lowercase c = c) (to_ascii_lowercase s)"
  by (simp add: to_ascii_lowercase_def list_all_iff)

section \<open>The gate is exact\<close>

lemma axiom_pattern_text:
  "p \<in> set (axiom_patterns L ax) \<Longrightarrow> length p \<le> 200 \<and> split_whitespace p \<noteq> []"
  using clean_text_words by (auto simp: axiom_patterns_def compute_normalize_axiom_pattern_def to_ascii_lowercase_Nil clean_text_length)

lemma pattern_hits_iff:
  "single_blanks hay \<Longrightarrow> length p \<le> 200 \<Longrightarrow> split_whitespace p \<noteq> [] \<Longrightarrow> pattern_hits hay p \<longleftrightarrow> occurs_bounded (phrase_of p) hay"
  by (simp add: pattern_hits_def compute_pattern_to_word_regex_def Let_def unwrap_or_def clamp_def clean_text_short
      phrase_is_match phrase_of_def [symmetric])

definition term_appears :: "string \<Rightarrow> string list \<Rightarrow> string \<Rightarrow> bool" where
  "term_appears hay tokens t = (occurs_bounded (phrase_of t) hay \<or> set (split_whitespace t) \<subseteq> set tokens)"

lemma group_term_text:
  "t \<in> set (group_terms rows) \<Longrightarrow> length t \<le> 200 \<and> split_whitespace t \<noteq> [] \<and> list_all (\<lambda>c. char_to_ascii_lowercase c = c) t"
  using clean_text_words
  by (auto dest!: in_set_takeD simp: group_terms_def to_ascii_lowercase_Nil clean_text_length lower_fixed)

lemma signal_term_match_iff:
  assumes "single_blanks hay" and "t \<in> set (group_terms rows)"
  shows "compute_has_signal_term_match hay tokens (Some t) \<longleftrightarrow> term_appears hay tokens t"
proof -
  have t: "to_ascii_lowercase (clean_text_runtime t 200) = phrase_of t" "split_whitespace t \<noteq> []"
    using group_term_text [OF assms(2)] by (simp_all add: clean_text_short lower_phrase_of)
  then have "hd (split_whitespace t) \<in> set tokens \<longleftrightarrow> list_all (\<lambda>w. w \<in> set tokens) (split_whitespace t)"
    if "length (split_whitespace t) = 1" using that by (cases "split_whitespace t") auto
  then show ?thesis
    by (auto simp: compute_has_signal_term_match_def Let_def unwrap_or_def t phrase_is_match [OF assms(1)]
        phrase_of_def [symmetric] term_appears_def list_all_iff)
qed

text \<open>The groups of terms an axiom configures, and when enough of them appear.\<close>

definition axiom_groups :: "libs \<Rightarrow> json \<Rightarrow> string list list" where
  "axiom_groups L ax = filter (\<lambda>g. g \<noteq> []) (map (\<lambda>k. group_terms (compute_normalize_axiom_signal_terms L
     (array_rows (obj_get (json_get ax ''signals'') k)))) [''action_terms'', ''subject_terms'', ''object_terms''])"

definition signals_met :: "libs \<Rightarrow> string \<Rightarrow> string list \<Rightarrow> json \<Rightarrow> bool" where
  "signals_met L hay tokens ax = (axiom_groups L ax = [] \<or>
     clamp 0 3 (unwrap_or (Option.bind (json_get ax ''min_signal_groups'') as_i64) (int (length (axiom_groups L ax))))
       \<le> int (length (filter (list_ex (term_appears hay tokens)) (axiom_groups L ax))))"

lemma axiom_signals_iff:
  assumes "single_blanks hay"
  shows "(sg_configured_groups (axiom_signals L hay tokens ax) > 0 \<longrightarrow> sg_pass (axiom_signals L hay tokens ax)) \<longleftrightarrow>
    signals_met L hay tokens ax"
proof -
  let ?g = "\<lambda>k. group_terms (compute_normalize_axiom_signal_terms L (array_rows (obj_get (json_get ax ''signals'') k)))"
  let ?gs = "[?g ''action_terms'', ?g ''subject_terms'', ?g ''object_terms'']"
  have m: "list_ex (\<lambda>t. compute_has_signal_term_match hay tokens (Some t)) (?g k) = list_ex (term_appears hay tokens) (?g k)" for k
    using signal_term_match_iff [OF assms] by (auto simp: list_ex_iff)
  have c: "filter (\<lambda>g. g \<noteq> []) ?gs = axiom_groups L ax" by (simp add: axiom_groups_def)
  have "filter (\<lambda>g. g \<noteq> [] \<and> list_ex (\<lambda>t. compute_has_signal_term_match hay tokens (Some t)) g) ?gs =
      filter (\<lambda>g. g \<noteq> [] \<and> list_ex (term_appears hay tokens) g) ?gs" using m by simp
  also have "\<dots> = filter (list_ex (term_appears hay tokens)) (axiom_groups L ax)" unfolding c [symmetric] filter_filter by (simp add: conj_commute)
  finally have f: "filter (\<lambda>g. g \<noteq> [] \<and> list_ex (\<lambda>t. compute_has_signal_term_match hay tokens (Some t)) g) ?gs =
      filter (list_ex (term_appears hay tokens)) (axiom_groups L ax)" .
  have "axiom_signals L hay tokens ax = compute_count_axiom_signal_groups
      (compute_normalize_axiom_signal_terms L (array_rows (obj_get (json_get ax ''signals'') ''action_terms'')))
      (compute_normalize_axiom_signal_terms L (array_rows (obj_get (json_get ax ''signals'') ''subject_terms'')))
      (compute_normalize_axiom_signal_terms L (array_rows (obj_get (json_get ax ''signals'') ''object_terms'')))
      (Option.bind (json_get ax ''min_signal_groups'') as_i64) hay tokens" by (simp add: axiom_signals_def)
  then show ?thesis unfolding compute_count_axiom_signal_groups_def Let_def f c signals_met_def by (simp only: signal_groups.simps) auto
qed

definition axiom_violated ::
  "libs \<Rightarrow> (string \<Rightarrow> string \<Rightarrow> bool option) \<Rightarrow> string \<Rightarrow> string list \<Rightarrow> string list \<Rightarrow> json \<Rightarrow> bool" where
  "axiom_violated L re_match hay tokens tags ax =
     (set (tags_of L (json_get ax ''intent_tags'')) \<inter> set tags \<noteq> {} \<or>
      (\<exists>rule \<in> set (axiom_rules L ax). re_match rule hay = Some True) \<or>
      (\<exists>p \<in> set (axiom_patterns L ax). occurs_bounded (phrase_of p) hay) \<and> signals_met L hay tokens ax)"

lemma axiom_hit_iff:
  assumes "single_blanks hay"
  shows "axiom_hit L re_match hay tokens tags ax = Some i \<longleftrightarrow> json_is_object ax \<and> i \<noteq> [] \<and>
    i = compute_normalize_token (Some (value_to_string L (json_get ax ''id''))) (Some 80) \<and>
    axiom_violated L re_match hay tokens tags ax"
proof -
  have p: "list_ex (pattern_hits hay) (axiom_patterns L ax) \<longleftrightarrow> (\<exists>p \<in> set (axiom_patterns L ax). occurs_bounded (phrase_of p) hay)"
    using pattern_hits_iff [OF assms] axiom_pattern_text by (auto simp: list_ex_iff)
  have r: "list_ex (\<lambda>rule. unwrap_or (re_match rule hay) False) (axiom_rules L ax) \<longleftrightarrow>
      (\<exists>rule \<in> set (axiom_rules L ax). re_match rule hay = Some True)"
    by (auto simp: list_ex_iff unwrap_or_def split: option.splits)
  have t: "list_ex (\<lambda>tag. tag \<in> set tags) (tags_of L (json_get ax ''intent_tags'')) \<longleftrightarrow>
      set (tags_of L (json_get ax ''intent_tags'')) \<inter> set tags \<noteq> {}" by (auto simp: list_ex_iff)
  have s: "(\<not> sg_configured_groups (axiom_signals L hay tokens ax) > 0 \<or> sg_pass (axiom_signals L hay tokens ax)) \<longleftrightarrow>
      signals_met L hay tokens ax" using axiom_signals_iff [OF assms] by blast
  show ?thesis unfolding axiom_hit_def Let_def p r t s axiom_violated_def by auto
qed

lemma distinct_dedup: "sorted xs \<Longrightarrow> distinct (remdups_adj xs)"
  by (induction xs rule: remdups_adj.induct) auto

lemma sort_dedup: "remdups_adj (sort xs) = sorted_list_of_set (set xs)"
  by (rule sorted_distinct_set_unique) (simp_all add: sorted_remdups_adj distinct_dedup)

text \<open>C16: The gate on immutable axioms is exact. When the policy enables it, the hits are the sorted ids of the axioms that
  have an id and are violated: an intent tag of the axiom is one of the decision, a rule of it matches the text of the
  decision, or one of its phrases stands in that text between word boundaries and enough of its configured groups of
  signal terms appear there, as a phrase or word by word. Otherwise there are no hits.\<close>

theorem axiom_gate_exact:
  "compute_detect_immutable_axiom_violation L re_match policy decision =
     (let axioms = value_path policy [''immutable_axioms'']; hay = decision_haystack L decision
      in if to_bool_like L (obj_get axioms ''enabled'') False
         then sorted_list_of_set {compute_normalize_token (Some (value_to_string L (json_get ax ''id''))) (Some 80) | ax.
           ax \<in> set (array_rows (obj_get axioms ''axioms'')) \<and> json_is_object ax \<and>
           compute_normalize_token (Some (value_to_string L (json_get ax ''id''))) (Some 80) \<noteq> [] \<and>
           axiom_violated L re_match hay (compute_tokenize_text (Some hay) (Some 64)) (tags_of L (obj_get decision ''intent_tags'')) ax}
         else [])"
proof -
  let ?hay = "decision_haystack L decision"
  let ?hit = "axiom_hit L re_match ?hay (compute_tokenize_text (Some ?hay) (Some 64)) (tags_of L (obj_get decision ''intent_tags''))"
  have "single_blanks ?hay" by (simp add: decision_haystack_def Let_def clean_text_single_blanks)
  note hit = axiom_hit_iff [OF this]
  have "set (List.map_filter f xs) = {y. \<exists>x \<in> set xs. f x = Some y}" for f :: "json \<Rightarrow> string option" and xs
    by (force simp: List.map_filter_def)
  then have "set (List.map_filter ?hit rows) = {i. \<exists>ax \<in> set rows. ?hit ax = Some i}" for rows by blast
  moreover have "{i. \<exists>ax \<in> set rows. ?hit ax = Some i} =
     {compute_normalize_token (Some (value_to_string L (json_get ax ''id''))) (Some 80) | ax. ax \<in> set rows \<and> json_is_object ax \<and>
       compute_normalize_token (Some (value_to_string L (json_get ax ''id''))) (Some 80) \<noteq> [] \<and>
       axiom_violated L re_match ?hay (compute_tokenize_text (Some ?hay) (Some 64)) (tags_of L (obj_get decision ''intent_tags'')) ax}" for rows
    unfolding hit by auto
  ultimately show ?thesis unfolding compute_detect_immutable_axiom_violation_def Let_def sort_dedup by (simp del: set_filter)
qed

section \<open>What the gate misses\<close>

text \<open>An axiom that has semantic requirements only is kept by the normal form and is never violated.\<close>

lemma semantic_only_never_violated:
  assumes "array_rows (json_get ax ''patterns'') = []" and "array_rows (json_get ax ''regex'') = []"
    and "json_get ax ''intent_tags'' = Some (JArr [])"
  shows "\<not> axiom_violated L re_match hay tokens tags ax"
  using assms by (simp add: axiom_violated_def axiom_patterns_def axiom_rules_def tags_of_def unwrap_or_def
      compute_normalize_list_def value_to_csv_list_def dedupe_preserve_order_def)

text \<open>A phrase that ends in punctuation has no word boundary before a blank or the end: it is not found where it stands.\<close>

lemma phrase_end_missed:
  assumes "\<not> is_word_char (last t)" and "t \<noteq> []" and "occurs_bounded t s"
  shows "\<exists>pre c post. s = pre @ t @ c # post \<and> is_word_char c"
proof -
  obtain pre post where s: "s = pre @ t @ post" and b: "at_boundary s (length pre + length t)"
    using assms(3) unfolding occurs_bounded_def by blast
  have "s ! (length pre + length t - 1) = last t" using assms(2) by (cases t rule: rev_cases) (simp_all add: s nth_append)
  then have "length pre + length t < length s" "is_word_char (s ! (length pre + length t))"
    using b assms(1) by (auto simp: at_boundary_def)
  then show ?thesis using s by (cases post) auto
qed

end
