(* ===== verification/Inversion_Conclave.thy ===== *)
theory Inversion_Conclave
  imports Inversion_Stores
begin

text \<open>
  The conclave and the texts around it (\<^verbatim>\<open>core/layer2/execution/src/inversion.rs\<close>): the flags that stop a proposal, the
  suite of the maturity harness, the lists and permissions read from Markdown, and the arguments of the command line.
  Regular expressions for one line are written as the scans they are.
\<close>

section \<open>Flags of the conclave\<close>

definition push_unique :: "string list \<Rightarrow> string \<Rightarrow> string list" where
  "push_unique values next = (if next \<in> set values then values else values @ [next])"

definition conclave_confidences :: "json list \<Rightarrow> f64 list" where
  "conclave_confidences persona_outputs =
     filter is_finite (List.map_filter (\<lambda>row. parse_number_like (json_get row ''confidence'')) (filter json_is_object persona_outputs))"

definition persona_texts :: "libs \<Rightarrow> json \<Rightarrow> string list" where
  "persona_texts L row =
     (if json_is_object row
      then clean_text_runtime (value_to_string L (json_get row ''recommendation'')) 1200 #
           map (\<lambda>reason. clean_text_runtime (value_to_string L (Some reason)) 240) (array_rows (json_get row ''reasoning''))
      else [])"

definition conclave_corpus :: "libs \<Rightarrow> json option \<Rightarrow> string option \<Rightarrow> string option \<Rightarrow> string" where
  "conclave_corpus L payload query summary =
     to_ascii_lowercase (join [CHR 0x0A]
       ([clean_text_runtime (unwrap_or query []) 2400, clean_text_runtime (unwrap_or summary []) 1200,
         clean_text_runtime (value_to_string L (obj_get payload ''suggested_resolution'')) 1600] @
        concat (map (persona_texts L) (array_rows (obj_get payload ''persona_outputs'')))))"

definition keyword_flag :: "string \<Rightarrow> string" where
  "keyword_flag keyword =
     (let token = normalize_token_runtime keyword 80 in if token = [] then ''keyword:risk'' else ''keyword:'' @ token)"

definition keyword_step :: "string \<Rightarrow> string \<Rightarrow> string list \<Rightarrow> string list" where
  "keyword_step corpus keyword flags =
     (if keyword \<noteq> [] \<and> str_contains corpus (to_ascii_lowercase keyword) then push_unique flags (keyword_flag keyword) else flags)"

definition compute_conclave_high_risk_flags ::
  "libs \<Rightarrow> json option \<Rightarrow> string option \<Rightarrow> string option \<Rightarrow> f64 option \<Rightarrow> f64 option \<Rightarrow> string list \<Rightarrow> string list" where
  "compute_conclave_high_risk_flags L payload query summary max_divergence0 min_confidence0 high_risk_keywords =
     (let max_divergence = unwrap_or max_divergence0 (f64_lit (45 / 100)); min_confidence = unwrap_or min_confidence0 (f64_lit (6 / 10));
          winner = clean_text_runtime (value_to_string L (obj_get payload ''winner'')) 120;
          flags0 = (if (case payload of Some v \<Rightarrow> \<not> json_is_object v | None \<Rightarrow> True) \<or>
                       obj_get payload ''ok'' \<noteq> Some (JBool True) \<or> winner = []
                    then push_unique [] ''no_consensus'' else []);
          divergence = unwrap_or (parse_number_like (obj_get payload ''max_divergence'')) (Fin 0);
          flags1 = (if \<not> is_finite divergence \<or> f64_lt max_divergence divergence
                    then push_unique flags0 ''high_divergence'' else flags0);
          confidences = conclave_confidences (array_rows (obj_get payload ''persona_outputs''));
          flags2 = (if confidences \<noteq> [] \<and> f64_lt (fold (\<lambda>n acc. f64_min acc n) confidences PosInf) min_confidence
                    then push_unique flags1 ''low_confidence'' else flags1)
      in fold (keyword_step (conclave_corpus L payload query summary)) high_risk_keywords flags2)"

section \<open>The suite of the harness\<close>

definition harness_case :: "libs \<Rightarrow> nat \<times> json \<Rightarrow> json option" where
  "harness_case L = (\<lambda>(idx, row).
     let item = json_get row; default_id = ''imh_'' @ show_nat (idx + 1);
         id0 = nonempty_or (normalize_token_runtime (nonempty_or (value_to_string L (item ''id'')) default_id) 80) default_id;
         objective = clean_text_runtime (value_to_string L (item ''objective'')) 280;
         difficulty = nonempty_or (normalize_token_runtime (value_to_string L (item ''difficulty'')) 24) ''medium''
     in if objective = [] then None
        else Some (json_object [(''id'', JStr id0), (''objective'', JStr objective),
          (''impact'', JStr (compute_normalize_impact (Some (value_to_string L (item ''impact''))))),
          (''target'', JStr (compute_normalize_target (Some (value_to_string L (item ''target''))))),
          (''difficulty'', JStr difficulty)]))"

definition compute_normalize_harness_suite :: "libs \<Rightarrow> json option \<Rightarrow> json option \<Rightarrow> json list" where
  "compute_normalize_harness_suite L raw_suite base_suite =
     (let src = array_rows raw_suite; rows = (if src = [] then array_rows base_suite else src)
      in List.map_filter (harness_case L) (List.enumerate 0 rows))"

section \<open>Markdown\<close>

text \<open>\<^verbatim>\<open>^[-*]\s+(.+)$\<close> and \<^verbatim>\<open>^\d+\.\s+(.+)$\<close> on a trimmed line.\<close>

definition bullet_text :: "string \<Rightarrow> string option" where
  "bullet_text line =
     (case line of
        c # d # cs \<Rightarrow> if (c = CHR ''-'' \<or> c = CHR ''*'') \<and> is_ws d \<and> dropWhile is_ws cs \<noteq> [] then Some (dropWhile is_ws cs) else None
      | _ \<Rightarrow> None)"

definition ordered_text :: "string \<Rightarrow> string option" where
  "ordered_text line =
     (if takeWhile is_ascii_digit line = [] then None
      else case dropWhile is_ascii_digit line of
             c # d # cs \<Rightarrow> if c = CHR ''.'' \<and> is_ws d \<and> dropWhile is_ws cs \<noteq> [] then Some (dropWhile is_ws cs) else None
           | _ \<Rightarrow> None)"

fun items_loop :: "(string \<Rightarrow> string option) \<Rightarrow> nat \<Rightarrow> nat \<Rightarrow> string list \<Rightarrow> string list \<Rightarrow> string list" where
  "items_loop capture max_len max_items out [] = out"
| "items_loop capture max_len max_items out (line # lines) =
     (case capture (trim line) of
        None \<Rightarrow> items_loop capture max_len max_items out lines
      | Some raw \<Rightarrow>
          (let item = clean_text_runtime raw max_len in
           if item = [] then items_loop capture max_len max_items out lines
           else if max_items \<le> length (out @ [item]) then out @ [item]
           else items_loop capture max_len max_items (out @ [item]) lines))"

definition compute_extract_bullets :: "string option \<Rightarrow> int option \<Rightarrow> string list" where
  "compute_extract_bullets markdown max_items =
     items_loop (\<lambda>line. or_else (bullet_text line) (ordered_text line)) 220 (nat (max 0 (unwrap_or max_items 4))) []
       (rust_lines (unwrap_or markdown []))"

definition compute_extract_list_items :: "string option \<Rightarrow> int option \<Rightarrow> string list" where
  "compute_extract_list_items markdown max_items =
     items_loop bullet_text 160 (nat (max 0 (unwrap_or max_items 8))) [] (rust_lines (unwrap_or markdown []))"

text \<open>The line of permissions: a fixed sequence of words with white space between them, without regard to case.\<close>

definition expect :: "string \<Rightarrow> string \<Rightarrow> string option" where
  "expect word s = strip_prefix (dropWhile is_ws s) word"

definition permission_line :: "string \<Rightarrow> (bool \<times> string) option" where
  "permission_line line =
     (let dashed = dropWhile (\<lambda>c. c = CHR ''-'') line in
      if takeWhile (\<lambda>c. c = CHR ''-'') line = [] then None
      else Option.bind (Option.bind (Option.bind (expect ''system_internal'' dashed) (expect '':'')) (expect ''{''))
        (\<lambda>s. Option.bind (expect ''enabled:'' s)
        (\<lambda>s. Option.bind (case expect ''true'' s of Some r \<Rightarrow> Some (True, r) | None \<Rightarrow> map_option (Pair False) (expect ''false'' s))
        (\<lambda>(enabled, s). Option.bind (Option.bind (Option.bind (expect '','' s) (expect ''sources:'')) (expect ''[''))
        (\<lambda>s. Option.bind (Option.bind (expect '']'' (dropWhile (\<lambda>c. c \<noteq> CHR '']'') s)) (expect ''}''))
        (\<lambda>rest. if list_all is_ws rest then Some (enabled, takeWhile (\<lambda>c. c \<noteq> CHR '']'') s) else None))))))"

fun permission_of :: "string list \<Rightarrow> bool \<times> string list" where
  "permission_of [] = (False, [])"
| "permission_of (line # lines) =
     (case permission_line (to_ascii_lowercase (trim line)) of
        None \<Rightarrow> permission_of lines
      | Some (enabled, sources) \<Rightarrow>
          (enabled, filter (\<lambda>row. row \<noteq> []) (map (\<lambda>row. normalize_token_runtime row 40) (split_on CHR '','' sources))))"

definition compute_parse_system_internal_permission :: "string option \<Rightarrow> bool \<times> string list" where
  "compute_parse_system_internal_permission markdown = permission_of (rust_lines (unwrap_or markdown []))"

text \<open>The part between the first two occurrences: \<^verbatim>\<open>split(p).nth(1)\<close>.\<close>

fun cut_at :: "string \<Rightarrow> string \<Rightarrow> (string \<times> string) option" where
  "cut_at p [] = None"
| "cut_at p (c # cs) =
     (if starts_with (c # cs) p then Some ([], drop (length p) (c # cs))
      else map_option (\<lambda>(a, b). (c # a, b)) (cut_at p cs))"

definition second_part :: "string \<Rightarrow> string \<Rightarrow> string" where
  "second_part p s =
     (case cut_at p s of None \<Rightarrow> [] | Some (_, b) \<Rightarrow> (case cut_at p b of None \<Rightarrow> b | Some (a, _) \<Rightarrow> a))"

definition compute_parse_soul_token_data_pass_rules :: "string option \<Rightarrow> string list" where
  "compute_parse_soul_token_data_pass_rules markdown =
     filter (\<lambda>row. row \<noteq> []) (map (\<lambda>row. normalize_token_runtime row 80)
       (compute_extract_list_items (Some (second_part ''## Data Pass Rules'' (unwrap_or markdown []))) (Some 12)))"

definition trim_end :: "string \<Rightarrow> string" where
  "trim_end s = rev (dropWhile is_ws (rev s))"

definition passed_heading :: string where
  "passed_heading = ''## System Passed''"

definition compute_ensure_system_passed_section :: "string option \<Rightarrow> string" where
  "compute_ensure_system_passed_section feed_text =
     (let body = trim_end (unwrap_or feed_text []) in
      if str_contains body (CHR 0x0A # passed_heading) then body
      else join [CHR 0x0A] [body, [], passed_heading, [],
        ''Hash-verified system payloads pushed from internal sources (memory, loops, analytics).'',
        ''Entries are JSON payload records with deterministic hash verification.'', []])"

definition passed_seed :: "string option \<Rightarrow> string list \<Rightarrow> string option \<Rightarrow> string" where
  "passed_seed source tags payload =
     ''v1|'' @ normalize_token_runtime (unwrap_or source []) 80 @ ''|'' @ join '','' tags @ ''|'' @
     clean_text_runtime (unwrap_or payload []) 2000"

definition compute_system_passed_payload_hash :: "libs \<Rightarrow> string option \<Rightarrow> string list \<Rightarrow> string option \<Rightarrow> string" where
  "compute_system_passed_payload_hash L source tags payload = sha256_hex L (passed_seed source tags payload)"

definition compute_build_lens_position :: "string option \<Rightarrow> string option \<Rightarrow> string option \<Rightarrow> string" where
  "compute_build_lens_position objective target impact =
     (let lower = to_ascii_lowercase (unwrap_or objective []) in
      if str_contains lower ''memory'' \<and> str_contains lower ''security''
      then ''Preserve memory determinism sequencing while keeping security fail-closed at dispatch boundaries.''
      else if str_contains lower ''drift''
      then ''Treat drift above tolerance as a hard stop and require rollback-ready proof before apply.''
      else if unwrap_or target [] = ''identity'' \<or> unwrap_or impact [] = ''high'' \<or> unwrap_or impact [] = ''critical''
      then ''Use strict reversible slices with explicit receipts before any live apply.''
      else ''Keep the smallest reversible path and preserve fail-closed controls before mutation.'')"

definition compute_build_conclave_proposal_summary ::
  "string option \<Rightarrow> string option \<Rightarrow> string option \<Rightarrow> string option \<Rightarrow> string option \<Rightarrow> string" where
  "compute_build_conclave_proposal_summary objective objective_id target impact mode =
     (let parts = filter (\<lambda>p. p \<noteq> []) (map (\<lambda>(v, n). clean_text_runtime (unwrap_or v []) n)
            [(objective, 320), (objective_id, 120), (target, 40), (impact, 40), (mode, 24)])
      in if parts = [] then ''inversion_self_modification_request'' else join '' | '' parts)"

section \<open>Standard output and arguments\<close>

definition compute_parse_json_from_stdout :: "(string \<Rightarrow> json option) \<Rightarrow> string option \<Rightarrow> json option" where
  "compute_parse_json_from_stdout from_str raw =
     (let text0 = trim (unwrap_or raw []) in
      if text0 = [] then None
      else case from_str text0 of
             Some v \<Rightarrow> Some v
           | None \<Rightarrow>
               (let lines = filter (\<lambda>row. row \<noteq> []) (map trim (split_on CHR 0x0A text0))
                in Option.bind (find (\<lambda>line. from_str line \<noteq> None) (rev lines)) from_str))"

fun args_loop :: "string list \<Rightarrow> string list \<Rightarrow> (string \<times> json) list \<Rightarrow> string list \<times> (string \<times> json) list" where
  "args_loop [] positional m = (positional, m)"
| "args_loop (tok # toks) positional m =
     (if \<not> starts_with tok ''--'' then args_loop toks (positional @ [tok]) m
      else if CHR ''='' \<in> set tok
      then args_loop toks positional (bt_insert (drop 2 (takeWhile (\<lambda>c. c \<noteq> CHR ''='') tok))
             (JStr (tl (dropWhile (\<lambda>c. c \<noteq> CHR ''='') tok))) m)
      else case toks of
             next # rest \<Rightarrow>
               if \<not> starts_with next ''--'' then args_loop rest positional (bt_insert (drop 2 tok) (JStr next) m)
               else args_loop toks positional (bt_insert (drop 2 tok) (JBool True) m)
           | [] \<Rightarrow> args_loop toks positional (bt_insert (drop 2 tok) (JBool True) m))"

definition compute_parse_args :: "string list \<Rightarrow> json" where
  "compute_parse_args argv =
     (let (positional, m) = args_loop argv [] [] in JObj (bt_insert ''_'' (json_str_list positional) m))"


section \<open>The flags are exact\<close>

lemma push_unique_simps [simp]:
  "set (push_unique values x) = insert x (set values)" "distinct values \<Longrightarrow> distinct (push_unique values x)"
  by (auto simp: push_unique_def)

lemma keyword_fold:
  "set (fold (keyword_step corpus) ks flags) =
     set flags \<union> keyword_flag ` {k \<in> set ks. k \<noteq> [] \<and> str_contains corpus (to_ascii_lowercase k)} \<and>
   (distinct flags \<longrightarrow> distinct (fold (keyword_step corpus) ks flags))"
  by (induction ks arbitrary: flags) (auto simp: keyword_step_def)

lemma f64_min_less: "a \<noteq> NaN \<Longrightarrow> b \<noteq> NaN \<Longrightarrow> f64_lt (f64_min a b) m \<longleftrightarrow> f64_lt a m \<or> f64_lt b m"
  by (cases a; cases b; cases m) (auto simp: f64_min_def)

lemma f64_min_not_NaN: "a \<noteq> NaN \<Longrightarrow> b \<noteq> NaN \<Longrightarrow> f64_min a b \<noteq> NaN"
  by (simp add: f64_min_def)

lemma fold_min_less:
  "list_all is_finite cs \<Longrightarrow> acc \<noteq> NaN \<Longrightarrow>
     f64_lt (fold (\<lambda>n acc. f64_min acc n) cs acc) m \<longleftrightarrow> f64_lt acc m \<or> list_ex (\<lambda>c. f64_lt c m) cs"
proof (induction cs arbitrary: acc)
  case (Cons c cs)
  then have "c \<noteq> NaN" by auto
  then show ?case using Cons f64_min_not_NaN [of acc c] f64_min_less [of acc c m] by simp
qed simp

lemma confidences_finite: "list_all is_finite (conclave_confidences rows)"
  by (simp add: conclave_confidences_def list_all_iff)

text \<open>C17: The flags of the conclave are exact and without duplicates: no consensus exactly when the payload is not an object
  that says ok and names a winner, high divergence exactly when it is not finite or above the limit, low confidence
  exactly when some persona is below the minimum, and one flag for each keyword of risk that stands in the query, the
  summary, the resolution or the words of a persona. So a proposal without flags passed all four tests.\<close>

theorem conclave_flags_exact:
  "let flags = compute_conclave_high_risk_flags L payload query summary max_d min_c keywords;
       divergence = unwrap_or (parse_number_like (obj_get payload ''max_divergence'')) (Fin 0)
   in distinct flags \<and> set flags =
     (if obj_get payload ''ok'' = Some (JBool True) \<and> clean_text_runtime (value_to_string L (obj_get payload ''winner'')) 120 \<noteq> []
      then {} else {''no_consensus''}) \<union>
     (if is_finite divergence \<and> \<not> f64_lt (unwrap_or max_d (f64_lit (45 / 100))) divergence then {} else {''high_divergence''}) \<union>
     (if list_ex (\<lambda>c. f64_lt c (unwrap_or min_c (f64_lit (6 / 10)))) (conclave_confidences (array_rows (obj_get payload ''persona_outputs'')))
      then {''low_confidence''} else {}) \<union>
     keyword_flag ` {k \<in> set keywords. k \<noteq> [] \<and> str_contains (conclave_corpus L payload query summary) (to_ascii_lowercase k)}"
proof -
  have ok: "(case payload of Some v \<Rightarrow> \<not> json_is_object v | None \<Rightarrow> True) \<or> obj_get payload ''ok'' \<noteq> Some (JBool True) \<or> w = [] \<longleftrightarrow>
      \<not> (obj_get payload ''ok'' = Some (JBool True) \<and> w \<noteq> [])" for w :: string
    by (cases payload) (auto simp: obj_get_def elim!: json_is_object.elims(3))
  have low: "cs \<noteq> [] \<and> f64_lt (fold (\<lambda>n acc. f64_min acc n) cs PosInf) m \<longleftrightarrow> list_ex (\<lambda>c. f64_lt c m) cs"
    if "list_all is_finite cs" for cs m using fold_min_less [OF that, of PosInf m] by auto
  show ?thesis
    unfolding compute_conclave_high_risk_flags_def Let_def ok low [OF confidences_finite] by (auto simp: keyword_fold)
qed

section \<open>Arguments\<close>

definition option_token :: "string \<times> string \<Rightarrow> string" where
  "option_token = (\<lambda>(k, v). ''--'' @ k @ ''='' @ v)"

lemma args_loop_positional: "list_all (\<lambda>p. \<not> starts_with p ''--'') ps \<Longrightarrow> args_loop ps acc m = (acc @ ps, m)"
  by (induction ps arbitrary: acc) simp_all

lemma args_loop_options:
  "list_all (\<lambda>(k, v). CHR ''='' \<notin> set k) kvs \<Longrightarrow>
     args_loop (map option_token kvs @ ps) acc m = args_loop ps acc (fold (\<lambda>(k, v). bt_insert k (JStr v)) kvs m)"
proof (induction kvs arbitrary: m)
  case (Cons kv kvs)
  obtain k v where kv: "kv = (k, v)" by (cases kv)
  have "CHR ''='' \<notin> set k" using Cons.prems kv by simp
  then have t: "takeWhile (\<lambda>c. c \<noteq> CHR ''='') (k @ ''='' @ v) = k" "dropWhile (\<lambda>c. c \<noteq> CHR ''='') (k @ ''='' @ v) = CHR ''='' # v"
    by (auto simp: takeWhile_append2 dropWhile_append2 takeWhile_append dropWhile_append)
  show ?case using Cons t by (simp add: kv option_token_def starts_with_def)
qed simp

text \<open>Arguments round trip: a command line that has the options \<^verbatim>\<open>--key=value\<close> and then positional words is read back as
  the map of the options, the last value of a key winning, with the positional words in order under \<^verbatim>\<open>_\<close>.\<close>

lemma parse_args_roundtrip:
  assumes "list_all (\<lambda>(k, v). CHR ''='' \<notin> set k) kvs" and "list_all (\<lambda>p. \<not> starts_with p ''--'') ps"
  shows "compute_parse_args (map option_token kvs @ ps) = json_object (map (\<lambda>(k, v). (k, JStr v)) kvs @ [(''_'', json_str_list ps)])"
  using assms by (simp add: compute_parse_args_def args_loop_options args_loop_positional json_object_def fold_map comp_def case_prod_unfold)

lemma parse_args_roundtrip_witness:
  "compute_parse_args [''--mode=test'', ''--expr=a=b'', ''run'', ''now''] =
     json_object [(''mode'', JStr ''test''), (''expr'', JStr ''a=b''), (''_'', json_str_list [''run'', ''now''])]"
  using parse_args_roundtrip [of "[(''mode'', ''test''), (''expr'', ''a=b'')]" "[''run'', ''now'']"]
  by (simp add: option_token_def starts_with_def)

section \<open>Sections and hashes\<close>

lemma items_bounded: "length out < max 1 n \<Longrightarrow> length (items_loop f len n out lines) \<le> max 1 n"
  by (induction f len n out lines rule: items_loop.induct) (auto simp: Let_def split: option.splits)

text \<open>A heading on the first line is not seen: the section is added a second time.\<close>

lemma first_line_heading_doubled:
  "compute_ensure_system_passed_section (Some passed_heading) \<noteq> passed_heading"
  by (simp add: compute_ensure_system_passed_section_def passed_heading_def trim_end_def Let_def unwrap_or_def starts_with_def is_ws_def
      char_nat_def)

text \<open>A bar in a tag and a bar in the payload give the same text to the hash.\<close>

lemma passed_seed_ambiguous: "passed_seed source [''a|b''] (Some ''c'') = passed_seed source [''a''] (Some ''b|c'')"
  by (simp add: passed_seed_def unwrap_or_def clean_text_runtime_def inv_words_word is_ws_def char_nat_def)

end
