(* ===== verification/Inversion_Paths.thy ===== *)
theory Inversion_Paths
  imports Inversion_Library Autoscale_Text
begin

text \<open>
  The paths of the inversion engine (\<^verbatim>\<open>core/layer2/execution/src/inversion.rs\<close>): components, relative paths, paths inside the
  repository and the table of the state files. A path is a text; \<^verbatim>\<open>Path::join\<close> and \<^verbatim>\<open>is_absolute\<close> are those of Unix.
\<close>

section \<open>Components\<close>

definition normalize_slashes :: "string \<Rightarrow> string" where
  "normalize_slashes value = map (\<lambda>c. if c = CHR 0x5C then CHR ''/'' else c) value"

definition component_step :: "bool \<Rightarrow> string \<Rightarrow> string list \<Rightarrow> string list" where
  "component_step prefix_empty raw parts =
     (if raw = [] \<or> raw = ''.'' then parts
      else if raw = ''..''
      then (if parts \<noteq> [] \<and> last parts \<noteq> ''..'' then butlast parts else if prefix_empty then parts @ [''..''] else parts)
      else parts @ [raw])"

definition path_loop :: "bool \<Rightarrow> string list \<Rightarrow> string list \<Rightarrow> string list" where
  "path_loop prefix_empty parts raws = fold (component_step prefix_empty) raws parts"

definition path_prefix :: "string \<Rightarrow> string \<times> string" where
  "path_prefix normalized =
     (if length normalized \<ge> 2 \<and> normalized ! 1 = CHR '':'' then (to_ascii_lowercase (take 2 normalized), drop 2 normalized)
      else case strip_prefix normalized ''/'' of Some stripped \<Rightarrow> (''/'', stripped) | None \<Rightarrow> ([], normalized))"

definition split_path_components :: "string \<Rightarrow> string \<times> string list" where
  "split_path_components value =
     (let (pre, cursor) = path_prefix (normalize_slashes (trim value))
      in (pre, path_loop (pre = []) [] (split_on CHR ''/'' cursor)))"

section \<open>Relative paths\<close>

fun common_loop :: "string list \<Rightarrow> string list \<Rightarrow> nat" where
  "common_loop (r # rs) (f # fs) = (if r \<noteq> f then 0 else Suc (common_loop rs fs))"
| "common_loop _ _ = 0"

definition rel_path_runtime :: "string \<Rightarrow> string \<Rightarrow> string" where
  "rel_path_runtime root0 file_path =
     (let root_clean = trim root0; file_clean = trim file_path; normalized_file = normalize_slashes file_clean in
      if file_clean = [] then []
      else if root_clean = [] then normalized_file
      else let (root_prefix, root_parts) = split_path_components root_clean;
               (file_prefix, file_parts) = split_path_components file_clean
           in if root_prefix \<noteq> file_prefix then normalized_file
              else let common = common_loop root_parts file_parts
                   in join ''/'' (replicate (length root_parts - common) ''..'' @ drop common file_parts))"

definition compute_rel_path :: "string option \<Rightarrow> string option \<Rightarrow> string" where
  "compute_rel_path root0 file_path = rel_path_runtime (unwrap_or root0 []) (unwrap_or file_path [])"

definition compute_safe_rel_path :: "string option \<Rightarrow> string option \<Rightarrow> string" where
  "compute_safe_rel_path root0 file_path =
     (let rel = rel_path_runtime (unwrap_or root0 []) (unwrap_or file_path [])
      in if rel = [] \<or> starts_with rel ''..'' then normalize_slashes (unwrap_or file_path []) else rel)"

definition compute_normalize_repo_path :: "string option \<Rightarrow> string option \<Rightarrow> string option \<Rightarrow> string" where
  "compute_normalize_repo_path value fallback root0 =
     (let raw = clean_text_runtime (unwrap_or value []) 420
      in if raw = [] then unwrap_or fallback []
         else if path_is_absolute raw then raw
         else path_join (unwrap_or root0 []) raw)"

section \<open>The state files\<close>

definition env_path :: "string \<Rightarrow> string option \<Rightarrow> string \<Rightarrow> string" where
  "env_path root0 env0 default_path =
     (let env = trim (unwrap_or env0 [])
      in if env = [] then default_path else if path_is_absolute env then env else path_join root0 env)"

definition state_file_table :: "(string \<times> string list) list" where
  "state_file_table =
     [(''latest_path'', [''latest.json'']), (''history_path'', [''history.jsonl'']), (''maturity_path'', [''maturity.json'']),
      (''tier_governance_path'', [''tier_governance.json'']), (''observer_approvals_path'', [''observer_approvals.jsonl'']),
      (''harness_state_path'', [''maturity_harness.json'']), (''active_sessions_path'', [''active_sessions.json'']),
      (''library_path'', [''library.jsonl'']), (''receipts_path'', [''receipts.jsonl'']),
      (''first_principles_dir'', [''first_principles'']),
      (''first_principles_latest_path'', [''first_principles'', ''latest.json'']),
      (''first_principles_history_path'', [''first_principles'', ''history.jsonl'']),
      (''first_principles_lock_path'', [''first_principles'', ''lock_state.json'']),
      (''code_change_proposals_dir'', [''code_change_proposals'']),
      (''code_change_proposals_latest_path'', [''code_change_proposals'', ''latest.json'']),
      (''code_change_proposals_history_path'', [''code_change_proposals'', ''history.jsonl'']),
      (''organ_dir'', [''organ'']), (''organ_latest_path'', [''organ'', ''latest.json'']),
      (''organ_history_path'', [''organ'', ''history.jsonl'']), (''tree_latest_path'', [''tree'', ''latest.json'']),
      (''tree_history_path'', [''tree'', ''history.jsonl'']), (''interfaces_dir'', [''interfaces'']),
      (''interfaces_latest_path'', [''interfaces'', ''latest.json'']),
      (''interfaces_history_path'', [''interfaces'', ''history.jsonl'']), (''events_dir'', [''events''])]"

definition compute_runtime_paths ::
  "string option \<Rightarrow> string option \<Rightarrow> string option \<Rightarrow> string option \<Rightarrow> string option \<Rightarrow> json" where
  "compute_runtime_paths policy_path inversion_state_dir_env dual_brain_policy_path_env default_state_dir root0 =
     (let root1 = unwrap_or root0 [];
          state_dir = env_path root1 inversion_state_dir_env (unwrap_or default_state_dir []);
          dual_brain_policy_path = env_path root1 dual_brain_policy_path_env
            (path_join (path_join root1 ''config'') ''dual_brain_policy.json'');
          mk = (\<lambda>parts. fold (\<lambda>part p. path_join p part) parts state_dir)
      in json_object ([(''policy_path'', JStr (unwrap_or policy_path [])), (''state_dir'', JStr state_dir)] @
           map (\<lambda>(k, parts). (k, JStr (mk parts))) state_file_table @
           [(''dual_brain_policy_path'', JStr dual_brain_policy_path)]))"


section \<open>A relative path leads from the root to the file\<close>

text \<open>A component as the scan leaves it below an absolute prefix.\<close>

definition plain_part :: "string \<Rightarrow> bool" where
  "plain_part p = (p \<noteq> [] \<and> p \<noteq> ''.'' \<and> p \<noteq> ''..'')"

lemma path_loop_append: "path_loop b ps (rs @ qs) = path_loop b (path_loop b ps rs) qs"
  by (simp add: path_loop_def)

lemma set_butlast: "set (butlast xs) \<subseteq> set xs"
  by (auto dest: in_set_butlastD)

lemma component_step_plain: "list_all plain_part ps \<Longrightarrow> list_all plain_part (component_step False raw ps)"
  using set_butlast [of ps] unfolding list_all_iff by (auto simp: component_step_def plain_part_def)

lemma path_loop_plain: "list_all plain_part ps \<Longrightarrow> list_all plain_part (path_loop False ps rs)"
  unfolding path_loop_def by (induction rs arbitrary: ps) (simp_all add: component_step_plain)

lemma path_loop_id: "list_all plain_part qs \<Longrightarrow> path_loop False ps qs = ps @ qs"
  unfolding path_loop_def by (induction qs arbitrary: ps) (simp_all add: plain_part_def component_step_def)

lemma component_step_up: "list_all plain_part ps \<Longrightarrow> component_step False ''..'' ps = butlast ps"
  by (cases ps rule: rev_cases) (simp_all add: component_step_def plain_part_def)

lemma list_all_butlast: "list_all P ps \<Longrightarrow> list_all P (butlast ps)"
  using set_butlast [of ps] by (auto simp: list_all_iff)

lemma path_loop_up: "list_all plain_part ps \<Longrightarrow> path_loop False ps (replicate n ''..'') = take (length ps - n) ps"
  unfolding path_loop_def
proof (induction n arbitrary: ps)
  case (Suc n)
  have "fold (component_step False) (replicate (Suc n) ''..'') ps = fold (component_step False) (replicate n ''..'') (butlast ps)"
    using Suc.prems by (simp add: component_step_up)
  also have "\<dots> = take (length (butlast ps) - n) (butlast ps)" using Suc by (simp add: list_all_butlast)
  finally show ?case by (cases ps rule: rev_cases) simp_all
qed simp

lemma component_step_parts: "set (component_step False raw ps) \<subseteq> insert raw (set ps)"
  using set_butlast [of ps] by (auto simp: component_step_def)

lemma path_loop_parts: "set (path_loop False ps rs) \<subseteq> set ps \<union> set rs"
  unfolding path_loop_def
proof (induction rs arbitrary: ps)
  case (Cons r rs)
  from this [of "component_step False r ps"] component_step_parts [of r ps] show ?case by auto
qed simp

lemma common_loop_take: "take (common_loop rs fs) rs = take (common_loop rs fs) fs \<and> common_loop rs fs \<le> length rs"
  by (induction rs fs rule: common_loop.induct) auto

text \<open>Up from the root to the common part and down to the file.\<close>

lemma rejoin_parts:
  assumes "list_all plain_part rs" and "list_all plain_part fs"
  shows "path_loop False rs (replicate (length rs - common_loop rs fs) ''..'' @ drop (common_loop rs fs) fs) = fs"
proof -
  let ?c = "common_loop rs fs"
  have "list_all plain_part (drop ?c fs)" using assms(2) by (auto simp: list_all_iff dest: in_set_dropD)
  moreover have "take (length rs - (length rs - ?c)) rs = take ?c fs" using common_loop_take [of rs fs] by simp
  ultimately show ?thesis using assms by (simp add: path_loop_append path_loop_up path_loop_id)
qed

lemma split_on_append: "split_on d (s @ d # t) = split_on d s @ split_on d t"
proof -
  have "split_on_acc d acc (s @ d # t) = split_on_acc d acc s @ split_on_acc d [] t" for acc
    by (induction d acc s rule: split_on_acc.induct) auto
  then show ?thesis by (simp add: split_on_def)
qed

lemma split_on_chars: "p \<in> set (split_on d s) \<Longrightarrow> set p \<subseteq> set s - {d}"
proof -
  have "p \<in> set (split_on_acc d acc s) \<Longrightarrow> d \<notin> set acc \<Longrightarrow> set p \<subseteq> (set acc \<union> set s) - {d}" for acc
    by (induction d acc s rule: split_on_acc.induct) (auto split: if_splits)
  then show "p \<in> set (split_on d s) \<Longrightarrow> set p \<subseteq> set s - {d}" unfolding split_on_def by fastforce
qed

lemma path_loop_split_join:
  assumes "list_all (\<lambda>p. CHR ''/'' \<notin> set p) qs"
  shows "path_loop b ps (split_on CHR ''/'' (join ''/'' qs)) = path_loop b ps qs"
proof (cases "qs = []")
  case False
  then show ?thesis using split_on_join [of qs "CHR ''/''"] assms by (simp add: list_all_iff)
qed (simp add: split_on_def path_loop_def component_step_def)

lemma path_prefix_extend:
  assumes "path_prefix s = (pre, cursor)" and "pre \<noteq> []"
  shows "path_prefix (s @ CHR ''/'' # t) = (pre, cursor @ CHR ''/'' # t)"
proof (cases "length s \<ge> 2 \<and> s ! 1 = CHR '':''")
  case True
  then show ?thesis using assms by (auto simp: path_prefix_def nth_append)
next
  case False
  then have s: "s = CHR ''/'' # cursor" "pre = ''/''"
    using assms by (cases s; auto simp: path_prefix_def strip_prefix_def starts_with_def split: if_splits)+
  moreover have "(s @ CHR ''/'' # t) ! 1 \<noteq> CHR '':''" using s False by (cases cursor) auto
  ultimately show ?thesis by (simp add: path_prefix_def strip_prefix_def starts_with_def)
qed

lemma path_prefix_chars: "path_prefix s = (pre, cursor) \<Longrightarrow> set cursor \<subseteq> set s"
  by (auto simp: path_prefix_def strip_prefix_def split: if_splits dest: in_set_dropD)

lemma normalize_slashes_append: "normalize_slashes (s @ t) = normalize_slashes s @ normalize_slashes t"
  by (simp add: normalize_slashes_def)

lemma file_parts_chars:
  assumes "snd (split_path_components f) = parts" and "p \<in> set parts" and "fst (split_path_components f) \<noteq> []" and "list_all (\<lambda>c. \<not> is_ws c) f"
  shows "plain_part p \<and> CHR ''/'' \<notin> set p \<and> CHR 0x5C \<notin> set p \<and> list_all (\<lambda>c. \<not> is_ws c) p"
proof -
  obtain pre cursor where pc: "path_prefix (normalize_slashes (trim f)) = (pre, cursor)" by (cases "path_prefix (normalize_slashes (trim f))")
  then have ne: "pre \<noteq> []" and parts: "parts = path_loop False [] (split_on CHR ''/'' cursor)"
    using assms by (simp_all add: split_path_components_def)
  have "p \<in> set (split_on CHR ''/'' cursor)" using assms(2) path_loop_parts [of "[]"] parts by auto
  then have "set p \<subseteq> set (normalize_slashes (trim f)) - {CHR ''/''}"
    using split_on_chars path_prefix_chars [OF pc] by blast
  moreover have "set (trim f) \<subseteq> set f" using trim_infix [of f] by (metis Un_iff set_append subsetI)
  moreover have "plain_part p" using path_loop_plain [of "[]"] assms(2) by (auto simp: parts list_all_iff)
  ultimately show ?thesis using assms(4)
    by (fastforce simp: normalize_slashes_def list_all_iff is_ws_def char_nat_def)
qed

lemma split_parts_plain: "fst (split_path_components s) \<noteq> [] \<Longrightarrow> list_all plain_part (snd (split_path_components s))"
  by (cases "path_prefix (normalize_slashes (trim s))") (simp add: split_path_components_def path_loop_plain)

lemma split_trim [simp]: "split_path_components (trim s) = split_path_components s"
  by (simp add: split_path_components_def)

lemma split_path_extend:
  assumes "fst (split_path_components r) \<noteq> []" and "list_all (\<lambda>c. \<not> is_ws c) t" and "list_all (\<lambda>c. c \<noteq> CHR 0x5C) t"
  shows "split_path_components (trim r @ CHR ''/'' # t) =
    (fst (split_path_components r), path_loop False (snd (split_path_components r)) (split_on CHR ''/'' t))"
proof -
  obtain pre cursor where pc: "path_prefix (normalize_slashes (trim r)) = (pre, cursor)" by (cases "path_prefix (normalize_slashes (trim r))")
  then have ne: "pre \<noteq> []" using assms(1) by (simp add: split_path_components_def)
  then have r: "trim r \<noteq> []" using pc by (auto simp: path_prefix_def normalize_slashes_def strip_prefix_def starts_with_def)
  have "\<not> is_ws (last (trim r @ CHR ''/'' # t))" using assms(2) by (auto simp: list_all_iff is_ws_def char_nat_def)
  then have "trim (trim r @ CHR ''/'' # t) = trim r @ CHR ''/'' # t" using r hd_trim [OF r] by (intro trim_id) simp_all
  moreover have "normalize_slashes (trim r @ CHR ''/'' # t) = normalize_slashes (trim r) @ CHR ''/'' # t"
  proof -
    have "map (\<lambda>c. if c = CHR 0x5C then CHR ''/'' else c) t = t" using assms(3) by (intro map_idI) (auto simp: list_all_iff)
    then show ?thesis by (simp add: normalize_slashes_def)
  qed
  ultimately show ?thesis
    using path_prefix_extend [OF pc ne, of t] pc ne by (simp add: split_path_components_def split_on_append path_loop_append)
qed

lemma join_chars: "list_all P sep \<Longrightarrow> list_all (list_all P) xs \<Longrightarrow> list_all P (join sep xs)"
  by (induction sep xs rule: join.induct) auto

text \<open>C19: A relative path between absolute paths leads back to the file. For a root and a file with the same absolute
  prefix (both under \<open>/\<close>, or both under one drive), and a file path without white space, joining the root and the
  relative path gives the components of the file again; dots, double slashes and steps to the parent may occur in
  both. Both hypotheses are needed: relative roots that go up are not undone (\<open>relative_root_not_undone\<close>), and
  blanks at the end of the relative path are trimmed.\<close>

theorem rel_path_rejoins:
  assumes "file \<noteq> []" and "list_all (\<lambda>c. \<not> is_ws c) file" and "fst (split_path_components file) \<noteq> []"
    and "fst (split_path_components root0) = fst (split_path_components file)"
  shows "split_path_components (trim root0 @ ''/'' @ compute_rel_path (Some root0) (Some file)) = split_path_components file"
proof -
  let ?rs = "snd (split_path_components root0)" and ?fs = "snd (split_path_components file)"
  let ?out = "replicate (length ?rs - common_loop ?rs ?fs) ''..'' @ drop (common_loop ?rs ?fs) ?fs"
  have "trim file = file" using assms(1,2) by (intro trim_id) (auto simp: list_all_iff)
  moreover have "trim root0 \<noteq> []" using assms(3,4)
    by (auto simp: split_path_components_def path_prefix_def normalize_slashes_def strip_prefix_def starts_with_def)
  ultimately have rel: "compute_rel_path (Some root0) (Some file) = join ''/'' ?out"
    using assms(1,4) by (simp add: compute_rel_path_def rel_path_runtime_def Let_def unwrap_or_def case_prod_unfold)
  have parts: "plain_part p \<and> CHR ''/'' \<notin> set p \<and> CHR 0x5C \<notin> set p \<and> list_all (\<lambda>c. \<not> is_ws c) p" if "p \<in> set ?fs" for p
    using file_parts_chars [OF refl that assms(3,2)] .
  then have out: "CHR ''/'' \<notin> set p \<and> CHR 0x5C \<notin> set p \<and> list_all (\<lambda>c. \<not> is_ws c) p" if "p \<in> set ?out" for p
    using that by (auto dest!: in_set_dropD simp: is_ws_def char_nat_def)
  have "list_all (list_all (\<lambda>c. \<not> is_ws c)) ?out" "list_all (list_all (\<lambda>c. c \<noteq> CHR 0x5C)) ?out"
    using out unfolding list_all_iff by blast+
  then have "list_all (\<lambda>c. \<not> is_ws c) (join ''/'' ?out)" "list_all (\<lambda>c. c \<noteq> CHR 0x5C) (join ''/'' ?out)"
    by (intro join_chars; simp add: is_ws_def char_nat_def)+
  note ext = split_path_extend [OF _ this, of root0]
  have "list_all (\<lambda>p. CHR ''/'' \<notin> set p) ?out" using out unfolding list_all_iff by blast
  then have "path_loop False ?rs (split_on CHR ''/'' (join ''/'' ?out)) = path_loop False ?rs ?out" by (rule path_loop_split_join)
  also have "\<dots> = ?fs"
  proof (rule rejoin_parts)
    show "list_all plain_part ?rs" using assms(3,4) by (intro split_parts_plain) simp
    show "list_all plain_part ?fs" using parts by (simp add: list_all_iff)
  qed
  finally show ?thesis using ext assms(3,4) by (simp add: rel prod_eq_iff)
qed

theorem rel_path_rejoins_witness:
  "split_path_components (trim ''/srv/./app/x'' @ ''/'' @ compute_rel_path (Some ''/srv/./app/x'') (Some ''/srv/lib/../app//state.json'')) =
     split_path_components ''/srv/lib/../app//state.json''"
proof (rule rel_path_rejoins)
  show "fst (split_path_components ''/srv/lib/../app//state.json'') \<noteq> []"
    "fst (split_path_components ''/srv/./app/x'') = fst (split_path_components ''/srv/lib/../app//state.json'')"
    by (code_simp, code_simp)
  show "list_all (\<lambda>c. \<not> is_ws c) ''/srv/lib/../app//state.json''" by code_simp
qed simp

text \<open>Between relative paths this fails: a root that goes up is not undone.\<close>

lemma relative_root_not_undone:
  "compute_rel_path (Some ''../a'') (Some ''b'') = ''../../b''"
  by code_simp

text \<open>A file of the root whose name begins with two dots counts as outside.\<close>

lemma dotted_name_outside: "compute_safe_rel_path (Some ''/r'') (Some ''/r/..x'') = ''/r/..x''"
  by code_simp

section \<open>The state files are apart\<close>

text \<open>In the table of the runtime, the file of the sessions is none of the files a sweep appends to, whatever the directory
  and the date are: the names end differently.\<close>

lemma last_path_join: "p \<noteq> [] \<Longrightarrow> last (path_join d p) = last p"
  by (simp add: path_join_def)

lemma last_trim_id: "s \<noteq> [] \<Longrightarrow> \<not> is_ws (last s) \<Longrightarrow> trim s \<noteq> [] \<and> last (trim s) = last s"
proof -
  assume s: "s \<noteq> []" "\<not> is_ws (last s)"
  obtain p q where pq: "s = p @ trim s @ q" "\<forall>c \<in> set p \<union> set q. is_ws c" using trim_infix [of s] by blast
  have q: "q = []"
  proof (rule ccontr)
    assume "q \<noteq> []"
    then have "last s = last q" using arg_cong [OF pq(1), of last] by simp
    then show False using s pq(2) \<open>q \<noteq> []\<close> last_in_set [of q] by simp
  qed
  have "trim s \<noteq> []"
  proof
    assume "trim s = []"
    then have "s = p" using pq(1) q by simp
    then show False using s pq(2) last_in_set [of s] by simp
  qed
  then show ?thesis using arg_cong [OF pq(1), of last] q by simp
qed

lemma runtime_sessions_apart:
  "sessions_apart (Some (compute_runtime_paths policy_path state_env dual_env default_dir root0)) date"
proof -
  let ?P = "Some (compute_runtime_paths policy_path state_env dual_env default_dir root0)"
  obtain d where get: "path_field ?P ''active_sessions_path'' = Some (path_join d ''active_sessions.json'')"
    "path_field ?P ''receipts_path'' = Some (path_join d ''receipts.jsonl'')"
    "path_field ?P ''library_path'' = Some (path_join d ''library.jsonl'')"
    by (simp add: compute_runtime_paths_def Let_def state_file_table_def json_get_object path_field_def obj_get_def)
  have e: "trim (path_join x (p @ [c])) \<noteq> [] \<and> last (trim (path_join x (p @ [c]))) = c" if "\<not> is_ws c" for x p c
  proof -
    have "path_join x (p @ [c]) \<noteq> [] \<and> last (path_join x (p @ [c])) = c" using last_path_join [of "p @ [c]" x] by (auto simp: path_join_def)
    then show ?thesis using last_trim_id [of "path_join x (p @ [c])"] that by simp
  qed
  have w: "\<not> is_ws CHR ''n''" "\<not> is_ws CHR ''l''" by (simp_all add: is_ws_def char_nat_def)
  have n: "last (trim (path_join d ''active_sessions.json'')) = CHR ''n''" using e [OF w(1), of d "''active_sessions.jso''"] by simp
  have l: "last (trim (path_join x (p @ ''.jsonl''))) = CHR ''l''" for x p using e [OF w(2), of x "p @ ''.json''"] by simp
  from l [of d "''receipts''"] l [of d "''library''"] n l show ?thesis
    unfolding sessions_apart_def Let_def get file_path_of_def by (auto simp: unwrap_or_def dest: arg_cong [where f = last])
qed

end
