(* ===== verification/Inversion_Trials.thy ===== *)
theory Inversion_Trials
  imports Inversion_Library
begin

text \<open>
  What the inversion engine tries and when (\<^verbatim>\<open>core/layer2/execution/src/inversion.rs\<close>): candidates from a model, from
  heuristics and by mutation, the score of a trial, drift and parity from the probes, the penalty for lanes, candidates
  from the library, the trigger of an impossibility, and the principles drawn from success and from clusters of failures.
\<close>

section \<open>Candidates\<close>

record inversion_candidate_row =
  cr_id :: string
  cr_filters :: "string list"
  cr_source :: string
  cr_probability :: f64
  cr_rationale :: string

definition unit_round :: "f64 \<Rightarrow> f64" where
  "unit_round x = round6 (clamp_number x (Fin 0) (Fin 1))"

definition first_of :: "json \<Rightarrow> string list \<Rightarrow> json option" where
  "first_of row keys = Option.bind (find (\<lambda>k. json_get row k \<noteq> None) keys) (json_get row)"

definition llm_candidate :: "libs \<Rightarrow> nat \<times> json \<Rightarrow> inversion_candidate_row option" where
  "llm_candidate L = (\<lambda>(idx, row).
     let filters = take 8 (compute_normalize_list L
           (Some (unwrap_or (first_of row [''filters'', ''filter_stack'', ''filterStack'']) (JStr []))) (Some 120));
         fallback_id = ''llm_'' @ show_nat (idx + 1);
         id_raw = (case json_get row ''id'' of Some v \<Rightarrow> value_to_string L (Some v) | None \<Rightarrow> fallback_id)
     in if filters = [] then None
        else Some \<lparr> cr_id = nonempty_or (normalize_token_runtime id_raw 80) fallback_id, cr_filters = filters,
               cr_source = ''right_brain_llm'',
               cr_probability = unit_round (unwrap_or (parse_number_like (json_get row ''probability'')) (f64_lit (55 / 100))),
               cr_rationale = clean_text_runtime (value_to_string L (first_of row [''rationale'', ''reason''])) 220 \<rparr>)"

definition compute_parse_candidate_list_from_llm_payload :: "libs \<Rightarrow> json option \<Rightarrow> inversion_candidate_row list" where
  "compute_parse_candidate_list_from_llm_payload L payload =
     (let rows = (case payload of
            Some (JArr arr) \<Rightarrow> arr
          | Some (JObj m) \<Rightarrow> array_rows (bt_get m ''candidates'')
          | _ \<Rightarrow> [])
      in List.map_filter (llm_candidate L) (List.enumerate 0 rows))"

definition heuristic_stacks :: "(string \<Rightarrow> bool) \<Rightarrow> string list list" where
  "heuristic_stacks has_tag =
     [[''assumption_inversion'', ''constraint_reframe''], [''resource_rebalance'', ''path_split''],
      [''goal_decomposition'', ''fallback_pathing''], [''evidence_intensification'', ''risk_guard_compaction''],
      [''time_horizon_reframe'', ''bounded_parallel_probe''], [''negative_space_scan'', ''safe_counterfactual'']] @
     (if has_tag ''budget'' \<or> has_tag ''cost'' then [[''cost_lane_swap'', ''constraint_reframe'']] else []) @
     (if has_tag ''yield'' \<or> has_tag ''quality'' then [[''yield_reframe'', ''verification_gate'']] else []) @
     (if has_tag ''drift'' then [[''drift_anchor'', ''identity_guard'']] else [])"

definition compute_heuristic_filter_candidates :: "libs \<Rightarrow> string option \<Rightarrow> inversion_candidate_row list" where
  "compute_heuristic_filter_candidates L objective =
     (let tags = compute_tokenize_text (Some (unwrap_or objective [])) (Some 64)
      in map (\<lambda>(idx, filters).
           \<lparr> cr_id = ''heur_'' @ show_nat (idx + 1),
             cr_filters = take 8 (compute_normalize_list L (Some (json_str_list filters)) (Some 120)),
             cr_source = ''heuristic'',
             cr_probability = unit_round (f64_add (f64_lit (42 / 100)) (f64_mul (f64_of_nat idx) (f64_lit (3 / 100)))),
             cr_rationale = ''heuristic seed'' \<rparr>)
         (List.enumerate 0 (heuristic_stacks (\<lambda>needle. needle \<in> set tags))))"

definition mutation_stack :: "string list" where
  "mutation_stack = [''constraint_reframe'', ''goal_decomposition'', ''fallback_pathing'', ''risk_guard_compaction'']"

definition mutate_candidate :: "libs \<Rightarrow> nat \<times> json \<Rightarrow> json" where
  "mutate_candidate L = (\<lambda>(idx, row).
     let filters = compute_normalize_list L (Some (unwrap_or (json_get row ''filters'') (JArr []))) (Some 120) @
           [mutation_stack ! (idx mod length mutation_stack)];
         merged = take 8 (compute_normalize_list L (Some (json_str_list filters)) (Some 120));
         fallback_seed = (if row = JNull then ''{}'' else json_to_string L row);
         id_prefix = (let v = value_to_string L (json_get row ''id'') in if v = [] then stable_id_runtime L fallback_seed ''mut'' else v);
         source_prefix = nonempty_or (value_to_string L (json_get row ''source'')) ''trial'';
         probability = unit_round (f64_mul (js_or_number (json_get row ''probability'') (f64_lit (4 / 10))) (f64_lit (92 / 100)));
         score_hint = unit_round (f64_mul (unwrap_or (parse_number_like (json_get row ''score_hint'')) (Fin 0)) (f64_lit (94 / 100)))
     in JObj (fold (\<lambda>(k, v). bt_insert k v)
          [(''id'', JStr (id_prefix @ ''_m'' @ show_nat (idx + 1))), (''filters'', json_str_list merged),
           (''source'', JStr (source_prefix @ ''_mutated'')), (''probability'', json_f64 probability),
           (''score_hint'', json_f64 score_hint)] (object_of (Some row))))"

definition compute_mutate_trial_candidates :: "libs \<Rightarrow> json list \<Rightarrow> json list" where
  "compute_mutate_trial_candidates L rows = map (mutate_candidate L) (List.enumerate 0 rows)"

section \<open>The score of a trial\<close>

definition compute_score_trial :: "json option \<Rightarrow> json option \<Rightarrow> json option \<Rightarrow> bool option \<Rightarrow> f64" where
  "compute_score_trial decision candidate trial_cfg runtime_probe_pass =
     (let weights = value_path trial_cfg [''score_weights''];
          w_allowed = js_or_number (value_path weights [''decision_allowed'']) (f64_lit (35 / 100));
          w_attractor = js_or_number (value_path weights [''attractor'']) (f64_lit (2 / 10));
          w_certainty = js_or_number (value_path weights [''certainty_margin'']) (f64_lit (15 / 100));
          w_library = js_or_number (value_path weights [''library_similarity'']) (f64_lit (1 / 10));
          w_probe = js_or_number (value_path weights [''runtime_probe'']) (f64_lit (2 / 10));
          weight_total = f64_max (f64_add (f64_add (f64_add (f64_add w_allowed w_attractor) w_certainty) w_library) w_probe)
            (f64_lit (1 / 10000));
          certainty_margin = clamp_number (f64_sub (number_path decision [''input'', ''effective_certainty''] (Fin 0))
            (number_path decision [''gating'', ''required_certainty''] (Fin 0))) (Fin (- 1)) (Fin 1);
          certainty_score = (if f64_le certainty_margin (Fin 0) then Fin 0 else clamp_number certainty_margin (Fin 0) (Fin 1));
          allowed_score = Fin (if js_truthy (value_path decision [''allowed'']) then 1 else 0);
          attractor_score = number_path decision [''attractor'', ''score''] (Fin 0);
          library_score = number_path candidate [''score_hint''] (Fin 0);
          probe_score = Fin (if unwrap_or runtime_probe_pass False then 1 else 0);
          score = f64_div (f64_add (f64_add (f64_add (f64_add (f64_mul allowed_score w_allowed) (f64_mul attractor_score w_attractor))
            (f64_mul certainty_score w_certainty)) (f64_mul library_score w_library)) (f64_mul probe_score w_probe)) weight_total
      in unit_round score)"

section \<open>Probes\<close>

definition first_number :: "json option list \<Rightarrow> f64" where
  "first_number rows = unwrap_or (Option.bind (find (\<lambda>row. parse_number_like row \<noteq> None) rows) parse_number_like) (Fin 0)"

definition has_object :: "json option \<Rightarrow> bool" where
  "has_object v = (case v of Some j \<Rightarrow> json_is_object j | None \<Rightarrow> False)"

definition nonempty_option :: "string option \<Rightarrow> string option" where
  "nonempty_option v = (case v of Some s \<Rightarrow> if s = [] then None else Some s | None \<Rightarrow> None)"

definition compute_read_drift_from_state_file :: "string option \<Rightarrow> string option \<Rightarrow> json option \<Rightarrow> f64 \<times> string" where
  "compute_read_drift_from_state_file file_path source_path payload =
     (let source = clean_text_runtime (unwrap_or (or_else (nonempty_option source_path) file_path) ''none'') 260
      in if \<not> has_object payload then (Fin 0, source)
         else (unit_round (first_number (map (value_path payload)
           [[''drift_rate''], [''predicted_drift''], [''effective_drift_rate''], [''checks_effective'', ''drift_rate'', ''value''],
            [''checks'', ''drift_rate'', ''value''], [''last_decision'', ''drift_rate''], [''last_decision'', ''effective_drift_rate''],
            [''last_decision'', ''checks_effective'', ''drift_rate'', ''value'']])), source))"

definition compute_resolve_lens_gate_drift :: "json list \<Rightarrow> string option \<Rightarrow> string option \<Rightarrow> json option \<Rightarrow> f64 \<times> string" where
  "compute_resolve_lens_gate_drift arg_candidates probe_path probe_source probe_payload =
     (case compute_pick_first_numeric arg_candidates of
        Some value \<Rightarrow> (unit_round value, ''arg'')
      | None \<Rightarrow>
          if unwrap_or probe_path [] = [] then (Fin 0, ''none'')
          else compute_read_drift_from_state_file (Some (unwrap_or probe_path [])) probe_source probe_payload)"

definition compute_resolve_parity_confidence :: "json list \<Rightarrow> string option \<Rightarrow> string option \<Rightarrow> json option \<Rightarrow> f64 \<times> string" where
  "compute_resolve_parity_confidence arg_candidates path_hint path_source payload =
     (case compute_pick_first_numeric arg_candidates of
        Some value \<Rightarrow> (unit_round value, ''arg'')
      | None \<Rightarrow>
          (let hint = unwrap_or path_hint []; source = clean_text_runtime (unwrap_or (nonempty_option path_source) hint) 260
           in if hint = [] then (Fin 0, ''none'')
              else if \<not> has_object payload then (Fin 0, source)
              else (unit_round (first_number (map (value_path payload)
                      [[''confidence''], [''parity_confidence''], [''pass_rate''], [''score'']])), source)))"

section \<open>The penalty for lanes\<close>

record creative_penalty =
  cp_creative_lane_preferred :: bool
  cp_selected_lane :: "string option"
  cp_preferred_lanes :: "string list"
  cp_penalty :: f64
  cp_applied :: bool

definition compute_creative_penalty :: "bool option \<Rightarrow> string list \<Rightarrow> f64 option \<Rightarrow> string option \<Rightarrow> creative_penalty" where
  "compute_creative_penalty enabled preferred_ids non_creative_penalty selected_lane0 =
     (let preferred = filter (\<lambda>row. row \<noteq> []) (map (\<lambda>row. normalize_token_runtime row 120) preferred_ids);
          selected_lane = nonempty_option selected_lane0;
          none = \<lparr> cp_creative_lane_preferred = False, cp_selected_lane = selected_lane, cp_preferred_lanes = preferred,
                   cp_penalty = Fin 0, cp_applied = False \<rparr>
      in if \<not> unwrap_or enabled False then none
         else case selected_lane of
                None \<Rightarrow> none
              | Some selected \<Rightarrow>
                  (let is_preferred = (selected \<in> set preferred);
                       penalty = round6 (clamp_number (if is_preferred then Fin 0 else unwrap_or non_creative_penalty (Fin 0))
                         (Fin 0) (f64_lit (1 / 2)))
                   in \<lparr> cp_creative_lane_preferred = is_preferred, cp_selected_lane = Some selected, cp_preferred_lanes = preferred,
                        cp_penalty = penalty, cp_applied = f64_lt (Fin 0) penalty \<rparr>))"

record output_channel =
  oc_enabled :: bool
  oc_live_enabled :: bool
  oc_test_enabled :: bool
  oc_require_sandbox_verification :: bool
  oc_require_explicit_emit :: bool

definition compute_normalize_output_channel :: "libs \<Rightarrow> json option \<Rightarrow> json option \<Rightarrow> output_channel" where
  "compute_normalize_output_channel L base_out src_out =
     (let flag = (\<lambda>k. to_bool_like L (obj_get src_out k) (map_bool_key L base_out k False))
      in \<lparr> oc_enabled = flag ''enabled'', oc_live_enabled = flag ''live_enabled'', oc_test_enabled = flag ''test_enabled'',
           oc_require_sandbox_verification = flag ''require_sandbox_verification'',
           oc_require_explicit_emit = flag ''require_explicit_emit'' \<rparr>)"


section \<open>Candidates from the library\<close>

definition library_query :: "inv_env \<Rightarrow> json \<Rightarrow> json option \<Rightarrow> json \<Rightarrow> library_match" where
  "library_query E policy query row =
     \<lparr> lm_query_signature_tokens = map (\<lambda>v. env_str E (Some v)) (array_rows (obj_get query ''signature_tokens'')),
       lm_query_trit_vector = array_rows (obj_get query ''trit_vector''),
       lm_query_target = Option.bind (obj_get query ''target'') as_str,
       lm_row_signature_tokens = map (\<lambda>v. env_str E (Some v)) (array_rows (json_get row ''signature_tokens'')),
       lm_row_outcome_trit = Option.bind (json_get row ''outcome_trit'') as_i64,
       lm_row_target = Option.bind (json_get row ''target'') as_str,
       lm_token_weight = Option.bind (value_path (Some policy) [''library'', ''token_weight'']) as_f64,
       lm_trit_weight = Option.bind (value_path (Some policy) [''library'', ''trit_weight'']) as_f64,
       lm_target_weight = Option.bind (value_path (Some policy) [''library'', ''target_weight'']) as_f64 \<rparr>"

definition library_entry :: "inv_env \<Rightarrow> json \<Rightarrow> json option \<Rightarrow> json \<Rightarrow> json" where
  "library_entry E policy query row =
     (let similarity = compute_library_match_score (library_query E policy query row);
          base_certainty = clamp_number (unwrap_or (js_number_for_extract (json_get row ''certainty'')) (Fin 0)) (Fin 0) (Fin 1);
          outcome_trit = normalize_trit_value (unwrap_or (json_get row ''outcome_trit'') JNull);
          confidence_multiplier = (if outcome_trit = 1 then Fin 1 else if outcome_trit = 0 then f64_lit (9 / 10) else f64_lit (6 / 10));
          candidate_certainty = clamp_number (f64_mul base_certainty confidence_multiplier) (Fin 0) (Fin 1)
      in json_object [(''row'', row), (''similarity'', json_f64 (round6 similarity)),
           (''candidate_certainty'', json_f64 (round6 candidate_certainty))])"

definition entry_number :: "string \<Rightarrow> json \<Rightarrow> f64" where
  "entry_number k entry = unwrap_or (js_number_for_extract (json_get entry k)) (Fin 0)"

definition entry_ts :: "inv_env \<Rightarrow> json \<Rightarrow> string" where
  "entry_ts E entry = env_str E (obj_get (json_get entry ''row'') ''ts'')"

text \<open>\<^verbatim>\<open>(y - x).abs() > f64::EPSILON\<close>.\<close>

definition differs :: "f64 \<Rightarrow> f64 \<Rightarrow> bool" where
  "differs x y = (let d = f64_sub y x in f64_lt (Fin (1 / 2 ^ 52)) (if f64_lt d (Fin 0) then f64_neg d else d))"

text \<open>The comparison does not put the first entry after the second.\<close>

definition entry_le :: "inv_env \<Rightarrow> json \<Rightarrow> json \<Rightarrow> bool" where
  "entry_le E a b =
     (let a_sim = entry_number ''similarity'' a; b_sim = entry_number ''similarity'' b;
          a_cert = entry_number ''candidate_certainty'' a; b_cert = entry_number ''candidate_certainty'' b
      in if differs a_sim b_sim then \<not> f64_lt a_sim b_sim
         else if differs a_cert b_cert then \<not> f64_lt a_cert b_cert
         else entry_ts E b \<le> entry_ts E a)"

definition compute_select_library_candidates :: "inv_env \<Rightarrow> files \<Rightarrow> string option \<Rightarrow> json option \<Rightarrow> json option \<Rightarrow> json list" where
  "compute_select_library_candidates E fs file_path policy0 query =
     (let policy = unwrap_or policy0 (JObj []);
          rows = map (\<lambda>row. compute_normalize_library_row E (Some row)) (compute_read_jsonl E fs file_path);
          min_similarity = unwrap_or (js_number_for_extract (value_path (Some policy) [''library'', ''min_similarity_for_reuse'']))
            (f64_lit (35 / 100))
      in sort_by (entry_le E) (filter (\<lambda>entry. f64_le min_similarity (entry_number ''similarity'' entry))
           (map (library_entry E policy query) rows)))"

section \<open>The trigger of an impossibility\<close>

record impossibility_trigger =
  it_triggered :: bool
  it_forced :: bool
  it_enabled :: bool
  it_score :: f64
  it_threshold :: f64
  it_signal_count :: int
  it_min_signal_count :: int
  it_reasons :: "string list"
  it_components :: json

definition unit_number :: "json option \<Rightarrow> f64 \<Rightarrow> f64" where
  "unit_number v fallback = clamp_number (unwrap_or (js_number_for_extract v) fallback) (Fin 0) (Fin 1)"

definition warn_scores :: "f64 \<Rightarrow> f64 \<Rightarrow> f64 \<Rightarrow> f64 \<Rightarrow> f64 \<times> f64" where
  "warn_scores predicted_drift drift_warn predicted_yield yield_warn =
     (if f64_le predicted_drift drift_warn then Fin 0
      else clamp_number (f64_div (f64_sub predicted_drift drift_warn) (f64_max (f64_sub (Fin 1) drift_warn) (f64_lit (1 / 10000))))
             (Fin 0) (Fin 1),
      if f64_le yield_warn predicted_yield then Fin 0
      else clamp_number (f64_div (f64_sub yield_warn predicted_yield) (f64_max yield_warn (f64_lit (1 / 10000)))) (Fin 0) (Fin 1))"

definition trigger_signals :: "libs \<Rightarrow> json option \<Rightarrow> json option \<Rightarrow> (string \<times> f64) list" where
  "trigger_signals L signals thresholds =
     (let sig = value_path signals; trit = normalize_trit_value (unwrap_or (sig [''trit'', ''value'']) JNull);
          (drift_score, yield_gap_score) = warn_scores
            (unit_number (sig [''simulation'', ''predicted_drift'']) (Fin 0)) (unit_number (obj_get thresholds ''predicted_drift_warn'') (f64_lit (3 / 100)))
            (unit_number (sig [''simulation'', ''predicted_yield'']) (Fin 0)) (unit_number (obj_get thresholds ''predicted_yield_warn'') (f64_lit (68 / 100)))
      in [(''trit_pain_or_uncertain'', if trit < 0 then Fin 1 else if trit = 0 then f64_lit (1 / 2) else Fin 0),
          (''mirror_pressure_signal'', unit_number (sig [''mirror'', ''pressure_score'']) (Fin 0)),
          (''predicted_drift_above_warn'', drift_score), (''predicted_yield_below_warn'', yield_gap_score),
          (''red_team_critical_present'', Fin (if clamp_int_value (sig [''red_team'', ''critical_fail_cases'']) 0 100000 0 > 0 then 1 else 0)),
          (''regime_constrained'', Fin (if to_bool_like L (sig [''regime'', ''constrained'']) False then 1 else 0))])"

definition trigger_weights :: "json option \<Rightarrow> f64 list" where
  "trigger_weights weights = map (\<lambda>(k, d). unwrap_or (js_number_for_extract (obj_get weights k)) (f64_lit d))
     [(''trit_pain'', 2 / 10), (''mirror_pressure'', 2 / 10), (''predicted_drift'', 18 / 100), (''predicted_yield_gap'', 18 / 100),
      (''red_team_critical'', 14 / 100), (''regime_constrained'', 1 / 10)]"

text \<open>A sum from left to right.\<close>

fun f64_sum :: "f64 list \<Rightarrow> f64" where
  "f64_sum [] = Fin 0"
| "f64_sum (x # xs) = fold (\<lambda>y acc. f64_add acc y) xs x"

definition trigger_score :: "f64 list \<Rightarrow> f64 list \<Rightarrow> f64" where
  "trigger_score values weights =
     clamp_number (f64_div (f64_sum (map2 f64_mul values weights)) (f64_max (f64_sum weights) (f64_lit (1 / 10000)))) (Fin 0) (Fin 1)"

definition compute_evaluate_impossibility_trigger :: "libs \<Rightarrow> json option \<Rightarrow> json option \<Rightarrow> bool option \<Rightarrow> impossibility_trigger" where
  "compute_evaluate_impossibility_trigger L policy signals force0 =
     (let cfg = value_path policy [''organ'', ''trigger_detection'']; force = unwrap_or force0 False;
          threshold = unit_number (obj_get cfg ''min_impossibility_score'') (f64_lit (58 / 100));
          min_signal_count = clamp_int_value (obj_get cfg ''min_signal_count'') 1 12 2;
          enabled = to_bool_like L (obj_get cfg ''enabled'') False;
          parts = trigger_signals L signals (obj_get cfg ''thresholds'');
          score = trigger_score (map snd parts) (trigger_weights (obj_get cfg ''weights''));
          active = filter (\<lambda>(reason, v). f64_lt (Fin 0) v) parts;
          signal_count = int (length active);
          value = (\<lambda>i. snd (parts ! i))
      in if \<not> enabled \<and> \<not> force
         then \<lparr> it_triggered = False, it_forced = False, it_enabled = False, it_score = Fin 0, it_threshold = round6 threshold,
                it_signal_count = 0, it_min_signal_count = min_signal_count, it_reasons = [''trigger_detection_disabled''],
                it_components = JObj [] \<rparr>
         else \<lparr> it_triggered = (force \<or> (f64_le threshold score \<and> signal_count \<ge> min_signal_count)), it_forced = force,
                it_enabled = enabled, it_score = round6 score, it_threshold = round6 threshold, it_signal_count = signal_count,
                it_min_signal_count = min_signal_count,
                it_reasons = take 12 ((if force then [''forced''] else []) @ map fst active),
                it_components = json_object [(''trit_pain'', json_f64 (round6 (value 0))), (''mirror_pressure'', json_f64 (round6 (value 1))),
                  (''predicted_drift'', json_f64 (round6 (value 2))), (''predicted_yield_gap'', json_f64 (round6 (value 3))),
                  (''red_team_critical'', json_f64 (value 4)), (''regime_constrained'', json_f64 (value 5))] \<rparr>)"


section \<open>Principles\<close>

definition session_filters :: "inv_env \<Rightarrow> json option \<Rightarrow> string" where
  "session_filters E session = join '', '' (compute_normalize_list (iv_libs E) (Some (unwrap_or (obj_get session ''filter_stack'') (JArr []))) (Some 120))"

definition session_text :: "inv_env \<Rightarrow> json option \<Rightarrow> string \<Rightarrow> nat \<Rightarrow> string" where
  "session_text E session k n = clean_text_runtime (env_str E (obj_get session k)) n"

definition session_target :: "inv_env \<Rightarrow> json option \<Rightarrow> string" where
  "session_target E session = compute_normalize_target (Some (env_str E (obj_get session ''target'')))"

definition principle_statement :: "inv_env \<Rightarrow> json option \<Rightarrow> json option \<Rightarrow> json option \<Rightarrow> string" where
  "principle_statement E policy session args =
     (let principle_text = clean_text_runtime (env_str E (or_else (obj_get args ''principle'') (obj_get args ''first-principle''))) 360;
          auto_extract = to_bool_like (iv_libs E) (value_path policy [''first_principles'', ''auto_extract_on_success'']) False
      in if principle_text \<noteq> [] then principle_text
         else if auto_extract
         then clean_text_runtime (''For '' @ nonempty_or (session_text E session ''objective'' 180) ''objective'' @
                '', use inversion filters ('' @ nonempty_or (session_filters E session) ''none'' @ '') with a guarded '' @
                session_target E session @ '' lane, then revert to baseline paradigm.'') 360
         else [])"

definition principle_confidence :: "inv_env \<Rightarrow> json option \<Rightarrow> f64" where
  "principle_confidence E session =
     clamp_number (f64_add (f64_mul (unit_number (obj_get session ''certainty'') (Fin 0)) (f64_lit (7 / 10)))
       (if env_str E (obj_get session ''fallback_entry_id'') = [] then f64_lit (5 / 100) else f64_lit (15 / 100))) (Fin 0) (Fin 1)"

definition compute_extract_first_principle ::
  "inv_env \<Rightarrow> json option \<Rightarrow> json option \<Rightarrow> json option \<Rightarrow> string option \<Rightarrow> string option \<Rightarrow> json option" where
  "compute_extract_first_principle E policy session args result now_iso0 =
     (let disabled = (case value_path policy [''first_principles'', ''enabled''] of
            Some v \<Rightarrow> \<not> to_bool_like (iv_libs E) (Some v) False | None \<Rightarrow> False);
          statement = principle_statement E policy session args;
          confidence = principle_confidence E session;
          max_bonus = unwrap_or (js_number_for_extract (value_path policy [''first_principles'', ''max_strategy_bonus''])) (f64_lit (12 / 100));
          suggested_bonus = round6 (clamp_number (f64_mul confidence max_bonus) (Fin 0) (f64_max max_bonus (Fin 0)))
      in if disabled \<or> clean_text_runtime (unwrap_or result []) 24 \<noteq> ''success'' \<or> statement = [] then None
         else Some (json_object [
           (''id'', JStr (stable_id_runtime (iv_libs E) (env_str E (obj_get session ''session_id'') @ ''|'' @ statement) ''ifp'')),
           (''ts'', JStr (unwrap_or now_iso0 (iv_now_iso E))), (''source'', JStr ''inversion_controller''),
           (''objective'', JStr (session_text E session ''objective'' 240)),
           (''objective_id'', null_or_text (session_text E session ''objective_id'' 140)),
           (''statement'', JStr statement), (''target'', JStr (session_target E session)),
           (''confidence'', json_f64 (round6 confidence)),
           (''strategy_feedback'', json_object [(''enabled'', JBool True), (''suggested_bonus'', json_f64 suggested_bonus)]),
           (''session_id'', JStr (session_text E session ''session_id'' 80))]))"

definition session_tokens :: "inv_env \<Rightarrow> json option \<Rightarrow> string list" where
  "session_tokens E session =
     (let from_session = map (\<lambda>v. env_str E (Some v)) (array_rows (obj_get session ''signature_tokens''));
          sig = env_str E (obj_get session ''signature'')
      in if from_session = []
         then compute_tokenize_text (Some (if sig = [] then env_str E (obj_get session ''objective'') else sig)) (Some 64)
         else from_session)"

definition failure_candidates :: "inv_env \<Rightarrow> files \<Rightarrow> json option \<Rightarrow> json \<Rightarrow> json option \<Rightarrow> json list" where
  "failure_candidates E fs paths policy session =
     filter (\<lambda>entry. normalize_trit_value (unwrap_or (value_path (Some entry) [''row'', ''outcome_trit'']) JNull) < 0)
       (compute_select_library_candidates E fs (path_field paths ''library_path'') (Some policy)
         (Some (json_object [(''signature_tokens'', json_str_list (session_tokens E session)), (''trit_vector'', JArr [JInt (- 1)]),
           (''target'', JStr (session_target E session))])))"

definition cluster_confidence :: "nat \<Rightarrow> json list \<Rightarrow> f64" where
  "cluster_confidence cluster_min candidates =
     (let n = f64_of_nat (length candidates);
          avg_similarity = f64_div (fold (\<lambda>row acc. f64_add acc (entry_number ''similarity'' row)) candidates (Fin 0)) (f64_max n (Fin 1))
      in clamp_number (f64_add (f64_mul (f64_min (f64_div n (f64_of_nat (cluster_min + 3))) (Fin 1)) (f64_lit (6 / 10)))
           (f64_mul avg_similarity (f64_lit (4 / 10)))) (Fin 0) (Fin 1))"

text \<open>The sum \<^verbatim>\<open>cluster_min + 3\<close> is one of machine words; a minimum that large is never reached.\<close>

definition compute_extract_failure_cluster_principle ::
  "inv_env \<Rightarrow> files \<Rightarrow> json option \<Rightarrow> json option \<Rightarrow> json option \<Rightarrow> string option \<Rightarrow> json option" where
  "compute_extract_failure_cluster_principle E fs paths policy0 session now_iso0 =
     (let policy = unwrap_or policy0 (JObj []);
          flag = (\<lambda>k. to_bool_like (iv_libs E) (value_path (Some policy) [''first_principles'', k]) False);
          candidates = failure_candidates E fs paths policy session;
          cluster_min = f64_as_nat (2 ^ 64 - 1)
            (unwrap_or (js_number_for_extract (value_path (Some policy) [''first_principles'', ''failure_cluster_min''])) (f64_of_int 4));
          objective = session_text E session ''objective'' 240;
          sig = env_str E (obj_get session ''signature'');
          seed = env_str E (obj_get session ''session_id'') @ ''|failure_cluster|'' @
            (if sig = [] then env_str E (obj_get session ''objective'') else sig);
          statement = clean_text_runtime (''Avoid repeating inversion filter stack ('' @ nonempty_or (session_filters E session) ''none'' @
            '') for objective '' @ [CHR 0x22] @ nonempty_or objective ''unknown'' @ [CHR 0x22] @
            '' without introducing a materially different paradigm shift.'') 360
      in if \<not> flag ''enabled'' \<or> \<not> flag ''allow_failure_cluster_extraction'' \<or> length candidates < cluster_min then None
         else Some (json_object [(''id'', JStr (stable_id_runtime (iv_libs E) seed ''ifp'')),
           (''ts'', JStr (unwrap_or now_iso0 (iv_now_iso E))), (''source'', JStr ''inversion_controller_failure_cluster''),
           (''objective'', JStr objective), (''objective_id'', null_or_text (session_text E session ''objective_id'' 140)),
           (''statement'', JStr statement), (''target'', JStr (session_target E session)),
           (''confidence'', json_f64 (round6 (cluster_confidence cluster_min candidates))), (''polarity'', JInt (- 1)),
           (''failure_cluster_count'', json_nat (length candidates)),
           (''strategy_feedback'', json_object [(''enabled'', JBool True), (''suggested_bonus'', JInt 0)]),
           (''session_id'', JStr (session_text E session ''session_id'' 80))]))"


section \<open>The order of the candidates\<close>

lemma sixth_near: "0 \<le> n \<Longrightarrow> n \<le> 1000000 \<Longrightarrow> \<bar>sixth n - of_int n / 1000000\<bar> \<le> 1 / 2 ^ 53"
proof -
  assume n: "0 \<le> n" "n \<le> 1000000"
  then have "(of_int n :: rat) \<le> of_int 1000000" by (simp only: of_int_le_iff)
  then have "f64_ulp (of_int n / 1000000) \<le> 2 powi (- 52)" using n by (intro f64_ulp_unit) auto
  moreover have "(2::rat) powi (- 52) = 1 / 2 ^ 52" unfolding power_int_def by (simp add: power_divide)
  moreover have "\<bar>sixth n - of_int n / 1000000\<bar> \<le> f64_ulp (of_int n / 1000000) / 2"
    unfolding sixth_def by (rule rnd_rat_near)
  ultimately show ?thesis by simp
qed

lemma sixth_apart:
  assumes "0 \<le> m" and "m < n" and "n \<le> 1000000"
  shows "1 / 2 ^ 21 \<le> sixth n - sixth m"
proof -
  have "(of_int m :: rat) + 1 \<le> of_int n" using assms(2) by (metis of_int_1 of_int_add of_int_le_iff zless_imp_add1_zle)
  then have "(of_int n :: rat) / 1000000 - of_int m / 1000000 \<ge> 1 / 1000000" by simp
  moreover have "\<bar>sixth m - of_int m / 1000000\<bar> \<le> 1 / 2 ^ 53" "\<bar>sixth n - of_int n / 1000000\<bar> \<le> 1 / 2 ^ 53"
    using sixth_near assms by simp_all
  moreover have "(1 / 2 ^ 21 :: rat) \<le> 1 / 1000000 - 2 * (1 / 2 ^ 53)" by simp
  ultimately show ?thesis by linarith
qed

lemma differs_far:
  assumes "1 / 2 ^ 21 \<le> b - a"
  shows "differs (Fin a) (Fin b)" and "differs (Fin b) (Fin a)"
proof -
  have e: "f64_rnd (1 / 2 ^ 21) = Fin (1 / 2 ^ 21)" "f64_rnd (- (1 / 2 ^ 21)) = Fin (- (1 / 2 ^ 21))" by code_simp+
  have up: "f64_le (Fin (1 / 2 ^ 21)) (f64_rnd (b - a))" using f64_rnd_mono [OF assms] by (simp only: e)
  have down: "f64_le (f64_rnd (a - b)) (Fin (- (1 / 2 ^ 21)))" using f64_rnd_mono [of "a - b" "- (1 / 2 ^ 21)"] assms by (simp only: e)
  show "differs (Fin a) (Fin b)" using up by (cases "f64_rnd (b - a)") (auto simp: differs_def f64_sub_def f64_le_def f64_eq_def)
  show "differs (Fin b) (Fin a)" using down by (cases "f64_rnd (a - b)") (auto simp: differs_def f64_sub_def f64_le_def f64_eq_def)
qed

lemma differs_round6:
  assumes "small 1 x" and "small 1 y"
  shows "differs (round6 x) (round6 y) \<longleftrightarrow> round6 x \<noteq> round6 y"
proof -
  obtain p q where pq: "x = Fin p" "0 \<le> p" "p \<le> 1" "y = Fin q" "0 \<le> q" "q \<le> 1" using assms by (auto simp: small_def)
  let ?m = "millionths p" and ?n = "millionths q"
  have r: "round6 x = Fin (sixth ?m)" "round6 y = Fin (sixth ?n)" using pq by (simp_all add: round6_unit)
  have mn: "0 \<le> ?m" "?m \<le> 1000000" "0 \<le> ?n" "?n \<le> 1000000" using millionths_range(1) pq by blast+
  consider "?m = ?n" | "?m < ?n" | "?n < ?m" by linarith
  then show ?thesis
  proof cases
    case 1
    have "f64_rnd 0 = Fin 0" by code_simp
    then show ?thesis unfolding r by (simp add: 1 differs_def f64_sub_def)
  next
    case 2
    have "1 / 2 ^ 21 \<le> sixth ?n - sixth ?m" by (rule sixth_apart) (use mn 2 in auto)
    then show ?thesis unfolding r using differs_far(1) by auto
  next
    case 3
    have "1 / 2 ^ 21 \<le> sixth ?m - sixth ?n" by (rule sixth_apart) (use mn 3 in auto)
    then show ?thesis unfolding r using differs_far(2) by auto
  qed
qed

text \<open>An entry that carries two scores of six decimals.\<close>

definition scored_entry :: "json \<Rightarrow> bool" where
  "scored_entry entry = (\<exists>x y. small 1 x \<and> small 1 y \<and> entry_number ''similarity'' entry = round6 x \<and>
     entry_number ''candidate_certainty'' entry = round6 y)"

lemma round6_extract: "small 1 x \<Longrightarrow> unwrap_or (js_number_for_extract (Some (json_f64 (round6 x)))) (Fin 0) = round6 x"
proof -
  assume s: "small 1 x"
  then obtain q where "round6 x = Fin q" using round6_small [OF s] by (auto simp: small_def)
  then show ?thesis using round6_read_back [OF s] by (simp add: js_number_for_extract_def json_f64_def unwrap_or_def)
qed

lemma library_entry_scored: "scored_entry (library_entry E policy query row)"
proof -
  let ?s = "compute_library_match_score (library_query E policy query row)"
  obtain c where c: "json_get (library_entry E policy query row) ''candidate_certainty'' = Some (json_f64 (round6 (clamp_number c (Fin 0) (Fin 1))))"
    "json_get (library_entry E policy query row) ''similarity'' = Some (json_f64 (round6 ?s))"
    by (simp add: library_entry_def Let_def json_get_object)
  have "small 1 ?s" by (simp add: compute_library_match_score_def Let_def clamp_unit_small)
  then have "entry_number ''similarity'' (library_entry E policy query row) = round6 ?s"
    "entry_number ''candidate_certainty'' (library_entry E policy query row) = round6 (clamp_number c (Fin 0) (Fin 1))"
    by (simp_all add: entry_number_def c round6_extract clamp_unit_small)
  then show ?thesis unfolding scored_entry_def using \<open>small 1 ?s\<close> clamp_unit_small by blast
qed

text \<open>The order without the tolerance.\<close>

definition better :: "inv_env \<Rightarrow> json \<Rightarrow> json \<Rightarrow> bool" where
  "better E a b =
     (let sim = entry_number ''similarity''; cert = entry_number ''candidate_certainty''
      in if sim a \<noteq> sim b then f64_lt (sim b) (sim a)
         else if cert a \<noteq> cert b then f64_lt (cert b) (cert a)
         else entry_ts E b \<le> entry_ts E a)"

lemma entry_le_better: "scored_entry a \<Longrightarrow> scored_entry b \<Longrightarrow> entry_le E a b \<longleftrightarrow> better E a b"
proof -
  assume ab: "scored_entry a" "scored_entry b"
  obtain x y where a: "small 1 x" "small 1 y" "entry_number ''similarity'' a = round6 x" "entry_number ''candidate_certainty'' a = round6 y"
    using ab(1) unfolding scored_entry_def by blast
  obtain x' y' where b: "small 1 x'" "small 1 y'" "entry_number ''similarity'' b = round6 x'" "entry_number ''candidate_certainty'' b = round6 y'"
    using ab(2) unfolding scored_entry_def by blast
  have lt: "\<not> f64_lt u v \<longleftrightarrow> f64_lt v u" if "small 1 u" "small 1 v" "u \<noteq> v" for u v using that by (auto simp: small_def)
  show ?thesis using a b lt [OF round6_small round6_small, of x x'] lt [OF round6_small round6_small, of y y']
    by (auto simp: entry_le_def better_def Let_def differs_round6)
qed

lemma scored_small: "scored_entry a \<Longrightarrow> small 1 (entry_number ''similarity'' a) \<and> small 1 (entry_number ''candidate_certainty'' a)"
  by (auto simp: scored_entry_def)

interpretation library_order: comparison_on "entry_le E" scored_entry
proof
  fix x y z assume "scored_entry x" "scored_entry y"
  note s = scored_small [OF this(1)] scored_small [OF this(2)]
  show "entry_le E x y \<or> entry_le E y x"
    using s entry_le_better [of x y E] entry_le_better [of y x E] \<open>scored_entry x\<close> \<open>scored_entry y\<close>
    by (auto simp: better_def Let_def small_def)
  assume "scored_entry z" "entry_le E x y" "entry_le E y z"
  then show "entry_le E x z"
    using s scored_small [of z] \<open>scored_entry x\<close> \<open>scored_entry y\<close>
    by (auto simp: entry_le_better better_def Let_def small_def split: if_splits)
qed

text \<open>C18: The candidates from the library are exactly the scored rows that reach the minimal similarity, each as often as
  the library has it, ordered by similarity, then certainty, then the later time: the comparison with a tolerance on
  rounded binary numbers is the exact lexicographic order on these scores.\<close>

theorem library_candidates_ordered:
  "let policy = unwrap_or policy0 (JObj []); cands = compute_select_library_candidates E fs file_path policy0 query
   in mset cands = mset (filter (\<lambda>entry. f64_le (unwrap_or (js_number_for_extract
            (value_path (Some policy) [''library'', ''min_similarity_for_reuse''])) (f64_lit (35 / 100))) (entry_number ''similarity'' entry))
          (map (library_entry E policy query \<circ> compute_normalize_library_row E \<circ> Some) (compute_read_jsonl E fs file_path))) \<and>
      sorted_wrt (\<lambda>a b. if entry_number ''similarity'' a \<noteq> entry_number ''similarity'' b
          then f64_lt (entry_number ''similarity'' b) (entry_number ''similarity'' a)
          else if entry_number ''candidate_certainty'' a \<noteq> entry_number ''candidate_certainty'' b
          then f64_lt (entry_number ''candidate_certainty'' b) (entry_number ''candidate_certainty'' a)
          else entry_ts E b \<le> entry_ts E a) cands"
proof -
  define policy where "policy = unwrap_or policy0 (JObj [])"
  define rows where "rows = filter (\<lambda>entry. f64_le (unwrap_or (js_number_for_extract
      (value_path (Some policy) [''library'', ''min_similarity_for_reuse''])) (f64_lit (35 / 100))) (entry_number ''similarity'' entry))
    (map (library_entry E policy query) (map (\<lambda>row. compute_normalize_library_row E (Some row)) (compute_read_jsonl E fs file_path)))"
  have cands: "compute_select_library_candidates E fs file_path policy0 query = sort_by (entry_le E) rows"
    by (simp add: compute_select_library_candidates_def Let_def rows_def policy_def)
  have scored: "list_all scored_entry rows" by (auto simp: rows_def list_all_iff library_entry_scored)
  have set: "set (sort_by (entry_le E) rows) = set rows" by (metis library_order.mset_sort_by set_mset_mset)
  have "sorted_wrt (entry_le E) (sort_by (entry_le E) rows)" by (rule library_order.sorted_sort_by [OF scored])
  then have "sorted_wrt (better E) (sort_by (entry_le E) rows)"
    by (rule sorted_wrt_mono_rel [rotated]) (use set scored entry_le_better in \<open>auto simp: list_all_iff\<close>)
  then show ?thesis unfolding cands Let_def policy_def [symmetric] better_def [abs_def]
    by (simp add: library_order.mset_sort_by rows_def comp_def)
qed


section \<open>Trials and triggers\<close>

lemma unit_round_small: "small 1 (unit_round x)"
  by (simp add: unit_round_def clamp_unit_small)

lemma score_trial_unit: "small 1 (compute_score_trial decision candidate cfg probe)"
  unfolding compute_score_trial_def Let_def by (rule unit_round_small)

lemma dedupe_loop_keeps: "\<exists>ys. dedupe_loop_words out vs = out @ ys"
  by (induction out vs rule: dedupe_loop_words.induct) auto

lemma dedupe_loop_id: "distinct (out @ vs) \<Longrightarrow> [] \<notin> set vs \<Longrightarrow> dedupe_loop_words out (vs @ ws) = dedupe_loop_words (out @ vs) ws"
  by (induction vs arbitrary: out) auto

lemma dedupe_words_distinct:
  "distinct out \<Longrightarrow> distinct (dedupe_loop_words out vs) \<and> set (dedupe_loop_words out vs) \<subseteq> set out \<union> (set vs - {[]})"
proof (induction vs arbitrary: out)
  case (Cons v vs)
  show ?case
  proof (cases "v = [] \<or> v \<in> set out")
    case True
    then show ?thesis using Cons.IH [of out] Cons.prems by auto
  next
    case False
    then show ?thesis using Cons.IH [of "out @ [v]"] Cons.prems by auto
  qed
qed simp

lemma normalize_list_tokens:
  "distinct (compute_normalize_list L v (Some 120)) \<and> [] \<notin> set (compute_normalize_list L v (Some 120)) \<and>
   (\<forall>w \<in> set (compute_normalize_list L v (Some 120)). normalize_token_runtime w 120 = w)"
proof -
  let ?ws = "filter (\<lambda>row. row \<noteq> []) (map (\<lambda>row. normalize_token_runtime row 120) (value_to_csv_list L v))"
  have "compute_normalize_list L v (Some 120) = take 64 (dedupe_loop_words [] ?ws)"
    by (simp add: compute_normalize_list_def dedupe_preserve_order_def unwrap_or_def clamp_def)
  moreover have "distinct (dedupe_loop_words [] ?ws)" "set (dedupe_loop_words [] ?ws) \<subseteq> set ?ws" using dedupe_words_distinct [of "[]" ?ws] by auto
  ultimately show ?thesis using set_take_subset [of 64 "dedupe_loop_words [] ?ws"] by (auto simp: distinct_take)
qed

text \<open>A candidate that already has eight filters is not changed by a mutation: the added filter is cut off again.\<close>

lemma full_stack_not_mutated:
  assumes "8 \<le> length fs" and "fs = compute_normalize_list L v (Some 120)"
  shows "take 8 (compute_normalize_list L (Some (json_str_list (fs @ [x]))) (Some 120)) = take 8 fs"
proof -
  have fs: "distinct fs" "[] \<notin> set fs" "map (\<lambda>w. normalize_token_runtime w 120) fs = fs"
    using normalize_list_tokens [of L v] assms(2) by (auto intro: map_idI)
  let ?x = "filter (\<lambda>row. row \<noteq> []) [normalize_token_runtime x 120]"
  have csv: "value_to_csv_list L (Some (JArr (map JStr fs @ [JStr x]))) = fs @ [x]" by (simp add: value_to_csv_list_def value_to_string_def comp_def)
  have "filter (\<lambda>row. row \<noteq> []) fs = fs" using fs(2) by (auto simp: filter_id_conv)
  then have "compute_normalize_list L (Some (json_str_list (fs @ [x]))) (Some 120) = take 64 (dedupe_loop_words [] (fs @ ?x))"
    by (simp add: compute_normalize_list_def csv dedupe_preserve_order_def unwrap_or_def clamp_def fs(3))
  also have "dedupe_loop_words [] (fs @ ?x) = dedupe_loop_words fs ?x" using dedupe_loop_id [of "[]" fs] fs by simp
  also obtain ys where "dedupe_loop_words fs ?x = fs @ ys" using dedupe_loop_keeps by blast
  finally show ?thesis using assms(1) by simp
qed

text \<open>An argument that is null counts as zero and hides the drift the probe found.\<close>

lemma null_argument_hides_drift: "compute_resolve_lens_gate_drift (JNull # args) path source payload = (Fin 0, ''arg'')"
proof -
  have "unit_round (Fin 0) = Fin 0" by code_simp
  then show ?thesis by (simp add: compute_resolve_lens_gate_drift_def compute_extract_numeric_def js_number_for_extract_def)
qed

text \<open>A trigger that was not forced is explained: detection was on, the score reaches the threshold in the six decimals
  that are reported, and at least the minimal number of reasons is named.\<close>

lemma unit_number_small: "small 1 (unit_number v d)"
  by (simp add: unit_number_def clamp_unit_small)

lemma trigger_signals_length: "length (trigger_signals L signals thresholds) = 6"
  by (simp add: trigger_signals_def Let_def case_prod_unfold)

lemma impossibility_trigger_explained:
  assumes r: "r = compute_evaluate_impossibility_trigger L policy signals force" and "it_triggered r" and "\<not> it_forced r"
  shows "it_enabled r \<and> f64_le (it_threshold r) (it_score r) \<and> it_min_signal_count r \<le> int (length (it_reasons r))"
proof -
  let ?cfg = "value_path policy [''organ'', ''trigger_detection'']"
  let ?parts = "trigger_signals L signals (obj_get ?cfg ''thresholds'')"
  let ?active = "filter (\<lambda>(reason, v). f64_lt (Fin 0) v) ?parts"
  let ?score = "trigger_score (map snd ?parts) (trigger_weights (obj_get ?cfg ''weights''))"
  let ?thr = "unit_number (obj_get ?cfg ''min_impossibility_score'') (f64_lit (58 / 100))"
  have "length ?active \<le> 6" using length_filter_le [of _ ?parts] trigger_signals_length [of L signals] by metis
  then have len: "length (take 12 (map fst ?active)) = length ?active" by simp
  have nf: "\<not> unwrap_or force False" using assms(2,3) unfolding r compute_evaluate_impossibility_trigger_def Let_def by (auto split: if_splits)
  then have en: "to_bool_like L (obj_get ?cfg ''enabled'') False"
    using assms(2) unfolding r compute_evaluate_impossibility_trigger_def Let_def by (auto split: if_splits)
  have t: "f64_le ?thr ?score" "clamp_int_value (obj_get ?cfg ''min_signal_count'') 1 12 2 \<le> int (length ?active)"
    using assms(2) nf en unfolding r compute_evaluate_impossibility_trigger_def Let_def by simp_all
  have "f64_le (round6 ?thr) (round6 ?score)"
    using t(1) by (intro round6_mono unit_number_small) (simp_all add: trigger_score_def clamp_unit_small)
  then show ?thesis using t(2) nf en len unfolding r compute_evaluate_impossibility_trigger_def Let_def by simp
qed

end
