(* ===== verification/Spec2Isabelle.thy ===== *)
theory Spec2Isabelle
  imports Conduit_Bridge Workflow_Exec Graph_Topo Vault_Policy Swarm_Router Safety_Gates
    Layer1_Services Memory_Policy Spine_Authority Sprint_Contract Security_Gate Layer_Adapters
    Proposal_Overlay Inversion_Tiers Inversion_Axioms Inversion_Conclave Inversion_Paths Inversion_Trials
begin

text \<open>
  \<^bold>\<open>A verification library for the kernel crates of InfRing.\<close> The system is a layered runtime for
  agents. A client plane in TypeScript sends commands over one JSON-lines bridge, the conduit, to a
  kernel in Rust. The kernel is a set of crates under \<^verbatim>\<open>core/\<close>: layer 0 holds the safety plane (policy
  gates, vault, memory merge, graph and swarm routing), layer 1 the runtime services (storage,
  resources, updates, IPC, tasks, isolation, recall policy) and layer 2 the execution plane (conduit,
  conduit security, workflow execution). Everything that decides is meant to be deterministic, to fail
  closed and to leave a receipt with a SHA-256 digest. This library models the crates that carry these
  decisions and proves what they promise.

  \<^bold>\<open>Foundations.\<close>
  \<^item> \<open>Rust_Base\<close>: words (\<^verbatim>\<open>u8\<close> to \<^verbatim>\<open>u64\<close> and their saturating operations), results as
    sums (\<open>Err\<close> and \<open>Ok\<close>), and the operations of \<^verbatim>\<open>str\<close> the sources call (trim, split, lines,
    lower case, formatting of numbers). Text is a list of characters and the operations are the
    ASCII ones; on text beyond ASCII \<^verbatim>\<open>trim\<close> and \<^verbatim>\<open>split_whitespace\<close> know more separators than
    the model.
  \<^item> \<open>BTree_Map\<close>: the dictionary contract as the locale \<open>dictionary\<close>, and \<^verbatim>\<open>BTreeMap\<close> as a list
    sorted by key, which is its interpretation. Hash maps use the same representation, since no source
    modelled here depends on their iteration order.
  \<^item> \<open>Json_Value\<close>: \<^verbatim>\<open>serde_json::Value\<close>, its accessors, and the canonical form that all receipts
    hash (\<open>normalize_value\<close>), with the fact that reordering the fields of objects does not change it.
  \<^item> \<open>Regex_Match\<close>: regular expressions, their languages and a matcher by derivatives, for the fixed
    patterns the sources give to the crate \<^verbatim>\<open>regex\<close>. \<open>Regex_Search\<close>: patterns with word
    boundaries found inside a text, with the crate's preference among matches, and splitting and
    replacing at them; the search is proved to find exactly the matches of a relation.
  \<^item> \<open>Float_View\<close>: \<^verbatim>\<open>f64\<close> for code that only compares, rounds to integers and converts. \<open>Float_Arith\<close>: its
    arithmetic, each operation the exact rational one rounded to the nearest binary64 value, ties to even;
    rounding is monotone and exact on integers of up to 53 bits. \<open>Float_Bits\<close>: the bit patterns of the values,
    which round trip.
  \<^item> \<open>Sample_Libs\<close>: code that is not part of the repository enters as the record \<open>libs\<close>: SHA-256 in
    hexadecimal and the JSON text. Properties that need a law of it say so (\<open>text_injective\<close>: distinct
    values have distinct texts), and the theory has a concrete record for which the law holds. No
    property assumes that the digest is free of collisions: where one matters it is a disjunct of the
    conclusion.

  \<^bold>\<open>The conduit\<close> (\<^verbatim>\<open>core/layer2/conduit-security/src/lib.rs\<close>, \<^verbatim>\<open>core/layer2/conduit/src/lib.rs\<close>).
  \<^item> \<open>Conduit_Security\<close>: message signing (locale \<open>signing_scheme\<close>), capability tokens (\<open>mint\<close>,
    \<open>token_validate\<close>) and the fixed-window rate limiter (\<open>wc_increment\<close>, \<open>rate_allow\<close>). Shown: the window
    bound for every interleaving of clients, isolation of clients, the round trip of tokens, and that a
    signature binds all claims.
  \<^item> \<open>Conduit_Policy\<close>: commands, the conduit policy, and the gates (locale \<open>policy_gate\<close>, interpreted by
    the fail-closed, the permissive and the registry gate); the file system is a parameter. Shown: the
    exact condition under which the registry gate allows a command.
  \<^item> \<open>Conduit_Core\<close>: envelopes, receipts, \<open>security_validate\<close>, \<open>validate_command\<close>, \<open>process_command\<close>, the
    line protocol and the server loop. State is the security context and the handler's state; the
    three readings of the clock in one request are a parameter. Shown: exact acceptance, that rejected
    commands run nothing, that the loop runs exactly the accepted commands in order and stops at the first
    malformed line, when exactly an envelope with minted metadata is accepted, given the reading of the clock that
    stamps it, that signatures bind requests, that receipts can be recomputed, and when a replayed envelope is
    accepted. \<open>handler_calls_for\<close> counts the calls of the handler on envelopes of one client.
  \<^item> \<open>Conduit_Bridge\<close>: the two command handlers, the edge messages and the bridge that runs
    \<^verbatim>\<open>protheus-ops\<close> as a child process; environment, files and the outcome of the child are the
    record \<open>bridge_env\<close>. Shown: success is reported exactly for successful commands, edge inference is
    bounded, timeouts are bounded.

  \<^bold>\<open>Execution.\<close>
  \<^item> \<open>Blob_Store\<close> (the \<^verbatim>\<open>blob.rs\<close> modules): folding, manifests and verified loading.
  \<^item> \<open>Workflow_Exec\<close> (\<^verbatim>\<open>core/layer2/execution/src/lib.rs\<close>): the workflow runtime with pause and resume.
    \<open>resume_until_done\<close> iterates it on its own receipts; its fuel is the number of steps, which is
    enough because every round executes at least one. Shown: every step is executed exactly once and in
    order, and each run completes or pauses where a pause was asked for.
  \<^item> \<open>Autoscale_Text\<close>, \<open>Run_Events\<close>, \<open>Policy_Holds\<close>, \<open>Proposal_Overlay\<close>
    (\<^verbatim>\<open>core/layer2/execution/src/autoscale.rs\<close>): the autonomy loop's bookkeeping. Text and ids; the
    classification and counting of run events (locale \<open>streak_counter\<close>, two interpretations); holds, guards
    and batch sizes; the ledger of proposals (locale \<open>latest_wins\<close>, two interpretations), receipts and logs.
    Shown: the loops equal reference definitions, the gates pass exactly when their controls do, the ledger is
    a fold for each proposal in which the latest value wins.
  \<^item> \<open>Directive_Gate\<close>, \<open>Task_Router\<close>, \<open>Goal_Decompose\<close>, \<open>Task_Governance\<close>
    (\<^verbatim>\<open>core/layer2/execution/src/decompose.rs\<close>): the way of a goal to the dispatcher. The two gates on the text
    of a task; the router with habits and reflexes; the recursive split of a goal, which terminates because
    the depth is bounded; and the JSON tasks with the verdicts of the gates, the rows of the queues and of
    the dispatcher. Shown: exact verdicts, when the router runs something, the bounds of a decomposition and that it
    keeps every segment with a normal form, and which tasks a gate stops and the dispatcher does not queue.
  \<^item> \<open>Attention_Queue\<close> (\<^verbatim>\<open>core/layer2/execution/src/initiative.rs\<close>): importance scores in rounded arithmetic and
    the queue sorted by them (locale \<open>comparison_on\<close>), with the negative zero apart from the positive one as
    \<^verbatim>\<open>total_cmp\<close> has it. Shown: scores stay in bounds and are monotone, the queue is sorted. \<open>Importers\<close> (\<^verbatim>\<open>importers.rs\<close>): foreign payloads as entities, nothing lost.
  \<^item> \<open>Inversion_Base\<close>, \<open>Inversion_Rounding\<close>, \<open>Inversion_Stores\<close>, \<open>Inversion_Sessions\<close>, \<open>Inversion_Library\<close>,
    \<open>Inversion_Tiers\<close> (\<^verbatim>\<open>core/layer2/execution/src/inversion.rs\<close>): the stores of the inversion engine. Words, numbers
    and policy maps; rounding to six decimals, which is idempotent and survives being written and read; JSON files
    and logs with the locks on first principles; approvals, maturity and sessions; the library and the sweep;
    the governance tiers as an event table. Clock, time parser, JSON decoder and the writable paths are the record
    \<open>inv_env\<close>, and \<open>decodes\<close> says that a document that was written is read back. Shown: locks never weaken and
    the downgrade check is exact, approvals count once per observer, a sweep settles, and the tier file refines
    a table of events by metric and target, into which an event is inserted in order.
  \<^item> \<open>Inversion_Axioms\<close>, \<open>Inversion_Conclave\<close>, \<open>Inversion_Paths\<close>, \<open>Inversion_Trials\<close> (the same file): the decisions of
    the engine. The gate on immutable axioms, whose phrases are patterns of \<open>Regex_Search\<close> and whose rules are
    matched by a parameter; the flags of the conclave, the Markdown it reads and the arguments; paths; candidates,
    trials, probes, the impossibility trigger and extracted principles. Shown: the gate and the flags are exact, a
    relative path between absolute paths leads back to its file, the order of the candidates is the exact one (locale \<open>comparison_on\<close>) although
    the code compares floats with a tolerance, and an unforced trigger is explained by its reasons.
  \<^item> \<open>Graph_Topo\<close> (\<^verbatim>\<open>core/layer0/graph/src/lib.rs\<close>): Kahn's ordering over sorted maps with a termination
    proof. Shown: it lists all nodes, the cycle flag is exact, and edges go forward.

  \<^bold>\<open>Safety plane.\<close>
  \<^item> \<open>Vault_Policy\<close> (\<^verbatim>\<open>core/layer0/vault\<close>): the rules for the use of keys. Shown: the exact condition for
    an allowed operation, and that tampered or overaged keys cannot be used.
  \<^item> \<open>Safety_Gates\<close> (\<^verbatim>\<open>burn_oracle_budget_gate\<close>, \<^verbatim>\<open>persona_dispatch_security_gate\<close>,
    \<^verbatim>\<open>foundation_hook_enforcer\<close>): three gates, two of them instances of the locale \<open>receipted_gate\<close>.
    Shown: the exact verdict of each gate, and that token normalisation is idempotent.
  \<^item> \<open>Swarm_Router\<close> (\<^verbatim>\<open>core/layer0/swarm_router/src/lib.rs\<close>): ids, the in-flight tracker (a step relation
    with traces), recovery, scaling, the priority queue and its file, upgrades. Shown: no task is
    dispatched twice, ids are distinct, pushing keeps the queue, scaling stays in bounds and settles,
    saved queues load.

  \<^bold>\<open>Services.\<close>
  \<^item> \<open>Layer1_Services\<close> (\<^verbatim>\<open>core/layer1\<close>: storage, resource, update, ipc, task, isolation). The versioned
    store is an instance of the locale \<open>record_store\<close>, in which the lost-update argument is made once.
    Shown: no lost updates of keys that are not deleted, refinement of a map with the results of every operation,
    exact admission and injective hash input of messages.
  \<^item> \<open>Memory_Policy\<close> (\<^verbatim>\<open>core/layer0/memory/src/crdt.rs\<close>, \<^verbatim>\<open>core/layer1/memory_runtime\<close>): the last-writer
    merge, recall budgets, token telemetry and lens-map annotations. Shown: replicas of one history
    converge to the newest cell of each key, budgets are respected, summaries are exact up to saturation, documents that validate are
    well formed.

  \<^bold>\<open>Authorities and adapters.\<close>
  \<^item> \<open>Security_Gate\<close> (\<^verbatim>\<open>core/layer0/security/src/lib.rs\<close>): the decision on an operation, on top of the
    vault, and its enforcement with the shutdown and alert files. Scores are counted in hundredths.
    Shown: the exact pass condition, and that every closed decision is on disk.
  \<^item> \<open>Spine_Authority\<close> (\<^verbatim>\<open>core/layer2/spine\<close>): the run authority, background hands, the integrity reseal
    and the idle scheduler (locale \<open>stamped_runner\<close>). Shown: the spacing of idle runs, for a parser that reads
    back every value that was printed, an idealisation for values no parser returns (\<open>json_reads_back\<close>).
  \<^item> \<open>Sprint_Contract\<close> (\<^verbatim>\<open>core/layer2/execution/src/sprint_contract.rs\<close>): the enforcer of sprint batches.
    Shown: the exact verdict with the names of violated checks.
  \<^item> \<open>Layer_Adapters\<close> (kernel layers, tiny runtime, extension and exotic wrappers): the ordered list of
    layers, capacity scores, envelopes and their digests.

  \<^bold>\<open>Conventions.\<close> Integers keep their width as words where the code can wrap or saturate, and indices of
  vectors are natural numbers. A panic of the source is \<open>None\<close>. Clocks, files, environment variables,
  child processes and decoders are arguments. Loops are structural recursion or have a measure; no
  operation is partial.

  \<^bold>\<open>Not modelled.\<close> The command lanes of \<^verbatim>\<open>core/layer0/ops\<close> and the planes of \<^verbatim>\<open>core/layer1/security\<close>
  are input and output on JSON state files. Most code over \<^verbatim>\<open>f64\<close> (autonomy, observability, recall
  ranking, the pressure metrics of the swarm router and the scoring functions of
  \<^verbatim>\<open>autoscale.rs\<close>) is left out. Of \<^verbatim>\<open>inversion.rs\<close> the attractor score, the reading of
  impossibility signals, output interfaces, code-change drafts, the receipts of the lens gate, the letters of the conclave
  and the dispatcher on JSON commands are left out: they assemble documents from the parts that are modelled. C and
  WebAssembly wrappers only marshal.

  This theory adds the property that spans the components of the conduit.
\<close>

section \<open>End-to-end properties\<close>

text \<open>C1: traffic inside one rate window cannot make a conduit run more than \<open>per_client_max\<close> commands of
  one client. Take a conduit built from a policy, with any gate and any handler, whose window is positive
  and whose limit is below the largest 32-bit value (where the saturating counter can no longer exceed
  it). Over any sequence of envelopes of any clients in which the time stamps of client \<open>c\<close> lie in one
  window \<open>[t, t + window_ms)\<close>, \<open>process_command\<close> calls the handler at most that often on envelopes of \<open>c\<close>.\<close>

theorem client_execution_bound:
  assumes "0 < rlp_window_ms (cp_rate_limit p)" and "rlp_per_client_max (cp_rate_limit p) < - 1"
    and "\<forall>(clk, e) \<in> set es. csm_client_id (ce_security e) = c \<longrightarrow>
           t \<le> unat (ce_ts_ms e) \<and> unat (ce_ts_ms e) < t + unat (rlp_window_ms (cp_rate_limit p))"
  shows "handler_calls_for c L evaluate handle (csc_from_policy p k s tk ts, h) es
     \<le> unat (rlp_per_client_max (cp_rate_limit p))"
proof -
  let ?ctx = "csc_from_policy p k s tk ts" and ?pol = "cp_rate_limit p"
  let ?rs = "map (rate_request_of \<circ> snd)
    (filter (\<lambda>(clk, e). authorised L evaluate ?ctx (clk_token clk) e) es)"
  have rl: "csc_rate_limiter ?ctx = rate_limiter_new ?pol" by (simp add: csc_from_policy_def)
  have lim: "unat (rlp_per_client_max ?pol) < 2 ^ 32 - 1"
    using assms(2) by (simp add: word_less_nat_alt unat_minus_one_word_max)
  have range: "t \<le> unat now \<and> unat now < t + unat (rlp_window_ms ?pol)" if "(c, cmd, now) \<in> set ?rs" for cmd now
    using that assms(3) by (fastforce simp: rate_request_of_def)
  have "accepted_of c (rate_run (rate_limiter_new ?pol) ?rs)
      \<le> unat (rlp_per_client_max (rl_policy (rate_limiter_new ?pol)))"
  proof (rule accepted_of_closed_client)
    fix cmd now cmd0 t0 pre post
    assume "?rs = pre @ (c, cmd0, t0) # post" "(c, cmd, now) \<in> set post"
    then have "(c, cmd0, t0) \<in> set ?rs" "(c, cmd, now) \<in> set ?rs" by simp_all
    from range [OF this(1)] range [OF this(2)]
    show "saturating_sub now t0 < rlp_window_ms (rl_policy (rate_limiter_new ?pol))"
      by (auto simp: rate_limiter_new_def word_less_nat_alt rust_simps)
  qed (use assms(1) lim in \<open>simp_all add: rate_limiter_new_def\<close>)
  then show ?thesis by (simp add: handler_calls_for_accepted accepted_from_rate_run rl) (simp add: rate_limiter_new_def)
qed

theorem client_execution_bound_witness:
  "handler_calls_for ''c1'' sample_libs allow_all_evaluate count_handler
      (csc_from_policy conduit_policy_default ''sk'' ''ss'' ''tk'' ''ts'', 0)
      (replicate 100 (sample_clocks 0, sample_envelope)) \<le> 60"
  using client_execution_bound [of conduit_policy_default
      "replicate 100 (sample_clocks 0, sample_envelope)" "''c1''" 0 sample_libs allow_all_evaluate
      count_handler "''sk''" "''ss''" "''tk''" "''ts''"]
  by (simp add: conduit_policy_default_def rate_limit_policy_default_def sample_envelope_def
      word_less_nat_alt unat_minus_one_word_max)

end
